(* ===== verification/Prelude.thy ===== *)
theory Prelude
  imports Main "HOL-Library.AList"
begin

text \<open>
  Shared vocabulary of the development: Python dictionaries as insertion-ordered association
  lists, raising computations as values of a sum type (the error on the left), fail-fast loops,
  and the generic facts about them that every component uses.  The collections \<open>res_simps\<close>
  and \<open>dict_simps\<close> gather the rewrite rules the component proofs pass to \<open>simp\<close>.
\<close>

named_theorems res_simps \<open>rules for raising computations\<close>
named_theorems dict_simps \<open>rules for insertion-ordered dictionaries\<close>

section \<open>Raising computations\<close>

text \<open>
  A Python function that returns an \<open>'a\<close> or raises an \<open>'e\<close> is a value of
  \<^typ>\<open>'e + 'a\<close>.  \<open>bind_res\<close> is the sequencing of two such computations: an exception
  of the first one is the exception of the whole.
\<close>

fun bind_res :: "'e + 'a \<Rightarrow> ('a \<Rightarrow> 'e + 'b) \<Rightarrow> 'e + 'b" where
  "bind_res (Inl e) f = Inl e"
| "bind_res (Inr a) f = f a"

definition ok :: "'e + 'a \<Rightarrow> bool" where
  "ok r \<longleftrightarrow> (case r of Inl _ \<Rightarrow> False | Inr _ \<Rightarrow> True)"

text \<open>A \<open>for\<close> loop whose body only checks its element and may raise.\<close>

fun check_all :: "('a \<Rightarrow> 'e + unit) \<Rightarrow> 'a list \<Rightarrow> 'e + unit" where
  "check_all f [] = Inr ()"
| "check_all f (x # xs) = bind_res (f x) (\<lambda>_. check_all f xs)"

text \<open>A \<open>for\<close> loop that threads an accumulator and may raise.\<close>

fun fold_res :: "('s \<Rightarrow> 'a \<Rightarrow> 'e + 's) \<Rightarrow> 's \<Rightarrow> 'a list \<Rightarrow> 'e + 's" where
  "fold_res f s [] = Inr s"
| "fold_res f s (x # xs) = bind_res (f s x) (\<lambda>s'. fold_res f s' xs)"

lemma ok_simps [simp, res_simps]: "ok (Inr a)" "\<not> ok (Inl e)"
  by (simp_all add: ok_def)

lemma ok_unit_iff [res_simps]: "ok (r :: 'e + unit) \<longleftrightarrow> r = Inr ()"
  by (cases r) auto

lemma ok_iff: "ok r \<longleftrightarrow> (\<exists>a. r = Inr a)"
  by (cases r) auto

lemma bind_res_Inr_iff [res_simps]:
  "bind_res r f = Inr b \<longleftrightarrow> (\<exists>a. r = Inr a \<and> f a = Inr b)"
  by (cases r) auto

lemma bind_res_Inl_iff [res_simps]:
  "bind_res r f = Inl e \<longleftrightarrow> r = Inl e \<or> (\<exists>a. r = Inr a \<and> f a = Inl e)"
  by (cases r) auto

lemma bind_res_return [simp, res_simps]: "bind_res r Inr = r"
  by (cases r) auto

lemma bind_res_assoc [res_simps]:
  "bind_res (bind_res r f) g = bind_res r (\<lambda>a. bind_res (f a) g)"
  by (cases r) auto

lemma check_all_ok [res_simps]:
  "check_all f xs = Inr () \<longleftrightarrow> (\<forall>x \<in> set xs. f x = Inr ())"
  by (induction xs) (auto simp: bind_res_Inr_iff)

lemma check_all_append [res_simps]:
  "check_all f (xs @ ys) = bind_res (check_all f xs) (\<lambda>_. check_all f ys)"
  by (induction xs) (auto simp: bind_res_assoc)

text \<open>The loop raises exactly what the first failing element raises.\<close>

lemma check_all_errorD:
  "check_all f xs = Inl e \<Longrightarrow>
     \<exists>ys x zs. xs = ys @ x # zs \<and> (\<forall>y \<in> set ys. f y = Inr ()) \<and> f x = Inl e"
proof (induction xs)
  case Nil
  then show ?case by simp
next
  case (Cons a xs)
  show ?case
  proof (cases "f a")
    case (Inl e')
    with Cons.prems have "f a = Inl e" by simp
    then have "a # xs = [] @ a # xs \<and> (\<forall>y \<in> set []. f y = Inr ()) \<and> f a = Inl e" by simp
    then show ?thesis by blast
  next
    case (Inr u)
    with Cons obtain ys x zs where
      "xs = ys @ x # zs" "\<forall>y \<in> set ys. f y = Inr ()" "f x = Inl e" by auto
    with Inr have "a # xs = (a # ys) @ x # zs \<and> (\<forall>y \<in> set (a # ys). f y = Inr ()) \<and> f x = Inl e"
      by simp
    then show ?thesis by blast
  qed
qed

lemma check_all_errorI:
  "\<forall>y \<in> set ys. f y = Inr () \<Longrightarrow> f x = Inl e \<Longrightarrow> check_all f (ys @ x # zs) = Inl e"
  by (induction ys) auto

lemma check_all_error [res_simps]:
  "check_all f xs = Inl e \<longleftrightarrow>
     (\<exists>ys x zs. xs = ys @ x # zs \<and> (\<forall>y \<in> set ys. f y = Inr ()) \<and> f x = Inl e)"
  using check_all_errorD check_all_errorI by (metis (no_types, lifting))

lemma fold_res_append [res_simps]:
  "fold_res f s (xs @ ys) = bind_res (fold_res f s xs) (\<lambda>s'. fold_res f s' ys)"
  by (induction xs arbitrary: s) (auto simp: bind_res_assoc)

lemma fold_res_cong:
  "(\<And>s x. x \<in> set xs \<Longrightarrow> f s x = g s x) \<Longrightarrow> fold_res f s xs = fold_res g s xs"
proof (induction xs arbitrary: s)
  case Nil
  then show ?case by simp
next
  case (Cons x xs)
  have "fold_res f s' xs = fold_res g s' xs" for s' by (rule Cons.IH) (simp add: Cons.prems)
  then show ?case by (simp add: Cons.prems)
qed

text \<open>An invariant of the loop body is an invariant of the loop.\<close>

lemma fold_res_invariant:
  assumes "fold_res f s xs = Inr s'" and "P s"
    and "\<And>s x s'. P s \<Longrightarrow> x \<in> set xs \<Longrightarrow> f s x = Inr s' \<Longrightarrow> P s'"
  shows "P s'"
  using assms
proof (induction xs arbitrary: s)
  case Nil
  then show ?case by simp
next
  case (Cons x xs)
  from Cons.prems(1) obtain s1 where s1: "f s x = Inr s1" "fold_res f s1 xs = Inr s'"
    by (auto simp: bind_res_Inr_iff)
  have "P s1" using Cons.prems(3) [OF Cons.prems(2) _ s1(1)] by simp
  moreover have "P t'" if "P t" "y \<in> set xs" "f t y = Inr t'" for t y t'
    using Cons.prems(3) [OF that(1) _ that(3)] that(2) by simp
  ultimately show ?case by (rule Cons.IH [OF s1(2)])
qed

text \<open>The loop that collects keys and raises at the first repetition.\<close>

definition unique_keys :: "('a \<Rightarrow> 'k) \<Rightarrow> ('a \<Rightarrow> 'e) \<Rightarrow> 'k set \<Rightarrow> 'a list \<Rightarrow> 'e + 'k set" where
  "unique_keys key err seen xs =
     fold_res (\<lambda>s x. if key x \<in> s then Inl (err x) else Inr (insert (key x) s)) seen xs"

lemma unique_keys_Inr_iff [res_simps]:
  "unique_keys key err seen xs = Inr s \<longleftrightarrow>
     distinct (map key xs) \<and> seen \<inter> key ` set xs = {} \<and> s = seen \<union> key ` set xs"
  by (induction xs arbitrary: seen) (auto simp: unique_keys_def)

lemma unique_keys_Inl:
  "unique_keys key err seen xs = Inl e \<Longrightarrow> \<exists>x \<in> set xs. e = err x"
  by (induction xs arbitrary: seen) (auto simp: unique_keys_def split: if_splits)

section \<open>Dictionaries\<close>

text \<open>
  A Python \<open>dict\<close> iterates in insertion order, and assigning an existing key keeps its position.
  That is what \<^const>\<open>AList.update\<close> does, so a dictionary is an association list with distinct
  keys, read by \<^const>\<open>map_of\<close>.
\<close>

type_synonym ('k, 'v) dict = "('k \<times> 'v) list"

definition dict_ok :: "('k, 'v) dict \<Rightarrow> bool" where
  "dict_ok d \<longleftrightarrow> distinct (map fst d)"

abbreviation dict_get :: "('k, 'v) dict \<Rightarrow> 'k \<Rightarrow> 'v option" where
  "dict_get \<equiv> map_of"

abbreviation dict_set :: "'k \<Rightarrow> 'v \<Rightarrow> ('k, 'v) dict \<Rightarrow> ('k, 'v) dict" where
  "dict_set \<equiv> AList.update"

abbreviation dict_pop :: "'k \<Rightarrow> ('k, 'v) dict \<Rightarrow> ('k, 'v) dict" where
  "dict_pop \<equiv> AList.delete"

definition dict_has :: "('k, 'v) dict \<Rightarrow> 'k \<Rightarrow> bool" where
  "dict_has d k \<longleftrightarrow> map_of d k \<noteq> None"

definition dict_get_or :: "'v \<Rightarrow> ('k, 'v) dict \<Rightarrow> 'k \<Rightarrow> 'v" where
  "dict_get_or v d k = (case map_of d k of None \<Rightarrow> v | Some w \<Rightarrow> w)"

text \<open>\<open>d.update(e)\<close>: the entries of \<open>e\<close> are assigned in their order.\<close>

definition dict_update :: "('k, 'v) dict \<Rightarrow> ('k, 'v) dict \<Rightarrow> ('k, 'v) dict" where
  "dict_update d e = fold (\<lambda>(k, v). dict_set k v) e d"

lemma dict_get_set [simp, dict_simps]:
  "map_of (AList.update k v d) k' = (if k' = k then Some v else map_of d k')"
  by (simp add: update_conv')

lemma dom_dict_set [dict_simps]: "dom (map_of (dict_set k v d)) = insert k (dom (map_of d))"
  by (simp add: update_conv')

lemma dict_get_pop [simp, dict_simps]:
  "map_of (AList.delete k d) k' = (if k' = k then None else map_of d k')"
  by (simp add: delete_conv')

lemma dict_ok_empty [simp, dict_simps]: "dict_ok []"
  by (simp add: dict_ok_def)

lemma dict_ok_set [simp, intro]: "dict_ok d \<Longrightarrow> dict_ok (dict_set k v d)"
  by (simp add: dict_ok_def distinct_update)

lemma dict_ok_pop [simp, intro]: "dict_ok d \<Longrightarrow> dict_ok (dict_pop k d)"
  by (simp add: dict_ok_def distinct_delete)

lemma dict_has_iff [dict_simps]: "dict_has d k \<longleftrightarrow> k \<in> fst ` set d"
  by (auto simp: dict_has_def map_of_eq_None_iff)

lemma dict_has_set [dict_simps]: "dict_has (dict_set k v d) k' \<longleftrightarrow> k' = k \<or> dict_has d k'"
  by (simp add: dict_has_def)

lemma dict_has_pop [dict_simps]: "dict_has (dict_pop k d) k' \<longleftrightarrow> k' \<noteq> k \<and> dict_has d k'"
  by (simp add: dict_has_def)

lemma dict_update_Nil [simp, dict_simps]: "dict_update d [] = d"
  by (simp add: dict_update_def)

lemma dict_update_Cons [dict_simps]:
  "dict_update d ((k, v) # e) = dict_update (dict_set k v d) e"
  by (simp add: dict_update_def)

lemma dict_ok_update [simp, intro]: "dict_ok d \<Longrightarrow> dict_ok (dict_update d e)"
  by (induction e arbitrary: d) (auto simp: dict_update_Cons)

lemma dict_get_update [dict_simps]:
  assumes "dict_ok e"
  shows "map_of (dict_update d e) k = (case map_of e k of None \<Rightarrow> map_of d k | Some v \<Rightarrow> Some v)"
  using assms
proof (induction e arbitrary: d)
  case Nil
  then show ?case by simp
next
  case (Cons p e)
  obtain k0 v0 where p: "p = (k0, v0)" by (cases p)
  from Cons.prems have "dict_ok e" and "k0 \<notin> fst ` set e"
    by (auto simp: dict_ok_def p)
  then have "map_of e k0 = None" by (simp add: map_of_eq_None_iff)
  with Cons.IH [OF \<open>dict_ok e\<close>] show ?case
    by (auto simp: p dict_update_Cons split: option.splits)
qed

text \<open>Assigning a new key appends it; assigning a present key rewrites it in place.\<close>

lemma dict_set_new [dict_simps]: "\<not> dict_has d k \<Longrightarrow> dict_set k v d = d @ [(k, v)]"
  by (induction d) (auto simp: dict_has_def split: if_splits)

lemma dict_set_keys [dict_simps]:
  "map fst (dict_set k v d) = (if dict_has d k then map fst d else map fst d @ [k])"
  by (induction d) (auto simp: dict_has_def)

lemma length_dict_set: "length (dict_set k v d) = (if dict_has d k then length d else Suc (length d))"
  by (induction d) (auto simp: dict_has_def)

lemma dict_ok_map_of: "dict_ok d \<Longrightarrow> (k, v) \<in> set d \<longleftrightarrow> map_of d k = Some v"
  by (simp add: dict_ok_def)

text \<open>
  \<open>d.setdefault(k, []).append(v)\<close> in a loop over \<open>xs\<close> groups the values by key, each group in
  the order of the loop.
\<close>

definition dict_append :: "'k \<Rightarrow> 'v \<Rightarrow> ('k, 'v list) dict \<Rightarrow> ('k, 'v list) dict" where
  "dict_append k v d = dict_set k (dict_get_or [] d k @ [v]) d"

definition group_by :: "('a \<Rightarrow> 'k) \<Rightarrow> ('a \<Rightarrow> 'v) \<Rightarrow> 'a list \<Rightarrow> ('k, 'v list) dict" where
  "group_by key val xs = fold (\<lambda>x. dict_append (key x) (val x)) xs []"

lemma dict_get_or_append [dict_simps]:
  "dict_get_or [] (dict_append k v d) k' =
     (if k' = k then dict_get_or [] d k @ [v] else dict_get_or [] d k')"
  by (simp add: dict_append_def dict_get_or_def)

lemma group_by_fold:
  "dict_get_or [] (fold (\<lambda>x. dict_append (key x) (val x)) xs d) k =
     dict_get_or [] d k @ map val (filter (\<lambda>x. key x = k) xs)"
  by (induction xs arbitrary: d) (auto simp: dict_get_or_append)

lemma group_by_lookup [dict_simps]:
  "dict_get_or [] (group_by key val xs) k = map val (filter (\<lambda>x. key x = k) xs)"
  by (simp add: group_by_def group_by_fold) (simp add: dict_get_or_def)

text \<open>A dictionary comprehension that gives every key the same value.\<close>

definition dict_fromkeys :: "'v \<Rightarrow> 'k list \<Rightarrow> ('k, 'v) dict" where
  "dict_fromkeys v ks = fold (\<lambda>k. dict_set k v) ks []"

lemma dict_fromkeys_fold:
  "map_of (fold (\<lambda>k. dict_set k v) ks d) k' = (if k' \<in> set ks then Some v else map_of d k')"
  by (induction ks arbitrary: d) auto

lemma dict_get_fromkeys [simp, dict_simps]:
  "map_of (dict_fromkeys v ks) k = (if k \<in> set ks then Some v else None)"
  by (simp add: dict_fromkeys_def dict_fromkeys_fold)

lemma dict_fromkeys_distinct:
  "distinct ks \<Longrightarrow> dict_fromkeys v ks = map (\<lambda>k. (k, v)) ks"
proof (induction ks rule: rev_induct)
  case Nil
  then show ?case by (simp add: dict_fromkeys_def)
next
  case (snoc k ks)
  have "\<not> dict_has (dict_fromkeys v ks) k"
    using snoc.prems by (simp add: dict_has_def)
  with snoc show ?case
    by (simp add: dict_fromkeys_def dict_set_new)
qed

section \<open>Runs of a machine\<close>

text \<open>
  Several components are machines: a state and a total step per event.  The contract is that
  every step keeps an invariant; the consequence, proved once, is that every run keeps it.
\<close>

fun run :: "('s \<Rightarrow> 'a \<Rightarrow> 's) \<Rightarrow> 's \<Rightarrow> 'a list \<Rightarrow> 's" where
  "run step s [] = s"
| "run step s (e # es) = run step (step s e) es"

lemma run_append: "run step s (xs @ ys) = run step (run step s xs) ys"
  by (induction xs arbitrary: s) auto

locale invariant_machine =
  fixes step :: "'s \<Rightarrow> 'a \<Rightarrow> 's"
    and inv :: "'s \<Rightarrow> bool"
  assumes inv_step: "inv s \<Longrightarrow> inv (step s e)"
begin

lemma inv_run: "inv s \<Longrightarrow> inv (run step s es)"
  by (induction es arbitrary: s) (auto intro: inv_step)

lemma inv_prefix: "inv s \<Longrightarrow> inv (run step s (take n es))"
  by (rule inv_run)

end

text \<open>A machine with a partial order of states that every step moves upwards.\<close>

locale monotone_machine =
  fixes step :: "'s \<Rightarrow> 'a \<Rightarrow> 's"
    and below :: "'s \<Rightarrow> 's \<Rightarrow> bool"
  assumes below_refl: "below s s"
    and below_trans: "below s t \<Longrightarrow> below t u \<Longrightarrow> below s u"
    and below_step: "below s (step s e)"
begin

lemma below_run: "below s (run step s es)"
proof (induction es arbitrary: s)
  case Nil
  then show ?case by (simp add: below_refl)
next
  case (Cons e es)
  show ?case using below_trans [OF below_step Cons.IH] by simp
qed

end

end
