(* ===== verification/Py_Value.thy ===== *)
theory Py_Value
  imports Prelude "HOL-Library.Word"
begin

text \<open>
  The Python values the workflow code passes around under the type \<open>Any\<close>: JSON-shaped data
  plus instances of Pydantic models, which the code distinguishes by \<open>isinstance\<close>.  A double is
  its 64-bit pattern; the arithmetic on doubles (IEEE-754, not part of the repository) is the
  record \<open>float_ops\<close>, an argument of the definitions that compute with them.
\<close>

type_synonym f64 = "64 word"

datatype pyval =
    PNone
  | PBool bool
  | PInt int
  | PFloat f64
  | PStr string
  | PList "pyval list"
  | PDict "(string \<times> pyval) list"
  | PModel "(string \<times> pyval) list"  \<comment> \<open>a Pydantic model instance, as the fields it dumps to\<close>

text \<open>
  \<open>float(n)\<close> raises \<open>OverflowError\<close> on an integer outside the range of doubles (the value
  \<^const>\<open>None\<close>); \<open>f_sum\<close> is the builtin \<open>sum\<close> on a list of doubles, converted to a double
  (compensated summation since Python 3.12, so not a fold of additions); \<open>f_pow\<close> raises a double
  to a natural power; \<open>py_repr\<close> is \<open>str\<close> on everything that is not a string.
\<close>

record float_ops =
  f_of_int :: "int \<Rightarrow> f64 option"
  f_sum :: "f64 list \<Rightarrow> f64"
  f_sub :: "f64 \<Rightarrow> f64 \<Rightarrow> f64"
  f_mul :: "f64 \<Rightarrow> f64 \<Rightarrow> f64"
  f_pow :: "f64 \<Rightarrow> nat \<Rightarrow> f64"
  py_repr :: "pyval \<Rightarrow> string"

text \<open>The name of a value's Python class, as error messages print it.\<close>

fun type_name :: "pyval \<Rightarrow> string" where
  "type_name PNone = ''NoneType''"
| "type_name (PBool b) = ''bool''"
| "type_name (PInt n) = ''int''"
| "type_name (PFloat x) = ''float''"
| "type_name (PStr s) = ''str''"
| "type_name (PList xs) = ''list''"
| "type_name (PDict d) = ''dict''"
| "type_name (PModel d) = ''BaseModel''"

text \<open>\<open>str(v)\<close>: a string is itself.\<close>

fun py_str :: "float_ops \<Rightarrow> pyval \<Rightarrow> string" where
  "py_str ops (PStr s) = s"
| "py_str ops v = py_repr ops v"

text \<open>
  Truth value of a Python object: \<open>None\<close>, \<open>False\<close>, zero and empty containers are false.  Both
  zeros of the doubles are false, so a double is tested by all bits but the sign.
\<close>

fun truthy :: "pyval \<Rightarrow> bool" where
  "truthy PNone = False"
| "truthy (PBool b) = b"
| "truthy (PInt n) = (n \<noteq> 0)"
| "truthy (PFloat x) = (2 * x \<noteq> 0)"
| "truthy (PStr s) = (s \<noteq> [])"
| "truthy (PList xs) = (xs \<noteq> [])"
| "truthy (PDict d) = (d \<noteq> [])"
| "truthy (PModel d) = True"

text \<open>
  A concrete arithmetic for closed examples: doubles are read as two's complement integers, which
  is a ring, so that sums come out as one expects.
\<close>

definition int_float_ops :: float_ops where
  "int_float_ops =
     \<lparr>f_of_int = (\<lambda>n. Some (word_of_int n)), f_sum = sum_list, f_sub = (-), f_mul = (*),
      f_pow = (\<lambda>x n. x ^ n), py_repr = type_name\<rparr>"

lemma int_float_ops_simps [simp]:
  "f_of_int int_float_ops n = Some (word_of_int n)"
  "f_sum int_float_ops = sum_list"
  "f_sub int_float_ops = (-)"
  "f_mul int_float_ops = (*)"
  "f_pow int_float_ops x n' = x ^ n'"
  "py_repr int_float_ops = type_name"
  by (simp_all add: int_float_ops_def)

end
