(* ===== verification/Workflow_Models.thy ===== *)
theory Workflow_Models
  imports Py_Value
begin

text \<open>
  The data model of the Workflow Engine (\<open>engines/workflow/models.py\<close>): one datatype per
  enumeration and one record per Pydantic model, with the fields of the source in its order.
  Identifiers (UUIDs included) are strings, timestamps are integers (microseconds of the
  UTC epoch, the resolution of Python's \<open>datetime\<close>), an optional field is an option.
\<close>

type_synonym instant = int

section \<open>Enumerations\<close>

datatype workflow_state =
    WS_CREATED | WS_VALIDATED | WS_READY | WS_RUNNING | WS_WAITING | WS_APPROVED
  | WS_COMPLETED | WS_FAILED | WS_CANCELLED

datatype workflow_status =
    St_PENDING | St_RUNNING | St_PAUSED | St_WAITING_APPROVAL | St_COMPLETED | St_FAILED
  | St_CANCELLED

datatype workflow_priority = Prio_LOW | Prio_NORMAL | Prio_HIGH | Prio_CRITICAL

datatype workflow_trigger = Trig_MANUAL | Trig_EVENT | Trig_SCHEDULED | Trig_API | Trig_RECIPE

datatype approval_state = AS_PENDING | AS_APPROVED | AS_REJECTED | AS_EXPIRED | AS_CANCELLED

datatype workflow_operator = OP_CONCAT | OP_SUM | OP_SUBTRACT | OP_LENGTH

section \<open>Steps\<close>

record retry_policy =
  max_attempts :: nat
  backoff_factor :: f64
  initial_delay_seconds :: f64
  jitter :: bool

record compensation_action =
  ca_id :: string
  ca_name :: string
  ca_capability_name :: "string option"
  ca_parameters :: "(string, pyval) dict"

record workflow_step =
  ws_id :: string
  ws_name :: string
  ws_capability_name :: "string option"
  ws_parameters :: "(string, pyval) dict"
  ws_is_approval_step :: bool
  ws_required_approval_role :: "string option"
  ws_retry_policy :: "retry_policy option"
  ws_compensation_action :: "compensation_action option"
  ws_on_failure_continue :: bool
  ws_mapping :: "(string, pyval) dict option"

record workflow_context =
  wc_variables :: "(string, pyval) dict"
  wc_step_outputs :: "(string, pyval) dict"
  wc_metadata :: "(string, pyval) dict"
  wc_session_token :: "(string, pyval) dict option"

section \<open>Graphs\<close>

text \<open>
  Node metadata is opaque except for the namespaced entry the compatibility adapter writes; its
  type is a parameter here, and \<open>Graph_Compat\<close> chooses it.
\<close>

record 'm graph_node =
  node_id :: string
  node_type :: string
  gn_capability_name :: "string option"
  gn_config :: "(string, pyval) dict"
  input_ports :: "string list"
  output_ports :: "string list"
  gn_metadata :: "'m option"

record graph_edge =
  edge_id :: string
  source_node_id :: string
  source_port :: "string option"
  target_node_id :: string
  target_port :: "string option"
  ge_metadata :: "(string, pyval) dict"

record 'm workflow_graph =
  schema_version :: string
  entry_node_id :: string
  nodes :: "'m graph_node list"
  edges :: "graph_edge list"
  wg_metadata :: "(string, pyval) dict"

section \<open>Mappings and expressions\<close>

definition MAX_REFERENCE_PATH_DEPTH :: nat where "MAX_REFERENCE_PATH_DEPTH = 32"
definition MAX_MAPPING_VALUES_PER_NODE :: nat where "MAX_MAPPING_VALUES_PER_NODE = 128"
definition MAX_EXPRESSION_NESTING_DEPTH :: nat where "MAX_EXPRESSION_NESTING_DEPTH = 16"
definition MAX_EXPRESSION_OPERANDS :: nat where "MAX_EXPRESSION_OPERANDS = 64"
definition MAX_TRAVERSAL_DEPTH :: nat where "MAX_TRAVERSAL_DEPTH = 32"

datatype path_segment = Key string | Index int

record workflow_reference =
  ref_source_node_id :: string
  ref_source_port :: "string option"
  ref_path :: "path_segment list"

text \<open>
  The discriminated union \<open>WorkflowValue\<close>; an expression is its operator and its operand values.
\<close>

datatype workflow_value =
    LiteralValue pyval
  | ReferenceValue workflow_reference
  | ExpressionValue workflow_operator "workflow_value list"

type_synonym workflow_mapping = "(string, workflow_value) dict"

section \<open>Instances and results\<close>

record workflow_instance =
  wi_id :: string
  wi_definition_id :: string
  wi_definition_version :: string
  wi_tenant_id :: string
  wi_current_step_index :: nat
  wi_current_step_id :: "string option"
  wi_state :: workflow_state
  wi_status :: workflow_status
  wi_context :: workflow_context
  wi_compensation_stack :: "compensation_action list"
  wi_trace_id :: string
  wi_version :: nat
  wi_created_at :: instant
  wi_updated_at :: instant

record execution_result =
  er_step_id :: string
  er_success :: bool
  er_output :: pyval
  er_error :: "string option"
  er_attempts :: nat

section \<open>Approvals\<close>

record approval_request =
  ar_id :: string
  ar_tenant_id :: string
  ar_instance_id :: "string option"
  ar_step_id :: "string option"
  ar_required_role :: string
  ar_requested_at :: instant
  ar_state :: approval_state
  ar_timeout_at :: "instant option"
  ar_context_snapshot :: "(string, pyval) dict"
  ar_signature_required :: bool
  ar_requester_principal_id :: "string option"
  ar_requester_principal_type :: "string option"
  ar_correlation_id :: "string option"
  ar_action_fingerprint :: "string option"
  ar_created_at :: "instant option"
  ar_updated_at :: "instant option"

record approval_decision =
  ad_id :: string
  ad_request_id :: string
  ad_tenant_id :: string
  ad_approver_id :: string
  ad_decision :: approval_state
  ad_reason :: "string option"
  ad_signature_hex :: "string option"
  ad_public_key_hex :: "string option"
  ad_decision_data :: "(string, pyval) dict"
  ad_decided_at :: instant

record approval_delegation =
  dg_id :: string
  dg_tenant_id :: string
  dg_delegator_id :: string
  dg_delegatee_id :: string
  dg_role :: string
  dg_valid_from :: instant
  dg_valid_until :: instant
  dg_is_active :: bool
  dg_created_at :: "instant option"

section \<open>Default values\<close>

definition default_retry_policy :: "f64 \<Rightarrow> f64 \<Rightarrow> retry_policy" where
  "default_retry_policy two one =
     \<lparr>max_attempts = 3, backoff_factor = two, initial_delay_seconds = one, jitter = True\<rparr>"

end
