(* ===== verification/Workflow_State.thy ===== *)
theory Workflow_State
  imports Workflow_Models
begin

text \<open>
  The workflow state machine (\<open>engines/workflow/state_machine.py\<close>): the table of allowed
  transitions, the status each state shows, and the operation that moves an instance.  The
  lemmas show that the machine keeps status and state in step, that finished instances stay
  finished, and which states a run must pass.
\<close>

section \<open>The machine\<close>

fun ALLOWED_TRANSITIONS :: "workflow_state \<Rightarrow> workflow_state list" where
  "ALLOWED_TRANSITIONS WS_CREATED = [WS_VALIDATED, WS_FAILED, WS_CANCELLED]"
| "ALLOWED_TRANSITIONS WS_VALIDATED = [WS_READY, WS_FAILED, WS_CANCELLED]"
| "ALLOWED_TRANSITIONS WS_READY = [WS_RUNNING, WS_FAILED, WS_CANCELLED]"
| "ALLOWED_TRANSITIONS WS_RUNNING = [WS_WAITING, WS_COMPLETED, WS_FAILED, WS_CANCELLED]"
| "ALLOWED_TRANSITIONS WS_WAITING = [WS_APPROVED, WS_FAILED, WS_CANCELLED]"
| "ALLOWED_TRANSITIONS WS_APPROVED = [WS_RUNNING, WS_FAILED, WS_CANCELLED]"
| "ALLOWED_TRANSITIONS WS_COMPLETED = []"
| "ALLOWED_TRANSITIONS WS_FAILED = []"
| "ALLOWED_TRANSITIONS WS_CANCELLED = []"

fun STATE_TO_STATUS_MAP :: "workflow_state \<Rightarrow> workflow_status" where
  "STATE_TO_STATUS_MAP WS_CREATED = St_PENDING"
| "STATE_TO_STATUS_MAP WS_VALIDATED = St_PENDING"
| "STATE_TO_STATUS_MAP WS_READY = St_PENDING"
| "STATE_TO_STATUS_MAP WS_RUNNING = St_RUNNING"
| "STATE_TO_STATUS_MAP WS_WAITING = St_WAITING_APPROVAL"
| "STATE_TO_STATUS_MAP WS_APPROVED = St_RUNNING"
| "STATE_TO_STATUS_MAP WS_COMPLETED = St_COMPLETED"
| "STATE_TO_STATUS_MAP WS_FAILED = St_FAILED"
| "STATE_TO_STATUS_MAP WS_CANCELLED = St_CANCELLED"

definition can_transition :: "workflow_state \<Rightarrow> workflow_state \<Rightarrow> bool" where
  "can_transition current target \<longleftrightarrow> target \<in> set (ALLOWED_TRANSITIONS current)"

datatype state_error = WorkflowStateError workflow_state workflow_state string

definition transition ::
  "workflow_instance \<Rightarrow> workflow_state \<Rightarrow> state_error + workflow_instance" where
  "transition inst target =
     (let current = wi_state inst in
      if current = target then Inr inst
      else if \<not> can_transition current target
      then Inl (WorkflowStateError current target (wi_id inst))
      else Inr (inst\<lparr>wi_state := target, wi_status := STATE_TO_STATUS_MAP target\<rparr>))"

text \<open>A caller that catches the error leaves the instance as it was: one event of the machine.\<close>

definition attempt_transition :: "workflow_instance \<Rightarrow> workflow_state \<Rightarrow> workflow_instance" where
  "attempt_transition inst target =
     (case transition inst target of Inl _ \<Rightarrow> inst | Inr inst' \<Rightarrow> inst')"

section \<open>Invariants\<close>

definition terminal_state :: "workflow_state \<Rightarrow> bool" where
  "terminal_state s \<longleftrightarrow> ALLOWED_TRANSITIONS s = []"

definition status_consistent :: "workflow_instance \<Rightarrow> bool" where
  "status_consistent inst \<longleftrightarrow> wi_status inst = STATE_TO_STATUS_MAP (wi_state inst)"

lemma terminal_state_iff [simp]:
  "terminal_state s \<longleftrightarrow> s \<in> {WS_COMPLETED, WS_FAILED, WS_CANCELLED}"
  by (cases s) (simp_all add: terminal_state_def)

lemma can_transition_irrefl [simp]: "\<not> can_transition s s"
  by (cases s) (simp_all add: can_transition_def)

lemma transition_Inr_iff:
  "transition inst target = Inr inst' \<longleftrightarrow>
     (wi_state inst = target \<and> inst' = inst) \<or>
     (can_transition (wi_state inst) target \<and>
      inst' = inst\<lparr>wi_state := target, wi_status := STATE_TO_STATUS_MAP target\<rparr>)"
  by (auto simp: transition_def Let_def split: if_splits)

lemma transition_state: "transition inst target = Inr inst' \<Longrightarrow> wi_state inst' = target"
  by (auto simp: transition_Inr_iff)

lemma attempt_transition_state:
  "wi_state (attempt_transition inst target) =
     (if can_transition (wi_state inst) target then target else wi_state inst)"
  by (auto simp: attempt_transition_def transition_def Let_def)

lemma attempt_transition_consistent:
  "status_consistent inst \<Longrightarrow> status_consistent (attempt_transition inst target)"
  by (auto simp: attempt_transition_def transition_def Let_def status_consistent_def)

interpretation status_machine: invariant_machine attempt_transition status_consistent
  by unfold_locales (rule attempt_transition_consistent)

text \<open>Finished instances are frozen: a terminal instance is a fixed point of every event.\<close>

lemma attempt_transition_terminal:
  assumes "terminal_state (wi_state inst)"
  shows "attempt_transition inst target = inst"
proof -
  have "ALLOWED_TRANSITIONS (wi_state inst) = []"
    using assms by (simp add: terminal_state_def del: terminal_state_iff)
  then show ?thesis
    by (simp add: attempt_transition_def transition_def Let_def can_transition_def)
qed

definition frozen_below :: "workflow_instance \<Rightarrow> workflow_instance \<Rightarrow> bool" where
  "frozen_below i j \<longleftrightarrow> (terminal_state (wi_state i) \<longrightarrow> j = i)"

interpretation lifecycle_order: monotone_machine attempt_transition frozen_below
  by unfold_locales (auto simp: frozen_below_def attempt_transition_terminal
      simp del: terminal_state_iff)

section \<open>Which states a run passes\<close>

text \<open>
  The states an instance shows during a run of attempted transitions, refused attempts left out.
\<close>

fun state_trace :: "workflow_instance \<Rightarrow> workflow_state list \<Rightarrow> workflow_state list" where
  "state_trace inst [] = [wi_state inst]"
| "state_trace inst (t # ts) =
     (if can_transition (wi_state inst) t
      then wi_state inst # state_trace (attempt_transition inst t) ts
      else state_trace inst ts)"

lemma attempt_transition_refused:
  "\<not> can_transition (wi_state inst) t \<Longrightarrow> attempt_transition inst t = inst"
  by (simp add: attempt_transition_def transition_def Let_def)

lemma state_trace_not_Nil [simp]: "state_trace inst ts \<noteq> []"
  by (induction inst ts rule: state_trace.induct) auto

lemma hd_state_trace [simp]: "hd (state_trace inst ts) = wi_state inst"
  by (induction inst ts rule: state_trace.induct) auto

lemma last_state_trace:
  "last (state_trace inst ts) = wi_state (run attempt_transition inst ts)"
  by (induction inst ts rule: state_trace.induct) (auto simp: attempt_transition_refused)

lemma successively_state_trace: "successively can_transition (state_trace inst ts)"
  by (induction inst ts rule: state_trace.induct)
    (auto simp: successively_Cons attempt_transition_state)

lemma can_transition_targets:
  "can_transition s WS_APPROVED \<longleftrightarrow> s = WS_WAITING"
  "can_transition s WS_RUNNING \<longleftrightarrow> s = WS_READY \<or> s = WS_APPROVED"
  "can_transition s WS_COMPLETED \<longleftrightarrow> s = WS_RUNNING"
  "can_transition s WS_WAITING \<longleftrightarrow> s = WS_RUNNING"
  "can_transition s WS_READY \<longleftrightarrow> s = WS_VALIDATED"
  "can_transition s WS_VALIDATED \<longleftrightarrow> s = WS_CREATED"
  "\<not> can_transition s WS_CREATED"
  by (cases s; simp add: can_transition_def)+

text \<open>Between a wait and any later running state lies an approval.\<close>

lemma waiting_gate:
  assumes "successively can_transition (WS_WAITING # zs @ [WS_RUNNING])"
  shows "WS_APPROVED \<in> set zs"
proof (cases zs)
  case Nil
  with assms show ?thesis by (simp add: can_transition_targets)
next
  case (Cons z zs')
  with assms have step: "can_transition WS_WAITING z"
    and rest: "successively can_transition (z # zs' @ [WS_RUNNING])" by auto
  from step have "z = WS_APPROVED \<or> z = WS_FAILED \<or> z = WS_CANCELLED"
    by (simp add: can_transition_def)
  moreover have "\<not> terminal_state z"
    using rest by (cases zs') (auto simp: can_transition_def)
  ultimately show ?thesis using Cons by auto
qed

lemma completed_path:
  assumes "successively can_transition xs" "hd xs = WS_CREATED" "xs \<noteq> []"
    and "WS_COMPLETED \<in> set xs"
  shows "take 4 xs = [WS_CREATED, WS_VALIDATED, WS_READY, WS_RUNNING]"
proof -
  have stuck: "ys = []" if "successively can_transition (t # ys)" "t = WS_FAILED \<or> t = WS_CANCELLED" for t ys
    using that by (cases ys) (auto simp: can_transition_def)
  obtain ys where xs: "xs = WS_CREATED # ys" using assms(2,3) by (cases xs) auto
  with assms(4) obtain a ys1 where ys: "ys = a # ys1" by (cases ys) auto
  have "can_transition WS_CREATED a" "successively can_transition (a # ys1)"
    using assms(1) xs ys by auto
  with stuck [of a ys1] assms(4) xs ys have a: "a = WS_VALIDATED" and "WS_COMPLETED \<in> set ys1"
    by (auto simp: can_transition_def)
  then obtain b ys2 where ys1: "ys1 = b # ys2" by (cases ys1) auto
  have "can_transition WS_VALIDATED b" "successively can_transition (b # ys2)"
    using assms(1) xs ys ys1 a by auto
  with stuck [of b ys2] \<open>WS_COMPLETED \<in> set ys1\<close> ys1 have b: "b = WS_READY" and "WS_COMPLETED \<in> set ys2"
    by (auto simp: can_transition_def)
  then obtain c ys3 where ys2: "ys2 = c # ys3" by (cases ys2) auto
  have "can_transition WS_READY c" "successively can_transition (c # ys3)"
    using assms(1) xs ys ys1 ys2 a b by auto
  with stuck [of c ys3] \<open>WS_COMPLETED \<in> set ys2\<close> ys2 have "c = WS_RUNNING"
    by (auto simp: can_transition_def)
  then show ?thesis by (simp add: xs ys ys1 ys2 a b)
qed

end
