(* ===== verification/Graph_Correct.thy ===== *)
theory Graph_Correct
  imports Workflow_Graphs
begin

text \<open>
  Correctness of the graph component: the depth-first search of \<open>validate_acyclic\<close> decides
  acyclicity (the invariant \<open>dfs_inv\<close> ties colours to the stack and to the set of finished
  nodes), \<open>validate_graph\<close> accepts exactly the well-formed graphs, and the reachability queries
  compute the closure of the edge relation.
\<close>


section \<open>The depth-first search is correct\<close>

declare dfs_loop.simps(2) [simp del]

lemma dfs_loop_pop:
  "length (dict_get_or [] out n) \<le> i \<Longrightarrow>
     dfs_loop out c ((n, i) # st) = dfs_loop out (dict_set n Black c) st"
  by (simp add: dfs_loop.simps)

lemma dfs_loop_next:
  assumes "\<not> length (dict_get_or [] out n) \<le> i"
  shows "map_of c (dict_get_or [] out n ! i) = None \<Longrightarrow>
      dfs_loop out c ((n, i) # st) = Inl (MissingKey (dict_get_or [] out n ! i))"
    and "map_of c (dict_get_or [] out n ! i) = Some Gray \<Longrightarrow>
      dfs_loop out c ((n, i) # st) = Inl (DirectedCycle (dict_get_or [] out n ! i))"
    and "map_of c (dict_get_or [] out n ! i) = Some Black \<Longrightarrow>
      dfs_loop out c ((n, i) # st) = dfs_loop out c ((n, Suc i) # st)"
    and "map_of c (dict_get_or [] out n ! i) = Some White \<Longrightarrow>
      dfs_loop out c ((n, i) # st) =
        dfs_loop out (dict_set (dict_get_or [] out n ! i) Gray c)
          ((dict_get_or [] out n ! i, 0) # (n, Suc i) # st)"
  using assms by (simp_all add: dfs_loop.simps(2) Let_def)

lemmas dfs_loop_unfold = dfs_loop_pop dfs_loop_next

text \<open>Induction over the search, one case per branch of the loop body.\<close>

lemma dfs_loop_cases [case_names finish pop missing cycle skip push]:
  fixes P :: "(string, string list) dict \<Rightarrow> (string, color) dict \<Rightarrow> (string \<times> nat) list \<Rightarrow> bool"
  assumes "\<And>out c. P out c []"
    and "\<And>out c n i st. length (dict_get_or [] out n) \<le> i \<Longrightarrow> P out (dict_set n Black c) st \<Longrightarrow>
           P out c ((n, i) # st)"
    and "\<And>out c n i st. \<not> length (dict_get_or [] out n) \<le> i \<Longrightarrow>
           map_of c (dict_get_or [] out n ! i) = None \<Longrightarrow> P out c ((n, i) # st)"
    and "\<And>out c n i st. \<not> length (dict_get_or [] out n) \<le> i \<Longrightarrow>
           map_of c (dict_get_or [] out n ! i) = Some Gray \<Longrightarrow> P out c ((n, i) # st)"
    and "\<And>out c n i st. \<not> length (dict_get_or [] out n) \<le> i \<Longrightarrow>
           map_of c (dict_get_or [] out n ! i) = Some Black \<Longrightarrow> P out c ((n, Suc i) # st) \<Longrightarrow>
           P out c ((n, i) # st)"
    and "\<And>out c n i st. \<not> length (dict_get_or [] out n) \<le> i \<Longrightarrow>
           map_of c (dict_get_or [] out n ! i) = Some White \<Longrightarrow>
           P out (dict_set (dict_get_or [] out n ! i) Gray c)
             ((dict_get_or [] out n ! i, 0) # (n, Suc i) # st) \<Longrightarrow>
           P out c ((n, i) # st)"
  shows "P out c st"
proof (induction out c st rule: dfs_loop.induct)
  case (1 out c)
  show ?case by (rule assms(1))
next
  case (2 out c n i st)
  show ?case
  proof (cases "length (dict_get_or [] out n) \<le> i")
    case True
    then show ?thesis using "2"(1) by (intro assms(2)) simp_all
  next
    case False
    show ?thesis
    proof (cases "map_of c (dict_get_or [] out n ! i)")
      case None
      with False show ?thesis by (rule assms(3))
    next
      case (Some col)
      note IH = "2"(2) [OF refl False refl refl Some] "2"(3) [OF refl False refl refl Some]
      show ?thesis
      proof (cases col)
        case White
        with Some IH(1) show ?thesis by (intro assms(6) [OF False]) simp_all
      next
        case Gray
        with Some show ?thesis by (intro assms(4) [OF False]) simp_all
      next
        case Black
        with Some IH(2) show ?thesis by (intro assms(5) [OF False]) simp_all
      qed
    qed
  qed
qed

fun frames_ok ::
  "(string, string list) dict \<Rightarrow> (string, color) dict \<Rightarrow> string option \<Rightarrow> (string \<times> nat) list \<Rightarrow> bool" where
  "frames_ok out c child [] \<longleftrightarrow> True"
| "frames_ok out c child ((n, i) # st) \<longleftrightarrow>
     (\<forall>b \<in> set (take i (dict_get_or [] out n)). map_of c b = Some Black \<or> Some b = child) \<and>
     (\<forall>b. child = Some b \<longrightarrow> b \<in> set (dict_get_or [] out n)) \<and>
     frames_ok out c (Some n) st"

definition black_ok :: "(string, string list) dict \<Rightarrow> (string, color) dict \<Rightarrow> bool" where
  "black_ok out c \<longleftrightarrow>
     (\<forall>n b. map_of c n = Some Black \<longrightarrow> b \<in> set (dict_get_or [] out n) \<longrightarrow> map_of c b = Some Black) \<and>
     acyclic {(a, b). b \<in> set (dict_get_or [] out a) \<and> map_of c a = Some Black}"

definition dfs_inv ::
  "(string, string list) dict \<Rightarrow> (string, color) dict \<Rightarrow> (string \<times> nat) list \<Rightarrow> bool" where
  "dfs_inv out c st \<longleftrightarrow>
     distinct (map fst st) \<and> (\<forall>n. map_of c n = Some Gray \<longleftrightarrow> n \<in> fst ` set st) \<and>
     frames_ok out c None st \<and> black_ok out c"

lemma frames_ok_recolor:
  "frames_ok out c child st \<Longrightarrow> map_of c k \<noteq> Some Black \<Longrightarrow> frames_ok out (dict_set k x c) child st"
  by (induction out c child st rule: frames_ok.induct) fastforce+

lemma frames_ok_blacken:
  "frames_ok out c child st \<Longrightarrow> frames_ok out (dict_set k Black c) child st"
  by (induction out c child st rule: frames_ok.induct) fastforce+

lemma frames_ok_pop:
  "frames_ok out c (Some n) st \<Longrightarrow> frames_ok out (dict_set n Black c) None st"
  by (cases st) (auto intro: frames_ok_blacken)

text \<open>Adding a node whose successors are all in a closed acyclic set keeps the set acyclic.\<close>

lemma acyclic_insert_source:
  assumes "acyclic {(a, b). (a, b) \<in> r \<and> a \<in> B}" and closed: "\<And>a b. a \<in> B \<Longrightarrow> (a, b) \<in> r \<Longrightarrow> b \<in> B"
    and n: "n \<notin> B" "\<And>b. (n, b) \<in> r \<Longrightarrow> b \<in> B"
  shows "acyclic {(a, b). (a, b) \<in> r \<and> a \<in> insert n B}"
proof (rule acyclicI, rule allI, rule notI)
  let ?R = "{(a, b). (a, b) \<in> r \<and> a \<in> insert n B}" and ?S = "{(a, b). (a, b) \<in> r \<and> a \<in> B}"
  fix x assume xx: "(x, x) \<in> ?R\<^sup>+"
  have into: "y \<in> B" if "(a, y) \<in> ?R" for a y using that closed n(2) by blast
  have stay: "(a, y) \<in> ?S\<^sup>+" if "(a, y) \<in> ?R\<^sup>+" "a \<in> B" for a y
    using that
  proof (induction rule: trancl_induct)
    case (base y)
    then show ?case by auto
  next
    case (step y z)
    from step.hyps(1) have "y \<in> B" by (rule tranclE) (blast intro: into)+
    with step.hyps(2) have "(y, z) \<in> ?S" by auto
    with step show ?case by (auto intro: trancl_into_trancl)
  qed
  from xx have "x \<in> B" by (rule tranclE) (blast intro: into)+
  with stay [OF xx] assms(1) show False by (auto simp: acyclic_def)
qed

lemma black_ok_blacken:
  assumes "black_ok out c" "map_of c n \<noteq> Some Black"
    and all: "\<forall>b \<in> set (dict_get_or [] out n). map_of c b = Some Black"
  shows "black_ok out (dict_set n Black c)"
proof -
  let ?B = "{a. map_of c a = Some Black}"
  have "acyclic {(a, b). (a, b) \<in> succ_rel out \<and> a \<in> insert n ?B}"
    by (rule acyclic_insert_source) (use assms in \<open>auto simp: black_ok_def succ_rel_def\<close>)
  moreover have "{(a, b). (a, b) \<in> succ_rel out \<and> a \<in> insert n ?B} =
     {(a, b). b \<in> set (dict_get_or [] out a) \<and> map_of (dict_set n Black c) a = Some Black}"
    by (auto simp: succ_rel_def split: if_splits)
  ultimately show ?thesis using assms by (auto simp: black_ok_def)
qed

lemma black_ok_gray:
  assumes "black_ok out c" "map_of c n = Some White"
  shows "black_ok out (dict_set n Gray c)"
proof -
  have "{(a, b). b \<in> set (dict_get_or [] out a) \<and> map_of (dict_set n Gray c) a = Some Black} =
     {(a, b). b \<in> set (dict_get_or [] out a) \<and> map_of c a = Some Black}"
    using assms(2) by (auto split: if_splits)
  then show ?thesis using assms unfolding black_ok_def by (auto split: if_splits)
qed

lemma dfs_inv_pop:
  assumes "dfs_inv out c ((n, i) # st)" "length (dict_get_or [] out n) \<le> i"
  shows "dfs_inv out (dict_set n Black c) st"
proof -
  have gray: "map_of c n = Some Gray" using assms(1) by (simp add: dfs_inv_def)
  have "black_ok out c" "\<forall>b \<in> set (dict_get_or [] out n). map_of c b = Some Black"
    using assms by (auto simp: dfs_inv_def)
  then have "black_ok out (dict_set n Black c)"
    by (intro black_ok_blacken) (simp_all add: gray)
  then show ?thesis using assms gray unfolding dfs_inv_def by (auto intro!: frames_ok_pop)
qed

lemma dfs_inv_skip:
  assumes "dfs_inv out c ((n, i) # st)" "\<not> length (dict_get_or [] out n) \<le> i"
    and "map_of c (dict_get_or [] out n ! i) = Some Black"
  shows "dfs_inv out c ((n, Suc i) # st)"
  using assms unfolding dfs_inv_def by (auto simp: take_Suc_conv_app_nth)

lemma dfs_inv_push:
  assumes "dfs_inv out c ((n, i) # st)" "\<not> length (dict_get_or [] out n) \<le> i"
    and "map_of c (dict_get_or [] out n ! i) = Some White"
  shows "dfs_inv out (dict_set (dict_get_or [] out n ! i) Gray c)
           ((dict_get_or [] out n ! i, 0) # (n, Suc i) # st)"
proof -
  let ?nb = "dict_get_or [] out n ! i"
  have fresh: "?nb \<notin> insert n (fst ` set st)"
  proof
    assume "?nb \<in> insert n (fst ` set st)"
    then have "map_of c ?nb = Some Gray" using assms(1) by (simp add: dfs_inv_def)
    with assms(3) show False by simp
  qed
  have "frames_ok out c (Some ?nb) ((n, Suc i) # st)"
    using assms unfolding dfs_inv_def by (auto simp: take_Suc_conv_app_nth)
  then have "frames_ok out (dict_set ?nb Gray c) (Some ?nb) ((n, Suc i) # st)"
    by (rule frames_ok_recolor) (use assms in simp)
  then show ?thesis using assms fresh unfolding dfs_inv_def by (auto intro: black_ok_gray)
qed

text \<open>The node on top of the stack is reachable from every node of the stack.\<close>

lemma frames_reach:
  "frames_ok out c (Some b) st \<Longrightarrow> a \<in> fst ` set st \<Longrightarrow> (a, b) \<in> (succ_rel out)\<^sup>+"
proof (induction st arbitrary: b)
  case Nil
  then show ?case by simp
next
  case (Cons p st)
  obtain n i where p: "p = (n, i)" by (cases p)
  with Cons.prems have nb: "(n, b) \<in> succ_rel out" and rest: "frames_ok out c (Some n) st"
    by (auto simp: succ_rel_def)
  show ?case
  proof (cases "a = n")
    case True
    with nb show ?thesis by auto
  next
    case False
    with Cons.prems p have "(a, n) \<in> (succ_rel out)\<^sup>+" by (intro Cons.IH [OF rest]) auto
    with nb show ?thesis by (auto intro: trancl_into_trancl)
  qed
qed

lemma dfs_loop_cycle:
  "dfs_inv out c st \<Longrightarrow> dfs_loop out c st = Inl (DirectedCycle nb) \<Longrightarrow> (nb, nb) \<in> (succ_rel out)\<^sup>+"
proof (induction out c st rule: dfs_loop_cases)
  case (cycle out c n i st)
  then have nb: "nb = dict_get_or [] out n ! i" by (simp add: dfs_loop_unfold)
  then have edge: "(n, nb) \<in> succ_rel out" using cycle by (simp add: succ_rel_def)
  have "nb = n \<or> nb \<in> fst ` set st" "frames_ok out c (Some n) st"
    using cycle nb by (auto simp: dfs_inv_def)
  then have "nb = n \<or> (nb, n) \<in> (succ_rel out)\<^sup>+" using frames_reach by blast
  with edge show ?case by (auto intro: trancl_into_trancl)
qed (auto simp: dfs_loop_unfold intro: dfs_inv_pop dfs_inv_skip dfs_inv_push)

lemma dfs_loop_missing:
  "dfs_loop out c st = Inl (MissingKey nb) \<Longrightarrow> nb \<in> value_set out \<and> map_of c nb = None"
proof (induction out c st rule: dfs_loop_cases)
  case (missing out c n i st)
  then have "dict_get_or [] out n ! i \<in> value_set out"
    using dict_get_or_value_set [of out n] by (auto simp: subset_iff)
  with missing show ?case by (simp add: dfs_loop_unfold)
qed (auto simp: dfs_loop_unfold split: if_splits)

lemma dfs_loop_other: "dfs_loop out c st = Inl e \<Longrightarrow> \<exists>nb. e = MissingKey nb \<or> e = DirectedCycle nb"
  by (induction out c st rule: dfs_loop_cases) (auto simp: dfs_loop_unfold)

text \<open>A completed search keeps the keys, leaves nothing gray and blackens what was on the stack.\<close>

lemma dfs_loop_done:
  "dfs_loop out c st = Inr c' \<Longrightarrow> dfs_inv out c st \<Longrightarrow>
     dfs_inv out c' [] \<and> dom (map_of c') = dom (map_of c) \<and>
     (\<forall>n. map_of c n = Some Black \<or> n \<in> fst ` set st \<longrightarrow> map_of c' n = Some Black)"
proof (induction out c st rule: dfs_loop_cases)
  case (pop out c n i st)
  then have run: "dfs_loop out (dict_set n Black c) st = Inr c'" by (simp add: dfs_loop_unfold)
  have gray: "map_of c n = Some Gray" using pop.prems(2) by (simp add: dfs_inv_def)
  note IH = pop.IH [OF run dfs_inv_pop [OF pop.prems(2) pop.hyps]]
  have "dom (map_of (dict_set n Black c)) = dom (map_of c)"
    using gray by (auto simp: dom_dict_set)
  then have "dom (map_of c') = dom (map_of c)" using IH by (elim conjE) (rule trans)
  moreover have "map_of c' m = Some Black"
    if "map_of c m = Some Black \<or> m \<in> fst ` set ((n, i) # st)" for m
  proof -
    from that have "map_of (dict_set n Black c) m = Some Black \<or> m \<in> fst ` set st" by auto
    with IH show ?thesis by blast
  qed
  ultimately show ?case using IH by blast
next
  case (skip out c n i st)
  then have run: "dfs_loop out c ((n, Suc i) # st) = Inr c'" by (simp add: dfs_loop_unfold)
  have "dfs_inv out c ((n, Suc i) # st)" using skip by (intro dfs_inv_skip) auto
  from skip.IH [OF run this] show ?case by simp
next
  case (push out c n i st)
  let ?nb = "dict_get_or [] out n ! i"
  have run: "dfs_loop out (dict_set ?nb Gray c) ((?nb, 0) # (n, Suc i) # st) = Inr c'"
    using push by (simp add: dfs_loop_unfold)
  have "dfs_inv out (dict_set ?nb Gray c) ((?nb, 0) # (n, Suc i) # st)"
    using push by (intro dfs_inv_push) auto
  note IH = push.IH [OF run this]
  have "dom (map_of (dict_set ?nb Gray c)) = dom (map_of c)"
    using push.hyps(2) by (auto simp: dom_dict_set)
  then have "dom (map_of c') = dom (map_of c)" using IH by (elim conjE) (rule trans)
  moreover have "map_of c' m = Some Black"
    if "map_of c m = Some Black \<or> m \<in> fst ` set ((n, i) # st)" for m
  proof -
    from that have "map_of (dict_set ?nb Gray c) m = Some Black \<or>
        m \<in> fst ` set ((?nb, 0) # (n, Suc i) # st)" using push.hyps(2) by auto
    with IH show ?thesis by blast
  qed
  ultimately show ?case using IH by blast
qed (auto simp: dfs_loop_unfold)

text \<open>The outer loop: every start is explored from a state with an empty stack.\<close>

lemma dfs_inv_start:
  assumes "dfs_inv out c []" "map_of c s = Some White"
  shows "dfs_inv out (dict_set s Gray c) [(s, 0)]"
  using assms by (auto simp: dfs_inv_def intro: black_ok_gray)

lemma dfs_starts_done:
  assumes "dfs_starts out c ss = Inr c'" "dfs_inv out c []" "set ss \<subseteq> dom (map_of c)"
  shows "dfs_inv out c' [] \<and> dom (map_of c') = dom (map_of c) \<and>
     (\<forall>n. map_of c n = Some Black \<or> n \<in> set ss \<longrightarrow> map_of c' n = Some Black)"
  using assms
proof (induction ss arbitrary: c)
  case Nil
  then show ?case by simp
next
  case (Cons s ss)
  show ?case
  proof (cases "map_of c s = Some White")
    case True
    with Cons.prems(1) obtain c1 where c1: "dfs_loop out (dict_set s Gray c) [(s, 0)] = Inr c1"
      and rest: "dfs_starts out c1 ss = Inr c'" by (auto simp: bind_res_Inr_iff)
    note inv = dfs_loop_done [OF c1 dfs_inv_start [OF Cons.prems(2) True]]
    have dom: "dom (map_of c1) = dom (map_of c)"
      using inv True by (auto simp: dom_dict_set)
    then have IH: "dfs_inv out c' [] \<and> dom (map_of c') = dom (map_of c1) \<and>
        (\<forall>n. map_of c1 n = Some Black \<or> n \<in> set ss \<longrightarrow> map_of c' n = Some Black)"
      using inv Cons.prems(3) by (intro Cons.IH [OF rest]) auto
    have black: "map_of c1 n = Some Black" if "map_of c n = Some Black \<or> n = s" for n
    proof -
      from that True have "map_of (dict_set s Gray c) n = Some Black \<or> n \<in> fst ` set [(s, 0::nat)]"
        by auto
      with inv show ?thesis by blast
    qed
    from IH black have "\<forall>n. map_of c n = Some Black \<or> n \<in> set (s # ss) \<longrightarrow> map_of c' n = Some Black"
      by auto
    with IH dom show ?thesis by blast
  next
    case False
    moreover have "map_of c s \<noteq> Some Gray" using Cons.prems(2) by (auto simp: dfs_inv_def)
    ultimately have "map_of c s = Some Black"
      using Cons.prems(3) by (cases "map_of c s"; cases "the (map_of c s)") auto
    with Cons.IH [of c] Cons.prems False show ?thesis by auto
  qed
qed

lemma dfs_starts_error:
  assumes "dfs_starts out c ss = Inl e" "dfs_inv out c []" "set ss \<subseteq> dom (map_of c)"
  shows "(\<exists>nb. e = DirectedCycle nb \<and> (nb, nb) \<in> (succ_rel out)\<^sup>+) \<or>
    (\<exists>nb. e = MissingKey nb \<and> nb \<in> value_set out \<and> nb \<notin> dom (map_of c))"
  using assms
proof (induction ss arbitrary: c)
  case Nil
  then show ?case by simp
next
  case (Cons s ss)
  show ?case
  proof (cases "map_of c s = Some White")
    case True
    note start = dfs_inv_start [OF Cons.prems(2) True]
    show ?thesis
    proof (cases "dfs_loop out (dict_set s Gray c) [(s, 0)]")
      case (Inl e')
      with True Cons.prems(1) have e: "dfs_loop out (dict_set s Gray c) [(s, 0)] = Inl e" by simp
      from dfs_loop_other [OF e] show ?thesis
        using dfs_loop_cycle [OF start] dfs_loop_missing e by (fastforce split: if_splits)
    next
      case (Inr c1)
      note inv = dfs_loop_done [OF Inr start]
      have dom: "dom (map_of c1) = dom (map_of c)"
        using inv True by (auto simp: dom_dict_set)
      from True Inr Cons.prems(1) have "dfs_starts out c1 ss = Inl e" by simp
      from Cons.IH [OF this] inv dom Cons.prems(3) show ?thesis by simp
    qed
  next
    case False
    with Cons show ?thesis by simp
  qed
qed

lemma dfs_inv_white:
  assumes "\<forall>n \<in> dom (map_of c). map_of c n = Some White"
  shows "dfs_inv out c []"
proof -
  have n: "map_of c n \<noteq> Some x" if "x \<noteq> White" for n x
    using assms that by (metis domI option.inject)
  then show ?thesis by (simp add: dfs_inv_def black_ok_def acyclic_def)
qed

text \<open>Searching every node of a graph whose edges stay inside it decides acyclicity.\<close>

lemma build_outgoing_fold:
  "fold_res (\<lambda>d e. if source_node_id e = target_node_id e
                  then Inl (SelfLoop (edge_id e) (source_node_id e))
                  else Inr (dict_append (source_node_id e) (target_node_id e) d)) d es =
   (case find (\<lambda>e. source_node_id e = target_node_id e) es of
      None \<Rightarrow> Inr (fold (\<lambda>e. dict_append (source_node_id e) (target_node_id e)) es d)
    | Some e \<Rightarrow> Inl (SelfLoop (edge_id e) (source_node_id e)))"
  by (induction es arbitrary: d) (auto split: option.splits)

lemma build_outgoing_eq:
  "build_outgoing es =
   (case find (\<lambda>e. source_node_id e = target_node_id e) es of
      None \<Rightarrow> Inr (group_by source_node_id target_node_id es)
    | Some e \<Rightarrow> Inl (SelfLoop (edge_id e) (source_node_id e)))"
  unfolding build_outgoing_def build_outgoing_fold group_by_def by (rule refl)

lemma dict_fromkeys_keys: "set (map fst (dict_fromkeys v ks)) = set ks"
proof -
  have "set (map fst (dict_fromkeys v ks)) = dom (map_of (dict_fromkeys v ks))"
    by (simp only: dom_map_of_conv_image_fst set_map)
  also have "\<dots> = set ks" by (auto simp: dom_def)
  finally show ?thesis .
qed

lemma group_by_values: "value_set (group_by key val xs) \<subseteq> val ` set xs"
proof
  fix v assume "v \<in> value_set (group_by key val xs)"
  then obtain k vs where kv: "(k, vs) \<in> set (group_by key val xs)" "v \<in> set vs"
    by (auto simp: value_set_def)
  have "dict_ok (fold (\<lambda>x. dict_append (key x) (val x)) xs d)" if "dict_ok d" for d
    using that by (induction xs arbitrary: d) (auto simp: dict_append_def)
  then have "dict_ok (group_by key val xs)" by (simp add: group_by_def)
  with kv have "vs = dict_get_or [] (group_by key val xs) k"
    by (simp add: dict_ok_map_of dict_get_or_def)
  with kv(2) show "v \<in> val ` set xs" by (auto simp: group_by_lookup)
qed

lemma validate_acyclic_iff:
  assumes "\<forall>e \<in> set (edges g). target_node_id e \<in> node_id ` set (nodes g)"
    and src: "\<forall>e \<in> set (edges g). source_node_id e \<in> node_id ` set (nodes g)"
  shows "validate_acyclic g = Inr () \<longleftrightarrow> acyclic (edge_rel g)"
proof (cases "find (\<lambda>e. source_node_id e = target_node_id e) (edges g)")
  case (Some e)
  then have "e \<in> set (edges g)" "source_node_id e = target_node_id e"
    by (auto simp: find_Some_iff)
  then have "(source_node_id e, source_node_id e) \<in> (edge_rel g)\<^sup>+"
    by (intro r_into_trancl) (force simp: edge_rel_def)
  then have "\<not> acyclic (edge_rel g)" by (auto simp: acyclic_def)
  with Some show ?thesis by (simp add: validate_acyclic_def build_outgoing_eq)
next
  case None
  let ?out = "group_by source_node_id target_node_id (edges g)"
  let ?c = "dict_fromkeys White (map node_id (nodes g))"
  have c: "map_of ?c n = (if n \<in> node_id ` set (nodes g) then Some White else None)" for n
    by simp
  have inv: "dfs_inv ?out ?c []" by (rule dfs_inv_white) (auto simp: dom_def split: if_splits)
  have dom: "dom (map_of ?c) = node_id ` set (nodes g)" by (auto simp: dom_def)
  then have keys: "set (map fst ?c) = dom (map_of ?c)" by (simp only: dict_fromkeys_keys) simp
  have acyc: "validate_acyclic g = Inr () \<longleftrightarrow> (\<exists>c'. dfs_starts ?out ?c (map fst ?c) = Inr c')"
    using None by (simp add: validate_acyclic_def build_outgoing_eq Let_def bind_res_Inr_iff)
  show ?thesis
  proof (cases "dfs_starts ?out ?c (map fst ?c)")
    case (Inr c')
    have "set (map fst ?c) \<subseteq> dom (map_of ?c)" using keys by blast
    from dfs_starts_done [OF Inr inv this]
    have black: "\<forall>n \<in> node_id ` set (nodes g). map_of c' n = Some Black" and "dfs_inv ?out c' []"
      using keys dom by auto
    then have "acyclic {(a, b). (a, b) \<in> edge_rel g \<and> map_of c' a = Some Black}"
      by (simp add: dfs_inv_def black_ok_def flip: succ_rel_outgoing) (simp add: succ_rel_def)
    moreover have "{(a, b). (a, b) \<in> edge_rel g \<and> map_of c' a = Some Black} = edge_rel g"
      using black src by (auto simp: edge_rel_def)
    ultimately show ?thesis using acyc Inr by auto
  next
    case (Inl e)
    have "set (map fst ?c) \<subseteq> dom (map_of ?c)" using keys by blast
    from dfs_starts_error [OF Inl inv this]
    have "\<exists>nb. (nb, nb) \<in> (edge_rel g)\<^sup>+"
      using assms(1) dom group_by_values [of source_node_id target_node_id "edges g"]
      by (auto simp: succ_rel_outgoing)
    then show ?thesis using acyc Inl by (auto simp: acyclic_def)
  qed
qed

section \<open>Acceptance\<close>

lemma validate_unique_node_ids_fold:
  "fold_res (\<lambda>seen n. if dict_has seen (node_id n) then Inl (DuplicateNodeId (node_id n))
                     else Inr (dict_set (node_id n) n seen)) d ns = Inr d' \<longleftrightarrow>
   distinct (map node_id ns) \<and> (\<forall>n \<in> set ns. \<not> dict_has d (node_id n)) \<and>
   d' = fold (\<lambda>n. dict_set (node_id n) n) ns d"
  by (induction ns arbitrary: d) (auto simp: dict_has_set image_iff)

lemma validate_unique_node_ids_iff:
  "validate_unique_node_ids g = Inr d \<longleftrightarrow> distinct (map node_id (nodes g)) \<and> d = nodes_by_id g"
  by (simp add: validate_unique_node_ids_def validate_unique_node_ids_fold nodes_by_id_def)
    (auto simp: dict_has_def)

lemma nodes_by_id_distinct:
  assumes "distinct (map node_id (nodes g))"
  shows "nodes_by_id g = map (\<lambda>n. (node_id n, n)) (nodes g)"
proof -
  have "fold (\<lambda>n. dict_set (node_id n) n) ns [] = map (\<lambda>n. (node_id n, n)) ns"
    if "distinct (map node_id ns)" for ns :: "'a graph_node list"
    using that
  proof (induction ns rule: rev_induct)
    case (snoc n ns)
    then have "\<not> dict_has (map (\<lambda>n. (node_id n, n)) ns) (node_id n)"
      by (force simp: dict_has_iff image_image)
    with snoc show ?case by (simp add: dict_set_new)
  qed simp
  with assms show ?thesis by (simp add: nodes_by_id_def)
qed

lemma nodes_by_id_has:
  "distinct (map node_id (nodes g)) \<Longrightarrow> dict_has (nodes_by_id g) i \<longleftrightarrow> i \<in> node_id ` set (nodes g)"
  by (simp add: nodes_by_id_distinct dict_has_iff image_image)

lemma nodes_by_id_get:
  assumes "distinct (map node_id (nodes g))"
  shows "map_of (nodes_by_id g) i = Some n \<longleftrightarrow> n \<in> set (nodes g) \<and> node_id n = i"
proof -
  have "distinct (map fst (map (\<lambda>n. (node_id n, n)) (nodes g)))"
    using assms by (simp add: comp_def)
  then show ?thesis
    unfolding nodes_by_id_distinct [OF assms] by (subst map_of_eq_Some_iff) auto
qed

lemma check_port_iff:
  assumes "distinct (map node_id (nodes g))" "i \<in> node_id ` set (nodes g)"
  shows "check_port (nodes_by_id g) ports err i p = Inr () \<longleftrightarrow> port_declared g ports i p"
proof -
  obtain n where n: "n \<in> set (nodes g)" "node_id n = i" using assms(2) by auto
  then have get: "map_of (nodes_by_id g) i = Some n" using nodes_by_id_get [OF assms(1)] by blast
  have uniq: "m = n" if "m \<in> set (nodes g)" "node_id m = i" for m
    using that n assms(1) by (auto simp: distinct_map dest: inj_onD)
  show ?thesis
  proof (cases p)
    case None
    then show ?thesis by (simp add: check_port_def port_declared_def)
  next
    case (Some port)
    have "port_declared g ports i p \<longleftrightarrow> port \<in> set (ports n)"
      unfolding port_declared_def Some option.case using n uniq by blast
    then show ?thesis by (simp add: check_port_def get Some)
  qed
qed

lemma validate_graph_iff_well_formed:
  "validate_graph g = Inr () \<longleftrightarrow> well_formed_graph g"
proof (cases "distinct (map node_id (nodes g))")
  case False
  then show ?thesis
    by (simp add: validate_graph_def bind_res_Inr_iff validate_unique_node_ids_iff well_formed_graph_def)
next
  case True
  note has = nodes_by_id_has [OF True]
  have refs: "validate_edge_node_references g (nodes_by_id g) = Inr () \<longleftrightarrow>
      (\<forall>e \<in> set (edges g). source_node_id e \<in> node_id ` set (nodes g) \<and>
         target_node_id e \<in> node_id ` set (nodes g))"
    by (simp add: validate_edge_node_references_def check_all_ok has) auto
  have ports: "validate_edge_port_references g (nodes_by_id g) = Inr () \<longleftrightarrow>
      (\<forall>e \<in> set (edges g). port_declared g output_ports (source_node_id e) (source_port e) \<and>
         port_declared g input_ports (target_node_id e) (target_port e))"
    if "\<forall>e \<in> set (edges g). source_node_id e \<in> node_id ` set (nodes g) \<and>
         target_node_id e \<in> node_id ` set (nodes g)"
    using that by (simp add: validate_edge_port_references_def check_all_ok bind_res_Inr_iff
        check_port_iff [OF True])
  have "validate_graph g = Inr () \<longleftrightarrow>
      distinct (map edge_id (edges g)) \<and> entry_node_id g \<in> node_id ` set (nodes g) \<and>
      validate_edge_node_references g (nodes_by_id g) = Inr () \<and>
      validate_edge_port_references g (nodes_by_id g) = Inr () \<and> validate_acyclic g = Inr ()"
    using True
    by (simp add: validate_graph_def bind_res_Inr_iff validate_unique_node_ids_iff
        validate_unique_edge_ids_def unique_keys_Inr_iff validate_entry_node_def has)
  also have "\<dots> \<longleftrightarrow> well_formed_graph g"
    unfolding refs well_formed_graph_def using ports validate_acyclic_iff [of g] True by blast
  finally show ?thesis .
qed

section \<open>Reachability\<close>

text \<open>What the ancestor loop has taken, plus what its frontier still reaches, never changes.\<close>

lemma ancestors_loop_reach:
  assumes "\<forall>a b. a \<in> seen \<longrightarrow> (a, b) \<in> succ_rel d \<longrightarrow> b \<in> seen \<or> b \<in> set f"
  shows "ancestors_loop d seen f = seen \<union> (succ_rel d)\<^sup>* `` set f"
  using assms
proof (induction d seen f rule: ancestors_loop.induct)
  case (1 d seen f)
  show ?case
  proof (cases "f = []")
    case True
    then show ?thesis by (simp add: ancestors_loop.simps)
  next
    case ne: False
    then have f: "set f = insert (last f) (set (butlast f))"
      by (metis append_butlast_last_id list.simps(15) rotate1.simps(2) set_rotate1)
    let ?r = "succ_rel d"
    have img: "?r\<^sup>* `` set f = ?r\<^sup>* `` {last f} \<union> ?r\<^sup>* `` set (butlast f)"
      by (subst f) blast
    show ?thesis
    proof (cases "last f \<in> seen")
      case True
      have "ancestors_loop d seen (butlast f) = seen \<union> ?r\<^sup>* `` set (butlast f)"
        using True ne f "1.prems" by (intro "1.IH"(1)) auto
      moreover have "?r\<^sup>* `` {last f} \<subseteq> seen \<union> ?r\<^sup>* `` set (butlast f)"
      proof
        fix y assume "y \<in> ?r\<^sup>* `` {last f}"
        then have "(last f, y) \<in> ?r\<^sup>*" by simp
        then show "y \<in> seen \<union> ?r\<^sup>* `` set (butlast f)"
        proof (induction rule: rtrancl_induct)
          case base
          with True show ?case by simp
        next
          case (step y z)
          then show ?case
          proof (cases "y \<in> seen")
            case True
            with step.hyps(2) "1.prems" f \<open>last f \<in> seen\<close> have "z \<in> seen \<or> z \<in> set (butlast f)" by auto
            then show ?thesis by auto
          next
            case False
            with step show ?thesis by (auto intro: rtrancl_into_rtrancl)
          qed
        qed
      qed
      ultimately show ?thesis unfolding img using ne True
        by (simp add: ancestors_loop.simps [of d seen f]) blast
    next
      case False
      let ?new = "dict_get_or [] d (last f)"
      have "ancestors_loop d (insert (last f) seen) (butlast f @ ?new) =
          insert (last f) seen \<union> ?r\<^sup>* `` set (butlast f @ ?new)"
        using False ne f "1.prems" by (intro "1.IH"(2)) (auto simp: succ_rel_def)
      moreover have "?r\<^sup>* `` {last f} = insert (last f) (?r\<^sup>* `` set ?new)"
        by (auto simp: succ_rel_def elim: converse_rtranclE
            intro: converse_rtrancl_into_rtrancl)
      ultimately show ?thesis unfolding img using ne False
        by (simp add: ancestors_loop.simps [of d seen f] Let_def Image_Un) blast
    qed
  qed
qed

lemma compute_ancestors_eq: "compute_ancestors g n = {m. (m, n) \<in> (edge_rel g)\<^sup>+}"
proof -
  let ?d = "group_by target_node_id source_node_id (edges g)"
  have "compute_ancestors g n = (succ_rel ?d)\<^sup>* `` set (dict_get_or [] ?d n)"
    by (simp add: compute_ancestors_def Let_def ancestors_loop_reach)
  also have "\<dots> = (succ_rel ?d)\<^sup>+ `` {n}"
    by (auto simp: succ_rel_def trancl_unfold_left relcomp_unfold)
  also have "\<dots> = {m. (m, n) \<in> (edge_rel g)\<^sup>+}"
    by (auto simp: succ_rel_incoming trancl_converse)
  finally show ?thesis .
qed

lemma reach_loop_reach:
  assumes "\<forall>a b. a \<in> v \<longrightarrow> (a, b) \<in> succ_rel d \<longrightarrow> b \<in> v \<or> a \<in> set f" "set f \<subseteq> v"
  shows "reach_loop d v f = (succ_rel d)\<^sup>* `` v"
  using assms
proof (induction d v f rule: reach_loop.induct)
  case (1 d v f)
  show ?case
  proof (cases "f = []")
    case True
    have "b \<in> v" if "(a, b) \<in> (succ_rel d)\<^sup>*" "a \<in> v" for a b
      using that by (induction rule: rtrancl_induct) (use "1.prems"(1) True in auto)
    then have "(succ_rel d)\<^sup>* `` v = v" by auto
    with True show ?thesis by (simp add: reach_loop.simps)
  next
    case ne: False
    then have f: "set f = insert (last f) (set (butlast f))"
      by (metis append_butlast_last_id list.simps(15) rotate1.simps(2) set_rotate1)
    let ?ns = "dict_get_or [] d (last f)"
    let ?p = "push_unvisited v (butlast f) ?ns"
    have p: "fst ?p = v \<union> set ?ns" "set (snd ?p) = set (butlast f) \<union> (set ?ns - v)"
      by (simp_all add: push_unvisited_visited push_unvisited_frontier)
    have "reach_loop d (fst ?p) (snd ?p) = (succ_rel d)\<^sup>* `` fst ?p"
    proof (rule "1.IH" [OF ne refl])
      show "\<forall>a b. a \<in> fst ?p \<longrightarrow> (a, b) \<in> succ_rel d \<longrightarrow> b \<in> fst ?p \<or> a \<in> set (snd ?p)"
      proof (intro allI impI)
        fix a b assume "a \<in> fst ?p" and ab: "(a, b) \<in> succ_rel d"
        then consider "a \<in> v" | "a \<in> set ?ns - v" using p(1) by auto
        then show "b \<in> fst ?p \<or> a \<in> set (snd ?p)"
        proof cases
          case 1
          with "1.prems"(1) ab f have "b \<in> v \<or> a = last f \<or> a \<in> set (butlast f)" by auto
          with ab p show ?thesis by (auto simp: succ_rel_def)
        next
          case 2
          with p(2) show ?thesis by auto
        qed
      qed
      show "set (snd ?p) \<subseteq> fst ?p" using "1.prems"(2) f p by auto
    qed
    also have "\<dots> = (succ_rel d)\<^sup>* `` v"
    proof -
      have "(succ_rel d)\<^sup>* `` set ?ns \<subseteq> (succ_rel d)\<^sup>* `` v"
        using "1.prems"(2) f by (auto simp: succ_rel_def intro: converse_rtrancl_into_rtrancl)
      with p(1) show ?thesis by (auto simp: Image_Un)
    qed
    finally show ?thesis using ne by (simp add: reach_loop.simps [of d v f] Let_def)
  qed
qed

lemma find_unreachable_nodes_eq:
  "find_unreachable_nodes g =
     filter (\<lambda>n. (entry_node_id g, n) \<notin> (edge_rel g)\<^sup>*) (map node_id (nodes g))"
proof -
  have "reach_loop (group_by source_node_id target_node_id (edges g)) {entry_node_id g} [entry_node_id g] =
      (edge_rel g)\<^sup>* `` {entry_node_id g}"
    by (subst reach_loop_reach) (auto simp: succ_rel_outgoing)
  then show ?thesis by (simp add: find_unreachable_nodes_def Let_def)
qed

section \<open>Rejection\<close>

text \<open>A cycle that is reported is there, and no dictionary read of the validation fails.\<close>

lemma build_outgoing_Inl:
  "build_outgoing es = Inl e \<Longrightarrow> \<exists>i n. e = SelfLoop i n"
  by (auto simp: build_outgoing_eq split: option.splits)

lemma build_outgoing_Inr:
  "build_outgoing es = Inr out \<Longrightarrow> out = group_by source_node_id target_node_id es"
  by (auto simp: build_outgoing_eq split: option.splits)

lemma validate_acyclic_Inl:
  assumes "validate_acyclic g = Inl e"
    and tgt: "\<forall>e \<in> set (edges g). target_node_id e \<in> node_id ` set (nodes g)"
  shows "(\<exists>i n. e = SelfLoop i n) \<or> (\<exists>nb. e = DirectedCycle nb \<and> (nb, nb) \<in> (edge_rel g)\<^sup>+)"
proof -
  let ?c = "dict_fromkeys White (map node_id (nodes g))"
  let ?out = "group_by source_node_id target_node_id (edges g)"
  have dom: "dom (map_of ?c) = node_id ` set (nodes g)" by (auto simp: dom_def)
  then have keys: "set (map fst ?c) \<subseteq> dom (map_of ?c)" by (simp only: dict_fromkeys_keys) simp
  have inv: "dfs_inv ?out ?c []" by (rule dfs_inv_white) (auto simp: dom_def split: if_splits)
  show ?thesis
  proof (cases "build_outgoing (edges g)")
    case (Inl e')
    with assms(1) build_outgoing_Inl [OF Inl] show ?thesis by (simp add: validate_acyclic_def)
  next
    case (Inr out)
    with assms(1) have "dfs_starts ?out ?c (map fst ?c) = Inl e"
      by (simp add: validate_acyclic_def build_outgoing_Inr [OF Inr] Let_def bind_res_Inl_iff)
    from dfs_starts_error [OF this inv keys] show ?thesis
      using tgt dom group_by_values [of source_node_id target_node_id "edges g"]
      by (auto simp: succ_rel_outgoing)
  qed
qed

lemma check_port_Inl:
  "check_port d ports err i p = Inl e \<Longrightarrow> dict_has d i \<Longrightarrow> \<exists>port. e = err port"
  by (auto simp: check_port_def dict_has_def split: option.splits if_splits)

lemma validate_graph_Inl:
  assumes "validate_graph g = Inl e"
  shows "(\<forall>k. e \<noteq> MissingKey k) \<and> (\<forall>nb. e = DirectedCycle nb \<longrightarrow> (nb, nb) \<in> (edge_rel g)\<^sup>+)"
proof (cases "validate_unique_node_ids g")
  case (Inl e')
  then have "validate_unique_node_ids g = Inl e" using assms by (simp add: validate_graph_def)
  moreover have "fold_res (\<lambda>seen n. if dict_has seen (node_id n) then Inl (DuplicateNodeId (node_id n))
                        else Inr (dict_set (node_id n) n seen)) d ns = Inl e \<Longrightarrow> \<exists>i. e = DuplicateNodeId i"
    for d and ns :: "'a graph_node list"
    by (induction ns arbitrary: d) (auto split: if_splits)
  ultimately show ?thesis by (auto simp: validate_unique_node_ids_def)
next
  case (Inr d)
  then have dist: "distinct (map node_id (nodes g))" and d: "d = nodes_by_id g"
    by (simp_all add: validate_unique_node_ids_iff)
  note has = nodes_by_id_has [OF dist]
  from assms Inr consider
      "validate_unique_edge_ids g = Inl e"
    | "validate_entry_node g d = Inl e"
    | "validate_edge_node_references g d = Inl e"
    | "validate_edge_node_references g d = Inr ()" "validate_edge_port_references g d = Inl e"
    | "validate_edge_node_references g d = Inr ()" "validate_acyclic g = Inl e"
    by (auto simp: validate_graph_def bind_res_Inl_iff)
  then show ?thesis
  proof cases
    case 1
    then show ?thesis
      by (auto simp: validate_unique_edge_ids_def bind_res_Inl_iff dest: unique_keys_Inl)
  next
    case 2
    then show ?thesis by (auto simp: validate_entry_node_def split: if_splits)
  next
    case 3
    then show ?thesis
      by (auto simp: validate_edge_node_references_def split: if_splits dest!: check_all_errorD)
  next
    case 4
    have "\<forall>e \<in> set (edges g). dict_has d (source_node_id e) \<and> dict_has d (target_node_id e)"
      using 4(1) by (auto simp: validate_edge_node_references_def check_all_ok split: if_splits)
    with 4(2) show ?thesis
      by (auto simp: validate_edge_port_references_def bind_res_Inl_iff dest!: check_all_errorD check_port_Inl)
  next
    case 5
    have "\<forall>e \<in> set (edges g). target_node_id e \<in> node_id ` set (nodes g)"
      using 5(1) by (auto simp: validate_edge_node_references_def check_all_ok d has split: if_splits)
    from validate_acyclic_Inl [OF 5(2) this] show ?thesis by auto
  qed
qed

end
