(* ===== verification/Workflow_Mapping.thy ===== *)
theory Workflow_Mapping
  imports Graph_Correct
begin

text \<open>
  Data mapping between workflow steps: the closed set of expression operators
  (\<open>engines/workflow/expression.py\<close>), the resolver of values, references and mappings
  (\<open>mapping.py\<close>), and the structural validation of a mapping against its graph together with
  the three-valued schema classification (\<open>mapping_validation.py\<close>).
\<close>

section \<open>Errors\<close>

datatype mapping_error =
    \<comment> \<open>\<open>WorkflowExpressionError\<close>\<close>
    TooManyOperands workflow_operator nat
  | NoOperands workflow_operator
  | NonNumericOperand workflow_operator nat string
  | LengthOperandCount nat
  | LengthOperandType string
    \<comment> \<open>\<open>OverflowError\<close> of the conversion of a huge integer to a double\<close>
  | FloatOverflow int
    \<comment> \<open>\<open>WorkflowMappingValidationError\<close>\<close>
  | PathTooDeep nat
  | TooManyValues string nat
  | ReferencePathTooLong string nat
  | ExpressionTooDeep string string nat
  | ExpressionTooWide string string nat
    \<comment> \<open>\<open>WorkflowReferenceError\<close>\<close>
  | UnknownSourceNode string string
  | SelfReference string
  | UndeclaredPort string string string
  | NotAnAncestor string string

section \<open>Expressions\<close>

definition evaluate_concat :: "float_ops \<Rightarrow> pyval list \<Rightarrow> mapping_error + pyval" where
  "evaluate_concat ops operands =
     (if operands = [] then Inl (NoOperands OP_CONCAT)
      else Inr (PStr (concat (map (py_str ops) operands))))"

fun numeric_operand ::
  "float_ops \<Rightarrow> workflow_operator \<Rightarrow> nat \<Rightarrow> pyval \<Rightarrow> mapping_error + f64" where
  "numeric_operand ops oper i (PInt n) =
     (case f_of_int ops n of None \<Rightarrow> Inl (FloatOverflow n) | Some x \<Rightarrow> Inr x)"
| "numeric_operand ops oper i (PFloat x) = Inr x"
| "numeric_operand ops oper i v = Inl (NonNumericOperand oper i (type_name v))"

fun numeric_operands ::
  "float_ops \<Rightarrow> workflow_operator \<Rightarrow> nat \<Rightarrow> pyval list \<Rightarrow> mapping_error + f64 list" where
  "numeric_operands ops oper i [] = Inr []"
| "numeric_operands ops oper i (v # vs) =
     bind_res (numeric_operand ops oper i v) (\<lambda>x.
     bind_res (numeric_operands ops oper (Suc i) vs) (\<lambda>xs. Inr (x # xs)))"

definition require_numeric_operands ::
  "float_ops \<Rightarrow> workflow_operator \<Rightarrow> pyval list \<Rightarrow> mapping_error + f64 list" where
  "require_numeric_operands ops oper operands =
     (if operands = [] then Inl (NoOperands oper) else numeric_operands ops oper 0 operands)"

definition evaluate_sum :: "float_ops \<Rightarrow> pyval list \<Rightarrow> mapping_error + pyval" where
  "evaluate_sum ops operands =
     bind_res (require_numeric_operands ops OP_SUM operands) (\<lambda>xs. Inr (PFloat (f_sum ops xs)))"

definition evaluate_subtract :: "float_ops \<Rightarrow> pyval list \<Rightarrow> mapping_error + pyval" where
  "evaluate_subtract ops operands =
     bind_res (require_numeric_operands ops OP_SUBTRACT operands)
       (\<lambda>xs. Inr (PFloat (f_sub ops (hd xs) (f_sum ops (tl xs)))))"

definition evaluate_length :: "pyval list \<Rightarrow> mapping_error + pyval" where
  "evaluate_length operands =
     (case operands of
        [PStr s] \<Rightarrow> Inr (PInt (int (length s)))
      | [PList xs] \<Rightarrow> Inr (PInt (int (length xs)))
      | [PDict d] \<Rightarrow> Inr (PInt (int (length d)))
      | [v] \<Rightarrow> Inl (LengthOperandType (type_name v))
      | _ \<Rightarrow> Inl (LengthOperandCount (length operands)))"

definition evaluate_expression ::
  "float_ops \<Rightarrow> workflow_operator \<Rightarrow> pyval list \<Rightarrow> mapping_error + pyval" where
  "evaluate_expression ops oper operands =
     (if MAX_EXPRESSION_OPERANDS < length operands
      then Inl (TooManyOperands oper (length operands))
      else (case oper of
              OP_CONCAT \<Rightarrow> evaluate_concat ops operands
            | OP_SUM \<Rightarrow> evaluate_sum ops operands
            | OP_SUBTRACT \<Rightarrow> evaluate_subtract ops operands
            | OP_LENGTH \<Rightarrow> evaluate_length operands))"

section \<open>Resolution\<close>

text \<open>
  \<open>(True, v)\<close> is \<^term>\<open>Some v\<close>, \<open>(False, None)\<close> is \<^const>\<open>None\<close>: a value that is \<open>None\<close>
  itself is \<^term>\<open>Some PNone\<close>.
\<close>

fun walk_path :: "pyval \<Rightarrow> path_segment list \<Rightarrow> pyval option" where
  "walk_path current [] = Some current"
| "walk_path current (Key k # path) =
     (case current of
        PDict d \<Rightarrow> (case dict_get d k of None \<Rightarrow> None | Some v \<Rightarrow> walk_path v path)
      | _ \<Rightarrow> None)"
| "walk_path current (Index i # path) =
     (case current of
        PList xs \<Rightarrow>
          (if - int (length xs) \<le> i \<and> i < int (length xs)
           then walk_path (xs ! nat (if i < 0 then i + int (length xs) else i)) path
           else None)
      | _ \<Rightarrow> None)"

definition resolve_path :: "pyval \<Rightarrow> path_segment list \<Rightarrow> mapping_error + pyval option" where
  "resolve_path data path =
     (if MAX_TRAVERSAL_DEPTH < length path then Inl (PathTooDeep (length path))
      else Inr (walk_path data path))"

type_synonym node_outputs = "(string, pyval) dict"

definition resolve_reference ::
  "workflow_reference \<Rightarrow> node_outputs \<Rightarrow> mapping_error + pyval option" where
  "resolve_reference r ctx =
     (case dict_get ctx (ref_source_node_id r) of
        None \<Rightarrow> Inr None
      | Some raw_output \<Rightarrow>
          resolve_path raw_output
            ((case ref_source_port r of None \<Rightarrow> [] | Some p \<Rightarrow> [Key p]) @ ref_path r))"

fun resolve_value ::
    "float_ops \<Rightarrow> workflow_value \<Rightarrow> node_outputs \<Rightarrow> mapping_error + pyval option"
  and resolve_operands ::
    "float_ops \<Rightarrow> workflow_value list \<Rightarrow> node_outputs \<Rightarrow> mapping_error + pyval list option" where
  "resolve_value ops (LiteralValue v) ctx = Inr (Some v)"
| "resolve_value ops (ReferenceValue r) ctx = resolve_reference r ctx"
| "resolve_value ops (ExpressionValue oper operands) ctx =
     bind_res (resolve_operands ops operands ctx) (\<lambda>found.
       case found of
         None \<Rightarrow> Inr None
       | Some vs \<Rightarrow> bind_res (evaluate_expression ops oper vs) (\<lambda>v. Inr (Some v)))"
| "resolve_operands ops [] ctx = Inr (Some [])"
| "resolve_operands ops (x # xs) ctx =
     bind_res (resolve_value ops x ctx) (\<lambda>found.
       case found of
         None \<Rightarrow> Inr None
       | Some v \<Rightarrow> bind_res (resolve_operands ops xs ctx) (\<lambda>rest. Inr (map_option (Cons v) rest)))"

definition resolve_field ::
  "float_ops \<Rightarrow> node_outputs \<Rightarrow> (string, pyval) dict \<times> string list \<Rightarrow> string \<times> workflow_value \<Rightarrow>
   mapping_error + (string, pyval) dict \<times> string list" where
  "resolve_field ops ctx acc field =
     bind_res (resolve_value ops (snd field) ctx) (\<lambda>found.
       case found of
         Some v \<Rightarrow> Inr (dict_set (fst field) v (fst acc), snd acc)
       | None \<Rightarrow> Inr (fst acc, snd acc @ [fst field]))"

definition resolve_mapping ::
  "float_ops \<Rightarrow> workflow_mapping \<Rightarrow> node_outputs \<Rightarrow>
   mapping_error + (string, pyval) dict \<times> string list" where
  "resolve_mapping ops m ctx = fold_res (resolve_field ops ctx) ([], []) m"

section \<open>Validation\<close>

definition validate_reference ::
  "'m workflow_graph \<Rightarrow> string \<Rightarrow> workflow_reference \<Rightarrow> mapping_error + unit" where
  "validate_reference g consumer r =
     (if MAX_REFERENCE_PATH_DEPTH < length (ref_path r)
      then Inl (ReferencePathTooLong (ref_source_node_id r) (length (ref_path r)))
      else (case dict_get (nodes_by_id g) (ref_source_node_id r) of
        None \<Rightarrow> Inl (UnknownSourceNode consumer (ref_source_node_id r))
      | Some source_node \<Rightarrow>
          if ref_source_node_id r = consumer then Inl (SelfReference consumer)
          else if (case ref_source_port r of None \<Rightarrow> False | Some p \<Rightarrow> p \<notin> set (output_ports source_node))
          then Inl (UndeclaredPort consumer (the (ref_source_port r)) (ref_source_node_id r))
          else if ref_source_node_id r \<notin> compute_ancestors g consumer
          then Inl (NotAnAncestor consumer (ref_source_node_id r))
          else Inr ()))"

fun validate_value ::
    "'m workflow_graph \<Rightarrow> string \<Rightarrow> workflow_value \<Rightarrow> string \<Rightarrow> nat \<Rightarrow> mapping_error + unit"
  and validate_operands ::
    "'m workflow_graph \<Rightarrow> string \<Rightarrow> workflow_value list \<Rightarrow> string \<Rightarrow> nat \<Rightarrow> mapping_error + unit" where
  "validate_value g consumer (LiteralValue v) field depth = Inr ()"
| "validate_value g consumer (ReferenceValue r) field depth = validate_reference g consumer r"
| "validate_value g consumer (ExpressionValue oper operands) field depth =
     (if MAX_EXPRESSION_NESTING_DEPTH < depth then Inl (ExpressionTooDeep field consumer depth)
      else if MAX_EXPRESSION_OPERANDS < length operands
      then Inl (ExpressionTooWide field consumer (length operands))
      else validate_operands g consumer operands field (Suc depth))"
| "validate_operands g consumer [] field depth = Inr ()"
| "validate_operands g consumer (x # xs) field depth =
     bind_res (validate_value g consumer x field depth)
       (\<lambda>_. validate_operands g consumer xs field depth)"

definition validate_mapping ::
  "'m workflow_graph \<Rightarrow> string \<Rightarrow> workflow_mapping \<Rightarrow> mapping_error + unit" where
  "validate_mapping g consumer m =
     (if MAX_MAPPING_VALUES_PER_NODE < length m then Inl (TooManyValues consumer (length m))
      else check_all (\<lambda>(field, value). validate_value g consumer value field 1) m)"

section \<open>Schema classification\<close>

datatype schema_outcome = VALID | INVALID | UNKNOWN

definition json_schema_type_check :: "string \<Rightarrow> (pyval \<Rightarrow> bool) option" where
  "json_schema_type_check t =
     (if t = ''string'' then Some (\<lambda>v. case v of PStr _ \<Rightarrow> True | _ \<Rightarrow> False)
      else if t = ''integer'' then Some (\<lambda>v. case v of PInt _ \<Rightarrow> True | _ \<Rightarrow> False)
      else if t = ''number'' then Some (\<lambda>v. case v of PInt _ \<Rightarrow> True | PFloat _ \<Rightarrow> True | _ \<Rightarrow> False)
      else if t = ''boolean'' then Some (\<lambda>v. case v of PBool _ \<Rightarrow> True | _ \<Rightarrow> False)
      else if t = ''object'' then Some (\<lambda>v. case v of PDict _ \<Rightarrow> True | _ \<Rightarrow> False)
      else if t = ''array'' then Some (\<lambda>v. case v of PList _ \<Rightarrow> True | _ \<Rightarrow> False)
      else if t = ''null'' then Some (\<lambda>v. v = PNone)
      else None)"

definition classify_against_schema :: "pyval \<Rightarrow> (string, pyval) dict option \<Rightarrow> schema_outcome" where
  "classify_against_schema v schema =
     (case schema of
        None \<Rightarrow> UNKNOWN
      | Some sch \<Rightarrow>
          (case dict_get sch ''type'' of
             Some (PStr declared) \<Rightarrow>
               (case json_schema_type_check declared of
                  None \<Rightarrow> UNKNOWN
                | Some check \<Rightarrow> if check v then VALID else INVALID)
           | _ \<Rightarrow> UNKNOWN))"

end
