(* ===== verification/Mapping_Correct.thy ===== *)
theory Mapping_Correct
  imports Workflow_Mapping
begin

text \<open>
  Correctness of data mapping: on which operands each operator succeeds, what a resolution depends
  on (the ancestors of the consuming node, once the mapping is validated), and the shape of its
  result.
\<close>


section \<open>Operators\<close>

lemma numeric_operands_length:
  "numeric_operands ops oper i vs = Inr xs \<Longrightarrow> length xs = length vs"
  by (induction ops oper i vs arbitrary: xs rule: numeric_operands.induct)
    (auto simp: bind_res_Inr_iff)

text \<open>A number \<open>float()\<close> converts: every double, and the integers in the range of doubles.\<close>

definition convertible :: "float_ops \<Rightarrow> pyval \<Rightarrow> bool" where
  "convertible ops v \<longleftrightarrow> (case v of PInt n \<Rightarrow> f_of_int ops n \<noteq> None | PFloat _ \<Rightarrow> True | _ \<Rightarrow> False)"

lemma numeric_operand_ok: "ok (numeric_operand ops oper i v) \<longleftrightarrow> convertible ops v"
  by (cases v) (auto simp: convertible_def split: option.splits)

lemma numeric_operands_ok: "ok (numeric_operands ops oper i vs) \<longleftrightarrow> (\<forall>v \<in> set vs. convertible ops v)"
proof (induction vs arbitrary: i)
  case Nil
  then show ?case by simp
next
  case (Cons v vs)
  have "ok (bind_res a (\<lambda>x. bind_res b (\<lambda>y. Inr (x # y)))) \<longleftrightarrow> ok a \<and> ok b"
    for a :: "mapping_error + f64" and b
    by (cases a; cases b) auto
  with Cons numeric_operand_ok show ?case by simp
qed

text \<open>
  When an operator succeeds, and on what: the closed set of operators is total on well-typed
  operands.
\<close>

definition operands_ok :: "float_ops \<Rightarrow> workflow_operator \<Rightarrow> pyval list \<Rightarrow> bool" where
  "operands_ok ops oper vs \<longleftrightarrow> length vs \<le> 64 \<and>
     (case oper of
        OP_CONCAT \<Rightarrow> vs \<noteq> []
      | OP_LENGTH \<Rightarrow> (\<exists>v. vs = [v] \<and> (case v of PStr _ \<Rightarrow> True | PList _ \<Rightarrow> True | PDict _ \<Rightarrow> True | _ \<Rightarrow> False))
      | _ \<Rightarrow> vs \<noteq> [] \<and> (\<forall>v \<in> set vs. convertible ops v))"

lemma evaluate_length_ok:
  "ok (evaluate_length vs) \<longleftrightarrow>
     (\<exists>v. vs = [v] \<and> (case v of PStr _ \<Rightarrow> True | PList _ \<Rightarrow> True | PDict _ \<Rightarrow> True | _ \<Rightarrow> False))"
proof (cases vs)
  case Nil
  then show ?thesis by (simp add: evaluate_length_def)
next
  case (Cons v ws)
  then show ?thesis
    by (cases ws; cases v) (simp_all add: evaluate_length_def)
qed

lemma ok_bind_Inr: "ok (bind_res r (\<lambda>x. Inr (f x))) \<longleftrightarrow> ok r"
  by (cases r) auto

lemma evaluate_expression_ok_iff: "ok (evaluate_expression ops oper vs) \<longleftrightarrow> operands_ok ops oper vs"
  by (cases oper) (auto simp: evaluate_expression_def operands_ok_def MAX_EXPRESSION_OPERANDS_def
      evaluate_concat_def evaluate_sum_def evaluate_subtract_def require_numeric_operands_def
      evaluate_length_ok ok_bind_Inr numeric_operands_ok)

section \<open>Paths\<close>

lemma walk_path_append:
  "walk_path v (p @ q) = (case walk_path v p of None \<Rightarrow> None | Some w \<Rightarrow> walk_path w q)"
  by (induction v p rule: walk_path.induct)
    (auto split: pyval.splits option.splits)

section \<open>What a resolution depends on\<close>

text \<open>The source nodes a value reads.\<close>

primrec value_sources :: "workflow_value \<Rightarrow> string set" where
  "value_sources (LiteralValue v) = {}"
| "value_sources (ReferenceValue r) = {ref_source_node_id r}"
| "value_sources (ExpressionValue oper xs) = \<Union> (set (map value_sources xs))"

lemma resolve_value_cong:
  "(\<forall>n \<in> value_sources v. map_of ctx n = map_of ctx' n) \<Longrightarrow>
     resolve_value ops v ctx = resolve_value ops v ctx'"
  "(\<forall>n \<in> \<Union> (value_sources ` set vs). map_of ctx n = map_of ctx' n) \<Longrightarrow>
     resolve_operands ops vs ctx = resolve_operands ops vs ctx'"
proof (induction ops v ctx and ops vs ctx rule: resolve_value_resolve_operands.induct)
  case (2 ops r ctx)
  then show ?case by (simp add: resolve_reference_def)
next
  case (3 ops oper operands ctx)
  then show ?case by simp
next
  case (5 ops x xs ctx)
  then have "resolve_value ops x ctx = resolve_value ops x ctx'" by simp
  moreover have "resolve_operands ops xs ctx = resolve_operands ops xs ctx'"
    if "resolve_value ops x ctx = Inr (Some v)" for v
    using 5 that by simp
  ultimately show ?case
    by (cases "resolve_value ops x ctx'") (auto split: option.splits)
qed simp_all

lemma validate_reference_Inr:
  "validate_reference g c r = Inr () \<Longrightarrow>
     ref_source_node_id r \<in> compute_ancestors g c \<and> ref_source_node_id r \<noteq> c \<and>
     length (ref_path r) \<le> 32"
  by (auto simp: validate_reference_def MAX_REFERENCE_PATH_DEPTH_def split: if_splits option.splits)

lemma validate_value_sources:
  "validate_value g c v field d = Inr () \<Longrightarrow> value_sources v \<subseteq> compute_ancestors g c"
  "validate_operands g c vs field d = Inr () \<Longrightarrow> \<Union> (value_sources ` set vs) \<subseteq> compute_ancestors g c"
  by (induction g c v field d and g c vs field d rule: validate_value_validate_operands.induct)
    (auto simp: bind_res_Inr_iff split: if_splits dest: validate_reference_Inr)

text \<open>
  The resolution loop reads only the outputs its values mention, and a mapping that passed
  validation mentions ancestors only.
\<close>

lemma resolve_mapping_cong:
  assumes "\<forall>(f, v) \<in> set m. \<forall>n \<in> value_sources v. map_of ctx n = map_of ctx' n"
  shows "resolve_mapping ops m ctx = resolve_mapping ops m ctx'"
  unfolding resolve_mapping_def
proof (rule fold_res_cong)
  fix acc field assume "field \<in> set m"
  then have "resolve_value ops (snd field) ctx = resolve_value ops (snd field) ctx'"
    using assms by (intro resolve_value_cong) auto
  then show "resolve_field ops ctx acc field = resolve_field ops ctx' acc field"
    by (simp only: resolve_field_def)
qed

lemma validate_mapping_resolution:
  assumes "validate_mapping g c m = Inr ()"
    and "\<forall>n. (n, c) \<in> (edge_rel g)\<^sup>+ \<longrightarrow> map_of ctx n = map_of ctx' n"
  shows "resolve_mapping ops m ctx = resolve_mapping ops m ctx'"
proof (rule resolve_mapping_cong, clarify)
  fix f v n assume "(f, v) \<in> set m" "n \<in> value_sources v"
  moreover have "\<forall>(f, v) \<in> set m. validate_value g c v f 1 = Inr ()"
    using assms(1) by (auto simp: validate_mapping_def check_all_ok split: if_splits)
  ultimately have "n \<in> compute_ancestors g c" using validate_value_sources(1) by fastforce
  with assms(2) show "map_of ctx n = map_of ctx' n" by (simp add: compute_ancestors_eq)
qed

section \<open>Shape of the result\<close>

text \<open>Every field of the mapping is either resolved or reported missing, in its order.\<close>

lemma resolve_field_found:
  "resolve_value ops v ctx = Inr None \<Longrightarrow> resolve_field ops ctx (d, ms) (f, v) = Inr (d, ms @ [f])"
  "resolve_value ops v ctx = Inr (Some x) \<Longrightarrow>
     resolve_field ops ctx (d, ms) (f, v) = Inr (dict_set f x d, ms)"
  by (simp_all add: resolve_field_def)

lemma resolve_mapping_fold:
  assumes "fold_res (resolve_field ops ctx) (d, ms) m = Inr (d', ms')"
    and "dict_ok m" "\<forall>f \<in> fst ` set m. \<not> dict_has d f"
  shows "d' = d @ concat (map (\<lambda>(f, v). case resolve_value ops v ctx of
                   Inr (Some x) \<Rightarrow> [(f, x)] | _ \<Rightarrow> []) m) \<and>
     ms' = ms @ map fst (filter (\<lambda>(f, v). resolve_value ops v ctx = Inr None) m)"
  using assms
proof (induction m arbitrary: d ms)
  case Nil
  then show ?case by simp
next
  case (Cons p m)
  obtain f v where p: "p = (f, v)" by (cases p)
  have ok: "dict_ok m" and fresh: "f \<notin> fst ` set m"
    using Cons.prems(2) by (auto simp: dict_ok_def p)
  from Cons.prems(1) obtain found where found: "resolve_value ops v ctx = Inr found"
    by (auto simp: p bind_res_Inr_iff resolve_field_def)
  show ?case
  proof (cases found)
    case None
    with Cons.prems(1) found p have "fold_res (resolve_field ops ctx) (d, ms @ [f]) m = Inr (d', ms')"
      by (simp add: resolve_field_found)
    from Cons.IH [OF this ok] Cons.prems(3) show ?thesis by (simp add: p found None)
  next
    case (Some x)
    with Cons.prems(1) found p
    have run: "fold_res (resolve_field ops ctx) (dict_set f x d, ms) m = Inr (d', ms')"
      by (simp add: resolve_field_found)
    have new: "\<not> dict_has d f" using Cons.prems(3) by (simp add: p)
    have "\<forall>f' \<in> fst ` set m. \<not> dict_has (dict_set f x d) f'"
      using Cons.prems(3) fresh by (auto simp: dict_has_set)
    from Cons.IH [OF run ok this] show ?thesis by (simp add: p found Some dict_set_new [OF new])
  qed
qed

lemma resolve_mapping_shape:
  assumes "resolve_mapping ops m ctx = Inr (resolved, missing)" "dict_ok m"
  shows "resolved = concat (map (\<lambda>(f, v). case resolve_value ops v ctx of
                   Inr (Some x) \<Rightarrow> [(f, x)] | _ \<Rightarrow> []) m) \<and>
     missing = map fst (filter (\<lambda>(f, v). resolve_value ops v ctx = Inr None) m)"
  using resolve_mapping_fold [of ops ctx "[]" "[]" m resolved missing] assms
  by (simp add: resolve_mapping_def dict_has_def)

section \<open>Growing contexts\<close>

text \<open>More node outputs never change a value that was found.\<close>

lemma resolve_value_mono:
  "map_of ctx \<subseteq>\<^sub>m map_of ctx' \<Longrightarrow> resolve_value ops v ctx = Inr (Some x) \<Longrightarrow>
     resolve_value ops v ctx' = Inr (Some x)"
  "map_of ctx \<subseteq>\<^sub>m map_of ctx' \<Longrightarrow> resolve_operands ops vs ctx = Inr (Some xs) \<Longrightarrow>
     resolve_operands ops vs ctx' = Inr (Some xs)"
proof (induction ops v ctx and ops vs ctx arbitrary: x and xs rule: resolve_value_resolve_operands.induct)
  case (2 ops r ctx)
  then show ?case
    by (auto simp: resolve_reference_def map_le_def dom_def split: option.splits)
next
  case (3 ops oper operands ctx)
  then show ?case by (auto simp: bind_res_Inr_iff split: option.splits)
next
  case (5 ops y ys ctx)
  then obtain w ws where "resolve_value ops y ctx = Inr (Some w)" "resolve_operands ops ys ctx = Inr (Some ws)"
      "xs = w # ws"
    by (auto simp: bind_res_Inr_iff split: option.splits)
  with 5 show ?case by simp
qed simp_all

end
