(* ===== verification/Step_Evaluator.thy ===== *)
theory Step_Evaluator
  imports Workflow_State Mapping_Correct
begin

text \<open>
  Step execution and compensation (\<open>engines/workflow/evaluator.py\<close>).  The capability dispatcher
  and the approval manager are arguments: functions over an environment of any type, which they
  may change and in which they may fail.  A step's sleeps between attempts are returned as the
  list of the delays asked for; durations measured with the wall clock are not modelled.
\<close>

section \<open>Interfaces\<close>

text \<open>
  What an attempt may fail with: an exception of the dispatcher (its text), a mapping that the
  Pydantic model refuses, an error of the resolver, or fields that did not resolve.
\<close>

datatype step_failure =
    DispatchFailure string
  | MalformedMapping string
  | MappingFailure mapping_error
  | UnresolvedFields string "string list"

type_synonym 'env dispatcher =
  "string \<Rightarrow> (string, pyval) dict \<Rightarrow> pyval \<Rightarrow> 'env \<Rightarrow> (string + pyval) \<times> 'env"

text \<open>
  \<open>parse_mapping\<close> is \<open>WorkflowMapping.model_validate\<close> (Pydantic), \<open>create_request\<close> the approval
  manager's operation (instance, step, role, tenant), \<open>show_failure\<close> the text of an exception.
\<close>

record 'env evaluator_deps =
  ev_floats :: float_ops
  ev_parse_mapping :: "(string, pyval) dict \<Rightarrow> workflow_mapping option"
  ev_create_request :: "string \<Rightarrow> string \<Rightarrow> string \<Rightarrow> string \<Rightarrow> 'env \<Rightarrow> 'env"
  ev_show_failure :: "step_failure \<Rightarrow> string"
  ev_default_retry :: retry_policy

section \<open>Mapping of a step's inputs\<close>

fun json_safe_output :: "pyval \<Rightarrow> pyval" where
  "json_safe_output (PModel d) = PDict d"
| "json_safe_output v = v"

definition mapping_read_view :: "(string, pyval) dict \<Rightarrow> (string, pyval) dict" where
  "mapping_read_view outs = map (\<lambda>(step_id, v). (step_id, json_safe_output v)) outs"

definition resolve_step_mapping ::
  "'env evaluator_deps \<Rightarrow> string \<Rightarrow> (string, pyval) dict \<Rightarrow> workflow_instance \<Rightarrow>
   step_failure + (string, pyval) dict" where
  "resolve_step_mapping deps step_id raw inst =
     (case ev_parse_mapping deps raw of
        None \<Rightarrow> Inl (MalformedMapping step_id)
      | Some m \<Rightarrow>
          (case resolve_mapping (ev_floats deps) m
                  (mapping_read_view (wc_step_outputs (wi_context inst))) of
             Inl e \<Rightarrow> Inl (MappingFailure e)
           | Inr (resolved, missing) \<Rightarrow>
               if missing \<noteq> [] then Inl (UnresolvedFields step_id missing) else Inr resolved))"

section \<open>Executing a step\<close>

definition AUTHZ_CONTEXT_KEY :: string where "AUTHZ_CONTEXT_KEY = ''_authz_context''"

text \<open>\<open>if step.capability_name and capability_dispatcher\<close>: both present, the name not empty.\<close>

definition dispatch_target ::
  "'env dispatcher option \<Rightarrow> string option \<Rightarrow> ('env dispatcher \<times> string) option" where
  "dispatch_target disp cap =
     (case (disp, cap) of
        (Some d, Some c) \<Rightarrow> if c = [] then None else Some (d, c)
      | _ \<Rightarrow> None)"

definition attempt_step ::
  "'env evaluator_deps \<Rightarrow> 'env dispatcher option \<Rightarrow> workflow_instance \<Rightarrow> workflow_step \<Rightarrow> 'env \<Rightarrow>
   (step_failure + pyval) \<times> 'env" where
  "attempt_step deps disp inst step env =
     (case dispatch_target disp (ws_capability_name step) of
        None \<Rightarrow> (Inr (PStr (''Step '' @ ws_id step @ '' executed successfully'')), env)
      | Some (d, cap) \<Rightarrow>
          (let authz = (case dict_get (ws_parameters step) AUTHZ_CONTEXT_KEY of
                          None \<Rightarrow> PDict [] | Some a \<Rightarrow> a);
               params = dict_pop AUTHZ_CONTEXT_KEY (ws_parameters step);
               call = (case ws_mapping step of
                         None \<Rightarrow> Inr params
                       | Some raw \<Rightarrow>
                           bind_res (resolve_step_mapping deps (ws_id step) raw inst)
                             (\<lambda>resolved. Inr (dict_update params resolved)))
           in case call of
                Inl e \<Rightarrow> (Inl e, env)
              | Inr ps \<Rightarrow>
                  (case d cap ps authz env of
                     (Inl msg, env') \<Rightarrow> (Inl (DispatchFailure msg), env')
                   | (Inr v, env') \<Rightarrow> (Inr v, env'))))"

definition record_success :: "workflow_instance \<Rightarrow> workflow_step \<Rightarrow> pyval \<Rightarrow> workflow_instance" where
  "record_success inst step out =
     inst\<lparr>wi_context := (wi_context inst)
            \<lparr>wc_step_outputs := dict_set (ws_id step) out (wc_step_outputs (wi_context inst))\<rparr>,
          wi_compensation_stack := wi_compensation_stack inst @
            (case ws_compensation_action step of None \<Rightarrow> [] | Some a \<Rightarrow> [a])\<rparr>"

record 'env step_run =
  sr_result :: execution_result
  sr_instance :: workflow_instance
  sr_env :: 'env
  sr_delays :: "f64 list"

definition retry_delay :: "'env evaluator_deps \<Rightarrow> retry_policy \<Rightarrow> nat \<Rightarrow> f64" where
  "retry_delay deps policy attempts =
     f_mul (ev_floats deps) (initial_delay_seconds policy)
       (f_pow (ev_floats deps) (backoff_factor policy) (attempts - 1))"

text \<open>
  The retry loop.  The first argument is what is left of \<open>max_attempts\<close>; \<open>attempts\<close> counts the
  attempts made, \<open>last_error\<close> is the failure of the latest one.
\<close>

fun retry_loop ::
  "nat \<Rightarrow> 'env evaluator_deps \<Rightarrow> 'env dispatcher option \<Rightarrow> retry_policy \<Rightarrow> workflow_instance \<Rightarrow>
   workflow_step \<Rightarrow> nat \<Rightarrow> step_failure option \<Rightarrow> f64 list \<Rightarrow> 'env \<Rightarrow> 'env step_run" where
  "retry_loop 0 deps disp policy inst step attempts last_error delays env =
     \<lparr>sr_result = \<lparr>er_step_id = ws_id step, er_success = False, er_output = PNone,
        er_error = Some (case last_error of
                           None \<Rightarrow> ''Step execution failed'' | Some e \<Rightarrow> ev_show_failure deps e),
        er_attempts = attempts\<rparr>,
      sr_instance = inst, sr_env = env, sr_delays = delays\<rparr>"
| "retry_loop (Suc left) deps disp policy inst step attempts last_error delays env =
     (case attempt_step deps disp inst step env of
        (Inr out, env') \<Rightarrow>
          \<lparr>sr_result = \<lparr>er_step_id = ws_id step, er_success = True, er_output = out, er_error = None,
             er_attempts = Suc attempts\<rparr>,
           sr_instance = record_success inst step out, sr_env = env', sr_delays = delays\<rparr>
      | (Inl e, env') \<Rightarrow>
          retry_loop left deps disp policy inst step (Suc attempts) (Some e)
            (if left = 0 then delays else delays @ [retry_delay deps policy (Suc attempts)]) env')"

definition execute_step ::
  "'env evaluator_deps \<Rightarrow> 'env dispatcher option \<Rightarrow> workflow_instance \<Rightarrow> workflow_step \<Rightarrow> 'env \<Rightarrow>
   (state_error \<times> 'env) + 'env step_run" where
  "execute_step deps disp inst step env =
     (if ws_is_approval_step step then
        (let role = (case ws_required_approval_role step of
                       None \<Rightarrow> ''APPROVAL_ROLE'' | Some [] \<Rightarrow> ''APPROVAL_ROLE'' | Some r \<Rightarrow> r);
             env' = ev_create_request deps (wi_id inst) (ws_id step) role (wi_tenant_id inst) env
         in case transition inst WS_WAITING of
              Inl e \<Rightarrow> Inl (e, env')
            | Inr inst' \<Rightarrow>
                Inr \<lparr>sr_result = \<lparr>er_step_id = ws_id step, er_success = True,
                        er_output = PDict [(''approval_status'', PStr ''WAITING_APPROVAL''),
                                           (''required_role'', PStr role)],
                        er_error = None, er_attempts = 1\<rparr>,
                     sr_instance = inst', sr_env = env', sr_delays = []\<rparr>)
      else
        (let policy = (case ws_retry_policy step of None \<Rightarrow> ev_default_retry deps | Some p \<Rightarrow> p)
         in Inr (retry_loop (max_attempts policy) deps disp policy inst step 0 None [] env)))"

section \<open>Compensation\<close>

datatype compensation_status = COMPENSATED | COMPENSATION_FAILED string

record compensation_record =
  cr_action_id :: string
  cr_name :: string
  cr_status :: compensation_status

definition compensate_one ::
  "'env dispatcher option \<Rightarrow> compensation_action \<Rightarrow> 'env \<Rightarrow> compensation_status \<times> 'env" where
  "compensate_one disp action env =
     (case dispatch_target disp (ca_capability_name action) of
        None \<Rightarrow> (COMPENSATED, env)
      | Some (d, cap) \<Rightarrow>
          (let authz = (case dict_get (ca_parameters action) AUTHZ_CONTEXT_KEY of
                          None \<Rightarrow> PDict [] | Some a \<Rightarrow> a);
               params = dict_pop AUTHZ_CONTEXT_KEY (ca_parameters action)
           in case d cap params authz env of
                (Inl msg, env') \<Rightarrow> (COMPENSATION_FAILED msg, env')
              | (Inr v, env') \<Rightarrow> (COMPENSATED, env')))"

text \<open>The \<open>while\<close> loop pops from the end of the list until it is empty.\<close>

function compensation_loop ::
  "'env dispatcher option \<Rightarrow> compensation_action list \<Rightarrow> compensation_record list \<Rightarrow> 'env \<Rightarrow>
   compensation_record list \<times> 'env" where
  "compensation_loop disp stack results env =
     (if stack = [] then (results, env)
      else
        (let action = last stack; r = compensate_one disp action env
         in compensation_loop disp (butlast stack)
              (results @ [\<lparr>cr_action_id = ca_id action, cr_name = ca_name action, cr_status = fst r\<rparr>])
              (snd r)))"
  by pat_completeness auto
termination
  by (relation "measure (\<lambda>(disp, stack, results, env). length stack)") auto

declare compensation_loop.simps [simp del]

definition execute_compensation_stack ::
  "'env dispatcher option \<Rightarrow> workflow_instance \<Rightarrow> 'env \<Rightarrow>
   compensation_record list \<times> workflow_instance \<times> 'env" where
  "execute_compensation_stack disp inst env =
     (let r = compensation_loop disp (wi_compensation_stack inst) [] env
      in (fst r, inst\<lparr>wi_compensation_stack := []\<rparr>, snd r))"

section \<open>Retries\<close>

text \<open>
  Every branch of the loop at once: the number of attempts stays within the budget, a success
  records its output and its compensation, and a failure leaves the instance untouched, having
  slept once between any two attempts.
\<close>

lemma retry_loop_attempts:
  "er_attempts (sr_result (retry_loop left deps disp policy inst step attempts e ds env)) \<le> attempts + left"
proof (induction left arbitrary: attempts e ds env)
  case 0
  then show ?case by simp
next
  case (Suc left)
  from Suc.IH [of "Suc attempts"] show ?case by (auto split: prod.split sum.split)
qed

lemma retry_loop_progress:
  "0 < left \<Longrightarrow>
     attempts < er_attempts (sr_result (retry_loop left deps disp policy inst step attempts e ds env))"
proof (induction left arbitrary: attempts e ds env)
  case 0
  then show ?case by simp
next
  case (Suc left)
  have "Suc attempts \<le> er_attempts (sr_result (retry_loop left deps disp policy inst step (Suc attempts) e' ds' env'))"
    for e' ds' env'
    using Suc.IH [of "Suc attempts" e' ds' env'] by (cases left) auto
  then show ?case by (auto simp: Suc_le_eq split: prod.split sum.split)
qed

lemma retry_loop_instance:
  "sr_instance (retry_loop left deps disp policy inst step attempts e ds env) =
     (let r = sr_result (retry_loop left deps disp policy inst step attempts e ds env)
      in if er_success r then record_success inst step (er_output r) else inst)"
  by (induction left arbitrary: attempts e ds env) (auto simp: Let_def split: prod.split sum.split)

lemma retry_loop_delays:
  "sr_delays (retry_loop left deps disp policy inst step attempts e ds env) =
     ds @ map (retry_delay deps policy) [Suc attempts ..<
       er_attempts (sr_result (retry_loop left deps disp policy inst step attempts e ds env))]"
proof (induction left arbitrary: attempts e ds env)
  case 0
  then show ?case by simp
next
  case (Suc left)
  show ?case
  proof (cases "attempt_step deps disp inst step env")
    case (Pair r env')
    show ?thesis
    proof (cases r)
      case (Inr out)
      then show ?thesis by (simp add: Pair)
    next
      case (Inl err)
      show ?thesis
      proof (cases "left = 0")
        case True
        then show ?thesis by (simp add: Pair Inl)
      next
        case False
        let ?n = "er_attempts (sr_result (retry_loop left deps disp policy inst step (Suc attempts)
            (Some err) (ds @ [retry_delay deps policy (Suc attempts)]) env'))"
        have "Suc attempts < ?n" using False by (intro retry_loop_progress) simp
        then have "[Suc attempts ..< ?n] = Suc attempts # [Suc (Suc attempts) ..< ?n]"
          by (rule upt_conv_Cons)
        then show ?thesis using False by (simp add: Pair Inl Suc.IH)
      qed
    qed
  qed
qed

section \<open>Compensation order\<close>

fun compensate_all ::
  "'env dispatcher option \<Rightarrow> compensation_action list \<Rightarrow> 'env \<Rightarrow> compensation_record list \<times> 'env" where
  "compensate_all disp [] env = ([], env)"
| "compensate_all disp (a # as) env =
     (let r = compensate_one disp a env; rest = compensate_all disp as (snd r)
      in (\<lparr>cr_action_id = ca_id a, cr_name = ca_name a, cr_status = fst r\<rparr> # fst rest, snd rest))"

lemma compensation_loop_rev:
  "compensation_loop disp stack results env =
     (results @ fst (compensate_all disp (rev stack) env), snd (compensate_all disp (rev stack) env))"
proof (induction stack arbitrary: results env rule: rev_induct)
  case Nil
  then show ?case by (simp add: compensation_loop.simps)
next
  case (snoc a stack)
  then show ?case by (subst compensation_loop.simps) (simp add: Let_def)
qed

lemma compensate_all_records:
  "map (\<lambda>r. (cr_action_id r, cr_name r)) (fst (compensate_all disp as env)) =
     map (\<lambda>a. (ca_id a, ca_name a)) as"
  by (induction as arbitrary: env) (auto simp: Let_def)

end
