(* ===== verification/Graph_Compat.thy ===== *)
theory Graph_Compat
  imports Graph_Correct
begin

text \<open>
  The compatibility adapter between flat step lists and graphs
  (\<open>engines/workflow/graph_compat.py\<close>).  A step's non-structural fields ride in the node's
  metadata under one namespaced key; the record \<open>step_metadata\<close> is that entry, with a field for
  each key the adapter reads (absent keys are \<^const>\<open>None\<close>).  The JSON dump of a retry policy or
  of a compensation action is represented by the object it reloads to.
\<close>

section \<open>Definitions\<close>

record step_metadata =
  sm_name :: "string option"
  sm_is_approval_step :: "bool option"
  sm_required_approval_role :: "string option"
  sm_retry_policy :: "retry_policy option"
  sm_compensation_action :: "compensation_action option"
  sm_on_failure_continue :: "bool option"

datatype compat_error =
    GraphViolation graph_violation      \<comment> \<open>\<open>WorkflowGraphValidationError\<close>\<close>
  | EmptySteps                          \<comment> \<open>\<open>WorkflowGraphConversionError\<close>, as the next four\<close>
  | BranchingGraph
  | EntryHasIncoming string
  | VisitedTwice string
  | DisconnectedGraph string nat nat
  | StepValidation string               \<comment> \<open>the step constructor refuses a non-object mapping\<close>
  | MissingDegree string                \<comment> \<open>a \<open>KeyError\<close> of the degree counters\<close>

definition is_conversion_error :: "compat_error \<Rightarrow> bool" where
  "is_conversion_error e \<longleftrightarrow>
     (case e of GraphViolation _ \<Rightarrow> False | StepValidation _ \<Rightarrow> False | MissingDegree _ \<Rightarrow> False
      | _ \<Rightarrow> True)"

definition MAPPING_CONFIG_KEY :: string where "MAPPING_CONFIG_KEY = ''mapping''"

definition step_to_node :: "workflow_step \<Rightarrow> step_metadata graph_node" where
  "step_to_node s =
     \<lparr>node_id = ws_id s, node_type = ''capability'', gn_capability_name = ws_capability_name s,
      gn_config = (case ws_mapping s of
                     None \<Rightarrow> ws_parameters s
                   | Some m \<Rightarrow> dict_set MAPPING_CONFIG_KEY (PDict m) (ws_parameters s)),
      input_ports = [], output_ports = [],
      gn_metadata = Some
        \<lparr>sm_name = Some (ws_name s), sm_is_approval_step = Some (ws_is_approval_step s),
         sm_required_approval_role = ws_required_approval_role s,
         sm_retry_policy = ws_retry_policy s,
         sm_compensation_action = ws_compensation_action s,
         sm_on_failure_continue = Some (ws_on_failure_continue s)\<rparr>\<rparr>"

definition empty_metadata :: step_metadata where
  "empty_metadata = \<lparr>sm_name = None, sm_is_approval_step = None, sm_required_approval_role = None,
     sm_retry_policy = None, sm_compensation_action = None, sm_on_failure_continue = None\<rparr>"

definition node_mapping :: "step_metadata graph_node \<Rightarrow> compat_error + (string, pyval) dict option" where
  "node_mapping n =
     (case dict_get (gn_config n) MAPPING_CONFIG_KEY of
        None \<Rightarrow> Inr None
      | Some PNone \<Rightarrow> Inr None
      | Some (PDict m) \<Rightarrow> Inr (Some m)
      | Some _ \<Rightarrow> Inl (StepValidation (node_id n)))"

definition or_else :: "'a option \<Rightarrow> 'a \<Rightarrow> 'a" where
  "or_else x d = (case x of None \<Rightarrow> d | Some v \<Rightarrow> v)"

definition node_to_step :: "step_metadata graph_node \<Rightarrow> compat_error + workflow_step" where
  "node_to_step n =
     bind_res (node_mapping n) (\<lambda>mapping.
       (let meta = or_else (gn_metadata n) empty_metadata in
        Inr \<lparr>ws_id = node_id n,
             ws_name = or_else (sm_name meta) (node_id n),
             ws_capability_name = gn_capability_name n,
             ws_parameters = dict_pop MAPPING_CONFIG_KEY (gn_config n),
             ws_is_approval_step = or_else (sm_is_approval_step meta) False,
             ws_required_approval_role = sm_required_approval_role meta,
             ws_retry_policy = sm_retry_policy meta,
             ws_compensation_action = sm_compensation_action meta,
             ws_on_failure_continue = or_else (sm_on_failure_continue meta) False,
             ws_mapping = mapping\<rparr>))"

definition link_edge :: "string \<Rightarrow> string \<Rightarrow> graph_edge" where
  "link_edge a b =
     \<lparr>edge_id = ''edge_'' @ a @ ''_'' @ b, source_node_id = a, source_port = None,
      target_node_id = b, target_port = None, ge_metadata = []\<rparr>"

fun link_edges :: "string list \<Rightarrow> graph_edge list" where
  "link_edges (a # b # ids) = link_edge a b # link_edges (b # ids)"
| "link_edges _ = []"

definition steps_to_graph :: "workflow_step list \<Rightarrow> compat_error + step_metadata workflow_graph" where
  "steps_to_graph steps =
     (case steps of
        [] \<Rightarrow> Inl EmptySteps
      | s # _ \<Rightarrow>
          Inr \<lparr>schema_version = ''1.0.0'', entry_node_id = ws_id s, nodes = map step_to_node steps,
               edges = link_edges (map ws_id steps), wg_metadata = []\<rparr>)"

definition bump :: "string \<Rightarrow> (string, nat) dict \<Rightarrow> compat_error + (string, nat) dict" where
  "bump k d = (case dict_get d k of None \<Rightarrow> Inl (MissingDegree k) | Some n \<Rightarrow> Inr (dict_set k (n + 1) d))"

type_synonym degrees = "(string, nat) dict \<times> (string, nat) dict \<times> (string, string) dict"

definition count_edge :: "degrees \<Rightarrow> graph_edge \<Rightarrow> compat_error + degrees" where
  "count_edge s e =
     (case s of (outd, ind, nexts) \<Rightarrow>
        bind_res (bump (source_node_id e) outd) (\<lambda>outd'.
        bind_res (bump (target_node_id e) ind) (\<lambda>ind'.
        Inr (outd', ind', dict_set (source_node_id e) (target_node_id e) nexts))))"

lemma chain_measure:
  "map_of d k = Some n \<Longrightarrow> n \<notin> set xs \<Longrightarrow>
     card (snd ` set d - insert n (set xs)) < card (snd ` set d - set xs)"
proof (rule psubset_card_mono)
  assume "map_of d k = Some n" and n: "n \<notin> set xs"
  then have "(k, n) \<in> set d" by (auto dest: map_of_SomeD)
  then have "n \<in> snd ` set d" by (rule rev_image_eqI) simp
  with n show "snd ` set d - insert n (set xs) \<subset> snd ` set d - set xs" by blast
qed simp

function chain_walk :: "(string, string) dict \<Rightarrow> string list \<Rightarrow> string \<Rightarrow> compat_error + string list" where
  "chain_walk nexts ordered current =
     (case dict_get nexts current of
        None \<Rightarrow> Inr ordered
      | Some n \<Rightarrow>
          if n \<in> set ordered then Inl (VisitedTwice n)
          else chain_walk nexts (ordered @ [n]) n)"
  by pat_completeness auto
termination
  by (relation "measure (\<lambda>(d, ordered, c). card (snd ` set d - set ordered))")
    (auto simp: chain_measure)

declare chain_walk.simps [simp del]

definition collect_steps ::
  "step_metadata workflow_graph \<Rightarrow> string list \<Rightarrow> compat_error + workflow_step list" where
  "collect_steps g ids =
     fold_res (\<lambda>acc i.
       case dict_get (nodes_by_id g) i of
         None \<Rightarrow> Inl (MissingDegree i)
       | Some n \<Rightarrow> bind_res (node_to_step n) (\<lambda>s. Inr (acc @ [s]))) [] ids"

definition lift_violation :: "graph_violation + 'a \<Rightarrow> compat_error + 'a" where
  "lift_violation r = (case r of Inl e \<Rightarrow> Inl (GraphViolation e) | Inr a \<Rightarrow> Inr a)"

definition graph_to_steps :: "step_metadata workflow_graph \<Rightarrow> compat_error + workflow_step list" where
  "graph_to_steps g =
     bind_res (lift_violation (validate_graph g)) (\<lambda>_.
       (let zeros = dict_fromkeys 0 (map fst (nodes_by_id g)) in
        bind_res (fold_res count_edge (zeros, zeros, []) (edges g)) (\<lambda>(outd, ind, nexts).
          if (\<exists>c \<in> snd ` set outd. 1 < c) \<or> (\<exists>c \<in> snd ` set ind. 1 < c) then Inl BranchingGraph
          else if dict_get_or 0 ind (entry_node_id g) \<noteq> 0
          then Inl (EntryHasIncoming (entry_node_id g))
          else bind_res (chain_walk nexts [entry_node_id g] (entry_node_id g)) (\<lambda>ordered.
            if length ordered \<noteq> length (nodes g)
            then Inl (DisconnectedGraph (entry_node_id g) (length ordered) (length (nodes g)))
            else collect_steps g ordered))))"

end
