(* ===== verification/Compat_Correct.thy ===== *)
theory Compat_Correct
  imports Graph_Compat
begin

text \<open>
  Correctness of the compatibility adapter: the conversion of a graph to steps succeeds on chains
  only and follows their edges, and the conversion of steps to a graph is undone by it.
\<close>


section \<open>Degrees and successors\<close>

definition edges_with :: "(graph_edge \<Rightarrow> string) \<Rightarrow> graph_edge list \<Rightarrow> string \<Rightarrow> nat" where
  "edges_with f es k = length (filter (\<lambda>e. f e = k) es)"

lemma edges_with_Cons:
  "edges_with f (e # es) k = (if f e = k then Suc (edges_with f es k) else edges_with f es k)"
  by (simp add: edges_with_def)

lemma edges_with_zero: "edges_with f es k = 0 \<longleftrightarrow> k \<notin> f ` set es"
  by (auto simp: edges_with_def filter_empty_conv)

lemma distinct_edges_with: "distinct (map f es) \<longleftrightarrow> (\<forall>k. edges_with f es k \<le> 1)"
proof (induction es)
  case Nil
  then show ?case by (simp add: edges_with_def)
next
  case (Cons e es)
  show ?case
  proof
    assume "distinct (map f (e # es))"
    then show "\<forall>k. edges_with f (e # es) k \<le> 1"
      using Cons edges_with_zero [of f es "f e"] by (simp add: edges_with_Cons)
  next
    assume l: "\<forall>k. edges_with f (e # es) k \<le> 1"
    then have "edges_with f (e # es) (f e) \<le> 1" by blast
    then have "f e \<notin> f ` set es" by (simp add: edges_with_Cons edges_with_zero)
    moreover have "edges_with f es k \<le> 1" for k
      using spec [OF l, of k] by (simp add: edges_with_Cons split: if_splits)
    ultimately show "distinct (map f (e # es))" using Cons by simp
  qed
qed

text \<open>
  The counting loop never misses a key when the edges stay inside the graph; its counters hold
  the degrees and its third component the target of the last edge from each node.
\<close>

lemma count_edges:
  assumes "\<forall>e \<in> set es. source_node_id e \<in> dom (map_of outd) \<and> target_node_id e \<in> dom (map_of ind)"
    and "dict_ok outd" "dict_ok ind"
  shows "\<exists>outd' ind'. fold_res count_edge (outd, ind, nexts) es =
       Inr (outd', ind', fold (\<lambda>e. dict_set (source_node_id e) (target_node_id e)) es nexts) \<and>
     dict_ok outd' \<and> dict_ok ind' \<and>
     (\<forall>k. map_of outd' k = map_option (\<lambda>n. n + edges_with source_node_id es k) (map_of outd k)) \<and>
     (\<forall>k. map_of ind' k = map_option (\<lambda>n. n + edges_with target_node_id es k) (map_of ind k))"
  using assms
proof (induction es arbitrary: outd ind nexts)
  case Nil
  then show ?case by (simp add: edges_with_def option.map_ident)
next
  case (Cons e es)
  from Cons.prems obtain no ni where no: "map_of outd (source_node_id e) = Some no"
    and ni: "map_of ind (target_node_id e) = Some ni" by auto
  let ?o = "dict_set (source_node_id e) (no + 1) outd"
  let ?i = "dict_set (target_node_id e) (ni + 1) ind"
  let ?x = "dict_set (source_node_id e) (target_node_id e) nexts"
  have step: "count_edge (outd, ind, nexts) e = Inr (?o, ?i, ?x)"
    by (simp add: count_edge_def bump_def no ni)
  have "\<forall>e' \<in> set es. source_node_id e' \<in> dom (map_of ?o) \<and> target_node_id e' \<in> dom (map_of ?i)"
    using Cons.prems(1) by (simp only: dom_dict_set) simp
  from Cons.IH [OF this, of ?x] Cons.prems(2,3) obtain outd' ind' where
    run: "fold_res count_edge (?o, ?i, ?x) es =
       Inr (outd', ind', fold (\<lambda>e. dict_set (source_node_id e) (target_node_id e)) es ?x)"
    and ok: "dict_ok outd'" "dict_ok ind'"
    and o': "\<forall>k. map_of outd' k = map_option (\<lambda>n. n + edges_with source_node_id es k) (map_of ?o k)"
    and i': "\<forall>k. map_of ind' k = map_option (\<lambda>n. n + edges_with target_node_id es k) (map_of ?i k)"
    by auto
  show ?case
  proof (intro exI conjI allI)
    show "fold_res count_edge (outd, ind, nexts) (e # es) =
       Inr (outd', ind', fold (\<lambda>e. dict_set (source_node_id e) (target_node_id e)) (e # es) nexts)"
      using run step by simp
    show "map_of outd' k = map_option (\<lambda>n. n + edges_with source_node_id (e # es) k) (map_of outd k)" for k
      using o' no by (simp add: edges_with_Cons)
    show "map_of ind' k = map_option (\<lambda>n. n + edges_with target_node_id (e # es) k) (map_of ind k)" for k
      using i' ni by (simp add: edges_with_Cons)
  qed (use ok in simp_all)
qed

lemma nexts_fold:
  "map_of (fold (\<lambda>e. dict_set (source_node_id e) (target_node_id e)) es d) a = Some b \<Longrightarrow>
     (\<exists>e \<in> set es. source_node_id e = a \<and> target_node_id e = b) \<or> map_of d a = Some b"
  "map_of (fold (\<lambda>e. dict_set (source_node_id e) (target_node_id e)) es d) a = None \<longleftrightarrow>
     a \<notin> source_node_id ` set es \<and> map_of d a = None"
proof (induction es arbitrary: d)
  case (Cons e es)
  {
    case 1
    then have "(\<exists>e \<in> set es. source_node_id e = a \<and> target_node_id e = b) \<or>
        map_of (dict_set (source_node_id e) (target_node_id e) d) a = Some b"
      by (intro Cons.IH) simp
    then show ?case by (auto split: if_splits)
  next
    case 2
    then show ?case by (auto simp: Cons.IH split: if_splits)
  }
qed simp_all

lemma nexts_Some:
  "map_of (fold (\<lambda>e. dict_set (source_node_id e) (target_node_id e)) es []) a = Some b \<Longrightarrow>
     \<exists>e \<in> set es. source_node_id e = a \<and> target_node_id e = b"
  using nexts_fold(1) [of es "[]" a b] by simp

lemma nexts_None:
  "map_of (fold (\<lambda>e. dict_set (source_node_id e) (target_node_id e)) es []) a = None \<longleftrightarrow>
     a \<notin> source_node_id ` set es"
  by (simp add: nexts_fold(2))

section \<open>The chain\<close>

lemma chain_walk_sound:
  assumes "chain_walk nexts ordered current = Inr xs" "ordered \<noteq> []" "last ordered = current"
    and "distinct ordered" "successively (\<lambda>a b. map_of nexts a = Some b) ordered"
  shows "distinct xs \<and> hd xs = hd ordered \<and> xs \<noteq> [] \<and>
     successively (\<lambda>a b. map_of nexts a = Some b) xs \<and> map_of nexts (last xs) = None"
  using assms
proof (induction nexts ordered current rule: chain_walk.induct)
  case (1 nexts ordered current)
  show ?case
  proof (cases "map_of nexts current")
    case None
    with 1 show ?thesis by (simp add: chain_walk.simps)
  next
    case (Some n)
    with "1.prems"(1) have n: "n \<notin> set ordered"
      and run: "chain_walk nexts (ordered @ [n]) n = Inr xs"
      by (auto simp: chain_walk.simps [of nexts ordered current] split: if_splits)
    have "successively (\<lambda>a b. map_of nexts a = Some b) (ordered @ [n])"
      using "1.prems" Some by (auto simp: successively_append_iff)
    with "1.IH" [OF Some n run] "1.prems" n show ?thesis by simp
  qed
qed

lemma chain_walk_complete:
  assumes "xs \<noteq> []" "distinct (xs @ ys)"
    and "successively (\<lambda>a b. map_of nexts a = Some b) (last xs # ys)"
    and "map_of nexts (last (xs @ ys)) = None"
  shows "chain_walk nexts xs (last xs) = Inr (xs @ ys)"
  using assms
proof (induction ys arbitrary: xs)
  case Nil
  then show ?case by (simp add: chain_walk.simps)
next
  case (Cons y ys)
  have "chain_walk nexts (xs @ [y]) (last (xs @ [y])) = Inr ((xs @ [y]) @ ys)"
    using Cons.prems by (intro Cons.IH) auto
  then show ?case using Cons.prems by (simp add: chain_walk.simps [of nexts xs])
qed

lemma successively_zip: "successively R xs \<longleftrightarrow> (\<forall>(a, b) \<in> set (zip xs (tl xs)). R a b)"
proof (induction xs)
  case Nil
  then show ?case by simp
next
  case (Cons x xs)
  then show ?case by (cases xs) auto
qed

lemma link_edges_sources: "map source_node_id (link_edges ids) = butlast ids"
  by (induction ids rule: link_edges.induct) (auto simp: link_edge_def)

lemma link_edges_targets: "map target_node_id (link_edges ids) = tl ids"
  by (induction ids rule: link_edges.induct) (auto simp: link_edge_def)

lemma link_edges_set: "set (link_edges ids) = (\<lambda>(a, b). link_edge a b) ` set (zip ids (tl ids))"
  by (induction ids rule: link_edges.induct) auto

lemma zip_tl_acyclic: "distinct (ids :: string list) \<Longrightarrow> acyclic (set (zip ids (tl ids)))"
proof (induction ids rule: link_edges.induct)
  case (1 a b ids)
  let ?r = "set (zip (b # ids) (tl (b # ids)))"
  have "(b, a) \<notin> ?r\<^sup>*"
  proof
    assume "(b, a) \<in> ?r\<^sup>*"
    then have "a = b \<or> a \<in> Range ?r" by (auto elim: rtranclE)
    moreover have "Range ?r \<subseteq> set ids" by (auto dest: set_zip_rightD)
    ultimately show False using "1.prems" by auto
  qed
  with 1 show ?case by (simp add: acyclic_insert)
qed (auto simp: acyclic_def)

section \<open>The graph of a step list\<close>

lemma node_id_step_to_node [simp]: "node_id (step_to_node s) = ws_id s"
  by (simp add: step_to_node_def)

lemma link_edges_edge_rel:
  "edges g = link_edges ids \<Longrightarrow> edge_rel g = set (zip ids (tl ids))"
  by (auto simp: edge_rel_def link_edges_set link_edge_def image_iff) force

lemma link_edges_well_formed:
  assumes "edges g = link_edges ids" "map node_id (nodes g) = ids" "distinct ids"
    and "distinct (map edge_id (link_edges ids))" "entry_node_id g \<in> set ids"
  shows "well_formed_graph g"
proof -
  have ids: "set ids = node_id ` set (nodes g)" using assms(2) by auto
  have "source_node_id e \<in> set ids \<and> target_node_id e \<in> set ids \<and> source_port e = None \<and> target_port e = None"
    if "e \<in> set (link_edges ids)" for e
  proof -
    from that obtain a b where "(a, b) \<in> set (zip ids (tl ids))" "e = link_edge a b"
      by (auto simp: link_edges_set)
    moreover have "set (tl ids) \<subseteq> set ids" by (cases ids) auto
    ultimately show ?thesis
      using set_zip_leftD [of a b] set_zip_rightD [of a b] by (auto simp: link_edge_def)
  qed
  then show ?thesis
    using assms ids link_edges_edge_rel [OF assms(1)] zip_tl_acyclic [OF assms(3)]
    by (simp add: well_formed_graph_def port_declared_def)
qed

section \<open>From graphs to steps\<close>

text \<open>
  A converted graph is a chain: the steps are its nodes in the order of the edges, from the entry
  node to the only node without a successor.
\<close>

lemma collect_steps_Inr:
  assumes "collect_steps g ids = Inr steps" "distinct (map node_id (nodes g))"
  shows "map ws_id steps = ids \<and> set ids \<subseteq> node_id ` set (nodes g)"
proof -
  let ?f = "\<lambda>acc i. case dict_get (nodes_by_id g) i of
         None \<Rightarrow> Inl (MissingDegree i)
       | Some n \<Rightarrow> bind_res (node_to_step n) (\<lambda>s. Inr (acc @ [s]))"
  have "fold_res ?f acc ids = Inr steps \<Longrightarrow> map ws_id steps = map ws_id acc @ ids \<and>
      set ids \<subseteq> node_id ` set (nodes g)" for acc
  proof (induction ids arbitrary: acc)
    case Nil
    then show ?case by simp
  next
    case (Cons i ids)
    from Cons.prems obtain n s where n: "map_of (nodes_by_id g) i = Some n"
      and s: "node_to_step n = Inr s" and rest: "fold_res ?f (acc @ [s]) ids = Inr steps"
      by (auto simp: bind_res_Inr_iff split: option.splits)
    from n have "node_id n = i" "n \<in> set (nodes g)" by (auto simp: nodes_by_id_get [OF assms(2)])
    moreover have "ws_id s = node_id n" using s by (auto simp: node_to_step_def bind_res_Inr_iff Let_def)
    ultimately show ?case using Cons.IH [OF rest] by auto
  qed
  from this [of "[]"] assms(1) show ?thesis by (simp add: collect_steps_def)
qed

definition zero_degrees :: "'m workflow_graph \<Rightarrow> (string, nat) dict" where
  "zero_degrees g = dict_fromkeys 0 (map fst (nodes_by_id g))"

lemma zero_degrees_get:
  "distinct (map node_id (nodes g)) \<Longrightarrow>
     map_of (zero_degrees g) k = (if k \<in> node_id ` set (nodes g) then Some 0 else None)"
  by (auto simp: zero_degrees_def nodes_by_id_distinct)

lemma zero_degrees_ok: "dict_ok (zero_degrees g)"
proof -
  have "dict_ok (fold (\<lambda>k. dict_set k v) ks d)" if "dict_ok d" for ks and v :: nat and d :: "(string, nat) dict"
    using that by (induction ks arbitrary: d) auto
  then show ?thesis by (simp add: zero_degrees_def dict_fromkeys_def)
qed

lemma degree_limit:
  assumes "dict_ok d" "\<forall>k. map_of d k = map_option (\<lambda>n. n + edges_with f es k) (map_of (zero_degrees g) k)"
    and "distinct (map node_id (nodes g))" "f ` set es \<subseteq> node_id ` set (nodes g)"
  shows "(\<exists>c \<in> snd ` set d. 1 < c) \<longleftrightarrow> \<not> distinct (map f es)"
proof
  assume "\<exists>c \<in> snd ` set d. 1 < c"
  then obtain k c where "(k, c) \<in> set d" "1 < c" by auto
  then have "map_of d k = Some c" using assms(1) by (simp add: dict_ok_map_of)
  with assms(2,3) have "c = edges_with f es k"
    by (auto simp: zero_degrees_get split: if_splits)
  with \<open>1 < c\<close> show "\<not> distinct (map f es)" by (auto simp: distinct_edges_with not_le)
next
  assume "\<not> distinct (map f es)"
  then obtain k where k: "1 < edges_with f es k" by (auto simp: distinct_edges_with not_le)
  then have "k \<in> f ` set es" using edges_with_zero [of f es k] by auto
  with assms have "map_of d k = Some (edges_with f es k)" by (auto simp: zero_degrees_get)
  then have "(k, edges_with f es k) \<in> set d" by (rule map_of_SomeD)
  with k show "\<exists>c \<in> snd ` set d. 1 < c" by force
qed

lemma entry_degree:
  assumes "\<forall>k. map_of d k = map_option (\<lambda>n. n + edges_with f es k) (map_of (zero_degrees g) k)"
    and "distinct (map node_id (nodes g))" "k \<in> node_id ` set (nodes g)"
  shows "dict_get_or 0 d k = edges_with f es k"
  using assms by (auto simp: dict_get_or_def zero_degrees_get)

text \<open>The decision after validation, in terms of the edges only.\<close>

lemma graph_to_steps_cases:
  assumes "well_formed_graph g"
  shows "graph_to_steps g =
     (let nexts = fold (\<lambda>e. dict_set (source_node_id e) (target_node_id e)) (edges g) [] in
      if \<not> distinct (map source_node_id (edges g)) \<or> \<not> distinct (map target_node_id (edges g))
      then Inl BranchingGraph
      else if entry_node_id g \<in> target_node_id ` set (edges g) then Inl (EntryHasIncoming (entry_node_id g))
      else bind_res (chain_walk nexts [entry_node_id g] (entry_node_id g)) (\<lambda>ordered.
            if length ordered \<noteq> length (nodes g)
            then Inl (DisconnectedGraph (entry_node_id g) (length ordered) (length (nodes g)))
            else collect_steps g ordered))"
proof -
  have wf: "distinct (map node_id (nodes g))" "entry_node_id g \<in> node_id ` set (nodes g)"
    "source_node_id ` set (edges g) \<subseteq> node_id ` set (nodes g)"
    "target_node_id ` set (edges g) \<subseteq> node_id ` set (nodes g)"
    using assms by (auto simp: well_formed_graph_def)
  let ?z = "zero_degrees g"
  have "\<forall>e \<in> set (edges g). source_node_id e \<in> dom (map_of ?z) \<and> target_node_id e \<in> dom (map_of ?z)"
    using wf by (auto simp: dom_def zero_degrees_get)
  from count_edges [OF this zero_degrees_ok zero_degrees_ok, of "[]"] obtain outd ind where
    run: "fold_res count_edge (?z, ?z, []) (edges g) =
       Inr (outd, ind, fold (\<lambda>e. dict_set (source_node_id e) (target_node_id e)) (edges g) [])"
    and ok: "dict_ok outd" "dict_ok ind"
    and o: "\<forall>k. map_of outd k = map_option (\<lambda>n. n + edges_with source_node_id (edges g) k) (map_of ?z k)"
    and i: "\<forall>k. map_of ind k = map_option (\<lambda>n. n + edges_with target_node_id (edges g) k) (map_of ?z k)"
    by blast
  note deg = degree_limit [OF ok(1) o wf(1,3)] degree_limit [OF ok(2) i wf(1,4)]
    entry_degree [OF i wf(1,2)]
  have valid: "validate_graph g = Inr ()" using assms by (simp add: validate_graph_iff_well_formed)
  show ?thesis
    unfolding graph_to_steps_def Let_def zero_degrees_def [symmetric] valid lift_violation_def
      sum.case bind_res.simps run prod.case deg edges_with_zero
    by simp
qed

lemma graph_to_steps_Inr:
  assumes "graph_to_steps g = Inr steps"
  shows "well_formed_graph g \<and> distinct (map ws_id steps) \<and>
     set (map ws_id steps) = node_id ` set (nodes g) \<and> hd (map ws_id steps) = entry_node_id g \<and>
     edge_rel g = set (zip (map ws_id steps) (tl (map ws_id steps)))"
proof -
  have "validate_graph g = Inr ()"
    using assms by (cases "validate_graph g") (auto simp: graph_to_steps_def lift_violation_def)
  then have wf: "well_formed_graph g" by (simp add: validate_graph_iff_well_formed)
  then have dist: "distinct (map node_id (nodes g))" by (simp add: well_formed_graph_def)
  let ?nx = "fold (\<lambda>e. dict_set (source_node_id e) (target_node_id e)) (edges g) []"
  from assms obtain ids where src: "distinct (map source_node_id (edges g))"
    and walk: "chain_walk ?nx [entry_node_id g] (entry_node_id g) = Inr ids"
    and len: "length ids = length (nodes g)" and coll: "collect_steps g ids = Inr steps"
    by (auto simp: graph_to_steps_cases [OF wf] Let_def bind_res_Inr_iff split: if_splits)
  from chain_walk_sound [OF walk] have ids: "distinct ids" "hd ids = entry_node_id g" "ids \<noteq> []"
    and succ: "successively (\<lambda>a b. map_of ?nx a = Some b) ids" and last: "map_of ?nx (last ids) = None"
    by auto
  from collect_steps_Inr [OF coll dist] have steps: "map ws_id steps = ids"
    and sub: "set ids \<subseteq> node_id ` set (nodes g)" by auto
  have "card (set ids) = card (node_id ` set (nodes g))"
    using distinct_card [OF ids(1)] distinct_card [OF dist] len by simp
  then have all: "set ids = node_id ` set (nodes g)" using sub by (intro card_subset_eq) auto
  have fwd: "set (zip ids (tl ids)) \<subseteq> edge_rel g"
    using succ nexts_Some by (force simp: successively_zip edge_rel_def)
  moreover have "edge_rel g \<subseteq> set (zip ids (tl ids))"
  proof
    fix p assume "p \<in> edge_rel g"
    then obtain e where e: "e \<in> set (edges g)" "p = (source_node_id e, target_node_id e)"
      by (auto simp: edge_rel_def)
    then have "source_node_id e \<in> set ids" using wf all by (auto simp: well_formed_graph_def)
    moreover have "source_node_id e \<noteq> last ids" using last e(1) nexts_None by (metis imageI)
    ultimately have "source_node_id e \<in> set (butlast ids)"
      using ids(3) by (metis append_butlast_last_id rotate1.simps(2) set_ConsD set_rotate1)
    then obtain i where i: "i < length (butlast ids)" "butlast ids ! i = source_node_id e"
      by (auto simp: in_set_conv_nth)
    then have "(source_node_id e, tl ids ! i) \<in> set (zip ids (tl ids))"
      by (auto simp: set_zip nth_butlast intro!: exI [of _ i])
    with fwd obtain e' where e': "e' \<in> set (edges g)" "source_node_id e' = source_node_id e"
        "target_node_id e' = tl ids ! i" by (auto simp: edge_rel_def)
    with src e(1) have "e' = e" by (auto simp: distinct_map dest: inj_onD)
    with e' e \<open>(source_node_id e, tl ids ! i) \<in> set (zip ids (tl ids))\<close> show "p \<in> set (zip ids (tl ids))" by simp
  qed
  ultimately show ?thesis using wf ids all steps by auto
qed

section \<open>Round trip\<close>

definition plain_step :: "workflow_step \<Rightarrow> bool" where
  "plain_step s \<longleftrightarrow> dict_ok (ws_parameters s) \<and> \<not> dict_has (ws_parameters s) MAPPING_CONFIG_KEY"

lemma delete_absent: "\<not> dict_has d k \<Longrightarrow> dict_pop k d = d"
  by (simp add: dict_has_def map_of_eq_None_iff delete_id)

lemma delete_appended: "\<not> dict_has d k \<Longrightarrow> dict_pop k (d @ [(k, v)]) = d"
proof -
  assume "\<not> dict_has d k"
  then have "dict_pop k d = d" by (rule delete_absent)
  then show ?thesis by (simp add: AList.delete_eq)
qed

lemma pop_set_absent: "\<not> dict_has d k \<Longrightarrow> dict_pop k (dict_set k v d) = d"
  by (simp add: dict_set_new delete_appended)

lemma node_to_step_to_node:
  assumes "plain_step s"
  shows "node_to_step (step_to_node s) = Inr s"
proof -
  have "map_of (ws_parameters s) MAPPING_CONFIG_KEY = None"
    using assms by (simp add: plain_step_def dict_has_def)
  with assms show ?thesis
    by (cases "ws_mapping s")
      (auto simp: plain_step_def node_to_step_def step_to_node_def node_mapping_def or_else_def
      delete_absent pop_set_absent)
qed

lemma collect_steps_steps:
  assumes "nodes g = map step_to_node all" "distinct (map ws_id all)" "set ss \<subseteq> set all"
    and "\<forall>s \<in> set all. plain_step s"
  shows "collect_steps g (map ws_id ss) = Inr ss"
proof -
  let ?f = "\<lambda>acc i. case dict_get (nodes_by_id g) i of
         None \<Rightarrow> Inl (MissingDegree i)
       | Some n \<Rightarrow> bind_res (node_to_step n) (\<lambda>s. Inr (acc @ [s]))"
  have dist: "distinct (map node_id (nodes g))" using assms(1,2) by (simp add: comp_def)
  have "fold_res ?f acc (map ws_id ss) = Inr (acc @ ss)" for acc
    using assms(3)
  proof (induction ss arbitrary: acc)
    case Nil
    then show ?case by simp
  next
    case (Cons s ss)
    then have "map_of (nodes_by_id g) (ws_id s) = Some (step_to_node s)"
      using assms(1) by (simp add: nodes_by_id_get [OF dist])
    then show ?case using Cons assms(4) by (simp add: node_to_step_to_node)
  qed
  then show ?thesis by (simp add: collect_steps_def)
qed

lemma steps_graph_round_trip:
  assumes ne: "steps \<noteq> []" and ids: "distinct (map ws_id steps)"
    and eids: "distinct (map edge_id (link_edges (map ws_id steps)))"
    and plain: "\<forall>s \<in> set steps. plain_step s"
  shows "\<exists>g. steps_to_graph steps = Inr g \<and> graph_to_steps g = Inr steps"
proof -
  obtain s ss where steps: "steps = s # ss" using ne by (cases steps) auto
  let ?ids = "map ws_id steps"
  obtain g where g: "steps_to_graph steps = Inr g" by (simp add: steps_to_graph_def steps)
  then have gf: "nodes g = map step_to_node steps" "edges g = link_edges ?ids" "entry_node_id g = ws_id s"
    by (auto simp: steps_to_graph_def steps)
  have wf: "well_formed_graph g"
    by (rule link_edges_well_formed [of g ?ids]) (use gf ids eids steps in auto)
  let ?nx = "fold (\<lambda>e. dict_set (source_node_id e) (target_node_id e)) (edges g) []"
  have src: "map source_node_id (edges g) = butlast ?ids" and tgt: "map target_node_id (edges g) = tl ?ids"
    by (simp_all add: gf link_edges_sources link_edges_targets)
  have next_some: "map_of ?nx a = Some b" if "(a, b) \<in> set (zip ?ids (tl ?ids))" for a b
  proof -
    have ab: "link_edge a b \<in> set (edges g)" using that by (auto simp: gf link_edges_set)
    then have "a \<in> source_node_id ` set (edges g)" by (force simp: link_edge_def)
    then obtain c where c: "map_of ?nx a = Some c" using nexts_None [of "edges g" a] by auto
    from nexts_Some [OF c] obtain e where "e \<in> set (edges g)" "source_node_id e = a" "target_node_id e = c"
      by auto
    moreover have "inj_on source_node_id (set (edges g))"
      using ids by (metis distinct_butlast distinct_map src)
    moreover have "source_node_id (link_edge a b) = a" by (simp add: link_edge_def)
    ultimately have "e = link_edge a b"
      using ab by (metis inj_onD)
    with c \<open>target_node_id e = c\<close> show ?thesis by (simp add: link_edge_def)
  qed
  have "last ?ids \<notin> set (butlast ?ids)"
    using ids ne by (metis append_butlast_last_id distinct_append disjoint_iff list.set_intros(1) map_is_Nil_conv)
  then have last: "map_of ?nx (last ?ids) = None"
    unfolding nexts_None using src by (metis set_map)
  have "chain_walk ?nx [ws_id s] (last [ws_id s]) = Inr ([ws_id s] @ map ws_id ss)"
  proof (rule chain_walk_complete)
    show "successively (\<lambda>a b. map_of ?nx a = Some b) (last [ws_id s] # map ws_id ss)"
      using next_some by (auto simp: successively_zip steps)
  qed (use ids last steps in auto)
  moreover have "distinct (map source_node_id (edges g))" "distinct (map target_node_id (edges g))"
    unfolding src tgt using ids by (simp_all add: distinct_butlast distinct_tl)
  moreover have "entry_node_id g \<notin> target_node_id ` set (edges g)"
  proof -
    have "target_node_id ` set (edges g) = set (tl ?ids)" using tgt by (metis set_map)
    then show ?thesis using ids steps gf(3) by simp
  qed
  moreover have "collect_steps g ?ids = Inr steps"
    by (rule collect_steps_steps [OF gf(1)]) (use ids plain in auto)
  ultimately have "graph_to_steps g = Inr steps"
    by (simp add: graph_to_steps_cases [OF wf] gf(1,3) steps)
  with g show ?thesis by blast
qed

end
