(* ===== verification/Security_Models.thy ===== *)
theory Security_Models
  imports Py_Value
begin

text \<open>
  Principals and classification levels (\<open>engines/security/models.py\<close>), the scrubbing of secrets
  before persistence (\<open>sanitize_for_persistence\<close> in \<open>core/idempotency.py\<close>) and what other
  components share of them.  Identifiers are strings; UUIDs are in their canonical text form.
\<close>

section \<open>Principals\<close>

datatype principal_type = PT_USER | PT_SERVICE_PRINCIPAL | PT_AGENT

fun principal_type_value :: "principal_type \<Rightarrow> string" where
  "principal_type_value PT_USER = ''USER''"
| "principal_type_value PT_SERVICE_PRINCIPAL = ''SERVICE_PRINCIPAL''"
| "principal_type_value PT_AGENT = ''AGENT''"

record security_principal =
  sp_principal_id :: string
  sp_principal_type :: principal_type
  sp_tenant_id :: string
  sp_roles :: "string list"
  sp_attributes :: "(string, pyval) dict"

section \<open>Classification levels\<close>

datatype classification_level = CL_PUBLIC | CL_INTERNAL | CL_CONFIDENTIAL | CL_RESTRICTED

fun classification_rank :: "classification_level \<Rightarrow> nat" where
  "classification_rank CL_PUBLIC = 0"
| "classification_rank CL_INTERNAL = 1"
| "classification_rank CL_CONFIDENTIAL = 2"
| "classification_rank CL_RESTRICTED = 3"

lemma classification_rank_inject [simp]: "classification_rank a = classification_rank b \<longleftrightarrow> a = b"
  by (cases a; cases b) simp_all

text \<open>The ranks order the levels linearly, so that the library's order facts apply to them.\<close>

instantiation classification_level :: linorder
begin

definition less_eq_classification_level :: "classification_level \<Rightarrow> classification_level \<Rightarrow> bool" where
  "less_eq_classification_level a b \<longleftrightarrow> classification_rank a \<le> classification_rank b"

definition less_classification_level :: "classification_level \<Rightarrow> classification_level \<Rightarrow> bool" where
  "less_classification_level a b \<longleftrightarrow> classification_rank a < classification_rank b"

instance
  by standard (auto simp: less_eq_classification_level_def less_classification_level_def)

end

section \<open>Scrubbing\<close>

definition ascii_lower :: "char \<Rightarrow> char" where
  "ascii_lower c = (if 65 \<le> (of_char c :: nat) \<and> (of_char c :: nat) \<le> 90 then char_of ((of_char c :: nat) + 32) else c)"

definition py_lower :: "string \<Rightarrow> string" where
  "py_lower s = map ascii_lower s"

definition SENSITIVE_KEY_NAMES :: "string list" where
  "SENSITIVE_KEY_NAMES =
     [''session_token'', ''auth_token'', ''token'', ''password'', ''secret'', ''secret_key'',
      ''credentials'', ''credential'', ''bearer_token'', ''api_key'', ''authorization'',
      ''private_key'', ''access_token'', ''refresh_token'', ''decider_session_token'',
      ''ui_input_text'', ''execution_outcome'']"

definition sensitive_key :: "string \<Rightarrow> bool" where
  "sensitive_key k \<longleftrightarrow> py_lower k \<in> set SENSITIVE_KEY_NAMES"

text \<open>
  A Pydantic model is dumped to its dictionary first.  Values of other Python types, which the
  code turns into their \<open>str\<close>, do not occur in the type of values.
\<close>

fun sanitize_for_persistence :: "pyval \<Rightarrow> pyval" where
  "sanitize_for_persistence (PModel d) =
     PDict (map (\<lambda>(k, v). (k, if sensitive_key k then PNone else sanitize_for_persistence v)) d)"
| "sanitize_for_persistence (PDict d) =
     PDict (map (\<lambda>(k, v). (k, if sensitive_key k then PNone else sanitize_for_persistence v)) d)"
| "sanitize_for_persistence (PList vs) = PList (map sanitize_for_persistence vs)"
| "sanitize_for_persistence v = v"

definition sanitize_dict :: "(string, pyval) dict \<Rightarrow> (string, pyval) dict" where
  "sanitize_dict d = map (\<lambda>(k, v). (k, if sensitive_key k then PNone else sanitize_for_persistence v)) d"

text \<open>No value hides behind a sensitive key, at any depth.\<close>

fun scrubbed :: "pyval \<Rightarrow> bool" where
  "scrubbed (PModel d) = False"
| "scrubbed (PDict d) = (\<forall>(k, v) \<in> set d. (sensitive_key k \<longrightarrow> v = PNone) \<and> scrubbed v)"
| "scrubbed (PList vs) = (\<forall>v \<in> set vs. scrubbed v)"
| "scrubbed v = True"

lemma sanitize_scrubbed: "scrubbed (sanitize_for_persistence v)"
  by (induction v rule: sanitize_for_persistence.induct) (auto split: if_splits)

lemma sanitize_fixpoint: "scrubbed v \<Longrightarrow> sanitize_for_persistence v = v"
proof (induction v rule: scrubbed.induct)
  case (2 d)
  have "(k, if sensitive_key k then PNone else sanitize_for_persistence w) = (k, w)" if "(k, w) \<in> set d" for k w
    using 2 that by fastforce
  then show ?case by (auto intro!: map_idI)
next
  case (3 vs)
  then show ?case by (auto intro!: map_idI)
qed simp_all

lemma sanitize_idem: "sanitize_for_persistence (sanitize_for_persistence v) = sanitize_for_persistence v"
  by (rule sanitize_fixpoint [OF sanitize_scrubbed])

lemma sanitize_dict_PDict: "sanitize_for_persistence (PDict d) = PDict (sanitize_dict d)"
  by (simp add: sanitize_dict_def)

lemma scrubbed_sanitize_dict: "scrubbed (PDict (sanitize_dict d))"
  using sanitize_scrubbed [of "PDict d"] by (simp only: sanitize_dict_PDict)

section \<open>Audit actors\<close>

fun principal_actor_type :: "principal_type \<Rightarrow> string" where
  "principal_actor_type PT_USER = ''HUMAN''"
| "principal_actor_type PT_AGENT = ''AI_AGENT''"
| "principal_actor_type PT_SERVICE_PRINCIPAL = ''CONNECTOR''"

definition actor_type_for_principal :: "security_principal option \<Rightarrow> string \<Rightarrow> string" where
  "actor_type_for_principal who actor_id =
     (case who of
        Some p \<Rightarrow> principal_actor_type (sp_principal_type p)
      | None \<Rightarrow> if actor_id \<noteq> ''SYSTEM'' then ''HUMAN'' else ''SYSTEM_ENGINE'')"

end
