(* ===== verification/Outbox.thy ===== *)
theory Outbox
  imports Security_Models Workflow_Models
begin

text \<open>
  The transactional event outbox (\<open>core/outbox.py\<close>).  The table \<open>event_outbox\<close> is the list of its
  rows in insertion order; a payload is held as the dictionary that \<open>json.dumps\<close> wrote.  Fresh
  identifiers and the clock are arguments.
\<close>

section \<open>The table\<close>

datatype outbox_status = OB_PENDING | OB_SENT | OB_FAILED

record outbox_row =
  ob_id :: string
  ob_tenant_id :: string
  ob_topic :: string
  ob_payload :: "(string, pyval) dict"
  ob_status :: outbox_status
  ob_retry_count :: nat
  ob_next_retry_at :: "instant option"
  ob_created_at :: instant
  ob_updated_at :: instant

definition stage_event_in_session ::
  "string \<Rightarrow> instant \<Rightarrow> string \<Rightarrow> string \<Rightarrow> (string, pyval) dict \<Rightarrow> outbox_row list \<Rightarrow> outbox_row list" where
  "stage_event_in_session new_id now tenant topic payload rows =
     rows @ [\<lparr>ob_id = new_id, ob_tenant_id = tenant, ob_topic = topic,
        ob_payload = sanitize_dict payload, ob_status = OB_PENDING, ob_retry_count = 0,
        ob_next_retry_at = None, ob_created_at = now, ob_updated_at = now\<rparr>]"

definition get_pending_events :: "string option \<Rightarrow> nat \<Rightarrow> outbox_row list \<Rightarrow> outbox_row list" where
  "get_pending_events tenant limit rows =
     take limit (sort_key ob_created_at
       (filter (\<lambda>r. ob_status r = OB_PENDING \<and>
                    (case tenant of None \<Rightarrow> True | Some t \<Rightarrow> ob_tenant_id r = t)) rows))"

section \<open>Dispatch\<close>

text \<open>
  \<open>publish\<close> is the event engine's operation: a function of topic and payload over an environment,
  which may raise.  \<open>None\<close> stands for an engine without the method.  Marking a record is one
  transaction of its own.
\<close>

type_synonym 'env publisher = "string \<Rightarrow> (string, pyval) dict \<Rightarrow> 'env \<Rightarrow> bool \<times> 'env"

definition mark_sent :: "instant \<Rightarrow> string \<Rightarrow> outbox_row list \<Rightarrow> outbox_row list" where
  "mark_sent now row_id rows =
     map (\<lambda>r. if ob_id r = row_id then r\<lparr>ob_status := OB_SENT, ob_updated_at := now\<rparr> else r) rows"

definition mark_failed :: "instant \<Rightarrow> string \<Rightarrow> outbox_row list \<Rightarrow> outbox_row list" where
  "mark_failed now row_id rows =
     map (\<lambda>r. if ob_id r = row_id
              then r\<lparr>ob_retry_count := Suc (ob_retry_count r), ob_updated_at := now\<rparr> else r) rows"

fun dispatch_records ::
  "'env publisher option \<Rightarrow> instant \<Rightarrow> outbox_row list \<Rightarrow> nat \<Rightarrow> outbox_row list \<Rightarrow> 'env \<Rightarrow>
   nat \<times> outbox_row list \<times> 'env" where
  "dispatch_records publish now [] count rows env = (count, rows, env)"
| "dispatch_records publish now (r # rs) count rows env =
     (case (case publish of None \<Rightarrow> (True, env) | Some p \<Rightarrow> p (ob_topic r) (ob_payload r) env) of
        (True, env') \<Rightarrow> dispatch_records publish now rs (Suc count) (mark_sent now (ob_id r) rows) env'
      | (False, env') \<Rightarrow> dispatch_records publish now rs count (mark_failed now (ob_id r) rows) env')"

definition dispatch_pending ::
  "'env publisher option \<Rightarrow> instant \<Rightarrow> nat \<Rightarrow> outbox_row list \<Rightarrow> 'env \<Rightarrow> nat \<times> outbox_row list \<times> 'env" where
  "dispatch_pending publish now limit rows env =
     dispatch_records publish now (get_pending_events None limit rows) 0 rows env"

section \<open>What a dispatch does to the table\<close>

text \<open>
  The outcomes of publishing a batch in order, and the table a batch of outcomes leads to: the
  loop of single transactions computes exactly this.
\<close>

fun publish_all :: "'env publisher option \<Rightarrow> outbox_row list \<Rightarrow> 'env \<Rightarrow> bool list \<times> 'env" where
  "publish_all publish [] env = ([], env)"
| "publish_all publish (r # rs) env =
     (let one = (case publish of None \<Rightarrow> (True, env) | Some p \<Rightarrow> p (ob_topic r) (ob_payload r) env);
          rest = publish_all publish rs (snd one)
      in (fst one # fst rest, snd rest))"

definition settle_row :: "instant \<Rightarrow> (string \<rightharpoonup> bool) \<Rightarrow> outbox_row \<Rightarrow> outbox_row" where
  "settle_row now outcome r =
     (case outcome (ob_id r) of
        None \<Rightarrow> r
      | Some True \<Rightarrow> r\<lparr>ob_status := OB_SENT, ob_updated_at := now\<rparr>
      | Some False \<Rightarrow> r\<lparr>ob_retry_count := Suc (ob_retry_count r), ob_updated_at := now\<rparr>)"

definition batch_outcome :: "'env publisher option \<Rightarrow> outbox_row list \<Rightarrow> 'env \<Rightarrow> string \<rightharpoonup> bool" where
  "batch_outcome publish rs env = map_of (zip (map ob_id rs) (fst (publish_all publish rs env)))"

lemma length_publish_all [simp]: "length (fst (publish_all publish rs env)) = length rs"
  by (induction publish rs env rule: publish_all.induct) (auto simp: Let_def)

lemma settle_empty [simp]: "settle_row now (\<lambda>_. None) r = r"
  by (simp add: settle_row_def)

lemma settle_marked:
  assumes "m i = None"
  shows "map (settle_row now m) (mark_sent now i rows) = map (settle_row now (m(i \<mapsto> True))) rows"
    and "map (settle_row now m) (mark_failed now i rows) = map (settle_row now (m(i \<mapsto> False))) rows"
  using assms by (auto simp: mark_sent_def mark_failed_def settle_row_def)

lemma dispatch_records_eq:
  "distinct (map ob_id rs) \<Longrightarrow>
     dispatch_records publish now rs count rows env =
       (count + length (filter id (fst (publish_all publish rs env))),
        map (settle_row now (batch_outcome publish rs env)) rows,
        snd (publish_all publish rs env))"
proof (induction publish now rs count rows env rule: dispatch_records.induct)
  case (1 publish now count rows env)
  then show ?case by (simp add: batch_outcome_def)
next
  case (2 publish now r rs count rows env)
  let ?one = "case publish of None \<Rightarrow> (True, env) | Some p \<Rightarrow> p (ob_topic r) (ob_payload r) env"
  have new: "batch_outcome publish rs (snd ?one) (ob_id r) = None"
    using "2.prems" by (auto simp: batch_outcome_def map_of_eq_None_iff set_zip)
  have step: "batch_outcome publish (r # rs) env = (batch_outcome publish rs (snd ?one))(ob_id r \<mapsto> fst ?one)"
    by (simp add: batch_outcome_def Let_def)
  obtain b env' where one: "?one = (b, env')" by (cases ?one)
  from 2 one show ?case
    by (cases b) (simp_all add: Let_def step settle_marked new [unfolded one snd_conv] fun_upd_def)
qed

definition pending :: "outbox_row list \<Rightarrow> outbox_row list" where
  "pending rows = filter (\<lambda>r. ob_status r = OB_PENDING) rows"

lemma get_pending_events_pending:
  "get_pending_events None limit rows = take limit (sort_key ob_created_at (pending rows))"
  by (simp add: get_pending_events_def pending_def)

lemma distinct_pending_batch:
  assumes "distinct (map ob_id rows)"
  shows "distinct (map ob_id (get_pending_events None limit rows))"
proof -
  have "distinct (map ob_id (pending rows))" using assms by (simp add: pending_def distinct_map_filter)
  then have "distinct (map ob_id (sort_key ob_created_at (pending rows)))"
    by (simp add: distinct_map)
  then show ?thesis unfolding get_pending_events_pending by (metis distinct_take take_map)
qed

lemma dispatch_pending_eq:
  assumes "distinct (map ob_id rows)"
  shows "dispatch_pending publish now limit rows env =
     (let batch = get_pending_events None limit rows; result = publish_all publish batch env
      in (length (filter id (fst result)),
          map (settle_row now (batch_outcome publish batch env)) rows, snd result))"
  by (simp add: dispatch_pending_def dispatch_records_eq [OF distinct_pending_batch [OF assms]] Let_def)

text \<open>A batch that fails as a whole is the whole of the next batch again.\<close>

lemma settle_all_failed:
  assumes "\<forall>b \<in> set (fst (publish_all publish rs env)). \<not> b"
  shows "pending (map (settle_row now (batch_outcome publish rs env)) rows) =
     map (settle_row now (batch_outcome publish rs env)) (pending rows)"
proof -
  have "batch_outcome publish rs env i \<noteq> Some True" for i
    using assms by (auto simp: batch_outcome_def dest!: map_of_SomeD set_zip_rightD)
  then have "ob_status (settle_row now (batch_outcome publish rs env) r) = ob_status r" for r
    by (auto simp: settle_row_def split: option.split bool.split)
  then show ?thesis by (simp add: pending_def filter_map comp_def)
qed

section \<open>Draining\<close>

lemma filter_outside_prefix: "distinct (map f xs) \<Longrightarrow> filter (\<lambda>x. f x \<notin> f ` set (take n xs)) xs = drop n xs"
proof -
  assume d: "distinct (map f xs)"
  have xs: "xs = take n xs @ drop n xs" by simp
  have "filter (\<lambda>x. f x \<notin> f ` set (take n xs)) (take n xs @ drop n xs) = drop n xs"
  proof -
    have "distinct (map f (take n xs @ drop n xs))" using d by simp
    then have "\<forall>x \<in> set (drop n xs). f x \<notin> f ` set (take n xs)"
      unfolding map_append distinct_append by fastforce
    then show ?thesis by (simp del: append_take_drop_id)
  qed
  then show ?thesis by simp
qed

lemma publish_all_succeed:
  assumes "case publish of None \<Rightarrow> True | Some p \<Rightarrow> \<forall>topic payload env. fst (p topic payload env)"
  shows "fst (publish_all publish rs env) = replicate (length rs) True"
proof (induction rs arbitrary: env)
  case (Cons r rs)
  show ?case using Cons assms by (cases publish) (simp_all add: Let_def)
qed simp

lemma dispatch_drains:
  assumes ids: "distinct (map ob_id rows)"
    and up: "case publish of None \<Rightarrow> True | Some p \<Rightarrow> \<forall>topic payload env. fst (p topic payload env)"
  shows "length (pending (fst (snd (dispatch_pending publish now limit rows env)))) = length (pending rows) - limit"
proof -
  let ?S = "sort_key ob_created_at (pending rows)"
  let ?B = "get_pending_events None limit rows"
  have B: "?B = take limit ?S" by (simp add: get_pending_events_def pending_def)
  have dS: "distinct (map ob_id ?S)"
    using ids by (simp add: pending_def distinct_map inj_on_def)
  have all: "fst (publish_all publish ?B env) = replicate (length ?B) True"
    using up by (rule publish_all_succeed)
  have out: "batch_outcome publish ?B env k = (if k \<in> ob_id ` set ?B then Some True else None)" for k
  proof -
    have "map_of (zip ks (replicate (length ks) True)) k = (if k \<in> set ks then Some True else None)" for ks :: "string list"
      by (induction ks) auto
    from this [of "map ob_id ?B"] show ?thesis by (simp add: batch_outcome_def all)
  qed
  have "pending (map (settle_row now (batch_outcome publish ?B env)) rows) = filter (\<lambda>r. ob_id r \<notin> ob_id ` set ?B) (pending rows)"
  proof -
    have "ob_status (settle_row now (batch_outcome publish ?B env) r) = OB_PENDING \<longleftrightarrow>
        ob_status r = OB_PENDING \<and> ob_id r \<notin> ob_id ` set ?B" for r
      by (simp add: settle_row_def out)
    moreover have "settle_row now (batch_outcome publish ?B env) r = r" if "ob_id r \<notin> ob_id ` set ?B" for r
      using that by (simp add: settle_row_def out)
    ultimately show ?thesis
      by (auto simp: pending_def filter_map comp_def conj_commute intro!: map_idI)
  qed
  then have "length (pending (fst (snd (dispatch_pending publish now limit rows env)))) =
      length (filter (\<lambda>r. ob_id r \<notin> ob_id ` set ?B) (pending rows))"
    by (simp add: dispatch_pending_eq [OF ids] Let_def)
  also have "\<dots> = length (filter (\<lambda>r. ob_id r \<notin> ob_id ` set ?B) ?S)"
    by (simp add: filter_sort)
  also have "\<dots> = length (pending rows) - limit"
    using filter_outside_prefix [OF dS, of limit] by (simp add: B)
  finally show ?thesis .
qed
end
