(* ===== verification/Approval_Store.thy ===== *)
theory Approval_Store
  imports Outbox
begin

text \<open>
  The relational store of approvals (\<open>ApprovalStore\<close> in \<open>engines/workflow/persistence.py\<close>).  A table
  is the list of its rows in insertion order; \<open>SELECT ... WHERE\<close> filters it and \<open>UPDATE ... WHERE\<close>
  maps over it.  A transaction is a function on the database that returns an error, and then the
  database is as before, or a result and the new database.  Timestamps are UTC instants, so the
  code's re-attachment of UTC to naive values is the identity; fresh identifiers and the clock
  are arguments.
\<close>

section \<open>Database and errors\<close>

record approval_db =
  t_requests :: "approval_request list"
  t_decisions :: "approval_decision list"
  t_delegations :: "approval_delegation list"
  t_outbox :: "outbox_row list"

datatype approval_error =
    TicketNotFound string
  | InvalidDecision approval_state
  | DelegationWindow
  | TicketConflict string approval_state
  | ConcurrentlyDecided string
  | AlreadyDecided string approval_state
  | DuplicateDecision string
  | KeyConversion
  | AuthenticationRequired
  | PrincipalTenantMismatch string string
  | ApproverMismatch string string
  | SelfApproval string
  | NotDelegator string string
  | RoleNotHeld string string
  | MissingRole string string
  | SignatureMandatory
  | NoVerificationService
  | NoAuthoritativeKey
  | PublicKeyMismatch
  | MalformedPublicKey
  | MalformedSignature
  | SignatureInvalid
  | IntegrityError

definition py_or :: "string \<Rightarrow> string \<Rightarrow> string" where
  "py_or s d = (if s = [] then d else s)"

fun approval_state_value :: "approval_state \<Rightarrow> string" where
  "approval_state_value AS_PENDING = ''PENDING''"
| "approval_state_value AS_APPROVED = ''APPROVED''"
| "approval_state_value AS_REJECTED = ''REJECTED''"
| "approval_state_value AS_EXPIRED = ''EXPIRED''"
| "approval_state_value AS_CANCELLED = ''CANCELLED''"

fun opt_str :: "string option \<Rightarrow> pyval" where
  "opt_str None = PNone"
| "opt_str (Some s) = PStr s"

section \<open>Rows\<close>

text \<open>
  \<open>requested_at\<close>, \<open>public_key_hex\<close> and \<open>decision_data\<close> are not columns: a row read back takes
  the model's default for them (the clock, nothing, the empty dictionary).  The columns
  \<open>created_at\<close> and \<open>updated_at\<close> default to the clock on insertion.
\<close>

definition opt_nonempty :: "string option \<Rightarrow> string option" where
  "opt_nonempty s = (case s of Some [] \<Rightarrow> None | _ \<Rightarrow> s)"

definition request_to_model :: "instant \<Rightarrow> approval_request \<Rightarrow> string \<Rightarrow> approval_request" where
  "request_to_model now req tid =
     req\<lparr>ar_tenant_id := py_or (ar_tenant_id req) tid,
         ar_instance_id := opt_nonempty (ar_instance_id req),
         ar_context_snapshot := sanitize_dict (ar_context_snapshot req),
         ar_created_at := Some now, ar_updated_at := Some now\<rparr>"

definition model_to_request :: "instant \<Rightarrow> approval_request \<Rightarrow> approval_request" where
  "model_to_request now row = row\<lparr>ar_requested_at := now\<rparr>"

definition decision_to_model :: "approval_decision \<Rightarrow> string \<Rightarrow> approval_decision" where
  "decision_to_model d tid =
     d\<lparr>ad_tenant_id := py_or (ad_tenant_id d) tid, ad_public_key_hex := None, ad_decision_data := []\<rparr>"

definition delegation_to_model :: "instant \<Rightarrow> approval_delegation \<Rightarrow> string \<Rightarrow> approval_delegation" where
  "delegation_to_model now d tid =
     d\<lparr>dg_tenant_id := py_or (dg_tenant_id d) tid, dg_created_at := Some now\<rparr>"

section \<open>Queries\<close>

definition tenant_is :: "string option \<Rightarrow> string \<Rightarrow> bool" where
  "tenant_is filter_by tenant = (case filter_by of None \<Rightarrow> True | Some t \<Rightarrow> tenant = t)"

definition select_request :: "approval_db \<Rightarrow> string \<Rightarrow> string option \<Rightarrow> approval_request option" where
  "select_request db rid tid = find (\<lambda>r. ar_id r = rid \<and> tenant_is tid (ar_tenant_id r)) (t_requests db)"

definition get_request :: "instant \<Rightarrow> approval_db \<Rightarrow> string \<Rightarrow> string option \<Rightarrow> approval_request option" where
  "get_request now db rid tid = map_option (model_to_request now) (select_request db rid tid)"

definition newest_first :: "approval_request list \<Rightarrow> approval_request list" where
  "newest_first rows = sort_key (\<lambda>r. - (case ar_created_at r of None \<Rightarrow> 0 | Some t \<Rightarrow> t)) rows"

definition first_row :: "'a list \<Rightarrow> 'a option" where
  "first_row rows = (case rows of [] \<Rightarrow> None | r # _ \<Rightarrow> Some r)"

definition get_request_by_step ::
  "instant \<Rightarrow> approval_db \<Rightarrow> string \<Rightarrow> string \<Rightarrow> string option \<Rightarrow> approval_request option" where
  "get_request_by_step now db inst step tid =
     map_option (model_to_request now) (first_row (newest_first
       (filter (\<lambda>r. ar_instance_id r = Some inst \<and> ar_step_id r = Some step \<and>
                    tenant_is tid (ar_tenant_id r)) (t_requests db))))"

definition get_request_by_instance ::
  "instant \<Rightarrow> approval_db \<Rightarrow> string \<Rightarrow> string option \<Rightarrow> approval_request option" where
  "get_request_by_instance now db inst tid =
     map_option (model_to_request now) (first_row (newest_first
       (filter (\<lambda>r. ar_instance_id r = Some inst \<and> tenant_is tid (ar_tenant_id r)) (t_requests db))))"

definition list_requests ::
  "instant \<Rightarrow> approval_db \<Rightarrow> string \<Rightarrow> string option \<Rightarrow> string option \<Rightarrow> approval_request list" where
  "list_requests now db tid role_filter state_filter =
     map (model_to_request now) (newest_first
       (filter (\<lambda>r. ar_tenant_id r = tid \<and> tenant_is role_filter (ar_required_role r) \<and>
                    tenant_is state_filter (approval_state_value (ar_state r))) (t_requests db)))"

definition get_decision :: "approval_db \<Rightarrow> string \<Rightarrow> string option \<Rightarrow> approval_decision option" where
  "get_decision db rid tid =
     find (\<lambda>d. ad_request_id d = rid \<and> tenant_is tid (ad_tenant_id d)) (t_decisions db)"

definition newest_delegations :: "approval_delegation list \<Rightarrow> approval_delegation list" where
  "newest_delegations rows = sort_key (\<lambda>r. - (case dg_created_at r of None \<Rightarrow> 0 | Some t \<Rightarrow> t)) rows"

definition delegation_covers :: "string \<Rightarrow> string \<Rightarrow> string \<Rightarrow> instant \<Rightarrow> approval_delegation \<Rightarrow> bool" where
  "delegation_covers tid delegatee role at_time d \<longleftrightarrow>
     dg_tenant_id d = tid \<and> dg_delegatee_id d = delegatee \<and> dg_role d = role \<and> dg_is_active d \<and>
     dg_valid_from d \<le> at_time \<and> at_time \<le> dg_valid_until d"

definition get_active_delegation ::
  "approval_db \<Rightarrow> string \<Rightarrow> string \<Rightarrow> string \<Rightarrow> instant \<Rightarrow> approval_delegation option" where
  "get_active_delegation db tid delegatee role at_time =
     first_row (newest_delegations (filter (delegation_covers tid delegatee role at_time) (t_delegations db)))"

definition list_delegations ::
  "approval_db \<Rightarrow> string \<Rightarrow> string option \<Rightarrow> string option \<Rightarrow> bool option \<Rightarrow> approval_delegation list" where
  "list_delegations db tid delegator delegatee active =
     newest_delegations
       (filter (\<lambda>d. dg_tenant_id d = tid \<and> tenant_is delegator (dg_delegator_id d) \<and>
                    tenant_is delegatee (dg_delegatee_id d) \<and>
                    (case active of None \<Rightarrow> True | Some b \<Rightarrow> dg_is_active d = b)) (t_delegations db))"

definition get_expired_pending_requests ::
  "instant \<Rightarrow> approval_db \<Rightarrow> string option \<Rightarrow> nat \<Rightarrow> approval_request list" where
  "get_expired_pending_requests now db tid limit =
     map (model_to_request now) (take limit
       (filter (\<lambda>r. ar_state r = AS_PENDING \<and>
                    (case ar_timeout_at r of None \<Rightarrow> False | Some t \<Rightarrow> t < now) \<and>
                    tenant_is tid (ar_tenant_id r)) (t_requests db)))"

section \<open>Writes\<close>

text \<open>\<open>new_id\<close> is the identifier of the outbox row; \<open>staged\<close> says that an outbox store is wired.\<close>

definition stage_if ::
  "bool \<Rightarrow> string \<Rightarrow> instant \<Rightarrow> string \<Rightarrow> string \<Rightarrow> (string, pyval) dict \<Rightarrow> approval_db \<Rightarrow> approval_db" where
  "stage_if staged new_id now tid topic payload db =
     (if staged then db\<lparr>t_outbox := stage_event_in_session new_id now tid topic payload (t_outbox db)\<rparr>
      else db)"

definition save_request ::
  "instant \<Rightarrow> string \<Rightarrow> bool \<Rightarrow> approval_request \<Rightarrow> string \<Rightarrow> approval_db \<Rightarrow> approval_error + approval_db" where
  "save_request now new_id staged request tenant db =
     (let tid = py_or (ar_tenant_id request) tenant;
          model = request_to_model now request tid
      in case select_request db (ar_id request) (Some tid) of
           None \<Rightarrow>
             if \<exists>r \<in> set (t_requests db). ar_id r = ar_id request then Inl IntegrityError
             else Inr (stage_if staged new_id now tid ''workflow.approval.created''
                     [(''request_id'', PStr (ar_id request)),
                      (''instance_id'', opt_str (opt_nonempty (ar_instance_id request))),
                      (''step_id'', opt_str (ar_step_id request)),
                      (''required_role'', PStr (ar_required_role request)),
                      (''tenant_id'', PStr tid)]
                     (db\<lparr>t_requests := t_requests db @ [model]\<rparr>))
         | Some existing \<Rightarrow>
             Inr (db\<lparr>t_requests := map (\<lambda>r. if ar_id r = ar_id request \<and> ar_tenant_id r = tid
                then r\<lparr>ar_state := ar_state model, ar_timeout_at := ar_timeout_at model,
                       ar_context_snapshot := ar_context_snapshot model,
                       ar_signature_required := ar_signature_required model,
                       ar_updated_at := Some now\<rparr>
                else r) (t_requests db)\<rparr>))"

definition save_decision :: "approval_decision \<Rightarrow> string \<Rightarrow> approval_db \<Rightarrow> approval_error + approval_db" where
  "save_decision d tenant db =
     (if \<exists>e \<in> set (t_decisions db). ad_request_id e = ad_request_id d \<or> ad_id e = ad_id d
      then Inl IntegrityError
      else Inr (db\<lparr>t_decisions := t_decisions db @ [decision_to_model d (py_or (ad_tenant_id d) tenant)]\<rparr>))"

definition save_delegation ::
  "instant \<Rightarrow> approval_delegation \<Rightarrow> string \<Rightarrow> approval_db \<Rightarrow> approval_error + approval_db" where
  "save_delegation now d tenant db =
     (if \<exists>e \<in> set (t_delegations db). dg_id e = dg_id d then Inl IntegrityError
      else Inr (db\<lparr>t_delegations := t_delegations db @
             [delegation_to_model now d (py_or (dg_tenant_id d) tenant)]\<rparr>))"

text \<open>
  \<open>UPDATE approval_requests SET state = new WHERE id = rid AND tenant_id = tid AND state =
  'PENDING'\<close>: the number of rows changed and the table.
\<close>

definition pending_row :: "string \<Rightarrow> string \<Rightarrow> approval_request \<Rightarrow> bool" where
  "pending_row rid tid r \<longleftrightarrow> ar_id r = rid \<and> ar_tenant_id r = tid \<and> ar_state r = AS_PENDING"

definition update_pending ::
  "instant \<Rightarrow> string \<Rightarrow> string \<Rightarrow> approval_state \<Rightarrow> approval_request list \<Rightarrow> nat \<times> approval_request list" where
  "update_pending now rid tid new rows =
     (length (filter (pending_row rid tid) rows),
      map (\<lambda>r. if pending_row rid tid r then r\<lparr>ar_state := new, ar_updated_at := Some now\<rparr> else r) rows)"

text \<open>
  \<open>atomic_submit_decision\<close> reads the ticket and later writes it; other sessions may commit in
  between.  The two halves are definitions of their own, and the operation is their composition.
\<close>

definition decide_read :: "approval_db \<Rightarrow> string \<Rightarrow> string \<Rightarrow> approval_error + approval_request" where
  "decide_read db rid tid =
     (case select_request db rid (Some tid) of
        None \<Rightarrow> Inl (TicketNotFound rid)
      | Some ticket \<Rightarrow>
          if ar_state ticket \<noteq> AS_PENDING then Inl (TicketConflict rid (ar_state ticket)) else Inr ticket)"

definition decide_write ::
  "instant \<Rightarrow> string \<Rightarrow> bool \<Rightarrow> approval_decision \<Rightarrow> string \<Rightarrow> approval_db \<Rightarrow>
   approval_error + (approval_request \<times> approval_db)" where
  "decide_write now new_id staged d tid db =
     (let rid = ad_request_id d;
          upd = update_pending now rid tid (ad_decision d) (t_requests db);
          db1 = db\<lparr>t_requests := snd upd\<rparr>
      in if fst upd = 0 then Inl (ConcurrentlyDecided rid)
         else case select_request db1 rid (Some tid) of
                None \<Rightarrow> Inl (TicketNotFound rid)
              | Some ticket \<Rightarrow>
                  (case save_decision d tid db1 of
                     Inl _ \<Rightarrow> Inl (DuplicateDecision rid)
                   | Inr db2 \<Rightarrow>
                       Inr (model_to_request now ticket,
                            stage_if staged new_id now tid ''workflow.approval.decided''
                              [(''request_id'', PStr rid),
                               (''instance_id'', opt_str (ar_instance_id ticket)),
                               (''step_id'', opt_str (ar_step_id ticket)),
                               (''decision'', PStr (approval_state_value (ad_decision d))),
                               (''approver_id'', PStr (ad_approver_id d)),
                               (''tenant_id'', PStr tid)] db2)))"

definition atomic_submit_decision ::
  "instant \<Rightarrow> string \<Rightarrow> bool \<Rightarrow> approval_decision \<Rightarrow> string \<Rightarrow> approval_db \<Rightarrow>
   approval_error + (approval_request \<times> approval_db)" where
  "atomic_submit_decision now new_id staged d tid db =
     bind_res (decide_read db (ad_request_id d) tid) (\<lambda>_. decide_write now new_id staged d tid db)"

definition atomic_expire_request ::
  "instant \<Rightarrow> string \<Rightarrow> bool \<Rightarrow> string \<Rightarrow> string \<Rightarrow> approval_db \<Rightarrow> approval_request option \<times> approval_db" where
  "atomic_expire_request now new_id staged rid tid db =
     (let upd = update_pending now rid tid AS_EXPIRED (t_requests db);
          db1 = db\<lparr>t_requests := snd upd\<rparr>
      in if fst upd = 0 then (None, db)
         else case select_request db1 rid (Some tid) of
                None \<Rightarrow> (None, db1)
              | Some ticket \<Rightarrow>
                  (Some (model_to_request now ticket),
                   stage_if staged new_id now tid ''workflow.approval.expired''
                     [(''request_id'', PStr rid),
                      (''instance_id'', opt_str (ar_instance_id ticket)),
                      (''step_id'', opt_str (ar_step_id ticket)),
                      (''tenant_id'', PStr tid)] db1))"

end
