(* ===== verification/Bytes.thy ===== *)
theory Bytes
  imports Py_Text "HOL-Library.Word"
begin

text \<open>
  Bytes and what the security engine uses of Python's codecs: UTF-8 of the modelled characters,
  big-endian lengths, \<open>bytes.fromhex\<close> and strict Base64; the length-prefixed encoding of a list of
  strings that tokens, OAuth states and the associated data of secrets share.
\<close>

type_synonym byte = "8 word"

definition byte :: "nat \<Rightarrow> byte" where "byte n = of_nat n"

lemma byte_bound: "unat (b :: byte) < 256"
  using unsigned_less [of b] by simp

lemma byte_parts: "unat (b :: byte) div 4 < 64" "unat b div 16 < 16" "unat b div 64 < 4"
  "unat b div 16 mod 16 = unat b div 16" "unat b div 16 div 16 = 0"
  using byte_bound [of b] by (simp_all add: less_mult_imp_div_less div_mult2_eq [symmetric])

lemma unat_byte [simp]: "n < 256 \<Longrightarrow> unat (byte n) = n"
  by (simp add: byte_def unat_of_nat)

lemma byte_unat [simp]: "byte (unat b) = b"
  by (simp add: byte_def)

section \<open>UTF-8\<close>

definition utf8_char :: "char \<Rightarrow> byte list" where
  "utf8_char c =
     (let n = of_char c :: nat in if n < 128 then [byte n] else [byte (192 + n div 64), byte (128 + n mod 64)])"

definition utf8 :: "string \<Rightarrow> byte list" where
  "utf8 s = concat (map utf8_char s)"

text \<open>\<open>None\<close> for malformed input and for characters outside the modelled ones.\<close>

fun utf8_decode :: "byte list \<Rightarrow> string option" where
  "utf8_decode [] = Some []"
| "utf8_decode (b # bs) =
     (if unat b < 128 then map_option (Cons (char_of (unat b))) (utf8_decode bs)
      else (case bs of
              [] \<Rightarrow> None
            | c # cs \<Rightarrow>
                if unat b \<in> {194, 195} \<and> 128 \<le> unat c \<and> unat c < 192
                then map_option (Cons (char_of ((unat b - 192) * 64 + (unat c - 128)))) (utf8_decode cs) else None))"

lemma char_code_bound: "(of_char c :: nat) < 256"
  using range_nat_of_char by (metis atLeastLessThan_iff rangeI)

lemma utf8_decode_char: "utf8_decode (utf8_char c @ bs) = map_option (Cons c) (utf8_decode bs)"
proof (cases "(of_char c :: nat) < 128")
  case True
  then show ?thesis by (simp add: utf8_char_def)
next
  case False
  define n where "n = (of_char c :: nat)"
  have n: "128 \<le> n" "n < 256" using False char_code_bound [of c] by (simp_all add: n_def)
  have "2 \<le> n div 64" "n div 64 < 4" using n by (simp_all add: less_mult_imp_div_less less_eq_div_iff_mult_less_eq)
  then have "n div 64 = 2 \<or> n div 64 = 3" by linarith
  then have lead: "unat (byte (192 + n div 64)) = 192 + n div 64" "192 + n div 64 \<in> {194, 195}" by auto
  have "n mod 64 < 64" by simp
  then have trail: "unat (byte (128 + n mod 64)) = 128 + n mod 64" "128 + n mod 64 < 192" by simp_all
  have c: "utf8_char c = [byte (192 + n div 64), byte (128 + n mod 64)]"
    using n by (simp add: utf8_char_def Let_def n_def [symmetric])
  have "char_of ((192 + n div 64 - 192) * 64 + (128 + n mod 64 - 128)) = c" by (simp add: n_def)
  with lead trail show ?thesis unfolding c by simp
qed

theorem utf8_decode_utf8 [simp]: "utf8_decode (utf8 s) = Some s"
proof (induction s)
  case Nil
  then show ?case by (simp add: utf8_def)
next
  case (Cons c s)
  have "utf8 (c # s) = utf8_char c @ utf8 s" by (simp add: utf8_def)
  with Cons show ?case by (simp add: utf8_decode_char)
qed

lemma utf8_inject [simp]: "utf8 s = utf8 t \<longleftrightarrow> s = t"
  by (metis utf8_decode_utf8 option.inject)

section \<open>Length-prefixed parts\<close>

text \<open>\<open>n.to_bytes(4, "big")\<close> for a number that fits.\<close>

definition to_bytes4 :: "nat \<Rightarrow> byte list" where
  "to_bytes4 n = map (\<lambda>k. byte (n div 256 ^ k mod 256)) [3, 2, 1, 0]"

definition of_bytes4 :: "byte list \<Rightarrow> nat" where
  "of_bytes4 bs = foldl (\<lambda>n b. 256 * n + unat b) 0 bs"

lemma length_to_bytes4 [simp]: "length (to_bytes4 n) = 4"
  by (simp add: to_bytes4_def)

lemma of_to_bytes4 [simp]: "n < 2 ^ 32 \<Longrightarrow> of_bytes4 (to_bytes4 n) = n"
proof -
  assume n: "n < 2 ^ 32"
  then have "n < 256 * 16777216" by simp
  then have high: "n div 16777216 < 256" by (rule less_mult_imp_div_less)
  have "n div 16777216 = n div 65536 div 256" "n div 65536 = n div 256 div 256"
    by (simp_all add: div_mult2_eq [symmetric])
  then have "256 * (256 * (256 * (n div 16777216) + n div 65536 mod 256) + n div 256 mod 256) + n mod 256 = n"
    by (metis mult_div_mod_eq)
  with high show ?thesis by (simp add: of_bytes4_def to_bytes4_def)
qed

text \<open>A part that is too long for its length to fit raises.\<close>

fun encode_parts :: "byte list \<Rightarrow> string list \<Rightarrow> byte list option" where
  "encode_parts encoded [] = Some encoded"
| "encode_parts encoded (part # parts) =
     (let bs = utf8 part
      in if length bs < 2 ^ 32 then encode_parts (encoded @ to_bytes4 (length bs) @ bs) parts else None)"

text \<open>Reading the parts back.\<close>

lemma framed_inject:
  assumes "to_bytes4 (length a) @ a @ x = to_bytes4 (length b) @ b @ y" "length a < 2 ^ 32" "length b < 2 ^ 32"
  shows "a = b \<and> x = y"
proof -
  have "to_bytes4 (length a) = to_bytes4 (length b)" "a @ x = b @ y"
    using assms(1) by (simp_all add: append_eq_append_conv)
  then have "length a = length b" using of_to_bytes4 assms(2, 3) by metis
  with \<open>a @ x = b @ y\<close> show ?thesis by simp
qed

lemma encode_parts_prefix: "encode_parts p xs = Some bs \<Longrightarrow> \<exists>cs. bs = p @ cs"
proof (induction xs arbitrary: p)
  case Nil
  then show ?case by simp
next
  case (Cons x xs)
  then have "encode_parts (p @ to_bytes4 (length (utf8 x)) @ utf8 x) xs = Some bs" by (simp add: Let_def split: if_splits)
  from Cons.IH [OF this] show ?case by auto
qed

lemma encode_parts_longer: "encode_parts p (x # xs) = Some bs \<Longrightarrow> length p + 4 + length (utf8 x) \<le> length bs"
  using encode_parts_prefix by (fastforce simp: Let_def split: if_splits)

theorem encode_parts_inject:
  "encode_parts p xs = Some bs \<Longrightarrow> encode_parts p ys = Some bs \<Longrightarrow> xs = ys"
proof (induction xs arbitrary: p ys)
  case Nil
  then show ?case using encode_parts_longer by (cases ys) fastforce+
next
  case (Cons x xs)
  show ?case
  proof (cases ys)
    case Nil
    then show ?thesis using Cons.prems encode_parts_longer [OF Cons.prems(1)] by simp
  next
    case ys: (Cons y ys')
    let ?f = "\<lambda>x. p @ to_bytes4 (length (utf8 x)) @ utf8 x"
    have x: "encode_parts (?f x) xs = Some bs" "length (utf8 x) < 2 ^ 32"
      and y: "encode_parts (?f y) ys' = Some bs" "length (utf8 y) < 2 ^ 32"
      using Cons.prems by (simp_all add: ys Let_def split: if_splits)
    obtain u v where "bs = ?f x @ u" "bs = ?f y @ v" using encode_parts_prefix x(1) y(1) by blast
    then have "to_bytes4 (length (utf8 x)) @ utf8 x @ u = to_bytes4 (length (utf8 y)) @ utf8 y @ v" by simp
    from framed_inject [OF this x(2) y(2)] have "x = y" by simp
    with Cons.IH x(1) y(1) ys show ?thesis by blast
  qed
qed

section \<open>Hexadecimal\<close>

definition hex_digit :: "char \<Rightarrow> nat option" where
  "hex_digit c =
     (let n = of_char c :: nat
      in if 48 \<le> n \<and> n \<le> 57 then Some (n - 48)
         else if 65 \<le> n \<and> n \<le> 70 then Some (n - 55)
         else if 97 \<le> n \<and> n \<le> 102 then Some (n - 87) else None)"

definition hex_char :: "nat \<Rightarrow> char" where
  "hex_char n = char_of (if n < 10 then 48 + n else 87 + n)"

definition tohex :: "byte list \<Rightarrow> string" where
  "tohex bs = concat (map (\<lambda>b. [hex_char (unat b div 16), hex_char (unat b mod 16)]) bs)"

definition ascii_space :: "char \<Rightarrow> bool" where
  "ascii_space c = (let n = of_char c :: nat in n = 32 \<or> (9 \<le> n \<and> n \<le> 13))"

text \<open>White space is skipped between the pairs of digits.\<close>

fun fromhex :: "string \<Rightarrow> byte list option" where
  "fromhex [] = Some []"
| "fromhex (c # cs) =
     (if ascii_space c then fromhex cs
      else (case cs of
              [] \<Rightarrow> None
            | d # ds \<Rightarrow>
                (case (hex_digit c, hex_digit d) of
                   (Some a, Some b) \<Rightarrow> map_option (Cons (byte (16 * a + b))) (fromhex ds)
                 | _ \<Rightarrow> None)))"

lemma hex_char_facts: "n < 16 \<Longrightarrow> hex_digit (hex_char n) = Some n \<and> \<not> ascii_space (hex_char n) \<and> \<not> is_space (hex_char n)"
  by (auto simp: hex_digit_def hex_char_def ascii_space_def is_space_def Let_def)

lemma fromhex_tohex [simp]: "fromhex (tohex bs) = Some bs"
proof (induction bs)
  case Nil
  then show ?case by (simp add: tohex_def)
next
  case (Cons b bs)
  have "unat b div 16 < 16" by (rule byte_parts)
  then have "fromhex (tohex (b # bs)) = map_option (Cons (byte (16 * (unat b div 16) + unat b mod 16))) (fromhex (tohex bs))"
    by (simp add: tohex_def hex_char_facts)
  with Cons show ?case by simp
qed

lemma length_tohex [simp]: "length (tohex bs) = 2 * length bs"
  by (induction bs) (simp_all add: tohex_def)

section \<open>Base64\<close>

definition b64_value :: "char \<Rightarrow> nat option" where
  "b64_value c =
     (let n = of_char c :: nat
      in if 65 \<le> n \<and> n \<le> 90 then Some (n - 65)
         else if 97 \<le> n \<and> n \<le> 122 then Some (n - 71)
         else if 48 \<le> n \<and> n \<le> 57 then Some (n + 4)
         else if n = 43 then Some 62 else if n = 47 then Some 63 else None)"

definition b64_char :: "nat \<Rightarrow> char" where
  "b64_char n =
     (if n < 26 then char_of (n + 65) else if n < 52 then char_of (n + 71) else if n < 62 then char_of (n - 4)
      else if n = 62 then char_of (43 :: nat) else char_of (47 :: nat))"

fun b64encode :: "byte list \<Rightarrow> string" where
  "b64encode [] = []"
| "b64encode [a] = [b64_char (unat a div 4), b64_char (unat a mod 4 * 16), CHR ''='', CHR ''='']"
| "b64encode [a, b] =
     [b64_char (unat a div 4), b64_char (unat a mod 4 * 16 + unat b div 16), b64_char (unat b mod 16 * 4), CHR ''='']"
| "b64encode (a # b # c # bs) =
     b64_char (unat a div 4) # b64_char (unat a mod 4 * 16 + unat b div 16) #
     b64_char (unat b mod 16 * 4 + unat c div 64) # b64_char (unat c mod 64) # b64encode bs"

text \<open>
  The decoder of the \<open>binascii\<close> module in strict mode: position in the group of four, bits left over,
  padding seen.
\<close>

fun b64_loop :: "nat \<Rightarrow> nat \<Rightarrow> nat \<Rightarrow> bool \<Rightarrow> byte list \<Rightarrow> string \<Rightarrow> byte list option" where
  "b64_loop quad left pads padding out [] = (if quad = 0 then Some out else None)"
| "b64_loop quad left pads padding out (c # cs) =
     (if c = CHR ''='' then
        (if 2 \<le> quad \<and> 4 \<le> quad + Suc pads then (if cs = [] then Some out else None)
         else b64_loop quad left (if 2 \<le> quad then Suc pads else pads) True out cs)
      else (case b64_value c of
              None \<Rightarrow> None
            | Some n \<Rightarrow>
                if padding then None
                else if quad = 0 then b64_loop 1 n 0 padding out cs
                else if quad = 1 then b64_loop 2 (n mod 16) 0 padding (out @ [byte (left * 4 + n div 16)]) cs
                else if quad = 2 then b64_loop 3 (n mod 4) 0 padding (out @ [byte (left * 16 + n div 4)]) cs
                else b64_loop 0 0 0 padding (out @ [byte (left * 64 + n)]) cs))"

definition b64decode :: "string \<Rightarrow> byte list option" where
  "b64decode s = (case s of [] \<Rightarrow> Some [] | c # cs \<Rightarrow> if c = CHR ''='' then None else b64_loop 0 0 0 False [] s)"

lemma b64_char_facts: "n < 64 \<Longrightarrow> b64_value (b64_char n) = Some n \<and> b64_char n \<noteq> CHR ''='' \<and> \<not> is_space (b64_char n)"
proof -
  assume "n < 64"
  then have "b64_value (b64_char n) = Some n" "\<not> is_space (b64_char n)"
    by (auto simp: b64_value_def b64_char_def is_space_def Let_def)
  moreover from this(1) have "b64_char n \<noteq> CHR ''=''" by (auto simp: b64_value_def Let_def)
  ultimately show ?thesis by simp
qed

lemma sextets:
  "unat (a :: byte) div 4 < 64" "unat (a :: byte) mod 4 * 16 + unat (b :: byte) div 16 < 64"
  "unat (a :: byte) mod 4 * 16 < 64" "unat (b :: byte) mod 16 * 4 < 64"
  "unat (b :: byte) mod 16 * 4 + unat (c :: byte) div 64 < 64" "unat (c :: byte) mod 64 < 64"
proof -
  have "unat a mod 4 < 4" "unat b mod 16 < 16" by simp_all
  with byte_parts(2) [of b] byte_parts(3) [of c] show "unat a mod 4 * 16 + unat b div 16 < 64"
    "unat a mod 4 * 16 < 64" "unat b mod 16 * 4 < 64" "unat b mod 16 * 4 + unat c div 64 < 64" by linarith+
qed (simp_all add: byte_parts)

lemma regrouped:
  "unat (a :: byte) div 4 * 4 + (unat a mod 4 * 16 + unat (b :: byte) div 16) div 16 = unat a"
  "unat (a :: byte) div 4 * 4 + unat a mod 4 * 16 div 16 = unat a"
  "(unat (a :: byte) mod 4 * 16 + unat (b :: byte) div 16) mod 16 * 16 + (unat b mod 16 * 4 + unat (c :: byte) div 64) div 4 = unat b"
  "(unat (a :: byte) mod 4 * 16 + unat (b :: byte) div 16) mod 16 * 16 + unat b mod 16 * 4 div 4 = unat b"
  "(unat (b :: byte) mod 16 * 4 + unat (c :: byte) div 64) mod 4 * 64 + unat c mod 64 = unat c"
proof -
  have "unat b div 16 < 16" "unat c div 64 < 4" by (rule byte_parts)+
  then have "unat b div 16 div 16 = 0" "unat b div 16 mod 16 = unat b div 16" "unat c div 64 div 4 = 0"
    "unat c div 64 mod 4 = unat c div 64" by simp_all
  moreover have "(x * 16 + y) mod 16 = y mod 16" "(x * 4 + y) mod 4 = y mod 4" for x y :: nat by simp_all
  ultimately show
    "unat a div 4 * 4 + (unat a mod 4 * 16 + unat b div 16) div 16 = unat a"
    "unat a div 4 * 4 + unat a mod 4 * 16 div 16 = unat a"
    "(unat a mod 4 * 16 + unat b div 16) mod 16 * 16 + (unat b mod 16 * 4 + unat c div 64) div 4 = unat b"
    "(unat a mod 4 * 16 + unat b div 16) mod 16 * 16 + unat b mod 16 * 4 div 4 = unat b"
    "(unat b mod 16 * 4 + unat c div 64) mod 4 * 64 + unat c mod 64 = unat c"
    by simp_all
qed

lemma b64_loop_encode: "b64_loop 0 0 0 False out (b64encode bs) = Some (out @ bs)"
proof (induction bs arbitrary: out rule: b64encode.induct)
  case 1
  then show ?case by simp
next
  case (2 a)
  then show ?case using sextets [of a] by (simp add: b64_char_facts regrouped [simplified])
next
  case (3 a b)
  then show ?case using sextets by (simp add: b64_char_facts regrouped byte_parts)
next
  case (4 a b c bs)
  then show ?case using sextets by (simp add: b64_char_facts regrouped byte_parts)
qed

theorem b64decode_encode [simp]: "b64decode (b64encode bs) = Some bs"
proof (cases "b64encode bs")
  case Nil
  then show ?thesis by (cases bs rule: b64encode.cases) (simp_all add: b64decode_def)
next
  case (Cons c cs)
  then have "c \<noteq> CHR ''=''" using sextets(1) by (cases bs rule: b64encode.cases) (auto simp: b64_char_facts)
  with b64_loop_encode [of "[]" bs] Cons show ?thesis by (simp add: b64decode_def)
qed

lemma length_b64encode: "length (b64encode bs) = 4 * ((length bs + 2) div 3)"
  by (induction bs rule: b64encode.induct) (simp_all, presburger)

end
