(* ===== verification/Approval_Managers.thy ===== *)
theory Approval_Managers
  imports Approval_Store Bytes
begin

text \<open>
  The approval managers (\<open>engines/workflow/approval.py\<close>): the in-memory one and the durable one
  over the relational store.  The clock, fresh identifiers, the text of a timestamp and the
  signature verifier are arguments.  Audit entries and published events are recorded in the order
  in which they are handed over; a failure there is swallowed by the code.
\<close>

section \<open>In memory\<close>

record memory_approvals =
  mm_requests :: "(string, approval_request) dict"
  mm_decisions :: "(string, approval_decision) dict"

definition memory_save_request :: "approval_request \<Rightarrow> memory_approvals \<Rightarrow> memory_approvals" where
  "memory_save_request r m = m\<lparr>mm_requests := dict_set (ar_id r) r (mm_requests m)\<rparr>"

definition memory_get_request :: "memory_approvals \<Rightarrow> string \<Rightarrow> approval_request option" where
  "memory_get_request m rid = dict_get (mm_requests m) rid"

definition memory_list_pending_requests :: "memory_approvals \<Rightarrow> string option \<Rightarrow> approval_request list" where
  "memory_list_pending_requests m role =
     filter (\<lambda>r. ar_state r = AS_PENDING \<and> tenant_is role (ar_required_role r)) (map snd (mm_requests m))"

definition memory_get_request_by_instance :: "memory_approvals \<Rightarrow> string \<Rightarrow> approval_request option" where
  "memory_get_request_by_instance m inst =
     find (\<lambda>r. ar_instance_id r = Some inst \<and> ar_state r = AS_PENDING) (map snd (mm_requests m))"

definition memory_get_request_by_step :: "memory_approvals \<Rightarrow> string \<Rightarrow> string \<Rightarrow> approval_request option" where
  "memory_get_request_by_step m inst step =
     find (\<lambda>r. ar_instance_id r = Some inst \<and> ar_step_id r = Some step \<and> ar_state r = AS_PENDING)
       (map snd (mm_requests m))"

definition blank :: "string \<Rightarrow> bool" where
  "blank s \<longleftrightarrow> list_all (\<lambda>c. c \<in> {CHR '' '', CHR 0x09, CHR 0x0A, CHR 0x0B, CHR 0x0C, CHR 0x0D}) s"

definition ticket_instance :: "string option \<Rightarrow> string option" where
  "ticket_instance inst = (case inst of None \<Rightarrow> None | Some i \<Rightarrow> if blank i then None else Some i)"

text \<open>The tenant a caller passes falls into \<open>**kwargs\<close>: the ticket keeps the model's default.\<close>

definition memory_create_request ::
  "instant \<Rightarrow> string \<Rightarrow> string option \<Rightarrow> string option \<Rightarrow> string \<Rightarrow> security_principal option \<Rightarrow>
   string option \<Rightarrow> string option \<Rightarrow> string \<Rightarrow> memory_approvals \<Rightarrow> approval_request \<times> memory_approvals" where
  "memory_create_request now new_id inst step role who correlation fingerprint tenant_kwarg m =
     (let r = \<lparr>ar_id = new_id, ar_tenant_id = ''default'', ar_instance_id = ticket_instance inst,
               ar_step_id = step, ar_required_role = role, ar_requested_at = now,
               ar_state = AS_PENDING, ar_timeout_at = None, ar_context_snapshot = [],
               ar_signature_required = False,
               ar_requester_principal_id = map_option sp_principal_id who,
               ar_requester_principal_type = map_option (principal_type_value \<circ> sp_principal_type) who,
               ar_correlation_id = correlation, ar_action_fingerprint = fingerprint,
               ar_created_at = None, ar_updated_at = None\<rparr>
      in (r, memory_save_request r m))"

definition memory_submit_decision ::
  "approval_decision \<Rightarrow> memory_approvals \<Rightarrow> approval_error + (approval_request \<times> memory_approvals)" where
  "memory_submit_decision d m =
     (case memory_get_request m (ad_request_id d) of
        None \<Rightarrow> Inl (TicketNotFound (ad_request_id d))
      | Some r \<Rightarrow>
          if ar_state r \<noteq> AS_PENDING then Inl (AlreadyDecided (ad_request_id d) (ar_state r))
          else if ad_decision d \<notin> {AS_APPROVED, AS_REJECTED} then Inl (InvalidDecision (ad_decision d))
          else let r' = r\<lparr>ar_state := ad_decision d\<rparr>
               in Inr (r', memory_save_request r'
                    (m\<lparr>mm_decisions := dict_set (ad_request_id d) d (mm_decisions m)\<rparr>)))"

section \<open>Bytes and keys\<close>

text \<open>\<open>bytes(raw)\<close>: a count of zero bytes, or an iterable of integers below 256.\<close>

fun py_bytes :: "pyval \<Rightarrow> byte list option" where
  "py_bytes (PInt n) = (if n < 0 then None else Some (replicate (nat n) 0))"
| "py_bytes (PBool b) = Some (if b then [0] else [])"
| "py_bytes (PList vs) =
     those (map (\<lambda>v. case v of
        PInt n \<Rightarrow> if 0 \<le> n \<and> n < 256 then Some (word_of_int n) else None
      | PBool b \<Rightarrow> Some (if b then 1 else 0)
      | _ \<Rightarrow> None) vs)"
| "py_bytes (PDict d) = (if d = [] then Some [] else None)"
| "py_bytes (PModel d) = (if d = [] then Some [] else None)"
| "py_bytes v = None"

definition key_hex :: "pyval \<Rightarrow> string option" where
  "key_hex raw = (case raw of PStr s \<Rightarrow> Some s | _ \<Rightarrow> map_option tohex (py_bytes raw))"

section \<open>The durable manager\<close>

record audit_entry =
  au_action :: string
  au_actor_id :: string
  au_actor_type :: string
  au_tenant_id :: string
  au_resource_id :: "string option"
  au_context :: "(string, pyval) dict"

text \<open>
  \<open>mc_verifier\<close> is the verification service, of the payload, the signature and the public key;
  \<open>mc_isoformat\<close> the text of a timestamp.
\<close>

record manager_config =
  mc_outbox :: bool
  mc_audit :: bool
  mc_events :: bool
  mc_verifier :: "(string \<Rightarrow> byte list \<Rightarrow> byte list \<Rightarrow> bool) option"
  mc_isoformat :: "instant \<Rightarrow> string"

record manager_state =
  ms_db :: approval_db
  ms_audit :: "audit_entry list"
  ms_published :: "(string \<times> (string, pyval) dict) list"

definition record_audit ::
  "manager_config \<Rightarrow> string \<Rightarrow> string \<Rightarrow> string \<Rightarrow> string option \<Rightarrow> (string, pyval) dict \<Rightarrow>
   security_principal option \<Rightarrow> manager_state \<Rightarrow> manager_state" where
  "record_audit cfg action actor tenant resource context who s =
     (if mc_audit cfg then
        s\<lparr>ms_audit := ms_audit s @
           [\<lparr>au_action = action, au_actor_id = actor, au_actor_type = actor_type_for_principal who actor,
             au_tenant_id = tenant, au_resource_id = resource, au_context = sanitize_dict context\<rparr>]\<rparr>
      else s)"

definition opt_int :: "int option \<Rightarrow> pyval" where
  "opt_int i = (case i of None \<Rightarrow> PNone | Some n \<Rightarrow> PInt n)"

definition create_request ::
  "manager_config \<Rightarrow> instant \<Rightarrow> string \<Rightarrow> string \<Rightarrow> string option \<Rightarrow> string option \<Rightarrow> string \<Rightarrow> string \<Rightarrow>
   int option \<Rightarrow> (string, pyval) dict \<Rightarrow> bool \<Rightarrow> security_principal option \<Rightarrow> string option \<Rightarrow>
   string option \<Rightarrow> manager_state \<Rightarrow> approval_error + (approval_request \<times> manager_state)" where
  "create_request cfg now new_id event_id inst step role tenant timeout context signature who
     correlation fingerprint s =
     (let r = \<lparr>ar_id = new_id, ar_tenant_id = tenant, ar_instance_id = ticket_instance inst,
               ar_step_id = step, ar_required_role = role, ar_requested_at = now,
               ar_state = AS_PENDING, ar_timeout_at = map_option (\<lambda>t. now + t) timeout,
               ar_context_snapshot = sanitize_dict context, ar_signature_required = signature,
               ar_requester_principal_id = map_option sp_principal_id who,
               ar_requester_principal_type = map_option (principal_type_value \<circ> sp_principal_type) who,
               ar_correlation_id = correlation, ar_action_fingerprint = fingerprint,
               ar_created_at = None, ar_updated_at = None\<rparr>
      in bind_res (save_request now event_id (mc_outbox cfg) r tenant (ms_db s)) (\<lambda>db.
           Inr (r, record_audit cfg ''kortex.workflow.approval.create''
             (case who of Some p \<Rightarrow> sp_principal_id p | None \<Rightarrow> ''SYSTEM'') tenant (Some new_id)
             [(''required_role'', PStr role), (''instance_id'', opt_str (opt_nonempty inst)),
              (''step_id'', opt_str step), (''timeout_seconds'', opt_int timeout),
              (''correlation_id'', opt_str correlation)] who (s\<lparr>ms_db := db\<rparr>))))"

definition is_admin :: "security_principal \<Rightarrow> bool" where
  "is_admin p \<longleftrightarrow> ''admin'' \<in> set (sp_roles p) \<or> ''SECURITY_ADMIN'' \<in> set (sp_roles p)"

definition create_delegation ::
  "manager_config \<Rightarrow> instant \<Rightarrow> string \<Rightarrow> string \<Rightarrow> string \<Rightarrow> string \<Rightarrow> instant \<Rightarrow> instant \<Rightarrow> string \<Rightarrow>
   security_principal option \<Rightarrow> manager_state \<Rightarrow>
   approval_error + (approval_delegation \<times> manager_state)" where
  "create_delegation cfg now new_id delegator delegatee role valid_from valid_until tenant who s =
     (if valid_from \<ge> valid_until then Inl DelegationWindow
      else case who of
        None \<Rightarrow> Inl AuthenticationRequired
      | Some p \<Rightarrow>
          if sp_tenant_id p \<noteq> tenant then Inl (PrincipalTenantMismatch (sp_tenant_id p) tenant)
          else if sp_principal_id p \<noteq> delegator \<and> \<not> is_admin p
          then Inl (NotDelegator (sp_principal_id p) delegator)
          else if \<not> (role \<in> set (sp_roles p) \<or> is_admin p) then Inl (RoleNotHeld delegator role)
          else
            (let d = \<lparr>dg_id = new_id, dg_tenant_id = tenant, dg_delegator_id = delegator,
                      dg_delegatee_id = delegatee, dg_role = role, dg_valid_from = valid_from,
                      dg_valid_until = valid_until, dg_is_active = True, dg_created_at = None\<rparr>
             in bind_res (save_delegation now d tenant (ms_db s)) (\<lambda>db.
                  Inr (d, record_audit cfg ''kortex.workflow.approval.delegate'' delegator tenant (Some new_id)
                    [(''delegatee_id'', PStr delegatee), (''role'', PStr role),
                     (''valid_from'', PStr (mc_isoformat cfg valid_from)),
                     (''valid_until'', PStr (mc_isoformat cfg valid_until))] None (s\<lparr>ms_db := db\<rparr>)))))"

subsection \<open>Deciding\<close>

definition has_text :: "string option \<Rightarrow> bool" where
  "has_text s \<longleftrightarrow> s \<noteq> None \<and> s \<noteq> Some []"

definition canonical_payload :: "manager_config \<Rightarrow> approval_request \<Rightarrow> approval_decision \<Rightarrow> string" where
  "canonical_payload cfg ticket d =
     ar_id ticket @ '':'' @ approval_state_value (ad_decision d) @ '':'' @ ad_approver_id d @ '':'' @
     mc_isoformat cfg (ad_decided_at d)"

definition check_signature ::
  "manager_config \<Rightarrow> security_principal \<Rightarrow> approval_request \<Rightarrow> approval_decision \<Rightarrow> approval_error + unit" where
  "check_signature cfg p ticket d =
     (if \<not> has_text (ad_signature_hex d) then
        (if ar_signature_required ticket then Inl SignatureMandatory else Inr ())
      else case mc_verifier cfg of
        None \<Rightarrow> Inl NoVerificationService
      | Some verify \<Rightarrow>
          (case dict_get (sp_attributes p) ''public_key'' of
             None \<Rightarrow> Inl NoAuthoritativeKey
           | Some raw \<Rightarrow>
               (case key_hex raw of
                  None \<Rightarrow> Inl KeyConversion
                | Some hex \<Rightarrow>
                    if has_text (ad_public_key_hex d) \<and>
                       py_lower (the (ad_public_key_hex d)) \<noteq> py_lower hex then Inl PublicKeyMismatch
                    else (case fromhex hex of
                      None \<Rightarrow> Inl MalformedPublicKey
                    | Some key \<Rightarrow>
                        (case fromhex (the (ad_signature_hex d)) of
                           None \<Rightarrow> Inl MalformedSignature
                         | Some signature \<Rightarrow>
                             if verify (canonical_payload cfg ticket d) signature key then Inr ()
                             else Inl SignatureInvalid)))))"

definition check_authority ::
  "instant \<Rightarrow> approval_db \<Rightarrow> security_principal \<Rightarrow> approval_request \<Rightarrow> approval_decision \<Rightarrow> approval_error + unit" where
  "check_authority now db p ticket d =
     (if sp_tenant_id p \<noteq> ar_tenant_id ticket
      then Inl (PrincipalTenantMismatch (sp_tenant_id p) (ar_tenant_id ticket))
      else if sp_principal_id p \<noteq> ad_approver_id d
      then Inl (ApproverMismatch (ad_approver_id d) (sp_principal_id p))
      else if ar_requester_principal_id ticket = Some (sp_principal_id p)
      then Inl (SelfApproval (sp_principal_id p))
      else if ar_required_role ticket \<notin> set (sp_roles p) \<and> ar_required_role ticket \<noteq> [] \<and>
              get_active_delegation db (ar_tenant_id ticket) (sp_principal_id p) (ar_required_role ticket) now = None
      then Inl (MissingRole (sp_principal_id p) (ar_required_role ticket))
      else Inr ())"

text \<open>Everything \<open>submit_decision\<close> checks before its committing transaction.\<close>

definition authorize_decision ::
  "manager_config \<Rightarrow> instant \<Rightarrow> approval_db \<Rightarrow> approval_decision \<Rightarrow> security_principal option \<Rightarrow> string \<Rightarrow>
   approval_error + approval_request" where
  "authorize_decision cfg now db d who tid =
     (case get_request now db (ad_request_id d) (Some tid) of
        None \<Rightarrow> Inl (TicketNotFound (ad_request_id d))
      | Some ticket \<Rightarrow>
          if ar_state ticket \<noteq> AS_PENDING then Inl (TicketConflict (ad_request_id d) (ar_state ticket))
          else if ad_decision d \<notin> {AS_APPROVED, AS_REJECTED} then Inl (InvalidDecision (ad_decision d))
          else (case who of
                  None \<Rightarrow> Inl AuthenticationRequired
                | Some p \<Rightarrow>
                    bind_res (check_authority now db p ticket d) (\<lambda>_.
                    bind_res (check_signature cfg p ticket d) (\<lambda>_. Inr ticket))))"

definition decision_tenant :: "string option \<Rightarrow> approval_decision \<Rightarrow> string" where
  "decision_tenant tenant d =
     py_or (case tenant of None \<Rightarrow> [] | Some t \<Rightarrow> t) (py_or (ad_tenant_id d) ''default'')"

definition submit_decision ::
  "manager_config \<Rightarrow> instant \<Rightarrow> string \<Rightarrow> approval_decision \<Rightarrow> security_principal option \<Rightarrow> string option \<Rightarrow>
   manager_state \<Rightarrow> approval_error + (approval_request \<times> manager_state)" where
  "submit_decision cfg now event_id d who tenant s =
     (let tid = decision_tenant tenant d
      in bind_res (authorize_decision cfg now (ms_db s) d who tid) (\<lambda>ticket.
         bind_res (atomic_submit_decision now event_id (mc_outbox cfg) d tid (ms_db s)) (\<lambda>(updated, db).
           Inr (updated, record_audit cfg ''kortex.workflow.approval.decide'' (ad_approver_id d) tid
             (Some (ad_request_id d))
             [(''decision'', PStr (approval_state_value (ad_decision d))),
              (''reason'', opt_str (ad_reason d)),
              (''signed'', PBool (has_text (ad_signature_hex d))),
              (''instance_id'', opt_str (opt_nonempty (ar_instance_id ticket))),
              (''step_id'', opt_str (ar_step_id ticket)),
              (''correlation_id'', opt_str (ar_correlation_id ticket))] who (s\<lparr>ms_db := db\<rparr>)))))"

subsection \<open>Expiry\<close>

text \<open>One iteration of the sweep; \<open>fresh\<close> gives the identifier of the outbox row of a ticket.\<close>

definition sweep_one ::
  "manager_config \<Rightarrow> instant \<Rightarrow> (string \<Rightarrow> string) \<Rightarrow> approval_request \<Rightarrow>
   approval_request list \<times> manager_state \<Rightarrow> approval_request list \<times> manager_state" where
  "sweep_one cfg now fresh req = (\<lambda>(results, s).
     (case atomic_expire_request now (fresh (ar_id req)) (mc_outbox cfg) (ar_id req) (ar_tenant_id req) (ms_db s) of
        (None, db) \<Rightarrow> (results, s\<lparr>ms_db := db\<rparr>)
      | (Some ticket, db) \<Rightarrow>
          (let s1 = record_audit cfg ''kortex.workflow.approval.expire'' ''SYSTEM'' (ar_tenant_id req)
                 (Some (ar_id req))
                 [(''instance_id'', opt_str (opt_nonempty (ar_instance_id req))),
                  (''step_id'', opt_str (ar_step_id req)),
                  (''timeout_at'', opt_str (map_option (mc_isoformat cfg) (ar_timeout_at req)))]
                 None (s\<lparr>ms_db := db\<rparr>)
           in (results @ [ticket],
               if mc_events cfg then
                 s1\<lparr>ms_published := ms_published s1 @
                   [(''workflow.approval.decided'',
                     [(''request_id'', PStr (ar_id ticket)), (''tenant_id'', PStr (ar_tenant_id req)),
                      (''decision'', PStr (approval_state_value AS_EXPIRED)),
                      (''correlation_id'', opt_str (ar_correlation_id ticket)),
                      (''action_fingerprint'', opt_str (ar_action_fingerprint ticket)),
                      (''context_snapshot'', PDict (ar_context_snapshot ticket))])]\<rparr>
               else s1))))"

definition sweep_expired_requests ::
  "manager_config \<Rightarrow> instant \<Rightarrow> (string \<Rightarrow> string) \<Rightarrow> string option \<Rightarrow> manager_state \<Rightarrow>
   approval_request list \<times> manager_state" where
  "sweep_expired_requests cfg now fresh tenant s =
     fold (sweep_one cfg now fresh) (get_expired_pending_requests now (ms_db s) tenant 100) ([], s)"

end
