(* ===== verification/Approval_Correct.thy ===== *)
theory Approval_Correct
  imports Approval_Managers
begin

text \<open>
  What the store's writes change, the invariant of its tables, and that every interleaving of
  concurrent callers keeps it: a ticket is decided at most once, by somebody else than its
  requester, with exactly one decision row and one announced event.
\<close>


section \<open>What the writes change\<close>

lemma find_Some_conv: "find P xs = Some x \<Longrightarrow> x \<in> set xs \<and> P x"
  by (auto simp: find_Some_iff)

lemma find_None_conv: "find P xs = None \<longleftrightarrow> (\<forall>x \<in> set xs. \<not> P x)"
  by (auto simp: find_None_iff)

lemma select_request_Some:
  "select_request db rid (Some tid) = Some r \<Longrightarrow> r \<in> set (t_requests db) \<and> ar_id r = rid \<and> ar_tenant_id r = tid"
  by (auto simp: select_request_def tenant_is_def dest: find_Some_conv)

lemma select_request_None:
  "select_request db rid (Some tid) = None \<longleftrightarrow> (\<forall>r \<in> set (t_requests db). ar_id r = rid \<longrightarrow> ar_tenant_id r \<noteq> tid)"
  by (auto simp: select_request_def tenant_is_def find_None_conv)

lemma select_request_unique:
  assumes "distinct (map ar_id (t_requests db))" "r \<in> set (t_requests db)"
  shows "select_request db (ar_id r) (Some (ar_tenant_id r)) = Some r"
proof (cases "select_request db (ar_id r) (Some (ar_tenant_id r))")
  case None
  with assms(2) show ?thesis by (auto simp: select_request_None)
next
  case (Some r')
  then have "r' \<in> set (t_requests db)" "ar_id r' = ar_id r" by (auto dest: select_request_Some)
  with assms have "r' = r" by (auto simp: distinct_map dest: inj_onD)
  then show ?thesis using Some by simp
qed

definition moved :: "instant \<Rightarrow> string \<Rightarrow> string \<Rightarrow> approval_state \<Rightarrow> approval_request \<Rightarrow> approval_request" where
  "moved now rid tid new r =
     (if pending_row rid tid r then r\<lparr>ar_state := new, ar_updated_at := Some now\<rparr> else r)"

lemma moved_fields [simp]:
  "ar_id (moved now rid tid new r) = ar_id r"
  "ar_tenant_id (moved now rid tid new r) = ar_tenant_id r"
  "ar_requester_principal_id (moved now rid tid new r) = ar_requester_principal_id r"
  "ar_required_role (moved now rid tid new r) = ar_required_role r"
  by (simp_all add: moved_def)

lemma update_pending_moved:
  "update_pending now rid tid new rows = (length (filter (pending_row rid tid) rows), map (moved now rid tid new) rows)"
  by (simp add: update_pending_def moved_def [abs_def])

lemma stage_if_tables [simp]:
  "t_requests (stage_if staged new_id now tid topic payload db) = t_requests db"
  "t_decisions (stage_if staged new_id now tid topic payload db) = t_decisions db"
  "t_delegations (stage_if staged new_id now tid topic payload db) = t_delegations db"
  by (simp_all add: stage_if_def)

lemma stage_if_outbox:
  "t_outbox (stage_if staged new_id now tid topic payload db) =
     (if staged then stage_event_in_session new_id now tid topic payload (t_outbox db) else t_outbox db)"
  by (simp add: stage_if_def)

definition decided_payload :: "approval_request \<Rightarrow> approval_decision \<Rightarrow> string \<Rightarrow> (string, pyval) dict" where
  "decided_payload ticket d tid =
     [(''request_id'', PStr (ad_request_id d)),
      (''instance_id'', opt_str (ar_instance_id ticket)),
      (''step_id'', opt_str (ar_step_id ticket)),
      (''decision'', PStr (approval_state_value (ad_decision d))),
      (''approver_id'', PStr (ad_approver_id d)),
      (''tenant_id'', PStr tid)]"

lemma decide_write_Inr:
  assumes "decide_write now new_id staged d tid db = Inr (t, db')"
  shows "\<exists>r ticket. r \<in> set (t_requests db) \<and> pending_row (ad_request_id d) tid r \<and>
     ticket \<in> set (t_requests db') \<and> ar_id ticket = ad_request_id d \<and> ar_tenant_id ticket = tid \<and>
     t = model_to_request now ticket \<and>
     t_requests db' = map (moved now (ad_request_id d) tid (ad_decision d)) (t_requests db) \<and>
     t_decisions db' = t_decisions db @ [decision_to_model d (py_or (ad_tenant_id d) tid)] \<and>
     (\<forall>e \<in> set (t_decisions db). ad_request_id e \<noteq> ad_request_id d) \<and>
     t_delegations db' = t_delegations db \<and>
     t_outbox db' = (if staged then stage_event_in_session new_id now tid ''workflow.approval.decided''
        (decided_payload ticket d tid) (t_outbox db) else t_outbox db)"
proof -
  let ?db1 = "db\<lparr>t_requests := map (moved now (ad_request_id d) tid (ad_decision d)) (t_requests db)\<rparr>"
  from assms have some: "filter (pending_row (ad_request_id d) tid) (t_requests db) \<noteq> []"
    by (auto simp: decide_write_def Let_def update_pending_moved split: if_splits)
  then obtain r where r: "r \<in> set (t_requests db)" "pending_row (ad_request_id d) tid r"
    by (auto simp: filter_empty_conv)
  from assms some obtain ticket where t: "select_request ?db1 (ad_request_id d) (Some tid) = Some ticket"
    by (auto simp: decide_write_def Let_def update_pending_moved split: if_splits option.splits)
  with assms some obtain db2 where s: "save_decision d tid ?db1 = Inr db2"
    by (auto simp: decide_write_def Let_def update_pending_moved split: if_splits sum.splits)
  have res: "t = model_to_request now ticket"
    "db' = stage_if staged new_id now tid ''workflow.approval.decided'' (decided_payload ticket d tid) db2"
    using assms some t s by (auto simp: decide_write_def Let_def update_pending_moved decided_payload_def)
  show ?thesis
    using select_request_Some [OF t] res s r
    by (intro exI [of _ r] exI [of _ ticket])
      (auto simp: save_decision_def stage_if_outbox split: if_splits)
qed

definition expired_payload :: "approval_request \<Rightarrow> string \<Rightarrow> string \<Rightarrow> (string, pyval) dict" where
  "expired_payload ticket rid tid =
     [(''request_id'', PStr rid), (''instance_id'', opt_str (ar_instance_id ticket)),
      (''step_id'', opt_str (ar_step_id ticket)), (''tenant_id'', PStr tid)]"

lemma atomic_expire_None:
  assumes "atomic_expire_request now new_id staged rid tid db = (None, db')"
  shows "db' = db \<and> (\<forall>r \<in> set (t_requests db). \<not> pending_row rid tid r)"
proof (cases "filter (pending_row rid tid) (t_requests db) = []")
  case True
  with assms show ?thesis
    by (auto simp: atomic_expire_request_def Let_def update_pending_moved filter_empty_conv)
next
  case False
  then have "select_request (db\<lparr>t_requests := map (moved now rid tid AS_EXPIRED) (t_requests db)\<rparr>) rid (Some tid) \<noteq> None"
    by (auto simp: select_request_None pending_row_def filter_empty_conv)
  with assms False show ?thesis
    by (auto simp: atomic_expire_request_def Let_def update_pending_moved)
qed

lemma atomic_expire_Some:
  assumes "atomic_expire_request now new_id staged rid tid db = (Some t, db')"
  shows "\<exists>r ticket. r \<in> set (t_requests db) \<and> pending_row rid tid r \<and>
     ticket \<in> set (t_requests db') \<and> ar_id ticket = rid \<and> ar_tenant_id ticket = tid \<and>
     t = model_to_request now ticket \<and>
     t_requests db' = map (moved now rid tid AS_EXPIRED) (t_requests db) \<and>
     t_decisions db' = t_decisions db \<and> t_delegations db' = t_delegations db \<and>
     t_outbox db' = (if staged then stage_event_in_session new_id now tid ''workflow.approval.expired''
        (expired_payload ticket rid tid) (t_outbox db) else t_outbox db)"
proof -
  let ?db1 = "db\<lparr>t_requests := map (moved now rid tid AS_EXPIRED) (t_requests db)\<rparr>"
  from assms have some: "filter (pending_row rid tid) (t_requests db) \<noteq> []"
    by (auto simp: atomic_expire_request_def Let_def update_pending_moved)
  then obtain r where r: "r \<in> set (t_requests db)" "pending_row rid tid r"
    by (auto simp: filter_empty_conv)
  from assms some obtain ticket where t: "select_request ?db1 rid (Some tid) = Some ticket"
    by (auto simp: atomic_expire_request_def Let_def update_pending_moved split: option.splits)
  have res: "t = model_to_request now ticket"
    "db' = stage_if staged new_id now tid ''workflow.approval.expired'' (expired_payload ticket rid tid) ?db1"
    using assms some t by (auto simp: atomic_expire_request_def Let_def update_pending_moved expired_payload_def)
  show ?thesis
    using select_request_Some [OF t] res r
    by (intro exI [of _ r] exI [of _ ticket]) (simp add: stage_if_outbox)
qed

section \<open>The invariant of the tables\<close>

definition decisions_of :: "approval_db \<Rightarrow> string \<Rightarrow> approval_decision list" where
  "decisions_of db rid = filter (\<lambda>d. ad_request_id d = rid) (t_decisions db)"

definition ticket_settled :: "approval_db \<Rightarrow> approval_request \<Rightarrow> bool" where
  "ticket_settled db r \<longleftrightarrow>
     (case ar_state r of
        AS_PENDING \<Rightarrow> decisions_of db (ar_id r) = []
      | AS_EXPIRED \<Rightarrow> decisions_of db (ar_id r) = []
      | AS_CANCELLED \<Rightarrow> False
      | s \<Rightarrow> \<exists>d. decisions_of db (ar_id r) = [d] \<and> ad_decision d = s \<and>
               ar_requester_principal_id r \<noteq> Some (ad_approver_id d))"

text \<open>What a consumer of the event sees of a decision.\<close>

definition decision_event :: "approval_decision \<Rightarrow> pyval option \<times> pyval option \<times> pyval option" where
  "decision_event d = (Some (PStr (ad_request_id d)), Some (PStr (approval_state_value (ad_decision d))),
     Some (PStr (ad_approver_id d)))"

definition announced :: "outbox_row list \<Rightarrow> (pyval option \<times> pyval option \<times> pyval option) list" where
  "announced rows = map (\<lambda>e. (dict_get (ob_payload e) ''request_id'', dict_get (ob_payload e) ''decision'',
       dict_get (ob_payload e) ''approver_id''))
     (filter (\<lambda>e. ob_topic e = ''workflow.approval.decided'') rows)"

definition approval_inv :: "bool \<Rightarrow> approval_db \<Rightarrow> bool" where
  "approval_inv staged db \<longleftrightarrow>
     distinct (map ar_id (t_requests db)) \<and>
     (\<forall>r \<in> set (t_requests db). ticket_settled db r) \<and>
     (\<forall>d \<in> set (t_decisions db). \<exists>r \<in> set (t_requests db). ar_id r = ad_request_id d) \<and>
     (staged \<longrightarrow> announced (t_outbox db) = map decision_event (t_decisions db))"

lemma announced_stage:
  "announced (stage_event_in_session new_id now tid topic payload rows) =
     announced rows @ (if topic = ''workflow.approval.decided''
       then [(dict_get (sanitize_dict payload) ''request_id'', dict_get (sanitize_dict payload) ''decision'',
              dict_get (sanitize_dict payload) ''approver_id'')] else [])"
  by (simp add: announced_def stage_event_in_session_def)

lemma decision_keys_kept:
  "\<not> sensitive_key ''request_id''" "\<not> sensitive_key ''decision''" "\<not> sensitive_key ''approver_id''"
  "\<not> sensitive_key ''instance_id''" "\<not> sensitive_key ''step_id''" "\<not> sensitive_key ''tenant_id''"
  by (simp_all add: sensitive_key_def py_lower_def ascii_lower_def SENSITIVE_KEY_NAMES_def)

lemma announced_decided:
  "announced (stage_event_in_session new_id now tid ''workflow.approval.decided'' (decided_payload ticket d tid) rows) =
     announced rows @ [decision_event d]"
  by (simp add: announced_stage sanitize_dict_def decided_payload_def decision_keys_kept decision_event_def)

lemma decision_to_model_fields [simp]:
  "ad_request_id (decision_to_model d t) = ad_request_id d" "ad_decision (decision_to_model d t) = ad_decision d"
  "ad_approver_id (decision_to_model d t) = ad_approver_id d"
  by (simp_all add: decision_to_model_def)

lemma decision_event_model [simp]: "decision_event (decision_to_model d t) = decision_event d"
  by (simp add: decision_event_def)

lemma map_ar_id_moved [simp]: "map ar_id (map (moved now rid tid new) rows) = map ar_id rows"
  by simp


lemma unique_ticket:
  "distinct (map ar_id rows) \<Longrightarrow> r \<in> set rows \<Longrightarrow> r' \<in> set rows \<Longrightarrow> ar_id r = ar_id r' \<Longrightarrow> r = r'"
  by (auto simp: distinct_map dest: inj_onD)

definition vetted :: "approval_db \<Rightarrow> approval_decision \<Rightarrow> string \<Rightarrow> bool" where
  "vetted db d tid \<longleftrightarrow> ad_decision d \<in> {AS_APPROVED, AS_REJECTED} \<and>
     (\<exists>r \<in> set (t_requests db). ar_id r = ad_request_id d \<and> ar_tenant_id r = tid \<and>
        ar_requester_principal_id r \<noteq> Some (ad_approver_id d))"

lemma ticket_settled_cong:
  "decisions_of db' (ar_id r) = decisions_of db (ar_id r) \<Longrightarrow> ticket_settled db' r = ticket_settled db r"
  unfolding ticket_settled_def by (simp only:)

lemma settled_moved_decided:
  assumes "ticket_settled db r" "distinct (map ar_id (t_requests db))" "r \<in> set (t_requests db)"
    "p \<in> set (t_requests db)" "pending_row (ad_request_id d) tid p" "vetted db d tid"
    "t_decisions db' = t_decisions db @ [decision_to_model d x]"
  shows "ticket_settled db' (moved now (ad_request_id d) tid (ad_decision d) r)"
proof (cases "ar_id r = ad_request_id d")
  case True
  then have "r = p" using assms unique_ticket [OF assms(2) assms(3,4)] by (simp add: pending_row_def)
  then have pend: "pending_row (ad_request_id d) tid r" using assms(5) by simp
  obtain q where q: "q \<in> set (t_requests db)" "ar_id q = ad_request_id d"
      "ar_requester_principal_id q \<noteq> Some (ad_approver_id d)"
    and verdict: "ad_decision d = AS_APPROVED \<or> ad_decision d = AS_REJECTED"
    using assms(6) by (auto simp: vetted_def)
  have "r = q" by (rule unique_ticket [OF assms(2,3) q(1)]) (simp add: q(2) True)
  with q(3) have other: "ar_requester_principal_id r \<noteq> Some (ad_approver_id d)" by simp
  have "decisions_of db (ar_id r) = []" using assms(1) pend by (simp add: ticket_settled_def pending_row_def)
  then have one: "decisions_of db' (ar_id r) = [decision_to_model d x]"
    using True by (simp add: decisions_of_def assms(7))
  from verdict show ?thesis by (elim disjE) (simp_all add: ticket_settled_def moved_def pend one other)
next
  case False
  then have "moved now (ad_request_id d) tid (ad_decision d) r = r" by (simp add: moved_def pending_row_def)
  moreover have same: "decisions_of db' (ar_id r) = decisions_of db (ar_id r)"
    using assms(7) False by (auto simp: decisions_of_def)
  ultimately show ?thesis using assms(1) by (simp only: ticket_settled_cong [OF same])
qed

lemma decide_write_inv:
  assumes "approval_inv staged db" "vetted db d tid" "decide_write now new_id staged d tid db = Inr (t, db')"
  shows "approval_inv staged db'"
proof -
  from decide_write_Inr [OF assms(3)] obtain p ticket where
    p: "p \<in> set (t_requests db)" "pending_row (ad_request_id d) tid p" and
    req: "t_requests db' = map (moved now (ad_request_id d) tid (ad_decision d)) (t_requests db)" and
    dec: "t_decisions db' = t_decisions db @ [decision_to_model d (py_or (ad_tenant_id d) tid)]" and
    out: "t_outbox db' = (if staged then stage_event_in_session new_id now tid ''workflow.approval.decided''
        (decided_payload ticket d tid) (t_outbox db) else t_outbox db)" by blast
  have inv: "distinct (map ar_id (t_requests db))" "\<forall>r \<in> set (t_requests db). ticket_settled db r"
    "\<forall>d \<in> set (t_decisions db). \<exists>r \<in> set (t_requests db). ar_id r = ad_request_id d"
    "staged \<longrightarrow> announced (t_outbox db) = map decision_event (t_decisions db)"
    using assms(1) by (simp_all add: approval_inv_def)
  have "\<forall>r \<in> set (t_requests db'). ticket_settled db' r"
    using settled_moved_decided [OF _ inv(1) _ p assms(2) dec] inv(2) by (auto simp: req)
  moreover have "\<forall>d \<in> set (t_decisions db'). \<exists>r \<in> set (t_requests db'). ar_id r = ad_request_id d"
    using inv(3) p by (auto simp: req dec pending_row_def)
  moreover have "staged \<longrightarrow> announced (t_outbox db') = map decision_event (t_decisions db')"
    using inv(4) by (simp add: out dec announced_decided)
  moreover have "distinct (map ar_id (t_requests db'))" using inv(1) by (simp add: req comp_def)
  ultimately show ?thesis by (simp add: approval_inv_def)
qed

lemma expire_inv:
  assumes "approval_inv staged db" "atomic_expire_request now new_id staged rid tid db = (res, db')"
  shows "approval_inv staged db'"
proof (cases res)
  case None
  with assms show ?thesis using atomic_expire_None by blast
next
  case (Some t)
  with atomic_expire_Some [of now new_id staged rid tid db t db'] assms(2) obtain p ticket where
    req: "t_requests db' = map (moved now rid tid AS_EXPIRED) (t_requests db)" and
    dec: "t_decisions db' = t_decisions db" and
    out: "t_outbox db' = (if staged then stage_event_in_session new_id now tid ''workflow.approval.expired''
        (expired_payload ticket rid tid) (t_outbox db) else t_outbox db)" by blast
  have "ticket_settled db' (moved now rid tid AS_EXPIRED r)" if "ticket_settled db r" for r
  proof -
    have same: "decisions_of db' i = decisions_of db i" for i by (simp add: decisions_of_def dec)
    show ?thesis
    proof (cases "pending_row rid tid r")
      case True
      then show ?thesis using that by (simp add: moved_def ticket_settled_def pending_row_def same)
    next
      case False
      then show ?thesis using that ticket_settled_cong [OF same] by (simp add: moved_def)
    qed
  qed
  then show ?thesis
    using assms(1) by (auto simp: approval_inv_def req dec out announced_stage comp_def)
qed

lemma save_new_inv:
  assumes "approval_inv staged db" "save_request now new_id staged r tenant db = Inr db'"
    "ar_state r = AS_PENDING" "ar_id r \<notin> ar_id ` set (t_requests db)"
  shows "approval_inv staged db'"
proof -
  let ?m = "request_to_model now r (py_or (ar_tenant_id r) tenant)"
  have none: "select_request db (ar_id r) (Some (py_or (ar_tenant_id r) tenant)) = None"
    unfolding select_request_None using assms(4) by (metis imageI)
  then obtain payload where
    db': "db' = stage_if staged new_id now (py_or (ar_tenant_id r) tenant) ''workflow.approval.created'' payload
            (db\<lparr>t_requests := t_requests db @ [?m]\<rparr>)"
    using assms(2) by (auto simp: save_request_def Let_def split: if_splits)
  have new: "ar_id ?m = ar_id r" "ar_state ?m = AS_PENDING"
    using assms(3) by (simp_all add: request_to_model_def)
  have known: "\<forall>d \<in> set (t_decisions db). \<exists>r \<in> set (t_requests db). ar_id r = ad_request_id d"
    using assms(1) by (simp add: approval_inv_def)
  have "ad_request_id d \<in> ar_id ` set (t_requests db)" if "d \<in> set (t_decisions db)" for d
  proof -
    from bspec [OF known that] obtain q where "q \<in> set (t_requests db)" "ar_id q = ad_request_id d" ..
    then show ?thesis by (metis imageI)
  qed
  then have "decisions_of db (ar_id r) = []"
    unfolding decisions_of_def filter_empty_conv using assms(4) by metis
  then have "ticket_settled db' ?m"
    by (simp add: ticket_settled_def new decisions_of_def db')
  moreover have "ticket_settled db' q" if "ticket_settled db q" for q
  proof -
    have "decisions_of db' (ar_id q) = decisions_of db (ar_id q)" by (simp add: decisions_of_def db')
    from ticket_settled_cong [OF this] show ?thesis using that by simp
  qed
  moreover have "t_requests db' = t_requests db @ [?m]" "t_decisions db' = t_decisions db"
    "announced (t_outbox db') = announced (t_outbox db)"
    by (simp_all add: db' stage_if_outbox announced_stage)
  ultimately show ?thesis
    using assms(1,4) new unfolding approval_inv_def by simp
qed


section \<open>Interleavings\<close>

text \<open>
  Any number of callers of \<open>submit_decision\<close>, each between its checks, the read and the write of
  its committing transaction; sweeps, new tickets and delegations come in between at any point.
\<close>

datatype phase = Idle | Checked approval_decision string | Reading approval_decision string

record world =
  w_db :: approval_db
  w_phase :: "nat \<Rightarrow> phase"

inductive approval_step :: "manager_config \<Rightarrow> world \<Rightarrow> world \<Rightarrow> bool" for cfg where
  step_create:
    "save_request now ev (mc_outbox cfg) r tenant (w_db w) = Inr db' \<Longrightarrow> ar_state r = AS_PENDING \<Longrightarrow>
     ar_id r \<notin> ar_id ` set (t_requests (w_db w)) \<Longrightarrow>
     approval_step cfg w (w\<lparr>w_db := db'\<rparr>)"
| step_delegate:
    "save_delegation now dg tenant (w_db w) = Inr db' \<Longrightarrow> approval_step cfg w (w\<lparr>w_db := db'\<rparr>)"
| step_check:
    "w_phase w i = Idle \<Longrightarrow> authorize_decision cfg now (w_db w) d who tid = Inr ticket \<Longrightarrow>
     approval_step cfg w (w\<lparr>w_phase := (w_phase w)(i := Checked d tid)\<rparr>)"
| step_read:
    "w_phase w i = Checked d tid \<Longrightarrow> decide_read (w_db w) (ad_request_id d) tid = Inr ticket \<Longrightarrow>
     approval_step cfg w (w\<lparr>w_phase := (w_phase w)(i := Reading d tid)\<rparr>)"
| step_write:
    "w_phase w i = Reading d tid \<Longrightarrow> decide_write now ev (mc_outbox cfg) d tid (w_db w) = Inr (ticket, db') \<Longrightarrow>
     approval_step cfg w (w\<lparr>w_db := db', w_phase := (w_phase w)(i := Idle)\<rparr>)"
| step_give_up:
    "approval_step cfg w (w\<lparr>w_phase := (w_phase w)(i := Idle)\<rparr>)"
| step_expire:
    "atomic_expire_request now ev (mc_outbox cfg) rid tid (w_db w) = (res, db') \<Longrightarrow>
     approval_step cfg w (w\<lparr>w_db := db'\<rparr>)"

inductive_cases approval_stepE: "approval_step cfg w w'"

definition empty_db :: approval_db where
  "empty_db = \<lparr>t_requests = [], t_decisions = [], t_delegations = [], t_outbox = []\<rparr>"

definition initial_world :: world where
  "initial_world = \<lparr>w_db = empty_db, w_phase = (\<lambda>_. Idle)\<rparr>"

fun carried :: "phase \<Rightarrow> (approval_decision \<times> string) set" where
  "carried Idle = {}"
| "carried (Checked d tid) = {(d, tid)}"
| "carried (Reading d tid) = {(d, tid)}"

definition world_inv :: "bool \<Rightarrow> world \<Rightarrow> bool" where
  "world_inv staged w \<longleftrightarrow> approval_inv staged (w_db w) \<and>
     (\<forall>i. \<forall>(d, tid) \<in> carried (w_phase w i). vetted (w_db w) d tid)"

lemma world_inv_carried: "world_inv staged w \<Longrightarrow> (d, tid) \<in> carried (w_phase w i) \<Longrightarrow> vetted (w_db w) d tid"
  by (auto simp: world_inv_def)

lemma authorize_vetted:
  assumes "authorize_decision cfg now db d who tid = Inr ticket"
  shows "vetted db d tid"
proof -
  from assms obtain r p where r: "select_request db (ad_request_id d) (Some tid) = Some r"
    and p: "check_authority now db p (model_to_request now r) d = Inr ()"
    and v: "ad_decision d \<in> {AS_APPROVED, AS_REJECTED}"
    by (auto simp: authorize_decision_def get_request_def bind_res_Inr_iff split: option.splits if_splits)
  from p have "ar_requester_principal_id r \<noteq> Some (ad_approver_id d)"
    by (auto simp: check_authority_def model_to_request_def split: if_splits)
  then show ?thesis using select_request_Some [OF r] v by (auto simp: vetted_def)
qed

lemma vetted_mono:
  assumes "vetted db d tid"
    "\<And>r. r \<in> set (t_requests db) \<Longrightarrow> \<exists>r' \<in> set (t_requests db'). ar_id r' = ar_id r \<and>
       ar_tenant_id r' = ar_tenant_id r \<and> ar_requester_principal_id r' = ar_requester_principal_id r"
  shows "vetted db' d tid"
proof -
  from assms(1) obtain r where r: "r \<in> set (t_requests db)" "ar_id r = ad_request_id d" "ar_tenant_id r = tid"
    "ar_requester_principal_id r \<noteq> Some (ad_approver_id d)" and v: "ad_decision d \<in> {AS_APPROVED, AS_REJECTED}"
    by (auto simp: vetted_def)
  obtain r' where r': "r' \<in> set (t_requests db')" "ar_id r' = ar_id r" "ar_tenant_id r' = ar_tenant_id r"
    "ar_requester_principal_id r' = ar_requester_principal_id r" using assms(2) [OF r(1)] by blast
  show ?thesis unfolding vetted_def using v r r' by (intro conjI bexI [of _ r']) simp_all
qed

lemma world_inv_db:
  assumes "world_inv staged w" "approval_inv staged db'"
    "\<And>r. r \<in> set (t_requests (w_db w)) \<Longrightarrow> \<exists>r' \<in> set (t_requests db'). ar_id r' = ar_id r \<and>
       ar_tenant_id r' = ar_tenant_id r \<and> ar_requester_principal_id r' = ar_requester_principal_id r"
  shows "world_inv staged (w\<lparr>w_db := db'\<rparr>)"
proof -
  have "vetted db' d tid" if "(d, tid) \<in> carried (w_phase w i)" for d tid i
    using assms(1) that by (intro vetted_mono [OF _ assms(3)]) (auto simp: world_inv_def)
  then show ?thesis using assms(2) by (auto simp: world_inv_def)
qed

lemma world_inv_idle: "world_inv staged w \<Longrightarrow> world_inv staged (w\<lparr>w_phase := (w_phase w)(i := Idle)\<rparr>)"
  by (auto simp: world_inv_def)

lemma moved_keeps:
  "t_requests db' = map (moved now rid tid new) (t_requests db) \<Longrightarrow> r \<in> set (t_requests db) \<Longrightarrow>
     \<exists>r' \<in> set (t_requests db'). ar_id r' = ar_id r \<and> ar_tenant_id r' = ar_tenant_id r \<and>
       ar_requester_principal_id r' = ar_requester_principal_id r"
  by (rule bexI [of _ "moved now rid tid new r"]) simp_all


lemma save_request_keeps:
  assumes "save_request now ev staged r tenant db = Inr db'" "ar_id r \<notin> ar_id ` set (t_requests db)"
  shows "set (t_requests db) \<subseteq> set (t_requests db')"
proof -
  have "select_request db (ar_id r) (Some (py_or (ar_tenant_id r) tenant)) = None"
    unfolding select_request_None using assms(2) by (metis imageI)
  then show ?thesis using assms(1) by (auto simp: save_request_def Let_def split: if_splits)
qed

lemma ticket_settled_delegations [simp]: "ticket_settled (db\<lparr>t_delegations := x\<rparr>) r = ticket_settled db r"
  by (rule ticket_settled_cong) (simp add: decisions_of_def)

lemma world_inv_moved:
  assumes "world_inv staged w" "approval_inv staged db'"
    "t_requests db' = map (moved now rid tid new) (t_requests (w_db w))"
  shows "world_inv staged (w\<lparr>w_db := db'\<rparr>)"
  using assms(1,2) by (rule world_inv_db) (rule moved_keeps [OF assms(3)])

lemma approval_step_inv:
  assumes "approval_step cfg w w'" "world_inv (mc_outbox cfg) w"
  shows "world_inv (mc_outbox cfg) w'"
  using assms
proof (induction rule: approval_step.induct)
  case (step_create now ev r tenant w db')
  have "approval_inv (mc_outbox cfg) (w_db w)" using step_create by (simp add: world_inv_def)
  from save_new_inv [OF this step_create(1-3)] save_request_keeps [OF step_create(1,3)] step_create(4)
  show ?case by (intro world_inv_db) auto
next
  case (step_delegate now dg tenant w db')
  then have "db' = (w_db w)\<lparr>t_delegations := t_delegations db'\<rparr>"
    by (auto simp: save_delegation_def split: if_splits)
  then obtain dgs where "db' = (w_db w)\<lparr>t_delegations := dgs\<rparr>" by blast
  moreover have "approval_inv (mc_outbox cfg) (w_db w)" using step_delegate by (simp add: world_inv_def)
  ultimately show ?case using step_delegate(2)
    by (intro world_inv_db) (auto simp: approval_inv_def)
next
  case (step_check w i now d who tid ticket)
  then show ?case using authorize_vetted [OF step_check(2)] by (auto simp: world_inv_def)
next
  case (step_read w i d tid ticket)
  have "vetted (w_db w) d tid" by (rule world_inv_carried [OF step_read(3), of d tid i]) (simp add: step_read(1))
  then show ?case using step_read by (auto simp: world_inv_def)
next
  case (step_write w i d tid now ev ticket db')
  have inv: "approval_inv (mc_outbox cfg) (w_db w)" using step_write(3) by (simp add: world_inv_def)
  have v: "vetted (w_db w) d tid"
    by (rule world_inv_carried [OF step_write(3), of d tid i]) (simp add: step_write(1))
  from decide_write_Inr [OF step_write(2)] obtain new where
    "t_requests db' = map (moved now (ad_request_id d) tid new) (t_requests (w_db w))" by blast
  then have "world_inv (mc_outbox cfg) (w\<lparr>w_db := db'\<rparr>)"
    using step_write(3) decide_write_inv [OF inv v step_write(2)] by (intro world_inv_moved)
  from world_inv_idle [OF this] show ?case by simp
next
  case (step_give_up w i)
  then show ?case by (rule world_inv_idle)
next
  case (step_expire now ev rid tid w res db')
  have inv: "approval_inv (mc_outbox cfg) (w_db w)" using step_expire by (simp add: world_inv_def)
  show ?case
  proof (cases res)
    case None
    with step_expire(1) atomic_expire_None have "db' = w_db w" by blast
    then show ?thesis using step_expire(2) by simp
  next
    case (Some t)
    with step_expire(1) have "t_requests db' = map (moved now rid tid AS_EXPIRED) (t_requests (w_db w))"
      using atomic_expire_Some by blast
    with step_expire(2) expire_inv [OF inv step_expire(1)] show ?thesis by (rule world_inv_moved)
  qed
qed

lemma reachable_inv:
  assumes "(approval_step cfg)\<^sup>*\<^sup>* initial_world w"
  shows "world_inv (mc_outbox cfg) w"
  using assms
proof (induction rule: rtranclp_induct)
  case base
  then show ?case
    by (simp add: initial_world_def world_inv_def approval_inv_def empty_db_def announced_def)
next
  case (step w w')
  then show ?case by (blast intro: approval_step_inv)
qed

end
