(* ===== verification/Approval_Contract.thy ===== *)
theory Approval_Contract
  imports Approval_Correct
begin

text \<open>
  The contract of an approval manager as a locale, with the in-memory and the durable manager as
  its two instances, and what one sweep leaves behind.
\<close>

section \<open>One shot\<close>

text \<open>
  The contract of a manager towards the engine: whatever is called, a ticket that has left
  \<open>PENDING\<close> keeps its state, and it leaves it only for one of three.
\<close>

locale ticket_machine = invariant_machine step inv
  for step :: "'s \<Rightarrow> 'e \<Rightarrow> 's" and inv :: "'s \<Rightarrow> bool" +
  fixes state_of :: "'s \<Rightarrow> string \<Rightarrow> approval_state option"
  assumes step_state: "inv s \<Longrightarrow> state_of s i = Some a \<Longrightarrow> state_of (step s e) i = Some a \<or>
     a = AS_PENDING \<and> state_of (step s e) i \<in> {Some AS_APPROVED, Some AS_REJECTED, Some AS_EXPIRED}"
begin

definition closed_below :: "'s \<Rightarrow> 's \<Rightarrow> bool" where
  "closed_below s t \<longleftrightarrow> (inv s \<longrightarrow> inv t \<and>
     (\<forall>i a. state_of s i = Some a \<longrightarrow> a \<noteq> AS_PENDING \<longrightarrow> state_of t i = Some a))"

end

sublocale ticket_machine \<subseteq> closed: monotone_machine step closed_below
  by unfold_locales (auto simp: closed_below_def dest: step_state inv_step)

context ticket_machine
begin

lemma closed_run:
  "inv s \<Longrightarrow> state_of s i = Some a \<Longrightarrow> a \<noteq> AS_PENDING \<Longrightarrow> state_of (run step s es) i = Some a"
  using closed.below_run [of s es] by (simp add: closed_below_def)

text \<open>When two observations of a run differ, the first was \<open>PENDING\<close>.\<close>

lemma single_change:
  assumes "inv s" "state_of (run step s es) i = Some a" "state_of (run step s (es @ fs)) i = Some b" "a \<noteq> b"
  shows "a = AS_PENDING"
  using assms(2-4) closed_run [of "run step s es" i a fs] inv_run [OF assms(1)] by (auto simp: run_append)

end

datatype memory_event =
    Mem_create instant string "string option" "string option" string "security_principal option"
      "string option" "string option" string
  | Mem_decide approval_decision

text \<open>Identifiers of new tickets are fresh (\<open>uuid4\<close>).\<close>

fun memory_apply :: "memory_approvals \<Rightarrow> memory_event \<Rightarrow> memory_approvals" where
  "memory_apply m (Mem_create now new_id inst step role who corr fp tenant) =
     (if dict_has (mm_requests m) new_id then m
      else snd (memory_create_request now new_id inst step role who corr fp tenant m))"
| "memory_apply m (Mem_decide d) = (case memory_submit_decision d m of Inl _ \<Rightarrow> m | Inr (_, m') \<Rightarrow> m')"

definition memory_state :: "memory_approvals \<Rightarrow> string \<Rightarrow> approval_state option" where
  "memory_state m rid = map_option ar_state (memory_get_request m rid)"

definition memory_keyed :: "memory_approvals \<Rightarrow> bool" where
  "memory_keyed m \<longleftrightarrow> (\<forall>k r. dict_get (mm_requests m) k = Some r \<longrightarrow> ar_id r = k)"

interpretation memory_tickets: ticket_machine memory_apply memory_keyed memory_state
proof
  fix m e
  assume "memory_keyed m"
  then show "memory_keyed (memory_apply m e)"
    by (cases e) (auto simp: memory_keyed_def memory_create_request_def memory_submit_decision_def Let_def
        memory_save_request_def memory_get_request_def dict_get_set split: option.splits)
next
  fix m i a e
  assume k: "memory_keyed m" and a: "memory_state m i = Some a"
  show "memory_state (memory_apply m e) i = Some a \<or>
     a = AS_PENDING \<and> memory_state (memory_apply m e) i \<in> {Some AS_APPROVED, Some AS_REJECTED, Some AS_EXPIRED}"
  proof (cases e)
    case Mem_create
    with a show ?thesis
      by (auto simp: memory_state_def memory_get_request_def memory_create_request_def Let_def
          memory_save_request_def dict_has_iff dict_get_set) (metis map_of_SomeD fst_conv imageI)
  next
    case (Mem_decide d)
    with a k show ?thesis
      by (auto simp: memory_state_def memory_get_request_def memory_submit_decision_def Let_def
          memory_save_request_def dict_get_set memory_keyed_def split: option.splits)
  qed
qed

datatype manager_event =
    Man_create instant string string "string option" "string option" string string "int option"
      "(string, pyval) dict" bool "security_principal option" "string option" "string option"
  | Man_delegate instant string string string string instant instant string "security_principal option"
  | Man_decide instant string approval_decision "security_principal option" "string option"
  | Man_sweep instant "string \<Rightarrow> string" "string option"

fun manager_apply :: "manager_config \<Rightarrow> manager_state \<Rightarrow> manager_event \<Rightarrow> manager_state" where
  "manager_apply cfg s (Man_create now new_id ev inst step role tenant timeout ctx sig who corr fp) =
     (if new_id \<in> ar_id ` set (t_requests (ms_db s)) then s
      else case create_request cfg now new_id ev inst step role tenant timeout ctx sig who corr fp s of
             Inl _ \<Rightarrow> s | Inr (_, s') \<Rightarrow> s')"
| "manager_apply cfg s (Man_delegate now new_id delegator delegatee role vf vu tenant who) =
     (case create_delegation cfg now new_id delegator delegatee role vf vu tenant who s of
        Inl _ \<Rightarrow> s | Inr (_, s') \<Rightarrow> s')"
| "manager_apply cfg s (Man_decide now ev d who tenant) =
     (case submit_decision cfg now ev d who tenant s of Inl _ \<Rightarrow> s | Inr (_, s') \<Rightarrow> s')"
| "manager_apply cfg s (Man_sweep now fresh tenant) = snd (sweep_expired_requests cfg now fresh tenant s)"

definition manager_ticket_state :: "manager_state \<Rightarrow> string \<Rightarrow> approval_state option" where
  "manager_ticket_state s rid = map_option ar_state (find (\<lambda>r. ar_id r = rid) (t_requests (ms_db s)))"

lemma record_audit_db [simp]: "ms_db (record_audit cfg action actor tenant resource context who s) = ms_db s"
  by (simp add: record_audit_def)

lemma find_map_keep: "(\<And>x. P (f x) = P x) \<Longrightarrow> find P (map f xs) = map_option f (find P xs)"
  by (induction xs) auto

lemma find_append: "find P (xs @ ys) = (case find P xs of None \<Rightarrow> find P ys | Some x \<Rightarrow> Some x)"
  by (induction xs) auto

text \<open>How the tickets of two manager states are related by any operation.\<close>

definition tickets_step :: "approval_request list \<Rightarrow> approval_request list \<Rightarrow> bool" where
  "tickets_step rows rows' \<longleftrightarrow>
     (\<exists>f new. rows' = map f rows @ new \<and>
        (\<forall>r. ar_id (f r) = ar_id r \<and> (ar_state (f r) = ar_state r \<or>
           ar_state r = AS_PENDING \<and> ar_state (f r) \<in> {AS_APPROVED, AS_REJECTED, AS_EXPIRED})))"

lemma tickets_step_refl [simp]: "tickets_step rows rows"
  unfolding tickets_step_def by (rule exI [of _ id], rule exI [of _ "[]"]) simp

lemma tickets_step_append [simp]: "tickets_step rows (rows @ new)"
  unfolding tickets_step_def by (rule exI [of _ id], rule exI [of _ new]) simp

lemma tickets_step_moved:
  "new \<in> {AS_APPROVED, AS_REJECTED, AS_EXPIRED} \<Longrightarrow> tickets_step rows (map (moved now rid tid new) rows)"
  unfolding tickets_step_def
  by (rule exI [of _ "moved now rid tid new"], rule exI [of _ "[]"]) (auto simp: moved_def pending_row_def)

lemma tickets_step_trans: "tickets_step a b \<Longrightarrow> tickets_step b c \<Longrightarrow> tickets_step a c"
proof -
  assume "tickets_step a b" "tickets_step b c"
  then obtain f x g y where f: "b = map f a @ x" "\<forall>r. ar_id (f r) = ar_id r \<and> (ar_state (f r) = ar_state r \<or>
       ar_state r = AS_PENDING \<and> ar_state (f r) \<in> {AS_APPROVED, AS_REJECTED, AS_EXPIRED})"
    and g: "c = map g b @ y" "\<forall>r. ar_id (g r) = ar_id r \<and> (ar_state (g r) = ar_state r \<or>
       ar_state r = AS_PENDING \<and> ar_state (g r) \<in> {AS_APPROVED, AS_REJECTED, AS_EXPIRED})"
    unfolding tickets_step_def by metis
  show ?thesis unfolding tickets_step_def
  proof (intro exI conjI allI)
    show "c = map (g \<circ> f) a @ (map g x @ y)" by (simp add: f(1) g(1))
    show "ar_id ((g \<circ> f) r) = ar_id r" for r using f(2) g(2) by simp
    show "ar_state ((g \<circ> f) r) = ar_state r \<or>
       ar_state r = AS_PENDING \<and> ar_state ((g \<circ> f) r) \<in> {AS_APPROVED, AS_REJECTED, AS_EXPIRED}" for r
      using spec [OF f(2), of r] spec [OF g(2), of "f r"] by auto
  qed
qed

lemma sweep_one_step: "tickets_step (t_requests (ms_db s)) (t_requests (ms_db (snd (sweep_one cfg now fresh req (res, s)))))"
proof (cases "atomic_expire_request now (fresh (ar_id req)) (mc_outbox cfg) (ar_id req) (ar_tenant_id req) (ms_db s)")
  case (Pair r db')
  show ?thesis
  proof (cases r)
    case None
    with Pair show ?thesis using atomic_expire_None by (fastforce simp: sweep_one_def)
  next
    case (Some t)
    with atomic_expire_Some [OF Pair [unfolded Some]] Pair show ?thesis
      by (auto simp: sweep_one_def Let_def tickets_step_moved)
  qed
qed

lemma sweep_fold_step:
  "tickets_step (t_requests (ms_db (snd acc))) (t_requests (ms_db (snd (fold (sweep_one cfg now fresh) reqs acc))))"
proof (induction reqs arbitrary: acc)
  case (Cons req reqs)
  have "tickets_step (t_requests (ms_db (snd acc))) (t_requests (ms_db (snd (sweep_one cfg now fresh req acc))))"
    using sweep_one_step by (cases acc) simp
  then show ?case using Cons [of "sweep_one cfg now fresh req acc"] by (simp add: tickets_step_trans)
qed simp

lemma submit_decision_db:
  assumes "submit_decision cfg now ev d who tenant s = Inr (t, s')"
  shows "\<exists>ticket. authorize_decision cfg now (ms_db s) d who (decision_tenant tenant d) = Inr ticket \<and>
     atomic_submit_decision now ev (mc_outbox cfg) d (decision_tenant tenant d) (ms_db s) = Inr (t, ms_db s')"
  using assms by (auto simp: submit_decision_def Let_def bind_res_Inr_iff)

lemma atomic_submit_write:
  "atomic_submit_decision now ev staged d tid db = Inr r \<Longrightarrow> decide_write now ev staged d tid db = Inr r"
  by (auto simp: atomic_submit_decision_def bind_res_Inr_iff)

lemma manager_apply_tickets: "tickets_step (t_requests (ms_db s)) (t_requests (ms_db (manager_apply cfg s e)))"
proof (cases e)
  case (Man_create now new_id ev inst step role tenant timeout ctx sig who corr fp)
  show ?thesis
  proof (cases "new_id \<in> ar_id ` set (t_requests (ms_db s))")
    case False
    then have "select_request (ms_db s) new_id (Some t) = None" for t
      unfolding select_request_None by (metis imageI)
    then show ?thesis
      by (auto simp: Man_create create_request_def save_request_def Let_def split: sum.splits)
  qed (simp add: Man_create)
next
  case Man_delegate
  then show ?thesis
    by (auto simp: create_delegation_def save_delegation_def Let_def split: sum.splits option.splits)
next
  case (Man_decide now ev d who tenant)
  show ?thesis
  proof (cases "submit_decision cfg now ev d who tenant s")
    case (Inr p)
    obtain t s' where p: "p = (t, s')" by (cases p)
    from submit_decision_db [OF Inr [unfolded p]] obtain ticket where
      a: "authorize_decision cfg now (ms_db s) d who (decision_tenant tenant d) = Inr ticket"
      and w: "decide_write now ev (mc_outbox cfg) d (decision_tenant tenant d) (ms_db s) = Inr (t, ms_db s')"
      using atomic_submit_write by blast
    have "ad_decision d \<in> {AS_APPROVED, AS_REJECTED}" using authorize_vetted [OF a] by (simp add: vetted_def)
    then have "tickets_step (t_requests (ms_db s)) (t_requests (ms_db s'))"
      using decide_write_Inr [OF w] tickets_step_moved by auto
    then show ?thesis by (simp add: Man_decide Inr p)
  qed (simp add: Man_decide)
next
  case (Man_sweep now fresh tenant)
  then show ?thesis
    using sweep_fold_step [of "([], s)" cfg now fresh] by (simp add: sweep_expired_requests_def)
qed

lemma sweep_fold_inv:
  "approval_inv (mc_outbox cfg) (ms_db (snd acc)) \<Longrightarrow>
     approval_inv (mc_outbox cfg) (ms_db (snd (fold (sweep_one cfg now fresh) reqs acc)))"
proof (induction reqs arbitrary: acc)
  case (Cons req reqs)
  obtain res s where acc: "acc = (res, s)" by (cases acc)
  obtain r db' where e: "atomic_expire_request now (fresh (ar_id req)) (mc_outbox cfg) (ar_id req)
      (ar_tenant_id req) (ms_db s) = (r, db')" by (cases "atomic_expire_request now (fresh (ar_id req))
      (mc_outbox cfg) (ar_id req) (ar_tenant_id req) (ms_db s)")
  have "ms_db (snd (sweep_one cfg now fresh req acc)) = db'"
    using e by (cases r) (simp_all add: sweep_one_def acc Let_def)
  then have "approval_inv (mc_outbox cfg) (ms_db (snd (sweep_one cfg now fresh req acc)))"
    using expire_inv [OF _ e] Cons.prems acc by simp
  from Cons.IH [OF this] show ?case by simp
qed simp

lemma manager_apply_inv:
  assumes "approval_inv (mc_outbox cfg) (ms_db s)"
  shows "approval_inv (mc_outbox cfg) (ms_db (manager_apply cfg s e))"
proof (cases e)
  case (Man_create now new_id ev inst step role tenant timeout ctx sig who corr fp)
  show ?thesis
  proof (cases "new_id \<in> ar_id ` set (t_requests (ms_db s))")
    case False
    show ?thesis
    proof (cases "create_request cfg now new_id ev inst step role tenant timeout ctx sig who corr fp s")
      case (Inr p)
      then obtain r db' where "save_request now ev (mc_outbox cfg) r tenant (ms_db s) = Inr db'"
          "ar_state r = AS_PENDING" "ar_id r = new_id" "ms_db (snd p) = db'"
        by (auto simp: create_request_def Let_def bind_res_Inr_iff)
      then show ?thesis using save_new_inv [OF assms] False
        by (cases p) (simp add: Man_create Inr)
    qed (simp add: Man_create assms)
  qed (simp add: Man_create assms)
next
  case Man_delegate
  then show ?thesis using assms
    by (auto simp: create_delegation_def save_delegation_def Let_def approval_inv_def
        split: sum.splits option.splits)
next
  case (Man_decide now ev d who tenant)
  show ?thesis
  proof (cases "submit_decision cfg now ev d who tenant s")
    case (Inr p)
    obtain t s' where p: "p = (t, s')" by (cases p)
    from submit_decision_db [OF Inr [unfolded p]] obtain ticket where
      a: "authorize_decision cfg now (ms_db s) d who (decision_tenant tenant d) = Inr ticket"
      and w: "decide_write now ev (mc_outbox cfg) d (decision_tenant tenant d) (ms_db s) = Inr (t, ms_db s')"
      using atomic_submit_write by blast
    show ?thesis using decide_write_inv [OF assms authorize_vetted [OF a] w] by (simp add: Man_decide Inr p)
  qed (simp add: Man_decide assms)
next
  case (Man_sweep now fresh tenant)
  then show ?thesis
    using sweep_fold_inv [of cfg "([], s)" now fresh] assms by (simp add: sweep_expired_requests_def)
qed

interpretation durable_tickets:
  ticket_machine "manager_apply cfg" "\<lambda>s :: manager_state. approval_inv (mc_outbox cfg) (ms_db s)" manager_ticket_state for cfg
proof
  fix s :: manager_state and e
  assume "approval_inv (mc_outbox cfg) (ms_db s)"
  then show "approval_inv (mc_outbox cfg) (ms_db (manager_apply cfg s e))" by (rule manager_apply_inv)
next
  fix s :: manager_state and i a e
  assume a: "manager_ticket_state s i = Some a"
  obtain f new where f: "t_requests (ms_db (manager_apply cfg s e)) = map f (t_requests (ms_db s)) @ new"
    "\<forall>r. ar_id (f r) = ar_id r \<and> (ar_state (f r) = ar_state r \<or>
       ar_state r = AS_PENDING \<and> ar_state (f r) \<in> {AS_APPROVED, AS_REJECTED, AS_EXPIRED})"
    using manager_apply_tickets [of s cfg e] unfolding tickets_step_def by blast
  obtain r where r: "find (\<lambda>r. ar_id r = i) (t_requests (ms_db s)) = Some r" "a = ar_state r"
    using a by (auto simp: manager_ticket_state_def)
  have "manager_ticket_state (manager_apply cfg s e) i = Some (ar_state (f r))"
    using r f find_map_keep [of "\<lambda>r. ar_id r = i" f] by (simp add: manager_ticket_state_def find_append)
  then show "manager_ticket_state (manager_apply cfg s e) i = Some a \<or>
     a = AS_PENDING \<and> manager_ticket_state (manager_apply cfg s e) i \<in> {Some AS_APPROVED, Some AS_REJECTED, Some AS_EXPIRED}"
    using spec [OF f(2), of r] r(2) by auto
qed


section \<open>The sweep\<close>

definition overdue :: "instant \<Rightarrow> string option \<Rightarrow> approval_request \<Rightarrow> bool" where
  "overdue now tenant r \<longleftrightarrow> ar_state r = AS_PENDING \<and>
     (case ar_timeout_at r of None \<Rightarrow> False | Some t \<Rightarrow> t < now) \<and> tenant_is tenant (ar_tenant_id r)"

definition overdue_rows :: "instant \<Rightarrow> string option \<Rightarrow> approval_db \<Rightarrow> approval_request list" where
  "overdue_rows now tenant db = filter (overdue now tenant) (t_requests db)"

lemma get_expired_overdue:
  "get_expired_pending_requests now db tenant limit = map (model_to_request now) (take limit (overdue_rows now tenant db))"
  unfolding get_expired_pending_requests_def overdue_rows_def overdue_def ..

lemma model_to_request_fields [simp]:
  "ar_id (model_to_request now r) = ar_id r" "ar_tenant_id (model_to_request now r) = ar_tenant_id r"
  "ar_state (model_to_request now r) = ar_state r"
  by (simp_all add: model_to_request_def)

definition expire_all :: "instant \<Rightarrow> approval_request list \<Rightarrow> approval_request \<Rightarrow> approval_request" where
  "expire_all now reqs = fold (\<lambda>q. moved now (ar_id q) (ar_tenant_id q) AS_EXPIRED) reqs"

lemma expire_all_eq:
  "expire_all now reqs r =
     (if ar_state r = AS_PENDING \<and> (\<exists>q \<in> set reqs. ar_id q = ar_id r \<and> ar_tenant_id q = ar_tenant_id r)
      then r\<lparr>ar_state := AS_EXPIRED, ar_updated_at := Some now\<rparr> else r)"
proof (induction reqs arbitrary: r)
  case (Cons q reqs)
  have "expire_all now (q # reqs) r = expire_all now reqs (moved now (ar_id q) (ar_tenant_id q) AS_EXPIRED r)"
    by (simp add: expire_all_def)
  then have step: "expire_all now (q # reqs) r = (let r' = moved now (ar_id q) (ar_tenant_id q) AS_EXPIRED r in
      if ar_state r' = AS_PENDING \<and> (\<exists>q \<in> set reqs. ar_id q = ar_id r' \<and> ar_tenant_id q = ar_tenant_id r')
      then r'\<lparr>ar_state := AS_EXPIRED, ar_updated_at := Some now\<rparr> else r')"
    by (simp only: Cons.IH Let_def)
  show ?case
  proof (cases "pending_row (ar_id q) (ar_tenant_id q) r")
    case True
    then show ?thesis by (simp add: step moved_def Let_def pending_row_def)
  next
    case False
    then have "moved now (ar_id q) (ar_tenant_id q) AS_EXPIRED r = r" by (simp add: moved_def)
    moreover from False have "ar_state r = AS_PENDING \<Longrightarrow> \<not> (ar_id q = ar_id r \<and> ar_tenant_id q = ar_tenant_id r)"
      by (auto simp: pending_row_def)
    ultimately show ?thesis unfolding step Let_def set_simps bex_simps by (intro if_cong) auto
  qed
qed (simp add: expire_all_def)

lemma sweep_one_requests:
  "t_requests (ms_db (snd (sweep_one cfg now fresh q acc))) =
     map (moved now (ar_id q) (ar_tenant_id q) AS_EXPIRED) (t_requests (ms_db (snd acc)))"
proof -
  obtain res s where acc: "acc = (res, s)" by (cases acc)
  obtain t db' where e: "atomic_expire_request now (fresh (ar_id q)) (mc_outbox cfg) (ar_id q)
      (ar_tenant_id q) (ms_db s) = (t, db')" by (cases "atomic_expire_request now (fresh (ar_id q))
      (mc_outbox cfg) (ar_id q) (ar_tenant_id q) (ms_db s)")
  show ?thesis
  proof (cases t)
    case None
    have "moved now (ar_id q) (ar_tenant_id q) AS_EXPIRED r = r" if "r \<in> set (t_requests (ms_db s))" for r
      using atomic_expire_None [OF e [unfolded None]] that by (simp add: moved_def)
    then show ?thesis using atomic_expire_None [OF e [unfolded None]] e None acc
      by (simp add: sweep_one_def map_idI)
  next
    case (Some x)
    then show ?thesis using atomic_expire_Some [OF e [unfolded Some]] e acc by (auto simp: sweep_one_def Let_def)
  qed
qed

lemma sweep_fold_requests:
  "t_requests (ms_db (snd (fold (sweep_one cfg now fresh) reqs acc))) =
     map (expire_all now reqs) (t_requests (ms_db (snd acc)))"
  by (induction reqs arbitrary: acc) (simp_all add: expire_all_def sweep_one_requests)

lemma filter_not_in_take:
  "distinct xs \<Longrightarrow> filter (\<lambda>x. x \<notin> set (take n xs)) xs = drop n xs"
proof -
  assume d: "distinct xs"
  have "filter (\<lambda>x. x \<notin> set (take n xs)) (take n xs @ drop n xs) = drop n xs"
    unfolding filter_append using d set_take_disj_set_drop_if_distinct [of xs n n] by (auto simp: filter_id_conv)
  then show ?thesis by simp
qed

lemma sweep_remaining:
  assumes "distinct (map ar_id (t_requests (ms_db s)))"
  shows "overdue_rows now tenant (ms_db (snd (sweep_expired_requests cfg now fresh tenant s))) =
     drop 100 (overdue_rows now tenant (ms_db s))"
proof -
  let ?rows = "t_requests (ms_db s)"
  define L where "L = overdue_rows now tenant (ms_db s)"
  define f where "f = expire_all now (map (model_to_request now) (take 100 L))"
  have rows: "t_requests (ms_db (snd (sweep_expired_requests cfg now fresh tenant s))) = map f ?rows"
    by (simp add: sweep_expired_requests_def sweep_fold_requests get_expired_overdue f_def L_def)
  have L: "L = filter (overdue now tenant) ?rows" by (simp add: L_def overdue_rows_def)
  have sub: "set (take 100 L) \<subseteq> set ?rows" using set_take_subset [of 100 L] by (auto simp: L)
  have hit: "(\<exists>q \<in> set (map (model_to_request now) (take 100 L)). ar_id q = ar_id r \<and> ar_tenant_id q = ar_tenant_id r) \<longleftrightarrow> r \<in> set (take 100 L)"
    if "r \<in> set ?rows" for r
  proof
    assume "\<exists>q \<in> set (map (model_to_request now) (take 100 L)). ar_id q = ar_id r \<and> ar_tenant_id q = ar_tenant_id r"
    then obtain q where q: "q \<in> set (take 100 L)" "ar_id q = ar_id r" by auto
    from q(1) sub have "q \<in> set ?rows" by blast
    with assms q(2) that have "q = r" by (auto simp: distinct_map dest: inj_onD)
    with q show "r \<in> set (take 100 L)" by simp
  next
    assume "r \<in> set (take 100 L)"
    then show "\<exists>q \<in> set (map (model_to_request now) (take 100 L)). ar_id q = ar_id r \<and> ar_tenant_id q = ar_tenant_id r"
      by (intro bexI [of _ "model_to_request now r"]) simp_all
  qed
  have pend: "ar_state r = AS_PENDING" if "r \<in> set (take 100 L)" for r
    using that set_take_subset [of 100 L] by (auto simp: L overdue_def)
  have f: "f r = (if r \<in> set (take 100 L) then r\<lparr>ar_state := AS_EXPIRED, ar_updated_at := Some now\<rparr> else r)"
    if "r \<in> set ?rows" for r
    unfolding f_def expire_all_eq hit [OF that] using pend by auto
  have "overdue now tenant (f r) \<longleftrightarrow> overdue now tenant r \<and> r \<notin> set (take 100 L)" if "r \<in> set ?rows" for r
    using f [OF that] pend by (auto simp: overdue_def)
  then have "filter (\<lambda>r. overdue now tenant (f r)) ?rows = filter (\<lambda>r. overdue now tenant r \<and> r \<notin> set (take 100 L)) ?rows"
    by (intro filter_cong) simp_all
  also have "\<dots> = filter (\<lambda>r. r \<notin> set (take 100 L)) L" by (simp add: L conj_commute)
  also have "\<dots> = drop 100 L"
    using assms by (intro filter_not_in_take) (simp add: L distinct_map)
  finally have left: "filter (\<lambda>r. overdue now tenant (f r)) ?rows = drop 100 L" .
  have "f r = r" if "r \<in> set (drop 100 L)" for r
  proof -
    have "r \<in> set ?rows" using in_set_dropD [OF that] by (simp add: L)
    moreover have "r \<notin> set (take 100 L)"
      using that assms set_take_disj_set_drop_if_distinct [of L 100 100] by (auto simp: L distinct_map)
    ultimately show ?thesis using f by simp
  qed
  then have "map f (drop 100 L) = drop 100 L" by (rule map_idI)
  then show ?thesis
    by (simp only: overdue_rows_def rows filter_map comp_def left) (simp only: L_def overdue_rows_def)
qed

end
