(* ===== verification/Approval_Rights.thy ===== *)
theory Approval_Rights
  imports Approval_Contract
begin

text \<open>
  Who may decide a ticket, as a specification, and the durable manager's \<open>submit_decision\<close>
  checked against it: on a database that satisfies the invariant the manager accepts exactly the
  permitted decisions.
\<close>

definition signature_accepted ::
  "manager_config \<Rightarrow> security_principal \<Rightarrow> approval_request \<Rightarrow> approval_decision \<Rightarrow> bool" where
  "signature_accepted cfg p ticket d \<longleftrightarrow>
     (if has_text (ad_signature_hex d)
      then \<exists>verify raw hex key signature. mc_verifier cfg = Some verify \<and>
             dict_get (sp_attributes p) ''public_key'' = Some raw \<and> key_hex raw = Some hex \<and>
             (has_text (ad_public_key_hex d) \<longrightarrow> py_lower (the (ad_public_key_hex d)) = py_lower hex) \<and>
             fromhex hex = Some key \<and> fromhex (the (ad_signature_hex d)) = Some signature \<and>
             verify (canonical_payload cfg ticket d) signature key
      else \<not> ar_signature_required ticket)"

lemma check_signature_iff: "check_signature cfg p ticket d = Inr () \<longleftrightarrow> signature_accepted cfg p ticket d"
  by (auto simp: check_signature_def signature_accepted_def split: option.splits if_splits)

definition authority_held :: "instant \<Rightarrow> approval_db \<Rightarrow> security_principal \<Rightarrow> approval_request \<Rightarrow> bool" where
  "authority_held now db p ticket \<longleftrightarrow>
     sp_tenant_id p = ar_tenant_id ticket \<and>
     ar_requester_principal_id ticket \<noteq> Some (sp_principal_id p) \<and>
     (ar_required_role ticket = [] \<or> ar_required_role ticket \<in> set (sp_roles p) \<or>
      (\<exists>g \<in> set (t_delegations db).
         delegation_covers (ar_tenant_id ticket) (sp_principal_id p) (ar_required_role ticket) now g))"

lemma get_active_delegation_None:
  "get_active_delegation db tid delegatee role now = None \<longleftrightarrow>
     (\<forall>g \<in> set (t_delegations db). \<not> delegation_covers tid delegatee role now g)"
proof -
  have nil: "newest_delegations rows = [] \<longleftrightarrow> rows = []" for rows
    by (metis length_sort length_0_conv newest_delegations_def)
  have "get_active_delegation db tid delegatee role now = None \<longleftrightarrow>
     newest_delegations (filter (delegation_covers tid delegatee role now) (t_delegations db)) = []"
    by (simp add: get_active_delegation_def first_row_def split: list.splits)
  then show ?thesis by (simp add: nil filter_empty_conv)
qed

lemma check_authority_iff:
  "check_authority now db p ticket d = Inr () \<longleftrightarrow>
     sp_principal_id p = ad_approver_id d \<and> authority_held now db p ticket"
  by (auto simp: check_authority_def authority_held_def get_active_delegation_None)

definition decision_permitted ::
  "manager_config \<Rightarrow> instant \<Rightarrow> approval_db \<Rightarrow> approval_decision \<Rightarrow> security_principal option \<Rightarrow> string \<Rightarrow> bool" where
  "decision_permitted cfg now db d who tid \<longleftrightarrow>
     ad_decision d \<in> {AS_APPROVED, AS_REJECTED} \<and>
     (\<exists>p ticket. who = Some p \<and> sp_principal_id p = ad_approver_id d \<and>
        get_request now db (ad_request_id d) (Some tid) = Some ticket \<and> ar_state ticket = AS_PENDING \<and>
        authority_held now db p ticket \<and> signature_accepted cfg p ticket d)"

lemma authorize_decision_iff:
  "ok (authorize_decision cfg now db d who tid) \<longleftrightarrow> decision_permitted cfg now db d who tid"
proof (cases "get_request now db (ad_request_id d) (Some tid)")
  case None
  then show ?thesis by (simp add: authorize_decision_def decision_permitted_def)
next
  case (Some ticket)
  then show ?thesis
    by (auto simp: authorize_decision_def decision_permitted_def ok_iff bind_res_Inr_iff
        check_authority_iff check_signature_iff split: option.splits)
qed

lemma atomic_submit_ok_iff:
  assumes inv: "approval_inv staged db"
    and ticket: "get_request now db (ad_request_id d) (Some tid) = Some ticket" "ar_state ticket = AS_PENDING"
  shows "ok (atomic_submit_decision now ev staged d tid db) \<longleftrightarrow> ad_id d \<notin> ad_id ` set (t_decisions db)"
proof -
  from ticket obtain r where r: "select_request db (ad_request_id d) (Some tid) = Some r" "ar_state r = AS_PENDING"
    by (auto simp: get_request_def model_to_request_def)
  then have mem: "r \<in> set (t_requests db)" "ar_id r = ad_request_id d" "ar_tenant_id r = tid"
    by (auto dest!: select_request_Some simp: tenant_is_def)
  have none: "\<not> (\<exists>e \<in> set (t_decisions db). ad_request_id e = ad_request_id d)"
    using inv mem r(2) by (auto simp: approval_inv_def ticket_settled_def decisions_of_def filter_empty_conv)
  have read: "decide_read db (ad_request_id d) tid = Inr r" using r by (simp add: decide_read_def)
  let ?rows = "map (moved now (ad_request_id d) tid (ad_decision d)) (t_requests db)"
  have "length (filter (pending_row (ad_request_id d) tid) (t_requests db)) \<noteq> 0"
    using mem r(2) by (auto simp: filter_empty_conv pending_row_def)
  moreover have "select_request (db\<lparr>t_requests := ?rows\<rparr>) (ad_request_id d) (Some tid) \<noteq> None"
    using mem by (auto simp: select_request_def find_None_iff tenant_is_def)
  ultimately have "ok (decide_write now ev staged d tid db) \<longleftrightarrow>
      ok (save_decision d tid (db\<lparr>t_requests := ?rows\<rparr>))"
    by (auto simp: decide_write_def Let_def update_pending_moved split: option.splits sum.splits)
  also have "\<dots> \<longleftrightarrow> ad_id d \<notin> ad_id ` set (t_decisions db)"
    using none by (simp add: save_decision_def image_iff) metis
  finally show ?thesis by (simp add: atomic_submit_decision_def read)
qed

lemma submit_decision_ok:
  assumes "approval_inv (mc_outbox cfg) (ms_db s)"
  shows "ok (submit_decision cfg now ev d who tenant s) \<longleftrightarrow>
     decision_permitted cfg now (ms_db s) d who (decision_tenant tenant d) \<and>
     ad_id d \<notin> ad_id ` set (t_decisions (ms_db s))"
proof (cases "authorize_decision cfg now (ms_db s) d who (decision_tenant tenant d)")
  case (Inl e)
  then have "\<not> decision_permitted cfg now (ms_db s) d who (decision_tenant tenant d)"
    using authorize_decision_iff by (metis ok_simps(2))
  then show ?thesis by (simp add: submit_decision_def Let_def Inl)
next
  case (Inr ticket)
  then have perm: "decision_permitted cfg now (ms_db s) d who (decision_tenant tenant d)"
    using authorize_decision_iff by (metis ok_simps(1))
  then obtain t where "get_request now (ms_db s) (ad_request_id d) (Some (decision_tenant tenant d)) = Some t"
    "ar_state t = AS_PENDING" by (auto simp: decision_permitted_def)
  from atomic_submit_ok_iff [OF assms this]
  show ?thesis using perm
    by (auto simp: submit_decision_def Let_def Inr ok_iff bind_res_Inr_iff split: prod.splits)
qed
end
