(* ===== verification/Access_Control.thy ===== *)
theory Access_Control
  imports Security_Models Workflow_Models "HOL-Library.Char_ord" "HOL-Library.List_Lexorder"
begin

text \<open>
  Authorization: the in-memory cache (\<open>engines/storage/stores/cache_store.py\<close>), the RBAC evaluator
  with its read-through cache (\<open>engines/security/rbac.py\<close>), the ABAC evaluator (\<open>abac.py\<close>) and
  their combination (\<open>authorization.py\<close>).  Time is an integer of any resolution; an
  \<open>AccessDecision\<close> is kept without its time stamp.
\<close>

section \<open>The memory cache\<close>

type_synonym memory_cache = "(string, pyval \<times> instant option) dict"

definition cache_get :: "memory_cache \<Rightarrow> string \<Rightarrow> instant \<Rightarrow> pyval option \<times> memory_cache" where
  "cache_get c key now =
     (case dict_get c key of
        None \<Rightarrow> (None, c)
      | Some (v, Some expire_at) \<Rightarrow> if expire_at \<le> now then (None, dict_pop key c) else (Some v, c)
      | Some (v, None) \<Rightarrow> (Some v, c))"

definition cache_set :: "memory_cache \<Rightarrow> string \<Rightarrow> pyval \<Rightarrow> int option \<Rightarrow> instant \<Rightarrow> memory_cache" where
  "cache_set c key v ttl now = dict_set key (v, map_option (\<lambda>d. now + d) ttl) c"

definition cache_delete :: "memory_cache \<Rightarrow> string \<Rightarrow> bool \<times> memory_cache" where
  "cache_delete c key = (if dict_has c key then (True, dict_pop key c) else (False, c))"

definition cache_clear :: "memory_cache \<Rightarrow> bool \<times> memory_cache" where
  "cache_clear c = (True, [])"

text \<open>
  The operations as a client sees them: any cache store, whose reads may raise (\<^const>\<open>Inl\<close>).
\<close>

record 'c cache_ops =
  co_get :: "'c \<Rightarrow> string \<Rightarrow> instant \<Rightarrow> (string + pyval option) \<times> 'c"
  co_set :: "'c \<Rightarrow> string \<Rightarrow> pyval \<Rightarrow> int option \<Rightarrow> instant \<Rightarrow> 'c"

definition memory_cache_ops :: "memory_cache cache_ops" where
  "memory_cache_ops = \<lparr>co_get = (\<lambda>c k now. (Inr (fst (cache_get c k now)), snd (cache_get c k now))),
     co_set = cache_set\<rparr>"

section \<open>Role based access\<close>

record permission_requirement =
  pr_capability_name :: string
  pr_required_permissions :: "string list"
  pr_security_classification :: classification_level

record access_decision =
  is_allowed :: bool
  decision_code :: string
  reason :: string

text \<open>The table of grants: rows of a role and a permission.\<close>

type_synonym grants = "(string \<times> string) list"

definition CACHE_KEY_PREFIX :: string where "CACHE_KEY_PREFIX = ''security:rbac:role:''"
definition CACHE_TTL_SECONDS :: int where "CACHE_TTL_SECONDS = 300"

definition cache_key :: "string \<Rightarrow> string" where
  "cache_key role = CACHE_KEY_PREFIX @ role"

definition fetch_permissions_by_role :: "grants \<Rightarrow> string list \<Rightarrow> (string, string list) dict" where
  "fetch_permissions_by_role rows roles =
     fold (\<lambda>(role, permission) d. dict_append role permission d)
       (filter (\<lambda>(role, permission). role \<in> set roles) rows) (dict_fromkeys [] roles)"

text \<open>A cached value that is not a list, or a read that raises, is a miss.\<close>

definition get_cached_permissions ::
  "'c cache_ops option \<Rightarrow> string \<Rightarrow> instant \<Rightarrow> 'c \<Rightarrow> pyval list option \<times> 'c" where
  "get_cached_permissions ops role now c =
     (case ops of
        None \<Rightarrow> (None, c)
      | Some co \<Rightarrow>
          (case co_get co c (cache_key role) now of
             (Inr (Some (PList vs)), c') \<Rightarrow> (Some vs, c')
           | (_, c') \<Rightarrow> (None, c')))"

definition set_cached_permissions ::
  "'c cache_ops option \<Rightarrow> string \<Rightarrow> string list \<Rightarrow> instant \<Rightarrow> 'c \<Rightarrow> 'c" where
  "set_cached_permissions ops role permissions now c =
     (case ops of
        None \<Rightarrow> c
      | Some co \<Rightarrow> co_set co c (cache_key role) (PList (map PStr permissions)) (Some CACHE_TTL_SECONDS) now)"

text \<open>Only strings can match a required permission.\<close>

definition strings_of :: "pyval list \<Rightarrow> string set" where
  "strings_of vs = set (concat (map (\<lambda>v. case v of PStr s \<Rightarrow> [s] | _ \<Rightarrow> []) vs))"

fun read_cached_roles ::
  "'c cache_ops option \<Rightarrow> instant \<Rightarrow> string list \<Rightarrow> string set \<Rightarrow> string list \<Rightarrow> 'c \<Rightarrow>
   string set \<times> string list \<times> 'c" where
  "read_cached_roles ops now [] granted missing c = (granted, missing, c)"
| "read_cached_roles ops now (role # roles) granted missing c =
     (case get_cached_permissions ops role now c of
        (Some vs, c') \<Rightarrow> read_cached_roles ops now roles (granted \<union> strings_of vs) missing c'
      | (None, c') \<Rightarrow> read_cached_roles ops now roles granted (missing @ [role]) c')"

fun store_fetched_roles ::
  "'c cache_ops option \<Rightarrow> instant \<Rightarrow> (string, string list) dict \<Rightarrow> string list \<Rightarrow> string set \<Rightarrow> 'c \<Rightarrow>
   string set \<times> 'c" where
  "store_fetched_roles ops now fetched [] granted c = (granted, c)"
| "store_fetched_roles ops now fetched (role # roles) granted c =
     (let permissions = dict_get_or [] fetched role
      in store_fetched_roles ops now fetched roles (granted \<union> set permissions)
           (set_cached_permissions ops role permissions now c))"

text \<open>\<open>None\<close> for the table is a failing data store, whose error is propagated.\<close>

definition load_granted_permissions ::
  "'c cache_ops option \<Rightarrow> instant \<Rightarrow> grants option \<Rightarrow> string list \<Rightarrow> 'c \<Rightarrow> string set option \<times> 'c" where
  "load_granted_permissions ops now rows roles c =
     (case read_cached_roles ops now roles {} [] c of
        (granted, missing, c1) \<Rightarrow>
          if missing = [] then (Some granted, c1)
          else (case rows of
                  None \<Rightarrow> (None, c1)
                | Some rs \<Rightarrow>
                    (case store_fetched_roles ops now (fetch_permissions_by_role rs missing) missing granted c1 of
                       (granted', c2) \<Rightarrow> (Some granted', c2))))"

fun join :: "string \<Rightarrow> string list \<Rightarrow> string" where
  "join sep [] = []"
| "join sep [x] = x"
| "join sep (x # xs) = x @ sep @ join sep xs"

definition allow :: "string \<Rightarrow> string \<Rightarrow> access_decision" where
  "allow code why = \<lparr>is_allowed = True, decision_code = code, reason = why\<rparr>"

definition deny :: "string \<Rightarrow> string \<Rightarrow> access_decision" where
  "deny code why = \<lparr>is_allowed = False, decision_code = code, reason = why\<rparr>"

definition evaluate_rbac ::
  "'c cache_ops option \<Rightarrow> instant \<Rightarrow> grants option \<Rightarrow> security_principal \<Rightarrow> permission_requirement \<Rightarrow> 'c \<Rightarrow>
   access_decision option \<times> 'c" where
  "evaluate_rbac ops now rows p r c =
     (if pr_required_permissions r = [] then
        (Some (allow ''RBAC_NO_PERMISSIONS_REQUIRED''
           ''Requirement declares no required permissions; RBAC check is vacuously satisfied.''), c)
      else if sp_roles p = [] then (Some (deny ''RBAC_NO_ROLES'' ''Principal has no assigned roles.''), c)
      else (case load_granted_permissions ops now rows (sp_roles p) c of
              (None, c') \<Rightarrow> (None, c')
            | (Some granted, c') \<Rightarrow>
                (let missing = filter (\<lambda>x. x \<notin> granted) (pr_required_permissions r)
                 in (Some (if missing \<noteq> [] then
                        deny ''RBAC_PERMISSION_DENIED''
                          (''Principal's roles do not grant required permission(s): '' @
                           join '', '' (sort missing) @ ''.'')
                      else allow ''RBAC_ALLOWED'' ''Principal's roles grant all required permissions.''), c'))))"

section \<open>Attribute based access\<close>

fun classification_value :: "classification_level \<Rightarrow> string" where
  "classification_value CL_PUBLIC = ''PUBLIC''"
| "classification_value CL_INTERNAL = ''INTERNAL''"
| "classification_value CL_CONFIDENTIAL = ''CONFIDENTIAL''"
| "classification_value CL_RESTRICTED = ''RESTRICTED''"

text \<open>\<open>ClassificationLevel(value)\<close>, which raises on anything but one of the four strings.\<close>

definition parse_classification :: "string \<Rightarrow> classification_level option" where
  "parse_classification s =
     find (\<lambda>l. classification_value l = s) [CL_PUBLIC, CL_INTERNAL, CL_CONFIDENTIAL, CL_RESTRICTED]"

definition clearance_rank :: "pyval option \<Rightarrow> nat" where
  "clearance_rank v =
     (case v of
        Some (PStr s) \<Rightarrow>
          (case parse_classification s of
             Some l \<Rightarrow> classification_rank l | None \<Rightarrow> classification_rank CL_PUBLIC)
      | _ \<Rightarrow> classification_rank CL_PUBLIC)"

definition rank_digit :: "nat \<Rightarrow> string" where
  "rank_digit n = [char_of (48 + n)]"

definition evaluate_abac ::
  "security_principal \<Rightarrow> permission_requirement \<Rightarrow> (string, pyval) dict \<Rightarrow> access_decision" where
  "evaluate_abac p r context =
     (case dict_get context ''resource_tenant_id'' of
        None \<Rightarrow> deny ''ABAC_TENANT_MISSING''
          ''resource_tenant_id was not supplied; tenant isolation cannot be verified. Denied by default.''
      | Some PNone \<Rightarrow> deny ''ABAC_TENANT_MISSING''
          ''resource_tenant_id was not supplied; tenant isolation cannot be verified. Denied by default.''
      | Some v \<Rightarrow>
          if v \<noteq> PStr (sp_tenant_id p) then
            deny ''ABAC_TENANT_MISMATCH'' ''Resource tenant_id does not match the principal's tenant_id.''
          else if clearance_rank (dict_get (sp_attributes p) ''clearance_level'') <
                  classification_rank (pr_security_classification r) then
            deny ''ABAC_INSUFFICIENT_CLEARANCE''
              (''Principal clearance ('' @
               rank_digit (clearance_rank (dict_get (sp_attributes p) ''clearance_level'')) @
               '') is below the required classification ('' @ classification_value (pr_security_classification r) @ '').'')
          else allow ''ABAC_ALLOWED'' ''Tenant and classification checks passed.'')"

section \<open>Authorization\<close>

definition authorize ::
  "'c cache_ops option \<Rightarrow> instant \<Rightarrow> grants option \<Rightarrow> security_principal \<Rightarrow> permission_requirement \<Rightarrow>
   (string, pyval) dict option \<Rightarrow> 'c \<Rightarrow> access_decision option \<times> 'c" where
  "authorize ops now rows p r context c =
     (case evaluate_rbac ops now rows p r c of
        (None, c') \<Rightarrow> (None, c')
      | (Some d, c') \<Rightarrow>
          if \<not> is_allowed d then (Some d, c')
          else (let a = evaluate_abac p r (case context of None \<Rightarrow> [] | Some x \<Rightarrow> x)
                in if \<not> is_allowed a then (Some a, c')
                   else (Some (allow ''AUTHORIZED'' ''RBAC and ABAC checks both passed.''), c')))"

text \<open>\<open>authorize_strict\<close> raises the reason of a denial.\<close>

definition authorize_strict ::
  "'c cache_ops option \<Rightarrow> instant \<Rightarrow> grants option \<Rightarrow> security_principal \<Rightarrow> permission_requirement \<Rightarrow>
   (string, pyval) dict option \<Rightarrow> 'c \<Rightarrow> (string + unit) \<times> 'c" where
  "authorize_strict ops now rows p r context c =
     (case authorize ops now rows p r context c of
        (None, c') \<Rightarrow> (Inl ''RBAC storage operation failed.'', c')
      | (Some d, c') \<Rightarrow> (if is_allowed d then Inr () else Inl (reason d), c'))"

end
