(* ===== verification/Access_Correct.thy ===== *)
theory Access_Correct
  imports Access_Control
begin

text \<open>
  What authorization decides: exactly the conjunction of the two policies when there is no cache,
  and with one, the grants of some moment within the cache's time to live.  The cache is used
  through a locale of its laws, which the memory cache satisfies.
\<close>

section \<open>Permissions in the table\<close>

definition role_permissions :: "grants \<Rightarrow> string \<Rightarrow> string list" where
  "role_permissions rows role = map snd (filter (\<lambda>(r, p). r = role) rows)"

lemma fetch_fold:
  "dict_get_or [] (fold (\<lambda>(role, permission) d. dict_append role permission d) rows d) role =
     dict_get_or [] d role @ role_permissions rows role"
  by (induction rows arbitrary: d) (auto simp: role_permissions_def dict_get_or_append)

lemma fetch_permissions_lookup:
  "role \<in> set roles \<Longrightarrow> dict_get_or [] (fetch_permissions_by_role rows roles) role = role_permissions rows role"
proof -
  assume "role \<in> set roles"
  then have "role_permissions (filter (\<lambda>(r, p). r \<in> set roles) rows) role = role_permissions rows role"
    by (auto simp: role_permissions_def intro!: arg_cong [of _ _ "map snd"] filter_cong)
  moreover have "dict_get_or [] (dict_fromkeys [] roles) role = []"
    by (simp add: dict_get_or_def)
  ultimately show ?thesis by (simp add: fetch_permissions_by_role_def fetch_fold)
qed

section \<open>Caches\<close>

text \<open>
  \<open>view c k t\<close> is what the cache \<open>c\<close> would answer for the key \<open>k\<close> at the time \<open>t\<close> if nothing else
  happened.  Reads answer no more than that and invent nothing; a write changes one key, and
  not beyond its time to live.
\<close>

locale timed_cache =
  fixes ops :: "'c cache_ops" and view :: "'c \<Rightarrow> string \<Rightarrow> instant \<Rightarrow> pyval option"
  assumes get_view: "co_get ops c k now = (Inr (Some v), c') \<Longrightarrow> view c k now = Some v"
    and get_keeps: "view (snd (co_get ops c k now)) k' t = Some v \<Longrightarrow> view c k' t = Some v"
    and set_view: "view (co_set ops c k v (Some d) now) k' t = Some w \<Longrightarrow>
       (k' = k \<and> w = v \<and> t < now + d) \<or> view c k' t = Some w"
begin

text \<open>
  Every cached list of permissions is that of the table \<open>H u\<close> at a time \<open>u\<close> not later than now,
  and is not answered more than the time to live after \<open>u\<close>.
\<close>

definition fresh :: "(instant \<Rightarrow> grants) \<Rightarrow> 'c \<Rightarrow> instant \<Rightarrow> bool" where
  "fresh H c now \<longleftrightarrow> (\<forall>role t v. view c (cache_key role) t = Some v \<longrightarrow>
     (\<exists>u. t - CACHE_TTL_SECONDS < u \<and> u \<le> now \<and> v = PList (map PStr (role_permissions (H u) role))))"

lemma fresh_later: "fresh H c now \<Longrightarrow> now \<le> now' \<Longrightarrow> fresh H c now'"
proof -
  assume f: "fresh H c now" and le: "now \<le> now'"
  show ?thesis unfolding fresh_def
  proof (intro allI impI)
    fix role t v
    assume "view c (cache_key role) t = Some v"
    with f obtain u where "t - CACHE_TTL_SECONDS < u" "u \<le> now" "v = PList (map PStr (role_permissions (H u) role))"
      unfolding fresh_def by blast
    with le show "\<exists>u. t - CACHE_TTL_SECONDS < u \<and> u \<le> now' \<and> v = PList (map PStr (role_permissions (H u) role))"
      by (intro exI [of _ u]) simp
  qed
qed

lemma fresh_get: "fresh H c now \<Longrightarrow> fresh H (snd (co_get ops c k t)) now"
  unfolding fresh_def using get_keeps by blast

lemma fresh_set:
  assumes "fresh H c now"
  shows "fresh H (co_set ops c (cache_key role) (PList (map PStr (role_permissions (H now) role)))
       (Some CACHE_TTL_SECONDS) now) now"
  unfolding fresh_def
proof (intro allI impI)
  fix r t v
  assume "view (co_set ops c (cache_key role) (PList (map PStr (role_permissions (H now) role)))
       (Some CACHE_TTL_SECONDS) now) (cache_key r) t = Some v"
  from set_view [OF this]
  show "\<exists>u. t - CACHE_TTL_SECONDS < u \<and> u \<le> now \<and> v = PList (map PStr (role_permissions (H u) r))"
  proof
    assume "cache_key r = cache_key role \<and> v = PList (map PStr (role_permissions (H now) role)) \<and>
       t < now + CACHE_TTL_SECONDS"
    then show ?thesis by (intro exI [of _ now]) (simp add: cache_key_def)
  next
    assume "view c (cache_key r) t = Some v"
    with assms show ?thesis unfolding fresh_def by blast
  qed
qed

lemma strings_of_PStr [simp]: "strings_of (map PStr ps) = set ps"
  by (auto simp: strings_of_def)

text \<open>
  A set of permissions is recent for some roles when each was granted to one of them, and each
  role is served in full, at a moment within the time to live.
\<close>

definition window :: "instant \<Rightarrow> instant \<Rightarrow> bool" where
  "window now u \<longleftrightarrow> now - CACHE_TTL_SECONDS < u \<and> u \<le> now"

definition recent :: "(instant \<Rightarrow> grants) \<Rightarrow> instant \<Rightarrow> string set \<Rightarrow> string set \<Rightarrow> bool" where
  "recent H now roles ps \<longleftrightarrow>
     (\<forall>p \<in> ps. \<exists>role \<in> roles. \<exists>u. window now u \<and> (role, p) \<in> set (H u)) \<and>
     (\<forall>role \<in> roles. \<exists>u. window now u \<and> set (role_permissions (H u) role) \<subseteq> ps)"

lemma window_now: "window now now"
  by (simp add: window_def CACHE_TTL_SECONDS_def)

lemma recent_empty: "recent H now {} {}"
  by (simp add: recent_def)

lemma recent_insert:
  assumes "recent H now rs ps" "window now u"
  shows "recent H now (insert role rs) (ps \<union> set (role_permissions (H u) role))"
proof -
  have "\<exists>r \<in> insert role rs. \<exists>u. window now u \<and> (r, p) \<in> set (H u)"
    if "p \<in> set (role_permissions (H u) role)" for p
    using that assms(2) by (auto simp: role_permissions_def)
  moreover have "\<exists>v. window now v \<and> set (role_permissions (H v) r) \<subseteq> ps \<union> set (role_permissions (H u) role)"
    if "r \<in> insert role rs" for r
    using that assms unfolding recent_def by blast
  ultimately show ?thesis using assms(1) unfolding recent_def by blast
qed

lemma get_cached_cases:
  assumes "fresh H c now" "get_cached_permissions (Some ops) role now c = (res, c')"
  shows "fresh H c' now \<and> (\<forall>vs. res = Some vs \<longrightarrow>
     (\<exists>u. window now u \<and> strings_of vs = set (role_permissions (H u) role)))"
proof -
  obtain r c1 where g: "co_get ops c (cache_key role) now = (r, c1)" by fastforce
  have c': "c' = c1"
    using assms(2) g by (auto simp: get_cached_permissions_def split: sum.splits option.splits pyval.splits)
  have "fresh H c1 now" using fresh_get [OF assms(1), of "cache_key role" now] g by simp
  moreover have "\<exists>u. window now u \<and> strings_of vs = set (role_permissions (H u) role)"
    if "res = Some vs" for vs
  proof -
    have "r = Inr (Some (PList vs))"
      using assms(2) g that
      by (auto simp: get_cached_permissions_def split: sum.splits option.splits pyval.splits)
    then have "view c (cache_key role) now = Some (PList vs)" using get_view g by simp
    with assms(1) obtain u where "now - CACHE_TTL_SECONDS < u" "u \<le> now"
        "PList vs = PList (map PStr (role_permissions (H u) role))" unfolding fresh_def by metis
    then show ?thesis by (intro exI [of _ u]) (simp add: window_def)
  qed
  ultimately show ?thesis using c' by blast
qed

lemma read_cached_roles_recent:
  assumes "read_cached_roles (Some ops) now roles granted missing c = (granted', missing', c')"
    "fresh H c now" "recent H now done granted"
  shows "\<exists>done'. fresh H c' now \<and> recent H now done' granted' \<and>
     done' \<union> set missing' = done \<union> set missing \<union> set roles"
  using assms
proof (induction roles arbitrary: granted missing c "done")
  case Nil
  then show ?case by auto
next
  case (Cons role roles)
  obtain r c1 where g: "get_cached_permissions (Some ops) role now c = (r, c1)" by fastforce
  note get_cached_cases [OF Cons.prems(2) g]
  then have c1: "fresh H c1 now" by simp
  show ?case
  proof (cases r)
    case None
    with Cons.prems(1) g have run: "read_cached_roles (Some ops) now roles granted (missing @ [role]) c1 =
        (granted', missing', c')" by simp
    from Cons.IH [OF run c1 Cons.prems(3)] show ?thesis by auto
  next
    case (Some vs)
    with get_cached_cases [OF Cons.prems(2) g] obtain u where u: "window now u"
      "strings_of vs = set (role_permissions (H u) role)" by blast
    from Some Cons.prems(1) g have run: "read_cached_roles (Some ops) now roles (granted \<union> strings_of vs) missing c1 =
        (granted', missing', c')" by simp
    from Cons.IH [OF run c1 recent_insert [OF Cons.prems(3) u(1), of role, folded u(2)]]
    show ?thesis by auto
  qed
qed

lemma store_fetched_recent:
  assumes "store_fetched_roles (Some ops) now fetched roles granted c = (granted', c')"
    "fresh H c now" "recent H now done granted"
    "\<forall>role \<in> set roles. dict_get_or [] fetched role = role_permissions (H now) role"
  shows "fresh H c' now \<and> recent H now (done \<union> set roles) granted'"
  using assms
proof (induction "Some ops" now fetched roles granted c arbitrary: "done" rule: store_fetched_roles.induct)
  case (1 now fetched granted c)
  then show ?case by simp
next
  case (2 now fetched role roles granted c)
  have role: "dict_get_or [] fetched role = role_permissions (H now) role" using 2 by simp
  have c1: "fresh H (set_cached_permissions (Some ops) role (role_permissions (H now) role) now c) now"
    using fresh_set [OF 2(3)] by (simp add: set_cached_permissions_def)
  from 2(1) [OF refl _ c1 [folded role] recent_insert [OF 2(4) window_now, of role, folded role]] 2(2,5)
  show ?case by (simp add: Let_def)
qed

lemma load_recent:
  assumes "load_granted_permissions (Some ops) now (Some (H now)) roles c = (res, c')" "fresh H c now"
  shows "fresh H c' now \<and> (\<exists>granted. res = Some granted \<and> recent H now (set roles) granted)"
proof -
  obtain g m c1 where r: "read_cached_roles (Some ops) now roles {} [] c = (g, m, c1)" by (metis prod_cases3)
  from read_cached_roles_recent [OF r assms(2) recent_empty] obtain don where
    d: "fresh H c1 now" "recent H now don g" "don \<union> set m = set roles" by auto
  show ?thesis
  proof (cases "m = []")
    case True
    then show ?thesis using assms(1) r d by (auto simp: load_granted_permissions_def)
  next
    case False
    obtain g2 c2 where s: "store_fetched_roles (Some ops) now (fetch_permissions_by_role (H now) m) m g c1 = (g2, c2)"
      by fastforce
    have "fresh H c2 now \<and> recent H now (don \<union> set m) g2"
      by (rule store_fetched_recent [OF s d(1,2)]) (simp add: fetch_permissions_lookup)
    then show ?thesis using assms(1) r s d(3) False by (auto simp: load_granted_permissions_def)
  qed
qed

end

text \<open>The memory cache keeps the laws.\<close>

definition memory_view :: "memory_cache \<Rightarrow> string \<Rightarrow> instant \<Rightarrow> pyval option" where
  "memory_view c k t = fst (cache_get c k t)"

interpretation memory_timed: timed_cache memory_cache_ops memory_view
proof
  show "memory_view c k now = Some v"
    if "co_get memory_cache_ops c k now = (Inr (Some v), c')" for c k now v c'
    using that by (simp add: memory_cache_ops_def memory_view_def)
next
  show "memory_view c k' t = Some v" if "memory_view (snd (co_get memory_cache_ops c k now)) k' t = Some v"
    for c k now k' t v
    using that by (auto simp: memory_cache_ops_def memory_view_def cache_get_def dict_get_pop
        split: option.splits if_splits)
next
  show "(k' = k \<and> w = v \<and> t < now + d) \<or> memory_view c k' t = Some w"
    if "memory_view (co_set memory_cache_ops c k v (Some d) now) k' t = Some w" for c k v d now k' t w
    using that by (auto simp: memory_cache_ops_def memory_view_def cache_get_def cache_set_def dict_get_set
        split: option.splits if_splits)
qed


section \<open>Decisions\<close>

lemma is_allowed_simps [simp]: "is_allowed (allow code why)" "\<not> is_allowed (deny code why)"
  by (simp_all add: allow_def deny_def)

text \<open>What the attribute policy asks for.\<close>

definition attributes_allow :: "security_principal \<Rightarrow> permission_requirement \<Rightarrow> (string, pyval) dict option \<Rightarrow> bool" where
  "attributes_allow p r ctx \<longleftrightarrow>
     (\<exists>env. ctx = Some env \<and> dict_get env ''resource_tenant_id'' = Some (PStr (sp_tenant_id p))) \<and>
     classification_rank (pr_security_classification r) \<le>
       clearance_rank (dict_get (sp_attributes p) ''clearance_level'')"

lemma evaluate_abac_iff:
  "is_allowed (evaluate_abac p r (case ctx of None \<Rightarrow> [] | Some x \<Rightarrow> x)) \<longleftrightarrow> attributes_allow p r ctx"
  by (auto simp: evaluate_abac_def attributes_allow_def not_less split: option.split pyval.split)

lemma read_no_cache: "read_cached_roles None now roles granted missing c = (granted, missing @ roles, c)"
  by (induction roles arbitrary: missing) (simp_all add: get_cached_permissions_def)

lemma store_no_cache:
  "store_fetched_roles None now fetched roles granted c =
     (granted \<union> (\<Union>role \<in> set roles. set (dict_get_or [] fetched role)), c)"
  by (induction roles arbitrary: granted) (auto simp: Let_def set_cached_permissions_def)

lemma load_no_cache:
  "load_granted_permissions None now (Some rows) roles c =
     (Some (\<Union>role \<in> set roles. set (role_permissions rows role)), c)"
  by (auto simp: load_granted_permissions_def read_no_cache store_no_cache fetch_permissions_lookup)

lemma role_permissions_iff: "p \<in> set (role_permissions rows role) \<longleftrightarrow> (role, p) \<in> set rows"
  by (force simp: role_permissions_def)

lemma authorize_no_cache:
  "\<exists>d. authorize None now (Some rows) p r ctx c = (Some d, c) \<and>
     (is_allowed d \<longleftrightarrow>
        (\<forall>x \<in> set (pr_required_permissions r). \<exists>role \<in> set (sp_roles p). (role, x) \<in> set rows) \<and>
        attributes_allow p r ctx)"
proof -
  have abac: "is_allowed (evaluate_abac p r (case ctx of None \<Rightarrow> [] | Some x \<Rightarrow> x)) = attributes_allow p r ctx"
    by (rule evaluate_abac_iff)
  show ?thesis
  proof (cases "pr_required_permissions r = []")
    case True
    then show ?thesis using abac by (simp add: authorize_def evaluate_rbac_def Let_def)
  next
    case False
    then obtain x xs where req: "pr_required_permissions r = x # xs" by (cases "pr_required_permissions r") auto
    show ?thesis
    proof (cases "sp_roles p = []")
      case True
      then show ?thesis using req by (auto simp: authorize_def evaluate_rbac_def)
    next
      case False
      then show ?thesis using req abac
        by (auto simp: authorize_def evaluate_rbac_def load_no_cache Let_def filter_empty_conv role_permissions_iff)
    qed
  qed
qed

context timed_cache
begin

lemma evaluate_rbac_recent:
  assumes "evaluate_rbac (Some ops) now (Some (H now)) p r c = (res, c')" "fresh H c now"
  shows "fresh H c' now \<and> (\<exists>d. res = Some d \<and> (is_allowed d \<longrightarrow>
     (\<forall>x \<in> set (pr_required_permissions r). \<exists>role \<in> set (sp_roles p). \<exists>u. window now u \<and> (role, x) \<in> set (H u))))"
proof (cases "pr_required_permissions r = [] \<or> sp_roles p = []")
  case True
  then show ?thesis using assms by (cases "pr_required_permissions r = []") (auto simp: evaluate_rbac_def)
next
  case False
  obtain l c1 where l: "load_granted_permissions (Some ops) now (Some (H now)) (sp_roles p) c = (l, c1)" by fastforce
  from load_recent [OF l assms(2)] obtain granted where
    g: "fresh H c1 now" "l = Some granted" "recent H now (set (sp_roles p)) granted" by blast
  have "\<exists>role \<in> set (sp_roles p). \<exists>u. window now u \<and> (role, x) \<in> set (H u)" if "x \<in> granted" for x
    using g(3) that by (auto simp: recent_def)
  then show ?thesis using assms(1) l g(1,2) False
    by (auto simp: evaluate_rbac_def Let_def filter_empty_conv split: if_splits)
qed

lemma authorize_recent:
  assumes "authorize (Some ops) now (Some (H now)) p r ctx c = (res, c')" "fresh H c now"
  shows "fresh H c' now \<and> (\<exists>d. res = Some d \<and> (is_allowed d \<longrightarrow> attributes_allow p r ctx \<and>
     (\<forall>x \<in> set (pr_required_permissions r). \<exists>role \<in> set (sp_roles p). \<exists>u. window now u \<and> (role, x) \<in> set (H u))))"
proof -
  obtain e c1 where e: "evaluate_rbac (Some ops) now (Some (H now)) p r c = (e, c1)" by fastforce
  from evaluate_rbac_recent [OF e assms(2)] obtain d where d: "fresh H c1 now" "e = Some d"
    "is_allowed d \<longrightarrow> (\<forall>x \<in> set (pr_required_permissions r). \<exists>role \<in> set (sp_roles p).
       \<exists>u. window now u \<and> (role, x) \<in> set (H u))" by blast
  show ?thesis
    using assms(1) e d evaluate_abac_iff [of p r ctx]
    by (auto simp: authorize_def Let_def split: if_splits)
qed

end

text \<open>A run of authorizations over one cache, the table changing between them in any way.\<close>

fun authorize_run ::
  "'c cache_ops \<Rightarrow> (instant \<Rightarrow> grants) \<Rightarrow>
   (instant \<times> security_principal \<times> permission_requirement \<times> (string, pyval) dict option) list \<Rightarrow> 'c \<Rightarrow>
   access_decision option list" where
  "authorize_run ops H [] c = []"
| "authorize_run ops H ((now, p, r, ctx) # calls) c =
     (case authorize (Some ops) now (Some (H now)) p r ctx c of
        (d, c') \<Rightarrow> d # authorize_run ops H calls c')"

definition justified ::
  "(instant \<Rightarrow> grants) \<Rightarrow> instant \<times> security_principal \<times> permission_requirement \<times> (string, pyval) dict option \<Rightarrow> bool" where
  "justified H call = (case call of (now, p, r, ctx) \<Rightarrow> attributes_allow p r ctx \<and>
     (\<forall>x \<in> set (pr_required_permissions r). \<exists>role \<in> set (sp_roles p).
        \<exists>u. now - 300 < u \<and> u \<le> now \<and> (role, x) \<in> set (H u)))"

context timed_cache
begin

lemma authorize_run_justified:
  assumes "sorted (start # map fst calls)" "fresh H c start"
  shows "list_all2 (\<lambda>call d. \<exists>a. d = Some a \<and> (is_allowed a \<longrightarrow> justified H call)) calls (authorize_run ops H calls c)"
  using assms
proof (induction calls arbitrary: start c)
  case Nil
  then show ?case by simp
next
  case (Cons call calls)
  obtain now p r ctx where call: "call = (now, p, r, ctx)" by (cases call) auto
  obtain d c' where a: "authorize (Some ops) now (Some (H now)) p r ctx c = (d, c')" by fastforce
  have le: "start \<le> now" using Cons.prems(1) by (simp add: call)
  have "fresh H c now" by (rule fresh_later [OF Cons.prems(2) le])
  from authorize_recent [OF a this] have f: "fresh H c' now" and
    d: "\<exists>x. d = Some x \<and> (is_allowed x \<longrightarrow> justified H call)"
    unfolding justified_def call window_def CACHE_TTL_SECONDS_def prod.case by blast+
  have "list_all2 (\<lambda>call d. \<exists>a. d = Some a \<and> (is_allowed a \<longrightarrow> justified H call)) calls (authorize_run ops H calls c')"
    by (rule Cons.IH [OF _ f]) (use Cons.prems(1) in \<open>simp add: call\<close>)
  with d a show ?case by (simp add: call)
qed

end

lemma memory_fresh_empty: "memory_timed.fresh H [] now"
  by (simp add: memory_timed.fresh_def memory_view_def cache_get_def)

end
