(* ===== verification/Definition_Store.thy ===== *)
theory Definition_Store
  imports Graph_Compat Py_Text
begin

text \<open>
  The relational store of workflow definitions (\<open>WorkflowStore\<close> in \<open>engines/workflow/persistence.py\<close>):
  the versions table, with at most one control row per definition, and the projection the executor
  reads.  A row holds its content as a record; the JSON columns are held as the values they encode.
  A result is paired with the database, because some operations raise after they have committed.
\<close>

section \<open>Rows\<close>

datatype definition_status = DS_DRAFT | DS_PUBLISHED | DS_ARCHIVED

record definition_content =
  dc_name :: string
  dc_description :: string
  dc_trigger :: workflow_trigger
  dc_priority :: workflow_priority
  dc_timeout_seconds :: int
  dc_steps :: "workflow_step list"
  dc_graph :: "step_metadata workflow_graph option"

record definition_version =
  dv_id :: string
  dv_definition_id :: string
  dv_tenant_id :: string
  dv_version :: string
  dv_status :: definition_status
  dv_content :: definition_content
  dv_created_by :: string
  dv_lock_version :: int
  dv_created_at :: "instant option"
  dv_updated_at :: "instant option"
  dv_published_at :: "instant option"

record workflow_definition =
  wd_id :: string
  wd_tenant_id :: string
  wd_version :: string
  wd_content :: definition_content

record definition_db =
  d_versions :: "definition_version list"
  d_definitions :: "workflow_definition list"

datatype definition_error =
    DefinitionNotFound string
  | VersionNotFound string string
  | DefinitionConflict string
  | DefinitionState string
  | DefinitionAuthorization string
  | TenantDenied string string
  | RowInvalid string            \<comment> \<open>the model refuses a stored row (Pydantic's \<open>ValidationError\<close>)\<close>
  | PersistenceFailed string
  | InputInvalid                 \<comment> \<open>the models refuse a caller's step or graph\<close>
  | CompatFailure compat_error
  | SecurityFailure

type_synonym 'a outcome = "(definition_error + 'a) \<times> definition_db"

definition DRAFT_VERSION :: string where "DRAFT_VERSION = ''0.0.0-draft''"

definition control_row :: "string \<Rightarrow> string \<Rightarrow> definition_version \<Rightarrow> bool" where
  "control_row did tid r \<longleftrightarrow>
     dv_definition_id r = did \<and> dv_tenant_id r = tid \<and> dv_version r = DRAFT_VERSION"

text \<open>\<open>timeout_seconds\<close> and \<open>lock_version\<close> are declared \<open>ge=1\<close> on the model, not on the table.\<close>

definition model_accepts :: "definition_version \<Rightarrow> bool" where
  "model_accepts r \<longleftrightarrow> 1 \<le> dc_timeout_seconds (dv_content r) \<and> 1 \<le> dv_lock_version r"

definition model_to_definition_version :: "definition_version \<Rightarrow> definition_error + definition_version" where
  "model_to_definition_version r = (if model_accepts r then Inr r else Inl (RowInvalid (dv_id r)))"

text \<open>The unique keys of the versions table.\<close>

definition version_key :: "definition_version \<Rightarrow> string \<times> string \<times> string" where
  "version_key r = (dv_tenant_id r, dv_definition_id r, dv_version r)"

definition insert_version ::
  "definition_version \<Rightarrow> definition_version list \<Rightarrow> definition_version list option" where
  "insert_version r rows =
     (if \<exists>q \<in> set rows. dv_id q = dv_id r \<or> version_key q = version_key r then None else Some (rows @ [r]))"

section \<open>Reads\<close>

definition get_control_row :: "string \<Rightarrow> string \<Rightarrow> definition_db \<Rightarrow> definition_error + definition_version option" where
  "get_control_row did tid db =
     (case find (control_row did tid) (d_versions db) of
        None \<Rightarrow> Inr None
      | Some r \<Rightarrow> bind_res (model_to_definition_version r) (\<lambda>v. Inr (Some v)))"

definition get_published_version ::
  "string \<Rightarrow> string \<Rightarrow> string \<Rightarrow> definition_db \<Rightarrow> definition_error + definition_version option" where
  "get_published_version did tid version db =
     (case find (\<lambda>r. dv_definition_id r = did \<and> dv_tenant_id r = tid \<and> dv_version r = version \<and>
                     dv_status r = DS_PUBLISHED) (d_versions db) of
        None \<Rightarrow> Inr None
      | Some r \<Rightarrow> bind_res (model_to_definition_version r) (\<lambda>v. Inr (Some v)))"

fun traverse :: "('a \<Rightarrow> 'e + 'b) \<Rightarrow> 'a list \<Rightarrow> 'e + 'b list" where
  "traverse f [] = Inr []"
| "traverse f (x # xs) = bind_res (f x) (\<lambda>y. bind_res (traverse f xs) (\<lambda>ys. Inr (y # ys)))"

definition list_definition_versions ::
  "string \<Rightarrow> string \<Rightarrow> definition_db \<Rightarrow> definition_error + definition_version list" where
  "list_definition_versions did tid db =
     traverse model_to_definition_version
       (sort_key (\<lambda>r. case dv_created_at r of None \<Rightarrow> 0 | Some t \<Rightarrow> t)
         (filter (\<lambda>r. dv_definition_id r = did \<and> dv_tenant_id r = tid) (d_versions db)))"

text \<open>An empty tenant is no filter here.\<close>

definition tenant_matches :: "string \<Rightarrow> string \<Rightarrow> bool" where
  "tenant_matches tid tenant \<longleftrightarrow> tid = [] \<or> tenant = tid"

definition legacy_content :: "definition_content \<Rightarrow> definition_content" where
  "legacy_content c = c\<lparr>dc_graph := None\<rparr>"

definition model_to_definition :: "workflow_definition \<Rightarrow> workflow_definition option" where
  "model_to_definition r =
     (if 1 \<le> dc_timeout_seconds (wd_content r) then Some (r\<lparr>wd_content := legacy_content (wd_content r)\<rparr>)
      else None)"

definition get_definition_at_version ::
  "string \<Rightarrow> string \<Rightarrow> string \<Rightarrow> definition_db \<Rightarrow> definition_error + workflow_definition option" where
  "get_definition_at_version did version tid db =
     (case find (\<lambda>r. dv_definition_id r = did \<and> dv_version r = version \<and> dv_status r = DS_PUBLISHED \<and>
                     tenant_matches tid (dv_tenant_id r)) (d_versions db) of
        Some r \<Rightarrow>
          bind_res (model_to_definition_version r) (\<lambda>v.
            Inr (Some \<lparr>wd_id = dv_definition_id v, wd_tenant_id = dv_tenant_id v,
                       wd_version = dv_version v, wd_content = dv_content v\<rparr>))
      | None \<Rightarrow>
          (case find (\<lambda>r. wd_id r = did \<and> wd_version r = version \<and> tenant_matches tid (wd_tenant_id r))
                  (d_definitions db) of
             None \<Rightarrow> Inr None
           | Some r \<Rightarrow> (case model_to_definition r of None \<Rightarrow> Inl (RowInvalid did) | Some d \<Rightarrow> Inr (Some d))))"

definition get_definition ::
  "string \<Rightarrow> string \<Rightarrow> string option \<Rightarrow> definition_db \<Rightarrow> definition_error + workflow_definition option" where
  "get_definition did tid version db =
     (case version of
        Some v \<Rightarrow> get_definition_at_version did v tid db
      | None \<Rightarrow>
          (case find (\<lambda>r. wd_id r = did \<and> tenant_matches tid (wd_tenant_id r)) (d_definitions db) of
             None \<Rightarrow> Inr None
           | Some r \<Rightarrow>
               (case model_to_definition r of None \<Rightarrow> Inl (PersistenceFailed did) | Some d \<Rightarrow> Inr (Some d))))"

section \<open>Writes\<close>

definition create_draft ::
  "instant \<Rightarrow> string \<Rightarrow> string \<Rightarrow> string \<Rightarrow> string \<Rightarrow> definition_content \<Rightarrow> definition_db \<Rightarrow> definition_version outcome" where
  "create_draft now new_id did tid created_by content db =
     (let dv = \<lparr>dv_id = new_id, dv_definition_id = did, dv_tenant_id = tid, dv_version = DRAFT_VERSION,
                dv_status = DS_DRAFT, dv_content = content, dv_created_by = created_by,
                dv_lock_version = 1, dv_created_at = None, dv_updated_at = None, dv_published_at = None\<rparr>
      in if \<not> model_accepts dv then (Inl (RowInvalid new_id), db)
         else case insert_version (dv\<lparr>dv_created_at := Some now, dv_updated_at := Some now\<rparr>) (d_versions db) of
                None \<Rightarrow> (Inl (DefinitionConflict did), db)
              | Some rows \<Rightarrow> (Inr dv, db\<lparr>d_versions := rows\<rparr>))"

text \<open>The keyword arguments of an update that are present.\<close>

record update_content =
  uc_name :: "string option"
  uc_description :: "string option"
  uc_trigger :: "workflow_trigger option"
  uc_priority :: "workflow_priority option"
  uc_timeout_seconds :: "int option"
  uc_steps :: "workflow_step list option"
  uc_graph :: "step_metadata workflow_graph option option"

definition no_update :: update_content where
  "no_update = \<lparr>uc_name = None, uc_description = None, uc_trigger = None, uc_priority = None,
     uc_timeout_seconds = None, uc_steps = None, uc_graph = None\<rparr>"

definition apply_update :: "update_content \<Rightarrow> definition_content \<Rightarrow> definition_content" where
  "apply_update u c =
     \<lparr>dc_name = or_else (uc_name u) (dc_name c), dc_description = or_else (uc_description u) (dc_description c),
      dc_trigger = or_else (uc_trigger u) (dc_trigger c), dc_priority = or_else (uc_priority u) (dc_priority c),
      dc_timeout_seconds = or_else (uc_timeout_seconds u) (dc_timeout_seconds c),
      dc_steps = or_else (uc_steps u) (dc_steps c), dc_graph = or_else (uc_graph u) (dc_graph c)\<rparr>"

definition lockable :: "string \<Rightarrow> string \<Rightarrow> int \<Rightarrow> definition_version \<Rightarrow> bool" where
  "lockable did tid expected r \<longleftrightarrow>
     control_row did tid r \<and> dv_lock_version r = expected \<and> dv_status r = DS_DRAFT"

text \<open>Why a guarded \<open>UPDATE\<close> of the control row changed nothing.\<close>

definition lock_failure :: "string \<Rightarrow> string \<Rightarrow> definition_db \<Rightarrow> definition_error" where
  "lock_failure did tid db =
     (case find (control_row did tid) (d_versions db) of
        None \<Rightarrow> DefinitionNotFound did
      | Some r \<Rightarrow> if dv_status r \<noteq> DS_DRAFT then DefinitionState did else DefinitionConflict did)"

definition guarded_update ::
  "string \<Rightarrow> string \<Rightarrow> int \<Rightarrow> (definition_version \<Rightarrow> definition_version) \<Rightarrow> definition_db \<Rightarrow> definition_version outcome" where
  "guarded_update did tid expected change db =
     (if \<not> (\<exists>r \<in> set (d_versions db). lockable did tid expected r) then (Inl (lock_failure did tid db), db)
      else
        (let db1 = db\<lparr>d_versions := map (\<lambda>r. if lockable did tid expected r then change r else r) (d_versions db)\<rparr>
         in case find (control_row did tid) (d_versions db1) of
              None \<Rightarrow> (Inl (PersistenceFailed did), db)
            | Some r \<Rightarrow> (model_to_definition_version r, db1)))"

definition update_draft ::
  "instant \<Rightarrow> string \<Rightarrow> string \<Rightarrow> int \<Rightarrow> update_content \<Rightarrow> definition_db \<Rightarrow> definition_version outcome" where
  "update_draft now did tid expected u db =
     guarded_update did tid expected
       (\<lambda>r. r\<lparr>dv_content := apply_update u (dv_content r), dv_lock_version := expected + 1,
              dv_updated_at := Some now\<rparr>) db"

definition archive_control_row ::
  "instant \<Rightarrow> string \<Rightarrow> string \<Rightarrow> int \<Rightarrow> definition_db \<Rightarrow> definition_version outcome" where
  "archive_control_row now did tid expected db =
     guarded_update did tid expected
       (\<lambda>r. r\<lparr>dv_status := DS_ARCHIVED, dv_lock_version := expected + 1, dv_updated_at := Some now\<rparr>) db"

text \<open>
  \<open>publish_draft\<close> reads the control row, checks it, and later flushes its writes; the flush
  addresses the control row by its primary key.  The halves are definitions of their own.
\<close>

definition publish_read :: "string \<Rightarrow> string \<Rightarrow> int \<Rightarrow> definition_db \<Rightarrow> definition_error + definition_version" where
  "publish_read did tid expected db =
     (case find (control_row did tid) (d_versions db) of
        None \<Rightarrow> Inl (DefinitionNotFound did)
      | Some r \<Rightarrow>
          if dv_status r \<noteq> DS_DRAFT then Inl (DefinitionState did)
          else if dv_lock_version r \<noteq> expected then Inl (DefinitionConflict did)
          else Inr r)"

definition project ::
  "string \<Rightarrow> string \<Rightarrow> string \<Rightarrow> definition_content \<Rightarrow> workflow_definition list \<Rightarrow> workflow_definition list option" where
  "project did tid version c rows =
     (case find (\<lambda>r. wd_id r = did \<and> wd_tenant_id r = tid) rows of
        None \<Rightarrow>
          if \<exists>r \<in> set rows. wd_id r = did then None
          else Some (rows @ [\<lparr>wd_id = did, wd_tenant_id = tid, wd_version = version, wd_content = legacy_content c\<rparr>])
      | Some p \<Rightarrow>
          Some (map (\<lambda>r. if wd_id r = did \<and> wd_tenant_id r = tid
                         then r\<lparr>wd_version := version, wd_content := legacy_content c\<rparr> else r) rows))"

definition publish_write ::
  "instant \<Rightarrow> string \<Rightarrow> string \<Rightarrow> string \<Rightarrow> int \<Rightarrow> string \<Rightarrow> definition_version \<Rightarrow> definition_db \<Rightarrow> definition_version outcome" where
  "publish_write now new_id did tid expected version draft db =
     (let published =
            \<lparr>dv_id = new_id, dv_definition_id = did, dv_tenant_id = tid, dv_version = version,
             dv_status = DS_PUBLISHED, dv_content = dv_content draft, dv_created_by = dv_created_by draft,
             dv_lock_version = 1, dv_created_at = Some now, dv_updated_at = Some now,
             dv_published_at = Some now\<rparr>
      in case insert_version published (d_versions db) of
           None \<Rightarrow> (Inl (DefinitionConflict did), db)
         | Some rows \<Rightarrow>
             (case project did tid version (dv_content draft) (d_definitions db) of
                None \<Rightarrow> (Inl (DefinitionConflict did), db)
              | Some defs \<Rightarrow>
                  (model_to_definition_version published,
                   \<lparr>d_versions = map (\<lambda>r. if dv_id r = dv_id draft
                      then r\<lparr>dv_lock_version := expected + 1, dv_updated_at := Some now\<rparr> else r) rows,
                    d_definitions = defs\<rparr>)))"

definition publish_draft ::
  "instant \<Rightarrow> string \<Rightarrow> string \<Rightarrow> string \<Rightarrow> int \<Rightarrow> string \<Rightarrow> definition_db \<Rightarrow> definition_version outcome" where
  "publish_draft now new_id did tid expected version db =
     (case publish_read did tid expected db of
        Inl e \<Rightarrow> (Inl e, db)
      | Inr draft \<Rightarrow> publish_write now new_id did tid expected version draft db)"

end
