(* ===== verification/Registry.thy ===== *)
theory Registry
  imports Access_Control Py_Text
begin

text \<open>
  The registry engine (\<open>engines/registry/engine.py\<close>): resources by category, capability descriptors
  and, apart from them, their handlers.  A handler is an object of any type; what
  \<open>inspect.signature\<close> says of it is an argument.  A descriptor is kept without its parameter schemas,
  which nothing reads.
\<close>

section \<open>Tables\<close>

definition BOOTSTRAP_EXEMPT_CAPABILITIES :: "string list" where
  "BOOTSTRAP_EXEMPT_CAPABILITIES =
     [''kortex.security.auth.authenticate'',
      ''kortex.security.bootstrap.create_admin'',
      ''kortex.security.auth.request_password_reset'',
      ''kortex.security.auth.reset_password'',
      ''kortex.security.oauth.get_config'',
      ''kortex.security.oauth.login_begin'',
      ''kortex.security.oauth.login_complete'',
      ''kortex.security.auth.refresh'']"

text \<open>Whether a capability only reads, and whether it is idempotent.\<close>

definition CAPABILITY_RISK_CLASSIFICATION_A :: "(string, bool \<times> bool) dict" where
  "CAPABILITY_RISK_CLASSIFICATION_A = [
     (''kortex.ai.agent.cancel'', (False, True)), (''kortex.ai.agent.list'', (True, True)),
     (''kortex.ai.agent.orchestrate'', (False, False)), (''kortex.ai.agent.resume'', (False, False)),
     (''kortex.ai.agent.status'', (True, True)), (''kortex.ai.conversation.history.get'', (True, True)),
     (''kortex.ai.governance.approval.create'', (False, False)),
     (''kortex.ai.governance.audit.query'', (True, True)), (''kortex.ai.governance.guardrail.check'', (True, True)),
     (''kortex.ai.governance.policy.evaluate'', (True, True)), (''kortex.ai.governance.policy.get'', (True, True)),
     (''kortex.ai.governance.policy.upsert'', (False, True)), (''kortex.ai.governance.quota.get'', (True, True)),
     (''kortex.ai.governance.quota.update'', (False, True)), (''kortex.ai.model.list'', (True, True)),
     (''kortex.ai.provider.config.list'', (True, True)), (''kortex.ai.provider.config.remove'', (False, True)),
     (''kortex.ai.provider.configure'', (False, True)), (''kortex.ai.provider.list'', (True, True)),
     (''kortex.ai.provider.register'', (False, False)), (''kortex.ai.provider.test'', (True, True)),
     (''kortex.ai.response.generate'', (False, False)), (''kortex.ai.tool.invoke'', (False, False)),
     (''kortex.backup.create'', (False, False)), (''kortex.backup.delete'', (False, False)),
     (''kortex.backup.diagnostics.get'', (True, True)), (''kortex.backup.get'', (True, True)),
     (''kortex.backup.list'', (True, True)), (''kortex.backup.verify'', (True, True)),
     (''kortex.connector.action.execute'', (False, False)), (''kortex.connector.driver.list'', (True, True)),
     (''kortex.connector.driver.register'', (False, False)),
     (''kortex.connector.integration.disconnect'', (False, True)),
     (''kortex.connector.profile.delete'', (False, False)), (''kortex.connector.profile.get'', (True, True)),
     (''kortex.connector.profile.list'', (True, True)), (''kortex.connector.profile.register'', (False, True)),
     (''kortex.document.adapter.list'', (True, True)), (''kortex.document.adapter.register'', (False, False)),
     (''kortex.document.intelligence.analyze'', (True, True)),
     (''kortex.document.lifecycle.transition'', (False, False)),
     (''kortex.document.operation.execute'', (False, False)), (''kortex.document.preview.generate'', (True, True)),
     (''kortex.document.profile.list'', (True, True)), (''kortex.document.recommendation.get'', (True, True)),
     (''kortex.document.template.bind'', (True, True)), (''kortex.document.template.list'', (True, True)),
     (''kortex.document_intelligence.ocr.extract'', (True, True)),
     (''kortex.document_intelligence.pdf.parse'', (True, True)),
     (''kortex.document_intelligence.structure.analyze'', (True, True)),
     (''kortex.finance.invoice.create'', (False, False)), (''kortex.finance.invoice.get'', (True, True)),
     (''kortex.hr_payroll.attendance.check_in'', (False, False)),
     (''kortex.hr_payroll.attendance.check_out'', (False, False)),
     (''kortex.hr_payroll.attendance.list'', (True, True)), (''kortex.hr_payroll.employee.create'', (False, False)),
     (''kortex.hr_payroll.employee.get'', (True, True)), (''kortex.hr_payroll.employee.list'', (True, True)),
     (''kortex.hr_payroll.leave.balance_get'', (True, True)), (''kortex.hr_payroll.leave.decide'', (False, False)),
     (''kortex.hr_payroll.leave.request'', (False, False)),
     (''kortex.hr_payroll.payroll.calculate'', (False, False)),
     (''kortex.hr_payroll.payroll.run_get'', (True, True)), (''kortex.hr_payroll.payslip.get'', (True, True)),
     (''kortex.knowledge.graph.list'', (True, True)), (''kortex.knowledge.graph.traverse'', (True, True)),
     (''kortex.knowledge.pack.load'', (False, False)), (''kortex.knowledge.query.search'', (True, True)),
     (''kortex.knowledge.source.index'', (False, False)), (''kortex.license.activation.apply'', (False, True)),
     (''kortex.license.activation.revoke'', (False, True)), (''kortex.license.status.get'', (True, True)),
     (''kortex.license.token.verify'', (True, True)), (''kortex.marketplace.listing.list'', (True, True)),
     (''kortex.monitoring.dashboard.get'', (True, True)), (''kortex.monitoring.diagnostics.get'', (True, True)),
     (''kortex.monitoring.metrics.get'', (True, True)), (''kortex.monitoring.timeseries.get'', (True, True)),
     (''kortex.operations.incident.close'', (False, False)), (''kortex.operations.incident.get'', (True, True)),
     (''kortex.operations.incident.list'', (True, True)), (''kortex.operations.incident.report'', (False, False)),
     (''kortex.operations.incident.resolve'', (False, False)),
     (''kortex.operations.incident.status_update'', (False, False)),
     (''kortex.operations.vehicle.assign'', (False, False)), (''kortex.operations.vehicle.create'', (False, False)),
     (''kortex.operations.vehicle.get'', (True, True)), (''kortex.operations.vehicle.list'', (True, True)),
     (''kortex.operations.vehicle.status_update'', (False, False)),
     (''kortex.operations.vehicle.tracking_history'', (True, True)),
     (''kortex.operations.vehicle.tracking_record'', (False, False)),
     (''kortex.operations.vehicle.unassign'', (False, False))]"

definition CAPABILITY_RISK_CLASSIFICATION_B :: "(string, bool \<times> bool) dict" where
  "CAPABILITY_RISK_CLASSIFICATION_B = [
     (''kortex.security.access.authorize'', (True, True)), (''kortex.security.auth.authenticate'', (False, False)),
     (''kortex.security.auth.change_password'', (False, True)),
     (''kortex.security.auth.request_password_reset'', (False, False)),
     (''kortex.security.auth.reset_password'', (False, False)),
     (''kortex.security.bootstrap.create_admin'', (False, False)),
     (''kortex.security.integration_oauth.begin'', (False, False)),
     (''kortex.security.integration_oauth.complete'', (False, False)),
     (''kortex.security.integration_oauth.status'', (True, True)),
     (''kortex.security.oauth.get_config'', (True, True)), (''kortex.security.oauth.link_begin'', (False, False)),
     (''kortex.security.oauth.link_complete'', (False, False)), (''kortex.security.oauth.list_links'', (True, True)),
     (''kortex.security.oauth.login_begin'', (False, False)),
     (''kortex.security.oauth.login_complete'', (False, False)), (''kortex.security.oauth.unlink'', (False, True)),
     (''kortex.security.principal.register'', (False, False)),
     (''kortex.security.principal.set_email'', (False, True)), (''kortex.security.secret.get'', (True, True)),
     (''kortex.security.secret.put'', (False, True)), (''kortex.security.signature.verify'', (True, True)),
     (''kortex.sentinel.diagnostics.get'', (True, True)), (''kortex.sentinel.health.get'', (True, True)),
     (''kortex.sentinel.status.get'', (True, True)), (''kortex.storage.cache.set'', (False, True)),
     (''kortex.storage.data.session'', (True, True)), (''kortex.storage.file.store'', (False, True)),
     (''kortex.storage.object.put'', (False, True)), (''kortex.workflow.approval.create'', (False, False)),
     (''kortex.workflow.approval.decide'', (False, False)), (''kortex.workflow.approval.delegate'', (False, False)),
     (''kortex.workflow.approval.get'', (True, True)), (''kortex.workflow.approval.list'', (True, True)),
     (''kortex.workflow.definition.archive'', (False, True)), (''kortex.workflow.definition.clone'', (False, False)),
     (''kortex.workflow.definition.create'', (False, False)), (''kortex.workflow.definition.get'', (True, True)),
     (''kortex.workflow.definition.list'', (True, True)), (''kortex.workflow.definition.publish'', (False, False)),
     (''kortex.workflow.definition.update'', (False, True)), (''kortex.workflow.definition.validate'', (True, True)),
     (''kortex.workflow.external.cancel'', (False, False)), (''kortex.workflow.external.execute'', (False, False)),
     (''kortex.workflow.external.get'', (True, True)), (''kortex.workflow.external.list'', (True, True)),
     (''kortex.workflow.instance.approve'', (False, False)), (''kortex.workflow.instance.cancel'', (False, False)),
     (''kortex.workflow.instance.get'', (True, True)), (''kortex.workflow.instance.list'', (True, True)),
     (''kortex.workflow.instance.resume'', (False, False)), (''kortex.workflow.instance.start'', (False, False)),
     (''kortex.workflow.schedule.cancel'', (False, True)), (''kortex.workflow.schedule.create'', (False, False)),
     (''kortex.workflow.schedule.get'', (True, True)), (''kortex.workflow.schedule.list'', (True, True)),
     (''kortex.workflow.schedule.pause'', (False, True)), (''kortex.workflow.schedule.resume'', (False, True)),
     (''kortex.workflow.schedule.trigger'', (False, False)), (''kortex.workflow.state.get'', (True, True)),
     (''kortex.recipe.compile'', (True, True)), (''kortex.recipe.info'', (True, True)),
     (''kortex.recipe.install'', (False, False)), (''kortex.recipe.list'', (True, True)),
     (''kortex.recipe.load'', (True, True)), (''kortex.recipe.package'', (True, True)),
     (''kortex.recipe.remove'', (False, False)), (''kortex.recipe.search'', (True, True)),
     (''kortex.recipe.upgrade'', (False, False)), (''kortex.recipe.validate'', (True, True))]"

definition CAPABILITY_RISK_CLASSIFICATION :: "(string, bool \<times> bool) dict" where
  "CAPABILITY_RISK_CLASSIFICATION = CAPABILITY_RISK_CLASSIFICATION_A @ CAPABILITY_RISK_CLASSIFICATION_B"

section \<open>Resources\<close>

datatype registry_category =
  RC_ENGINE | RC_MODULE | RC_RECIPE | RC_TEMPLATE | RC_CONNECTOR | RC_CAPABILITY | RC_SERVICE

fun registry_category_value :: "registry_category \<Rightarrow> string" where
  "registry_category_value RC_ENGINE = ''ENGINE''"
| "registry_category_value RC_MODULE = ''MODULE''"
| "registry_category_value RC_RECIPE = ''RECIPE''"
| "registry_category_value RC_TEMPLATE = ''TEMPLATE''"
| "registry_category_value RC_CONNECTOR = ''CONNECTOR''"
| "registry_category_value RC_CAPABILITY = ''CAPABILITY''"
| "registry_category_value RC_SERVICE = ''SERVICE''"

record resource_metadata =
  rm_name :: string
  rm_category :: registry_category
  rm_version :: string
  rm_description :: string
  rm_provider :: string
  rm_attributes :: "(string, pyval) dict"
  rm_registered_at :: instant

record capability_descriptor =
  cd_name :: string
  cd_description :: string
  cd_provider :: string
  cd_required_permissions :: "string list option"
  cd_requires_authentication :: bool
  cd_security_classification :: string
  cd_requires_execution_context :: bool
  cd_legacy_principal_bridge :: bool
  cd_is_read_only :: bool
  cd_is_idempotent :: bool
  cd_owner_id :: "string option"

datatype registry_error =
    ResourceAlreadyExists string
  | ResourceNotFound string
  | CapabilityNotFound string
  | AuthenticationBypass string
  | SignatureUninspectable string
  | ContextNotAccepted string
  | PrincipalNotAccepted string
  | NotCapabilityOwner string

record 'o registry =
  rg_stores :: "registry_category \<Rightarrow> (string, resource_metadata) dict"
  rg_objects :: "(string, 'o) dict"
  rg_capabilities :: "(string, capability_descriptor) dict"
  rg_handlers :: "(string, 'o option) dict"

definition object_key :: "registry_category \<Rightarrow> string \<Rightarrow> string" where
  "object_key cat name = registry_category_value cat @ '':'' @ name"

definition register_resource ::
  "instant \<Rightarrow> string \<Rightarrow> registry_category \<Rightarrow> 'o option \<Rightarrow> string \<Rightarrow> string \<Rightarrow> string \<Rightarrow> (string, pyval) dict \<Rightarrow> bool \<Rightarrow>
   'o registry \<Rightarrow> (registry_error + resource_metadata) \<times> 'o registry" where
  "register_resource now name cat target description version provider attributes allow_overwrite rg =
     (if dict_has (rg_stores rg cat) name \<and> \<not> allow_overwrite then (Inl (ResourceAlreadyExists name), rg)
      else (let meta = \<lparr>rm_name = name, rm_category = cat, rm_version = version, rm_description = description,
                        rm_provider = provider, rm_attributes = attributes, rm_registered_at = now\<rparr>
            in (Inr meta,
                rg\<lparr>rg_stores := (rg_stores rg)(cat := dict_set name meta (rg_stores rg cat)),
                   rg_objects := (case target of None \<Rightarrow> rg_objects rg
                                  | Some x \<Rightarrow> dict_set (object_key cat name) x (rg_objects rg))\<rparr>)))"

definition get_resource :: "string \<Rightarrow> registry_category \<Rightarrow> 'o registry \<Rightarrow> registry_error + resource_metadata" where
  "get_resource name cat rg =
     (case dict_get (rg_stores rg cat) name of None \<Rightarrow> Inl (ResourceNotFound name) | Some meta \<Rightarrow> Inr meta)"

definition get_target_object :: "string \<Rightarrow> registry_category \<Rightarrow> 'o registry \<Rightarrow> registry_error + 'o" where
  "get_target_object name cat rg =
     (case dict_get (rg_objects rg) (object_key cat name) of None \<Rightarrow> Inl (ResourceNotFound name) | Some x \<Rightarrow> Inr x)"

definition list_resources :: "registry_category \<Rightarrow> 'o registry \<Rightarrow> resource_metadata list" where
  "list_resources cat rg = map snd (rg_stores rg cat)"

text \<open>The helpers of one category each: engines, modules, recipes, templates, connectors, services.\<close>

definition register_in ::
  "registry_category \<Rightarrow> instant \<Rightarrow> string \<Rightarrow> 'o option \<Rightarrow> string \<Rightarrow> 'o registry \<Rightarrow> (registry_error + resource_metadata) \<times> 'o registry" where
  "register_in cat now name target description rg =
     register_resource now name cat target description ''0.1.0'' ''system'' [] False rg"

section \<open>Capability names\<close>

definition join_dots :: "string list \<Rightarrow> string" where
  "join_dots parts = join ''.'' parts"

definition capability_name_segments :: "string \<Rightarrow> string \<times> string \<times> string" where
  "capability_name_segments name =
     (let split = split_on CHR ''.'' name;
          segments = (if 1 < length split \<and> hd split = ''kortex'' then tl split else split)
      in (case segments of
            [] \<Rightarrow> ([], [], [])
          | [s] \<Rightarrow> (s, s, s)
          | [domain, act] \<Rightarrow> (domain, domain, act)
          | domain # rest \<Rightarrow> (domain, join_dots (butlast rest), last rest)))"

definition owner_domain :: "capability_descriptor \<Rightarrow> string" where
  "owner_domain d = fst (capability_name_segments (cd_name d))"

definition resource_type :: "capability_descriptor \<Rightarrow> string" where
  "resource_type d = fst (snd (capability_name_segments (cd_name d)))"

definition capability_action :: "capability_descriptor \<Rightarrow> string" where
  "capability_action d = snd (snd (capability_name_segments (cd_name d)))"

section \<open>Registration\<close>

text \<open>The name of a parameter and whether it collects keyword arguments.\<close>

type_synonym parameters = "(string \<times> bool) list"

record 'o capability_spec =
  cp_name :: string
  cp_description :: string
  cp_provider :: string
  cp_handler :: "'o option"
  cp_required_permissions :: "string list option"
  cp_requires_authentication :: bool
  cp_security_classification :: string
  cp_requires_execution_context :: bool
  cp_legacy_principal_bridge :: bool
  cp_is_read_only :: "bool option"
  cp_is_idempotent :: "bool option"
  cp_owner_id :: "string option"

definition validate_execution_context_binding :: "string \<Rightarrow> parameters option \<Rightarrow> bool \<Rightarrow> bool \<Rightarrow> registry_error + unit" where
  "validate_execution_context_binding name signature needs_context needs_principal =
     (case signature of
        None \<Rightarrow> Inl (SignatureUninspectable name)
      | Some params \<Rightarrow>
          (let accepts = (\<lambda>key. key \<in> fst ` set params \<or> True \<in> snd ` set params)
           in if needs_context \<and> \<not> accepts ''execution_context'' then Inl (ContextNotAccepted name)
              else if needs_principal \<and> \<not> accepts ''principal'' then Inl (PrincipalNotAccepted name)
              else Inr ()))"

text \<open>A handler with one of the two parameters receives it even if the registration does not say so.\<close>

definition wants :: "string \<Rightarrow> bool \<Rightarrow> parameters option \<Rightarrow> bool" where
  "wants key declared signature \<longleftrightarrow> declared \<or> (case signature of None \<Rightarrow> False | Some params \<Rightarrow> key \<in> fst ` set params)"

definition risk_of :: "string \<Rightarrow> bool option \<Rightarrow> bool option \<Rightarrow> bool \<times> bool" where
  "risk_of name read_only idempotent =
     (let fallback = dict_get_or (False, False) CAPABILITY_RISK_CLASSIFICATION name
      in (case read_only of None \<Rightarrow> fst fallback | Some b \<Rightarrow> b, case idempotent of None \<Rightarrow> snd fallback | Some b \<Rightarrow> b))"

definition descriptor_of :: "'o capability_spec \<Rightarrow> bool \<Rightarrow> bool \<Rightarrow> capability_descriptor" where
  "descriptor_of spec needs_context needs_principal =
     \<lparr>cd_name = cp_name spec, cd_description = cp_description spec, cd_provider = cp_provider spec,
      cd_required_permissions = cp_required_permissions spec, cd_requires_authentication = cp_requires_authentication spec,
      cd_security_classification = cp_security_classification spec, cd_requires_execution_context = needs_context,
      cd_legacy_principal_bridge = needs_principal,
      cd_is_read_only = fst (risk_of (cp_name spec) (cp_is_read_only spec) (cp_is_idempotent spec)),
      cd_is_idempotent = snd (risk_of (cp_name spec) (cp_is_read_only spec) (cp_is_idempotent spec)),
      cd_owner_id = cp_owner_id spec\<rparr>"

definition is_update :: "'o capability_spec \<Rightarrow> capability_descriptor option \<Rightarrow> registry_error + bool" where
  "is_update spec existing =
     (case existing of
        None \<Rightarrow> Inr False
      | Some d \<Rightarrow> if cp_owner_id spec \<noteq> None \<and> cd_owner_id d = cp_owner_id spec then Inr True
                  else Inl (ResourceAlreadyExists (cp_name spec)))"

definition check_registration :: "('o \<Rightarrow> parameters option) \<Rightarrow> 'o capability_spec \<Rightarrow> 'o registry \<Rightarrow> registry_error + capability_descriptor \<times> bool" where
  "check_registration inspect spec rg =
     bind_res (is_update spec (dict_get (rg_capabilities rg) (cp_name spec))) (\<lambda>update.
       if \<not> cp_requires_authentication spec \<and> cp_name spec \<notin> set BOOTSTRAP_EXEMPT_CAPABILITIES
       then Inl (AuthenticationBypass (cp_name spec))
       else (case cp_handler spec of
               None \<Rightarrow> Inr (descriptor_of spec (cp_requires_execution_context spec) (cp_legacy_principal_bridge spec), update)
             | Some h \<Rightarrow>
                 (let needs_context = wants ''execution_context'' (cp_requires_execution_context spec) (inspect h);
                      needs_principal = wants ''principal'' (cp_legacy_principal_bridge spec) (inspect h)
                  in bind_res (if needs_context \<or> needs_principal
                               then validate_execution_context_binding (cp_name spec) (inspect h) needs_context needs_principal
                               else Inr ()) (\<lambda>_. Inr (descriptor_of spec needs_context needs_principal, update)))))"

definition register_capability ::
  "('o \<Rightarrow> parameters option) \<Rightarrow> instant \<Rightarrow> 'o capability_spec \<Rightarrow> 'o registry \<Rightarrow>
   (registry_error + capability_descriptor) \<times> 'o registry" where
  "register_capability inspect now spec rg =
     (case check_registration inspect spec rg of
        Inl e \<Rightarrow> (Inl e, rg)
      | Inr (d, update) \<Rightarrow>
          (let rg' = rg\<lparr>rg_capabilities := dict_set (cp_name spec) d (rg_capabilities rg),
                        rg_handlers := dict_set (cp_name spec) (cp_handler spec) (rg_handlers rg)\<rparr>
           in (case register_resource now (cp_name spec) RC_CAPABILITY (cp_handler spec) (cp_description spec) ''0.1.0''
                      (cp_provider spec) [] update rg' of
                 (Inl e, rg'') \<Rightarrow> (Inl e, rg'')
               | (Inr _, rg'') \<Rightarrow> (Inr d, rg''))))"

definition unregister_capability :: "string \<Rightarrow> string \<Rightarrow> 'o registry \<Rightarrow> (registry_error + bool) \<times> 'o registry" where
  "unregister_capability name owner rg =
     (case dict_get (rg_capabilities rg) name of
        None \<Rightarrow> (Inr False, rg)
      | Some d \<Rightarrow>
          if cd_owner_id d \<noteq> Some owner then (Inl (NotCapabilityOwner name), rg)
          else (Inr True,
                \<lparr>rg_stores = (rg_stores rg)(RC_CAPABILITY := dict_pop name (rg_stores rg RC_CAPABILITY)),
                 rg_objects = dict_pop (object_key RC_CAPABILITY name) (rg_objects rg),
                 rg_capabilities = dict_pop name (rg_capabilities rg), rg_handlers = dict_pop name (rg_handlers rg)\<rparr>))"

section \<open>What a capability requires\<close>

text \<open>A classification that does not parse counts as the highest.\<close>

definition safe_classification :: "string \<Rightarrow> classification_level" where
  "safe_classification s = (case parse_classification s of None \<Rightarrow> CL_RESTRICTED | Some l \<Rightarrow> l)"

definition requirement_of :: "capability_descriptor \<Rightarrow> permission_requirement" where
  "requirement_of d =
     \<lparr>pr_capability_name = cd_name d,
      pr_required_permissions = (case cd_required_permissions d of None \<Rightarrow> [] | Some ps \<Rightarrow> ps),
      pr_security_classification = safe_classification (cd_security_classification d)\<rparr>"

section \<open>Discovery\<close>

definition get_capability :: "string \<Rightarrow> 'o registry \<Rightarrow> registry_error + capability_descriptor" where
  "get_capability name rg =
     (case dict_get (rg_capabilities rg) name of None \<Rightarrow> Inl (CapabilityNotFound name) | Some d \<Rightarrow> Inr d)"

definition list_capabilities :: "'o registry \<Rightarrow> capability_descriptor list" where
  "list_capabilities rg = map snd (rg_capabilities rg)"

text \<open>Substring search, as in \<open>needle in text\<close>.\<close>

fun contains :: "string \<Rightarrow> string \<Rightarrow> bool" where
  "contains needle [] \<longleftrightarrow> needle = []"
| "contains needle (c # cs) \<longleftrightarrow> take (length needle) (c # cs) = needle \<or> contains needle cs"

record capability_filter =
  cq_domain :: "string option"
  cq_resource :: "string option"
  cq_action :: "string option"
  cq_read_only :: "bool option"
  cq_idempotent :: "bool option"
  cq_keyword :: "string option"

definition asked :: "'a option \<Rightarrow> 'a \<Rightarrow> bool" where
  "asked q x \<longleftrightarrow> q = None \<or> q = Some x"

definition keyword_matches :: "string option \<Rightarrow> capability_descriptor \<Rightarrow> bool" where
  "keyword_matches keyword d =
     (case keyword of
        None \<Rightarrow> True
      | Some k \<Rightarrow> k = [] \<or> contains (py_lower k) (py_lower (cd_name d)) \<or> contains (py_lower k) (py_lower (cd_description d)))"

definition search_capabilities :: "capability_filter \<Rightarrow> 'o registry \<Rightarrow> capability_descriptor list" where
  "search_capabilities q rg =
     filter (keyword_matches (cq_keyword q))
     (filter (asked (cq_idempotent q) \<circ> cd_is_idempotent) (filter (asked (cq_read_only q) \<circ> cd_is_read_only)
     (filter (asked (cq_action q) \<circ> capability_action) (filter (asked (cq_resource q) \<circ> resource_type)
     (filter (asked (cq_domain q) \<circ> owner_domain) (list_capabilities rg))))))"

text \<open>The handler of a capability: only descriptors are public.  A missing entry of a registered name raises.\<close>

definition resolve_handler :: "string \<Rightarrow> 'o registry \<Rightarrow> registry_error + 'o option option" where
  "resolve_handler name rg =
     (if dict_has (rg_capabilities rg) name then Inr (dict_get (rg_handlers rg) name) else Inl (CapabilityNotFound name))"

definition empty_registry :: "'o registry" where
  "empty_registry = \<lparr>rg_stores = (\<lambda>_. []), rg_objects = [], rg_capabilities = [], rg_handlers = []\<rparr>"

end
