(* ===== verification/Definition_Lifecycle.thy ===== *)
theory Definition_Lifecycle
  imports Definition_Store Workflow_Mapping Registry
begin

text \<open>
  The lifecycle manager of workflow definitions (\<open>engines/workflow/lifecycle.py\<close>): create, get,
  update, validate, publish, archive and clone.  The Pydantic models that parse a caller's
  dictionaries, and the authorization of a principal, are arguments; the registry of capabilities
  is a map.  A problem of a validation report is a constructor in place of its message.
\<close>

section \<open>Surroundings\<close>

record execution_context =
  ec_principal :: "security_principal option"
  ec_tenant_id :: string

text \<open>
  \<open>lm_kernel\<close> and \<open>lm_security\<close> are \<^const>\<open>None\<close> when the manager has no reference to them;
  a decision \<^const>\<open>None\<close> is a failing policy store.
\<close>

record lifecycle_deps =
  lm_parse_step :: "(string, pyval) dict \<Rightarrow> workflow_step option"
  lm_parse_graph :: "(string, pyval) dict \<Rightarrow> step_metadata workflow_graph option"
  lm_parse_mapping :: "(string, pyval) dict \<Rightarrow> workflow_mapping option"
  lm_kernel :: "(string \<Rightarrow> capability_descriptor option) option"
  lm_security :: "(security_principal \<Rightarrow> permission_requirement \<Rightarrow> (string, pyval) dict option \<Rightarrow>
                   access_decision option) option"
  lm_audit :: bool

record lifecycle_audit_entry =
  la_action :: string
  la_actor_id :: string
  la_actor_type :: string
  la_tenant_id :: string
  la_resource_id :: string
  la_context :: "(string, pyval) dict"

record lifecycle_state =
  ls_db :: definition_db
  ls_audit :: "lifecycle_audit_entry list"

definition resolve_identity ::
  "execution_context option \<Rightarrow> security_principal option \<Rightarrow> string option \<Rightarrow>
   definition_error + (security_principal option \<times> string)" where
  "resolve_identity ec who tenant =
     (let p = (case who of Some q \<Rightarrow> Some q | None \<Rightarrow> (case ec of None \<Rightarrow> None | Some e \<Rightarrow> ec_principal e));
          authoritative = (case ec of Some e \<Rightarrow> Some (ec_tenant_id e) | None \<Rightarrow> map_option sp_tenant_id p)
      in case authoritative of
           Some a \<Rightarrow>
             (case tenant of
                Some t \<Rightarrow> if t \<noteq> a then Inl (TenantDenied t a) else Inr (p, a)
              | None \<Rightarrow> Inr (p, a))
         | None \<Rightarrow> Inr (p, case tenant of None \<Rightarrow> ''default'' | Some [] \<Rightarrow> ''default'' | Some t \<Rightarrow> t))"

definition actor_id :: "security_principal option \<Rightarrow> string" where
  "actor_id who = (case who of None \<Rightarrow> ''SYSTEM'' | Some p \<Rightarrow> sp_principal_id p)"

definition lifecycle_audit ::
  "lifecycle_deps \<Rightarrow> string \<Rightarrow> string \<Rightarrow> string \<Rightarrow> string \<Rightarrow> (string, pyval) dict \<Rightarrow>
   lifecycle_audit_entry list \<Rightarrow> lifecycle_audit_entry list" where
  "lifecycle_audit deps action actor tid resource ctx log =
     (if lm_audit deps then
        log @ [\<lparr>la_action = action, la_actor_id = actor,
                la_actor_type = (if actor \<notin> {''SYSTEM'', ''EXECUTOR''} then ''HUMAN'' else ''SYSTEM_ENGINE''),
                la_tenant_id = tid, la_resource_id = resource, la_context = sanitize_dict ctx\<rparr>]
      else log)"

section \<open>Content\<close>

fun trigger_of_value :: "string \<Rightarrow> workflow_trigger" where
  "trigger_of_value s =
     (if s = ''EVENT'' then Trig_EVENT else if s = ''SCHEDULED'' then Trig_SCHEDULED
      else if s = ''API'' then Trig_API else if s = ''RECIPE'' then Trig_RECIPE else Trig_MANUAL)"

fun priority_of_value :: "string \<Rightarrow> workflow_priority" where
  "priority_of_value s =
     (if s = ''LOW'' then Prio_LOW else if s = ''HIGH'' then Prio_HIGH
      else if s = ''CRITICAL'' then Prio_CRITICAL else Prio_NORMAL)"

text \<open>The caller passes a member of the enumeration or a string.\<close>

definition coerce_trigger :: "workflow_trigger + string \<Rightarrow> workflow_trigger" where
  "coerce_trigger v = (case v of Inl t \<Rightarrow> t | Inr s \<Rightarrow> trigger_of_value s)"

definition coerce_priority :: "workflow_priority + string \<Rightarrow> workflow_priority" where
  "coerce_priority v = (case v of Inl p \<Rightarrow> p | Inr s \<Rightarrow> priority_of_value s)"

definition derive_steps_from_graph ::
  "step_metadata workflow_graph \<Rightarrow> workflow_step list \<Rightarrow> definition_error + workflow_step list" where
  "derive_steps_from_graph g fallback =
     (case graph_to_steps g of
        Inr steps \<Rightarrow> Inr steps
      | Inl e \<Rightarrow>
          (case e of
             GraphViolation v \<Rightarrow> (case v of MissingKey _ \<Rightarrow> Inl (CompatFailure e) | _ \<Rightarrow> Inr fallback)
           | _ \<Rightarrow> if is_conversion_error e then Inr fallback else Inl (CompatFailure e)))"

definition named_capability :: "string option \<Rightarrow> string list" where
  "named_capability c = (case c of None \<Rightarrow> [] | Some n \<Rightarrow> if n = [] then [] else [n])"

definition collect_referenced_capabilities :: "definition_content \<Rightarrow> string set" where
  "collect_referenced_capabilities c =
     (case dc_graph c of
        None \<Rightarrow> {}
      | Some g \<Rightarrow> set (concat (map (\<lambda>n. named_capability (gn_capability_name n)) (nodes g)))) \<union>
     set (concat (map (\<lambda>s. named_capability (ws_capability_name s)) (dc_steps c)))"

section \<open>Validation\<close>

datatype validation_problem =
    GraphInvalid graph_violation
  | NodeMappingInvalid string
  | ApprovalNodeCapability string string
  | ApprovalStepCapability string string
  | NonLinearGraph
  | UnknownNodeCapability string string
  | NoContent
  | UnknownStepCapability string string

record validation_report =
  vr_is_valid :: bool
  vr_errors :: "validation_problem list"
  vr_warnings :: "validation_problem list"

definition node_mapping_problems ::
  "lifecycle_deps \<Rightarrow> step_metadata workflow_graph \<Rightarrow> step_metadata graph_node \<Rightarrow> validation_problem list" where
  "node_mapping_problems deps g n =
     (case dict_get (gn_config n) MAPPING_CONFIG_KEY of
        None \<Rightarrow> []
      | Some PNone \<Rightarrow> []
      | Some (PDict raw) \<Rightarrow>
          (case lm_parse_mapping deps raw of
             None \<Rightarrow> [NodeMappingInvalid (node_id n)]
           | Some m \<Rightarrow>
               (case validate_mapping g (node_id n) m of
                  Inl _ \<Rightarrow> [NodeMappingInvalid (node_id n)] | Inr _ \<Rightarrow> []))
      | Some _ \<Rightarrow> [NodeMappingInvalid (node_id n)])"

definition unknown_capability :: "lifecycle_deps \<Rightarrow> string option \<Rightarrow> string list" where
  "unknown_capability deps c =
     (case lm_kernel deps of
        None \<Rightarrow> []
      | Some lookup \<Rightarrow> filter (\<lambda>n. lookup n = None) (named_capability c))"

definition approval_node :: "step_metadata graph_node \<Rightarrow> bool" where
  "approval_node n \<longleftrightarrow> node_type n = ''approval'' \<or>
     (case gn_metadata n of None \<Rightarrow> False | Some m \<Rightarrow> sm_is_approval_step m = Some True)"

definition graph_problems ::
  "lifecycle_deps \<Rightarrow> step_metadata workflow_graph \<Rightarrow>
   definition_error + (validation_problem list \<times> validation_problem list)" where
  "graph_problems deps g =
     bind_res
       (case validate_graph g of
          Inl v \<Rightarrow> (case v of MissingKey k \<Rightarrow> Inl (CompatFailure (GraphViolation v)) | _ \<Rightarrow> Inr ([GraphInvalid v], []))
        | Inr _ \<Rightarrow>
            (let errors = concat (map (node_mapping_problems deps g) (nodes g))
             in case graph_to_steps g of
                  Inr _ \<Rightarrow> Inr (errors, [])
                | Inl e \<Rightarrow> if is_conversion_error e then Inr (errors, [NonLinearGraph]) else Inl (CompatFailure e)))
       (\<lambda>(errors, warnings).
          Inr (errors @ concat (map (\<lambda>n. if approval_node n then
                  (case gn_capability_name n of None \<Rightarrow> [] | Some c \<Rightarrow> [ApprovalNodeCapability (node_id n) c])
                  else []) (nodes g)),
               warnings @ concat (map (\<lambda>n. map (UnknownNodeCapability (node_id n))
                  (unknown_capability deps (gn_capability_name n))) (nodes g))))"

definition step_problems ::
  "lifecycle_deps \<Rightarrow> definition_content \<Rightarrow> validation_problem list \<times> validation_problem list" where
  "step_problems deps c =
     (if dc_steps c = [] \<and> dc_graph c = None then ([], [NoContent])
      else (concat (map (\<lambda>s. if ws_is_approval_step s then
              (case ws_capability_name s of None \<Rightarrow> [] | Some n \<Rightarrow> [ApprovalStepCapability (ws_id s) n])
              else []) (dc_steps c)),
            concat (map (\<lambda>s. map (UnknownStepCapability (ws_id s))
              (unknown_capability deps (ws_capability_name s))) (dc_steps c))))"

definition validate_content :: "lifecycle_deps \<Rightarrow> definition_content \<Rightarrow> definition_error + validation_report" where
  "validate_content deps c =
     bind_res (case dc_graph c of None \<Rightarrow> Inr ([], []) | Some g \<Rightarrow> graph_problems deps g) (\<lambda>(ge, gw).
       (let sp = step_problems deps c; errors = ge @ fst sp
        in Inr \<lparr>vr_is_valid = (errors = []), vr_errors = errors, vr_warnings = gw @ snd sp\<rparr>))"

section \<open>Versions\<close>

text \<open>The triple a version string stands for; anything else counts as \<open>0.0.0\<close>.\<close>

definition semver_key :: "string \<Rightarrow> int \<times> int \<times> int" where
  "semver_key v =
     (case split_on (CHR ''.'') v of
        a # b # c # _ \<Rightarrow>
          (case (py_int a, py_int b, py_int c) of
             (Some x, Some y, Some z) \<Rightarrow> (x, y, z) | _ \<Rightarrow> (0, 0, 0))
      | _ \<Rightarrow> (0, 0, 0))"

definition key_less :: "int \<times> int \<times> int \<Rightarrow> int \<times> int \<times> int \<Rightarrow> bool" where
  "key_less k l = (case (k, l) of ((a, b, c), (x, y, z)) \<Rightarrow> a < x \<or> a = x \<and> (b < y \<or> b = y \<and> c < z))"

text \<open>\<open>max(candidates, key=_key)\<close>: the first of the greatest.\<close>

definition latest_version :: "string \<Rightarrow> string list \<Rightarrow> string" where
  "latest_version v vs = fold (\<lambda>w best. if key_less (semver_key best) (semver_key w) then w else best) vs v"

definition show_version :: "int \<times> int \<times> int \<Rightarrow> string" where
  "show_version k = (case k of (a, b, c) \<Rightarrow> show_int a @ ''.'' @ show_int b @ ''.'' @ show_int c)"

definition next_version_from :: "string list \<Rightarrow> string" where
  "next_version_from candidates =
     (case candidates of
        [] \<Rightarrow> ''1.0.0''
      | v # vs \<Rightarrow> (case semver_key (latest_version v vs) of (a, b, c) \<Rightarrow> show_version (a, b, c + 1)))"

section \<open>Operations\<close>

text \<open>
  A step of an operation that may raise, on the database: the rest runs on the database it leaves,
  and an error is passed on with it.
\<close>

definition then_do :: "'a outcome \<Rightarrow> ('a \<Rightarrow> definition_db \<Rightarrow> 'b outcome) \<Rightarrow> 'b outcome" where
  "then_do r f = (case r of (Inl e, db) \<Rightarrow> (Inl e, db) | (Inr x, db) \<Rightarrow> f x db)"

definition reading :: "(definition_db \<Rightarrow> definition_error + 'a) \<Rightarrow> definition_db \<Rightarrow> 'a outcome" where
  "reading q db = (q db, db)"

definition get_or_materialize_control_row ::
  "instant \<Rightarrow> string \<Rightarrow> string \<Rightarrow> string \<Rightarrow> string \<Rightarrow> definition_db \<Rightarrow> (definition_version \<times> bool) outcome" where
  "get_or_materialize_control_row now new_id did tid created_by db =
     then_do (reading (get_control_row did tid) db) (\<lambda>ctrl db.
       case ctrl of
         Some c \<Rightarrow> (Inr (c, False), db)
       | None \<Rightarrow>
           then_do (reading (get_definition did tid None) db) (\<lambda>legacy db.
             case legacy of
               None \<Rightarrow> (Inl (DefinitionNotFound did), db)
             | Some d \<Rightarrow>
                 then_do (create_draft now new_id did tid created_by (wd_content d) db) (\<lambda>c db.
                   (Inr (c, True), db))))"

definition parse_steps ::
  "lifecycle_deps \<Rightarrow> (string, pyval) dict list \<Rightarrow> definition_error + workflow_step list" where
  "parse_steps deps raw =
     traverse (\<lambda>s. case lm_parse_step deps s of None \<Rightarrow> Inl InputInvalid | Some x \<Rightarrow> Inr x) raw"

definition parse_graph ::
  "lifecycle_deps \<Rightarrow> (string, pyval) dict \<Rightarrow> definition_error + step_metadata workflow_graph" where
  "parse_graph deps raw = (case lm_parse_graph deps raw of None \<Rightarrow> Inl InputInvalid | Some g \<Rightarrow> Inr g)"

text \<open>
  The identifiers a caller cannot choose are arguments: \<open>row_id\<close> of a new row, \<open>new_def\<close> of a new
  definition.  An empty graph dictionary counts as none when a definition is created.
\<close>

definition create_content ::
  "lifecycle_deps \<Rightarrow> string \<Rightarrow> string \<Rightarrow> workflow_trigger + string \<Rightarrow> workflow_priority + string \<Rightarrow> int \<Rightarrow>
   (string, pyval) dict list \<Rightarrow> (string, pyval) dict \<Rightarrow> definition_error + definition_content" where
  "create_content deps name description trigger priority timeout raw_steps raw_graph =
     bind_res (parse_steps deps raw_steps) (\<lambda>steps0.
     bind_res (if raw_graph = [] then Inr None else bind_res (parse_graph deps raw_graph) (\<lambda>g. Inr (Some g))) (\<lambda>g.
     bind_res (case g of None \<Rightarrow> Inr steps0 | Some x \<Rightarrow> derive_steps_from_graph x steps0) (\<lambda>steps.
       Inr \<lparr>dc_name = name, dc_description = description, dc_trigger = coerce_trigger trigger,
            dc_priority = coerce_priority priority, dc_timeout_seconds = timeout, dc_steps = steps,
            dc_graph = g\<rparr>)))"

definition with_audit ::
  "lifecycle_deps \<Rightarrow> string \<Rightarrow> string \<Rightarrow> string \<Rightarrow> string \<Rightarrow> (string, pyval) dict \<Rightarrow> lifecycle_state \<Rightarrow>
   'a outcome \<Rightarrow> (definition_error + 'a) \<times> lifecycle_state" where
  "with_audit deps action actor tid resource ctx s r =
     (case r of
        (Inl e, db) \<Rightarrow> (Inl e, s\<lparr>ls_db := db\<rparr>)
      | (Inr x, db) \<Rightarrow>
          (Inr x, s\<lparr>ls_db := db, ls_audit := lifecycle_audit deps action actor tid resource ctx (ls_audit s)\<rparr>))"

definition lifecycle_create where
  "lifecycle_create deps now row_id new_def name description trigger priority timeout raw_steps raw_graph
       ec who tenant s =
     (case resolve_identity ec who tenant of
        Inl e \<Rightarrow> (Inl e, s)
      | Inr (p, tid) \<Rightarrow>
          with_audit deps ''workflow.definition.create'' (actor_id p) tid new_def [] s
            (case create_content deps name description trigger priority timeout raw_steps raw_graph of
               Inl e \<Rightarrow> (Inl e, ls_db s)
             | Inr c \<Rightarrow> create_draft now row_id new_def tid (actor_id p) c (ls_db s)))"

text \<open>What \<open>get\<close> returns: one published version, or the whole picture.\<close>

datatype definition_view =
    OneVersion definition_version
  | WholePicture "definition_version option" "definition_version list" "string option"

definition lifecycle_get where
  "lifecycle_get did version ec who tenant db =
     bind_res (resolve_identity ec who tenant) (\<lambda>(p, tid).
       (case version of
          Some v \<Rightarrow>
            bind_res (get_published_version did tid v db) (\<lambda>r.
              case r of None \<Rightarrow> Inl (VersionNotFound did v) | Some x \<Rightarrow> Inr (OneVersion x))
        | None \<Rightarrow>
            bind_res (get_control_row did tid db) (\<lambda>ctrl.
            bind_res (list_definition_versions did tid db) (\<lambda>versions.
            bind_res (get_definition did tid None db) (\<lambda>legacy.
              (let published = filter (\<lambda>v. dv_status v = DS_PUBLISHED) versions
               in if ctrl = None \<and> published = [] \<and> legacy = None then Inl (DefinitionNotFound did)
                  else Inr (WholePicture ctrl published (map_option wd_version legacy))))))))"

text \<open>The fields of an update request; \<open>steps\<close> count only without a graph.\<close>

record update_request =
  ur_name :: "string option"
  ur_description :: "string option"
  ur_trigger :: "(workflow_trigger + string) option"
  ur_priority :: "(workflow_priority + string) option"
  ur_timeout_seconds :: "int option"
  ur_steps :: "(string, pyval) dict list option"
  ur_graph :: "(string, pyval) dict option"

definition update_content_of ::
  "lifecycle_deps \<Rightarrow> update_request \<Rightarrow> workflow_step list \<Rightarrow> definition_error + update_content" where
  "update_content_of deps u fallback =
     bind_res
       (case ur_graph u of
          Some raw \<Rightarrow>
            bind_res (parse_graph deps raw) (\<lambda>g.
            bind_res (derive_steps_from_graph g fallback) (\<lambda>steps. Inr (Some (Some g), Some steps)))
        | None \<Rightarrow>
            (case ur_steps u of
               Some raw \<Rightarrow> bind_res (parse_steps deps raw) (\<lambda>steps. Inr (None, Some steps))
             | None \<Rightarrow> Inr (None, None)))
       (\<lambda>(g, steps).
          Inr \<lparr>uc_name = ur_name u, uc_description = ur_description u,
               uc_trigger = map_option coerce_trigger (ur_trigger u),
               uc_priority = map_option coerce_priority (ur_priority u),
               uc_timeout_seconds = ur_timeout_seconds u, uc_steps = steps, uc_graph = g\<rparr>)"

definition lifecycle_update where
  "lifecycle_update deps now row_id did expected u ec who tenant s =
     (case resolve_identity ec who tenant of
        Inl e \<Rightarrow> (Inl e, s)
      | Inr (p, tid) \<Rightarrow>
          with_audit deps ''workflow.definition.update'' (actor_id p) tid did [] s
            (then_do (get_or_materialize_control_row now row_id did tid (actor_id p) (ls_db s)) (\<lambda>(ctrl, materialized) db.
              (case update_content_of deps u (dc_steps (dv_content ctrl)) of
                 Inl e \<Rightarrow> (Inl e, db)
               | Inr uc \<Rightarrow>
                   if uc = no_update then (Inl (DefinitionState did), db)
                   else update_draft now did tid (if materialized then dv_lock_version ctrl else expected) uc db))))"

definition lifecycle_validate where
  "lifecycle_validate deps did ec who tenant db =
     bind_res (resolve_identity ec who tenant) (\<lambda>(p, tid).
     bind_res (get_control_row did tid db) (\<lambda>ctrl.
       case ctrl of None \<Rightarrow> Inl (DefinitionNotFound did) | Some c \<Rightarrow> validate_content deps (dv_content c)))"

subsection \<open>Publishing\<close>

definition check_capability ::
  "lifecycle_deps \<Rightarrow> security_principal option \<Rightarrow> string \<Rightarrow> string \<Rightarrow> definition_error + unit" where
  "check_capability deps p tid cap =
     (case lm_kernel deps of
        None \<Rightarrow> Inl (DefinitionAuthorization cap)
      | Some lookup \<Rightarrow>
          (case lookup cap of
             None \<Rightarrow> Inl (DefinitionAuthorization cap)
           | Some d \<Rightarrow>
               (case (p, lm_security deps) of
                  (Some q, Some decide) \<Rightarrow>
                    (case decide q (requirement_of d)
                             (Some [(''resource_tenant_id'', PStr tid)]) of
                       None \<Rightarrow> Inl SecurityFailure
                     | Some a \<Rightarrow> if is_allowed a then Inr () else Inl (DefinitionAuthorization cap))
                | _ \<Rightarrow> Inr ())))"

text \<open>The steps that will run; a graph's are written back to the draft when they differ.\<close>

definition effective_control ::
  "instant \<Rightarrow> string \<Rightarrow> string \<Rightarrow> definition_version \<Rightarrow> definition_db \<Rightarrow> (definition_version \<times> workflow_step list) outcome" where
  "effective_control now did tid ctrl db =
     (case dc_graph (dv_content ctrl) of
        None \<Rightarrow> (Inr (ctrl, dc_steps (dv_content ctrl)), db)
      | Some g \<Rightarrow>
          (case graph_to_steps g of
             Inl e \<Rightarrow> (Inl (if is_conversion_error e then DefinitionState did else CompatFailure e), db)
           | Inr steps \<Rightarrow>
               if steps = dc_steps (dv_content ctrl) then (Inr (ctrl, steps), db)
               else then_do (update_draft now did tid (dv_lock_version ctrl) (no_update\<lparr>uc_steps := Some steps\<rparr>) db)
                      (\<lambda>c db. (Inr (c, steps), db))))"

definition published_candidates ::
  "string \<Rightarrow> string \<Rightarrow> definition_db \<Rightarrow> definition_error + string list" where
  "published_candidates did tid db =
     bind_res (list_definition_versions did tid db) (\<lambda>versions.
     bind_res (get_definition did tid None db) (\<lambda>legacy.
       Inr (map dv_version (filter (\<lambda>v. dv_status v = DS_PUBLISHED) versions) @
            (case legacy of None \<Rightarrow> [] | Some d \<Rightarrow> [wd_version d]))))"

definition publish_flow ::
  "lifecycle_deps \<Rightarrow> instant \<Rightarrow> string \<Rightarrow> string \<Rightarrow> int \<Rightarrow> string option \<Rightarrow> security_principal option \<Rightarrow> string \<Rightarrow>
   definition_db \<Rightarrow> definition_version outcome" where
  "publish_flow deps now row_id did expected version p tid db =
     then_do (reading (get_control_row did tid) db) (\<lambda>ctrl0 db.
       case ctrl0 of
         None \<Rightarrow> (Inl (DefinitionNotFound did), db)
       | Some ctrl \<Rightarrow>
           if dv_lock_version ctrl \<noteq> expected then (Inl (DefinitionConflict did), db)
           else then_do (validate_content deps (dv_content ctrl), db) (\<lambda>report db.
             if \<not> vr_is_valid report then (Inl (DefinitionState did), db)
             else then_do (effective_control now did tid ctrl db) (\<lambda>(ctrl', steps) db.
               if steps = [] then (Inl (DefinitionState did), db)
               else then_do (check_all (check_capability deps p tid)
                        (sorted_list_of_set (collect_referenced_capabilities (dv_content ctrl'))), db) (\<lambda>_ db.
                 then_do (reading (published_candidates did tid) db) (\<lambda>candidates db.
                   publish_draft now row_id did tid (dv_lock_version ctrl')
                     (case version of Some v \<Rightarrow> v | None \<Rightarrow> next_version_from candidates) db)))))"

definition lifecycle_publish where
  "lifecycle_publish deps now row_id did expected version ec who tenant s =
     (case resolve_identity ec who tenant of
        Inl e \<Rightarrow> (Inl e, s)
      | Inr (p, tid) \<Rightarrow>
          (let r = publish_flow deps now row_id did expected version p tid (ls_db s)
           in with_audit deps ''workflow.definition.publish'' (actor_id p) tid did
                (case fst r of Inl _ \<Rightarrow> [] | Inr v \<Rightarrow> [(''version'', PStr (dv_version v))]) s r))"

definition lifecycle_archive where
  "lifecycle_archive deps now row_id did expected ec who tenant s =
     (case resolve_identity ec who tenant of
        Inl e \<Rightarrow> (Inl e, s)
      | Inr (p, tid) \<Rightarrow>
          with_audit deps ''workflow.definition.archive'' (actor_id p) tid did [] s
            (then_do (get_or_materialize_control_row now row_id did tid (actor_id p) (ls_db s)) (\<lambda>(ctrl, materialized) db.
               archive_control_row now did tid
                 (if materialized then dv_lock_version ctrl
                  else case expected of None \<Rightarrow> dv_lock_version ctrl
                     | Some n \<Rightarrow> if n = 0 then dv_lock_version ctrl else n) db)))"

definition clone_source ::
  "string \<Rightarrow> string option \<Rightarrow> string \<Rightarrow> definition_db \<Rightarrow> definition_error + definition_content" where
  "clone_source did version tid db =
     (case version of
        Some v \<Rightarrow>
          bind_res (get_published_version did tid v db) (\<lambda>r.
            case r of None \<Rightarrow> Inl (VersionNotFound did v) | Some x \<Rightarrow> Inr (dv_content x))
      | None \<Rightarrow>
          bind_res (get_control_row did tid db) (\<lambda>ctrl.
            case ctrl of
              Some c \<Rightarrow> Inr (dv_content c)
            | None \<Rightarrow>
                bind_res (get_definition did tid None db) (\<lambda>legacy.
                  case legacy of None \<Rightarrow> Inl (DefinitionNotFound did) | Some d \<Rightarrow> Inr (wd_content d))))"

definition lifecycle_clone where
  "lifecycle_clone deps now row_id new_def did name version ec who tenant s =
     (case resolve_identity ec who tenant of
        Inl e \<Rightarrow> (Inl e, s)
      | Inr (p, tid) \<Rightarrow>
          with_audit deps ''workflow.definition.clone'' (actor_id p) tid new_def
            [(''source_definition_id'', PStr did)] s
            (case clone_source did version tid (ls_db s) of
               Inl e \<Rightarrow> (Inl e, ls_db s)
             | Inr c \<Rightarrow>
                 create_draft now row_id new_def tid (actor_id p)
                   (c\<lparr>dc_name := (case name of Some n \<Rightarrow> if n = [] then dc_name c @ '' (copy)'' else n
                                | None \<Rightarrow> dc_name c @ '' (copy)'')\<rparr>) (ls_db s)))"

end
