(* ===== verification/Lifecycle_Correct.thy ===== *)
theory Lifecycle_Correct
  imports Definition_Lifecycle Compat_Correct
begin

text \<open>
  The definition lifecycle: rows only move forward under every operation of the manager, computed
  versions are new, and what a successful publication guarantees.
\<close>


section \<open>Rows only move forward\<close>

text \<open>
  A row stays as it is, or it is a draft whose lock counter grows: published and archived rows are
  frozen, and a draft is never published in place.
\<close>

definition row_step :: "definition_version \<Rightarrow> definition_version \<Rightarrow> bool" where
  "row_step r r' \<longleftrightarrow> r' = r \<or>
     (dv_status r = DS_DRAFT \<and> dv_status r' \<noteq> DS_PUBLISHED \<and> dv_lock_version r < dv_lock_version r' \<and>
      dv_id r' = dv_id r \<and> version_key r' = version_key r)"

definition versions_step :: "definition_db \<Rightarrow> definition_db \<Rightarrow> bool" where
  "versions_step db db' \<longleftrightarrow> (\<forall>r \<in> set (d_versions db). \<exists>r' \<in> set (d_versions db'). row_step r r')"

definition db_inv :: "definition_db \<Rightarrow> bool" where
  "db_inv db \<longleftrightarrow> distinct (map dv_id (d_versions db)) \<and> distinct (map version_key (d_versions db)) \<and>
     (\<forall>r \<in> set (d_versions db). dv_version r = DRAFT_VERSION \<longleftrightarrow> dv_status r \<noteq> DS_PUBLISHED)"

definition forward :: "definition_db \<Rightarrow> definition_db \<Rightarrow> bool" where
  "forward db db' \<longleftrightarrow> (db_inv db \<longrightarrow> db_inv db' \<and> versions_step db db')"

lemma row_step_refl [simp]: "row_step r r"
  by (simp add: row_step_def)

lemma row_step_trans: "row_step a b \<Longrightarrow> row_step b c \<Longrightarrow> row_step a c"
  by (auto simp: row_step_def)

lemma versions_step_refl [simp]: "versions_step db db"
  unfolding versions_step_def using row_step_refl by blast

lemma versions_step_trans: "versions_step a b \<Longrightarrow> versions_step b c \<Longrightarrow> versions_step a c"
  unfolding versions_step_def using row_step_trans by meson

lemma forward_refl [simp, intro]: "forward db db"
  by (simp add: forward_def)

lemma forward_trans: "forward a b \<Longrightarrow> forward b c \<Longrightarrow> forward a c"
  unfolding forward_def using versions_step_trans by blast

lemma then_do_forward:
  assumes "forward db (snd r)" "\<And>x db'. forward db' (snd (f x db'))"
  shows "forward db (snd (then_do r f))"
proof -
  obtain res db' where r: "r = (res, db')" by (cases r)
  show ?thesis
    using assms(1) forward_trans [OF _ assms(2)] by (cases res) (auto simp: then_do_def r)
qed

lemma reading_db [simp]: "snd (reading q db) = db"
  by (simp add: reading_def)

lemma insert_version_images:
  "insert_version r rows = (if dv_id r \<in> dv_id ` set rows \<or> version_key r \<in> version_key ` set rows
     then None else Some (rows @ [r]))"
  by (auto simp: insert_version_def image_iff eq_commute [of "dv_id r"] eq_commute [of "version_key r"])

lemma insert_version_Some:
  "insert_version r rows = Some rows' \<Longrightarrow>
     rows' = rows @ [r] \<and> dv_id r \<notin> dv_id ` set rows \<and> version_key r \<notin> version_key ` set rows"
  unfolding insert_version_images by (metis option.distinct(1) option.inject)

lemma insert_version_forward:
  assumes "insert_version r (d_versions db) = Some rows" "d_versions db' = rows"
    "dv_version r = DRAFT_VERSION \<longleftrightarrow> dv_status r \<noteq> DS_PUBLISHED"
  shows "forward db db'"
proof -
  have rows: "d_versions db' = d_versions db @ [r]" and new: "dv_id r \<notin> dv_id ` set (d_versions db)"
    "version_key r \<notin> version_key ` set (d_versions db)"
    using assms(1,2) by (force simp: insert_version_def split: if_splits)+
  have "versions_step db db'" unfolding versions_step_def rows using row_step_refl by fastforce
  moreover have "db_inv db \<Longrightarrow> db_inv db'"
    using new assms(3) by (auto simp: db_inv_def rows)
  ultimately show ?thesis by (simp add: forward_def)
qed

lemma create_draft_forward: "forward db (snd (create_draft now new_id did tid created_by content db))"
proof -
  define dv where "dv = \<lparr>dv_id = new_id, dv_definition_id = did, dv_tenant_id = tid, dv_version = DRAFT_VERSION,
     dv_status = DS_DRAFT, dv_content = content, dv_created_by = created_by,
     dv_lock_version = 1, dv_created_at = None, dv_updated_at = None, dv_published_at = None\<rparr>"
  let ?row = "dv\<lparr>dv_created_at := Some now, dv_updated_at := Some now\<rparr>"
  show ?thesis
  proof (cases "insert_version ?row (d_versions db)")
    case None
    then show ?thesis by (simp add: create_draft_def dv_def [symmetric] Let_def)
  next
    case (Some rows)
    have "forward db (db\<lparr>d_versions := rows\<rparr>)"
      by (rule insert_version_forward [OF Some]) (simp_all add: dv_def)
    then show ?thesis by (simp add: create_draft_def dv_def [symmetric] Let_def Some)
  qed
qed

lemma map_rows_forward:
  assumes rows: "d_versions db' = map f (d_versions db)"
    and f: "\<And>r. r \<in> set (d_versions db) \<Longrightarrow> row_step r (f r)"
  shows "forward db db'"
proof -
  have keep: "dv_id (f r) = dv_id r \<and> version_key (f r) = version_key r" if "r \<in> set (d_versions db)" for r
    using f [OF that] by (auto simp: row_step_def)
  have "map dv_id (d_versions db') = map dv_id (d_versions db)"
    "map version_key (d_versions db') = map version_key (d_versions db)"
    using keep by (simp_all add: rows)
  moreover have "\<forall>r \<in> set (d_versions db'). dv_version r = DRAFT_VERSION \<longleftrightarrow> dv_status r \<noteq> DS_PUBLISHED"
    if "\<forall>r \<in> set (d_versions db). dv_version r = DRAFT_VERSION \<longleftrightarrow> dv_status r \<noteq> DS_PUBLISHED"
    using that f by (fastforce simp: rows row_step_def version_key_def)
  moreover have "versions_step db db'" unfolding versions_step_def rows using f by auto
  ultimately show ?thesis by (auto simp: forward_def db_inv_def)
qed

lemma guarded_update_forward:
  assumes "\<And>r. lockable did tid expected r \<Longrightarrow> row_step r (change r)"
  shows "forward db (snd (guarded_update did tid expected change db))"
proof (cases "\<exists>r \<in> set (d_versions db). lockable did tid expected r")
  case False
  then show ?thesis by (auto simp: guarded_update_def)
next
  case True
  have "forward db (db\<lparr>d_versions := map (\<lambda>r. if lockable did tid expected r then change r else r) (d_versions db)\<rparr>)"
    using assms by (intro map_rows_forward [where f = "\<lambda>r. if lockable did tid expected r then change r else r"]) auto
  then show ?thesis using True by (auto simp: guarded_update_def Let_def split: option.split)
qed

lemma update_draft_forward: "forward db (snd (update_draft now did tid expected u db))"
  unfolding update_draft_def
  by (rule guarded_update_forward) (auto simp: lockable_def row_step_def version_key_def)

lemma archive_forward: "forward db (snd (archive_control_row now did tid expected db))"
  unfolding archive_control_row_def
  by (rule guarded_update_forward) (auto simp: lockable_def row_step_def version_key_def)

lemma image_map_same: "(\<And>r. g (f r) = g r) \<Longrightarrow> g ` set (map f xs) = g ` set xs"
  by (simp add: image_image)

lemma publish_read_Inr:
  "publish_read did tid expected db = Inr r \<Longrightarrow>
     r \<in> set (d_versions db) \<and> control_row did tid r \<and> dv_status r = DS_DRAFT \<and> dv_lock_version r = expected"
  by (auto simp: publish_read_def find_Some_iff split: option.splits if_splits)

lemma publish_draft_forward: "forward db (snd (publish_draft now new_id did tid expected version db))"
proof (cases "publish_read did tid expected db")
  case (Inl e)
  then show ?thesis by (simp add: publish_draft_def)
next
  case (Inr draft)
  note d = publish_read_Inr [OF Inr]
  define pub where "pub = \<lparr>dv_id = new_id, dv_definition_id = did, dv_tenant_id = tid, dv_version = version,
     dv_status = DS_PUBLISHED, dv_content = dv_content draft, dv_created_by = dv_created_by draft,
     dv_lock_version = 1, dv_created_at = Some now, dv_updated_at = Some now, dv_published_at = Some now\<rparr>"
  show ?thesis
  proof (cases "insert_version pub (d_versions db)")
    case None
    then show ?thesis by (simp add: publish_draft_def Inr publish_write_def pub_def [symmetric] Let_def)
  next
    case (Some rows)
    then have new: "rows = d_versions db @ [pub]" "new_id \<notin> dv_id ` set (d_versions db)"
      "version_key pub \<notin> version_key ` set (d_versions db)"
      by (force simp: insert_version_def pub_def split: if_splits)+
    show ?thesis
    proof (cases "project did tid version (dv_content draft) (d_definitions db)")
      case None
      then show ?thesis by (simp add: publish_draft_def Inr publish_write_def pub_def [symmetric] Let_def Some)
    next
      case (Some defs)
      let ?bump = "\<lambda>r. if dv_id r = dv_id draft then r\<lparr>dv_lock_version := expected + 1, dv_updated_at := Some now\<rparr> else r"
      let ?mid = "\<lparr>d_versions = map ?bump (d_versions db), d_definitions = d_definitions db\<rparr>"
      let ?db' = "\<lparr>d_versions = map ?bump (d_versions db @ [pub]), d_definitions = defs\<rparr>"
      have db': "snd (publish_draft now new_id did tid expected version db) = ?db'"
        using \<open>insert_version pub (d_versions db) = Some rows\<close> new(1)
        by (simp add: publish_draft_def Inr publish_write_def pub_def [symmetric] Let_def Some)
      have draft_version: "version \<noteq> DRAFT_VERSION"
        using new(3) d by (force simp: pub_def version_key_def control_row_def)
      have pub_id: "dv_id pub = new_id" by (simp add: pub_def)
      have pub_other: "?bump pub = pub" using new(2) d by (auto simp: pub_def)
      have mid: "forward db ?mid" if inv: "db_inv db"
      proof (rule map_rows_forward [where f = ?bump])
        show "row_step r (?bump r)" if r: "r \<in> set (d_versions db)" for r
        proof (cases "dv_id r = dv_id draft")
          case True
          then have "r = draft" using inv r d by (auto simp: db_inv_def distinct_map dest: inj_onD)
          then show ?thesis using d by (auto simp: row_step_def version_key_def)
        qed simp
      qed simp
      have keys: "dv_id ` set (d_versions ?mid) = dv_id ` set (d_versions db)"
        "version_key ` set (d_versions ?mid) = version_key ` set (d_versions db)"
        unfolding definition_db.select_convs by (rule image_map_same, simp add: version_key_def)+
      have "insert_version pub (d_versions ?mid) = Some (d_versions ?mid @ [pub])"
        unfolding insert_version_images keys using new(2,3) pub_id by simp
      then have "forward ?mid ?db'"
      proof (rule insert_version_forward)
        show "d_versions ?db' = d_versions ?mid @ [pub]"
          unfolding definition_db.select_convs map_append list.map pub_other ..
      qed (simp add: pub_def draft_version)
      with mid show ?thesis unfolding db' using forward_trans [of db ?mid ?db'] by (auto simp: forward_def)
    qed
  qed
qed


section \<open>The manager\<close>

lemma with_audit_db [simp]: "ls_db (snd (with_audit deps action actor tid resource ctx s r)) = snd r"
  by (auto simp: with_audit_def split: prod.split sum.split)

lemma materialize_forward: "forward db (snd (get_or_materialize_control_row now new_id did tid created_by db))"
  unfolding get_or_materialize_control_row_def
proof (rule then_do_forward)
  show "forward db' (snd (case ctrl of Some c \<Rightarrow> (Inr (c, False), db')
       | None \<Rightarrow> then_do (reading (get_definition did tid None) db') (\<lambda>legacy db.
             case legacy of None \<Rightarrow> (Inl (DefinitionNotFound did), db)
             | Some d \<Rightarrow> then_do (create_draft now new_id did tid created_by (wd_content d) db) (\<lambda>c db. (Inr (c, True), db)))))"
    for ctrl db'
    by (cases ctrl) (auto intro!: then_do_forward create_draft_forward split: option.split)
qed simp

lemma effective_forward: "forward db (snd (effective_control now did tid ctrl db))"
  unfolding effective_control_def
  by (auto intro!: then_do_forward update_draft_forward split: option.split sum.split)

lemma publish_flow_forward: "forward db (snd (publish_flow deps now row_id did expected version p tid db))"
  unfolding publish_flow_def
  by (auto intro!: then_do_forward effective_forward publish_draft_forward split: option.split prod.split)

text \<open>One call of the manager by somebody; failed calls included.\<close>

record lifecycle_caller =
  cl_context :: "execution_context option"
  cl_principal :: "security_principal option"
  cl_tenant :: "string option"

datatype lifecycle_event =
    Def_create instant string string string string "workflow_trigger + string" "workflow_priority + string"
      int "(string, pyval) dict list" "(string, pyval) dict" lifecycle_caller
  | Def_update instant string string int update_request lifecycle_caller
  | Def_publish instant string string int "string option" lifecycle_caller
  | Def_archive instant string string "int option" lifecycle_caller
  | Def_clone instant string string string "string option" "string option" lifecycle_caller

fun lifecycle_apply :: "lifecycle_deps \<Rightarrow> lifecycle_state \<Rightarrow> lifecycle_event \<Rightarrow> lifecycle_state" where
  "lifecycle_apply deps s (Def_create now row_id new_def name description trigger priority timeout steps graph c) =
     snd (lifecycle_create deps now row_id new_def name description trigger priority timeout steps graph
            (cl_context c) (cl_principal c) (cl_tenant c) s)"
| "lifecycle_apply deps s (Def_update now row_id did expected u c) =
     snd (lifecycle_update deps now row_id did expected u (cl_context c) (cl_principal c) (cl_tenant c) s)"
| "lifecycle_apply deps s (Def_publish now row_id did expected version c) =
     snd (lifecycle_publish deps now row_id did expected version (cl_context c) (cl_principal c) (cl_tenant c) s)"
| "lifecycle_apply deps s (Def_archive now row_id did expected c) =
     snd (lifecycle_archive deps now row_id did expected (cl_context c) (cl_principal c) (cl_tenant c) s)"
| "lifecycle_apply deps s (Def_clone now row_id new_def did name version c) =
     snd (lifecycle_clone deps now row_id new_def did name version (cl_context c) (cl_principal c) (cl_tenant c) s)"

lemma lifecycle_apply_forward: "forward (ls_db s) (ls_db (lifecycle_apply deps s e))"
proof (cases e)
  case Def_create
  then show ?thesis
    by (auto simp: lifecycle_create_def create_draft_forward split: sum.split)
next
  case Def_update
  then show ?thesis
    by (auto simp: lifecycle_update_def split: sum.split
        intro!: then_do_forward materialize_forward update_draft_forward)
next
  case Def_publish
  then show ?thesis
    by (auto simp: lifecycle_publish_def Let_def publish_flow_forward split: sum.split)
next
  case Def_archive
  then show ?thesis
    by (auto simp: lifecycle_archive_def split: sum.split
        intro!: then_do_forward materialize_forward archive_forward)
next
  case Def_clone
  then show ?thesis
    by (auto simp: lifecycle_clone_def create_draft_forward split: sum.split)
qed

definition forward_state :: "lifecycle_state \<Rightarrow> lifecycle_state \<Rightarrow> bool" where
  "forward_state s t \<longleftrightarrow> forward (ls_db s) (ls_db t)"

interpretation definitions: monotone_machine "lifecycle_apply deps" forward_state for deps
  by unfold_locales
    (auto simp: forward_state_def lifecycle_apply_forward intro: forward_trans)

lemma frozen_run:
  assumes "db_inv (ls_db s)" "r \<in> set (d_versions (ls_db s))" "dv_status r \<noteq> DS_DRAFT"
  shows "r \<in> set (d_versions (ls_db (run (lifecycle_apply deps) s es)))"
proof -
  have "versions_step (ls_db s) (ls_db (run (lifecycle_apply deps) s es))"
    using definitions.below_run [of s deps es] assms(1) by (simp add: forward_state_def forward_def)
  then obtain r' where "r' \<in> set (d_versions (ls_db (run (lifecycle_apply deps) s es)))" "row_step r r'"
    using assms(2) by (auto simp: versions_step_def)
  with assms(3) show ?thesis by (auto simp: row_step_def)
qed


section \<open>Version numbers\<close>

definition key_le :: "int \<times> int \<times> int \<Rightarrow> int \<times> int \<times> int \<Rightarrow> bool" where
  "key_le k l \<longleftrightarrow> \<not> key_less l k"

lemma key_le_refl [simp]: "key_le k k"
  by (simp add: key_le_def key_less_def split: prod.split)

lemma key_le_trans: "key_le a b \<Longrightarrow> key_le b c \<Longrightarrow> key_le a c"
  by (cases a; cases b; cases c) (auto simp: key_le_def key_less_def)

lemma latest_version_max:
  "\<forall>w \<in> set (v # vs). key_le (semver_key w) (semver_key (latest_version v vs))"
proof (induction vs arbitrary: v)
  case (Cons w vs)
  let ?b = "if key_less (semver_key v) (semver_key w) then w else v"
  have step: "latest_version v (w # vs) = latest_version ?b vs" by (simp add: latest_version_def)
  have "key_le (semver_key v) (semver_key ?b)" "key_le (semver_key w) (semver_key ?b)"
    by (cases "semver_key v"; cases "semver_key w"; auto simp: key_le_def key_less_def)+
  note below = this
  have best: "key_le (semver_key ?b) (semver_key (latest_version ?b vs))"
    "\<forall>x \<in> set vs. key_le (semver_key x) (semver_key (latest_version ?b vs))"
    using Cons [of ?b] by simp_all
  have "key_le (semver_key v) (semver_key (latest_version ?b vs))"
    "key_le (semver_key w) (semver_key (latest_version ?b vs))"
    using key_le_trans [OF below(1) best(1)] key_le_trans [OF below(2) best(1)] by simp_all
  with best(2) show ?case unfolding step by simp
qed (simp add: latest_version_def)

lemma semver_show: "semver_key (show_version (a, b, c)) = (a, b, c)"
proof -
  have no_dot: "CHR ''.'' \<notin> set (show_int i)" for i using show_int_chars by blast
  have "split_on (CHR ''.'') (show_version (a, b, c)) = [show_int a, show_int b, show_int c]"
    unfolding show_version_def prod.case
    using no_dot by (simp add: split_on_first split_on_none)
  then show ?thesis by (simp add: semver_key_def py_int_show)
qed

lemma next_version_greater:
  assumes "w \<in> set candidates"
  shows "key_less (semver_key w) (semver_key (next_version_from candidates))"
proof -
  obtain v vs where c: "candidates = v # vs" using assms by (cases candidates) auto
  obtain a b k where l: "semver_key (latest_version v vs) = (a, b, k)" by (metis prod_cases3)
  have "key_le (semver_key w) (a, b, k)" using latest_version_max [of v vs] assms l by (auto simp: c)
  then show ?thesis
    by (cases "semver_key w") (auto simp: next_version_from_def c l semver_show key_le_def key_less_def)
qed

lemma next_version_fresh: "next_version_from candidates \<notin> set candidates"
  using next_version_greater [of "next_version_from candidates" candidates]
  by (auto simp: key_less_def split: prod.splits)

section \<open>What publishing guarantees\<close>

lemma then_do_Inr:
  assumes "then_do r f = (Inr y, db')"
  obtains x db where "r = (Inr x, db)" "f x db = (Inr y, db')"
  using assms by (cases r; cases "fst r") (auto simp: then_do_def)

lemma reading_Inr: "reading q db = (Inr x, db') \<longleftrightarrow> q db = Inr x \<and> db' = db"
  by (auto simp: reading_def)

lemma collect_steps_nodes:
  assumes "collect_steps g ids = Inr steps" "distinct (map node_id (nodes g))"
  shows "\<forall>s \<in> set steps. \<exists>n \<in> set (nodes g). node_to_step n = Inr s"
proof -
  let ?P = "\<lambda>acc. \<forall>s \<in> set acc. \<exists>n \<in> set (nodes g). node_to_step n = Inr s"
  have step: "?P acc'" if "?P acc" "(case dict_get (nodes_by_id g) i of None \<Rightarrow> Inl (MissingDegree i)
        | Some n \<Rightarrow> bind_res (node_to_step n) (\<lambda>s. Inr (acc @ [s]))) = Inr acc'" for acc i acc'
  proof -
    from that(2) obtain n s where "map_of (nodes_by_id g) i = Some n" "node_to_step n = Inr s" "acc' = acc @ [s]"
      by (auto simp: bind_res_Inr_iff split: option.splits)
    then show ?thesis using that(1) by (auto simp: nodes_by_id_get [OF assms(2)])
  qed
  have "?P steps"
    by (rule fold_res_invariant [where P = ?P, OF assms(1) [unfolded collect_steps_def]]) (use step in auto)
  then show ?thesis .
qed


lemma control_unique:
  assumes "db_inv db" "r \<in> set (d_versions db)" "q \<in> set (d_versions db)" "control_row did tid r" "control_row did tid q"
  shows "q = r"
proof -
  have "version_key q = version_key r" using assms(4,5) by (simp add: control_row_def version_key_def)
  with assms(1-3) show ?thesis by (auto simp: db_inv_def distinct_map dest: inj_onD)
qed

lemma find_control:
  assumes "db_inv db" "r \<in> set (d_versions db)" "control_row did tid r"
  shows "find (control_row did tid) (d_versions db) = Some r"
proof (cases "find (control_row did tid) (d_versions db)")
  case None
  with assms(2,3) show ?thesis by (auto simp: find_None_iff)
next
  case (Some q)
  then have "q \<in> set (d_versions db)" "control_row did tid q" by (auto simp: find_Some_iff)
  with assms Some control_unique show ?thesis by blast
qed

lemma guarded_update_Inr:
  assumes "db_inv db" "guarded_update did tid expected change db = (Inr v, db')"
    "\<And>r. lockable did tid expected r \<Longrightarrow> row_step r (change r)"
  shows "\<exists>r \<in> set (d_versions db). lockable did tid expected r \<and> v = change r \<and>
     find (control_row did tid) (d_versions db') = Some v \<and>
     d_versions db' = map (\<lambda>r. if lockable did tid expected r then change r else r) (d_versions db) \<and>
     d_definitions db' = d_definitions db"
proof -
  from assms(2) obtain r where r: "r \<in> set (d_versions db)" "lockable did tid expected r"
    by (auto simp: guarded_update_def split: if_splits)
  let ?db1 = "db\<lparr>d_versions := map (\<lambda>r. if lockable did tid expected r then change r else r) (d_versions db)\<rparr>"
  have inv: "db_inv ?db1"
    using map_rows_forward [of ?db1 "\<lambda>r. if lockable did tid expected r then change r else r" db] assms(1,3)
    by (auto simp: forward_def)
  have "version_key (change r) = version_key r" using assms(3) [OF r(2)] by (auto simp: row_step_def)
  then have "control_row did tid (change r)" using r(2) by (auto simp: lockable_def control_row_def version_key_def)
  then have "find (control_row did tid) (d_versions ?db1) = Some (change r)"
    using r by (intro find_control [OF inv]) force+
  then show ?thesis using assms(2) r
    by (auto simp: guarded_update_def Let_def model_to_definition_version_def split: if_splits)
qed

lemma get_control_Inr:
  "get_control_row did tid db = Inr (Some c) \<longleftrightarrow>
     find (control_row did tid) (d_versions db) = Some c \<and> model_accepts c"
  by (auto simp: get_control_row_def bind_res_Inr_iff model_to_definition_version_def split: option.splits)

lemma effective_control_Inr:
  assumes "effective_control now did tid ctrl db = (Inr (ctrl', steps), db')" "db_inv db"
    "find (control_row did tid) (d_versions db) = Some ctrl"
  shows "find (control_row did tid) (d_versions db') = Some ctrl' \<and>
     dv_content ctrl' = (dv_content ctrl)\<lparr>dc_steps := steps\<rparr> \<and>
     (\<forall>g. dc_graph (dv_content ctrl) = Some g \<longrightarrow> graph_to_steps g = Inr steps) \<and>
     d_definitions db' = d_definitions db \<and>
     (\<forall>q. dv_status q = DS_PUBLISHED \<longrightarrow> q \<in> set (d_versions db') \<longleftrightarrow> q \<in> set (d_versions db)) \<and>
     version_key ` set (d_versions db') = version_key ` set (d_versions db)"
proof (cases "dc_graph (dv_content ctrl)")
  case None
  then show ?thesis using assms by (auto simp: effective_control_def)
next
  case (Some g)
  show ?thesis
  proof (cases "graph_to_steps g")
    case (Inl e)
    then show ?thesis using assms(1) Some by (auto simp: effective_control_def)
  next
    case (Inr st)
    show ?thesis
    proof (cases "st = dc_steps (dv_content ctrl)")
      case True
      then show ?thesis using assms Some Inr by (auto simp: effective_control_def)
    next
      case False
      let ?change = "\<lambda>r. r\<lparr>dv_content := apply_update (no_update\<lparr>uc_steps := Some st\<rparr>) (dv_content r),
         dv_lock_version := dv_lock_version ctrl + 1, dv_updated_at := Some now\<rparr>"
      have upd: "guarded_update did tid (dv_lock_version ctrl) ?change db = (Inr ctrl', db')" and st: "steps = st"
        using assms(1) Some Inr False
        by (auto simp: effective_control_def update_draft_def then_do_def split: prod.splits sum.splits)
      have step: "row_step r (?change r)" if "lockable did tid (dv_lock_version ctrl) r" for r
        using that by (auto simp: lockable_def row_step_def version_key_def)
      from guarded_update_Inr [OF assms(2) upd step] obtain r where
        r: "r \<in> set (d_versions db)" "lockable did tid (dv_lock_version ctrl) r" "ctrl' = ?change r"
        and found: "find (control_row did tid) (d_versions db') = Some ctrl'"
        and rows: "d_versions db' = map (\<lambda>r. if lockable did tid (dv_lock_version ctrl) r then ?change r else r) (d_versions db)"
        and defs: "d_definitions db' = d_definitions db" by blast
      have "find (control_row did tid) (d_versions db) = Some r"
        using r by (intro find_control [OF assms(2)]) (auto simp: lockable_def)
      then have "r = ctrl" using assms(3) by simp
      then have content: "dv_content ctrl' = (dv_content ctrl)\<lparr>dc_steps := steps\<rparr>"
        using r(3) st by (cases "dv_content ctrl") (simp add: apply_update_def no_update_def or_else_def)
      have pub: "q \<in> set (d_versions db') \<longleftrightarrow> q \<in> set (d_versions db)" if "dv_status q = DS_PUBLISHED" for q
        using that by (auto simp: rows lockable_def image_iff)
      have "version_key (if lockable did tid (dv_lock_version ctrl) r then ?change r else r) = version_key r" for r
        by (simp add: version_key_def)
      then have keys: "version_key ` set (d_versions db') = version_key ` set (d_versions db)"
        unfolding rows by (intro image_map_same)
      show ?thesis using found content defs pub keys Inr Some st by simp
    qed
  qed
qed

lemma traverse_Inr: "traverse f xs = Inr ys \<Longrightarrow> list_all2 (\<lambda>x y. f x = Inr y) xs ys"
  by (induction xs arbitrary: ys) (auto simp: bind_res_Inr_iff)

lemma published_candidates_Inr:
  assumes "published_candidates did tid db = Inr cs" "r \<in> set (d_versions db)"
    "dv_definition_id r = did" "dv_tenant_id r = tid" "dv_status r = DS_PUBLISHED"
  shows "dv_version r \<in> set cs"
proof -
  obtain vs where vs: "list_definition_versions did tid db = Inr vs"
    "set (map dv_version (filter (\<lambda>v. dv_status v = DS_PUBLISHED) vs)) \<subseteq> set cs"
    using assms(1) by (auto simp: published_candidates_def bind_res_Inr_iff)
  from traverse_Inr [OF vs(1) [unfolded list_definition_versions_def]]
  have "list_all2 (=) (sort_key (\<lambda>r. case dv_created_at r of None \<Rightarrow> 0 | Some t \<Rightarrow> t)
      (filter (\<lambda>r. dv_definition_id r = did \<and> dv_tenant_id r = tid) (d_versions db))) vs"
    by (rule list_all2_mono) (simp add: model_to_definition_version_def split: if_splits)
  then have "r \<in> set vs" using assms(2-5) by (auto simp: list.rel_eq)
  with vs(2) assms(5) show ?thesis by auto
qed

definition capability_allowed :: "lifecycle_deps \<Rightarrow> security_principal option \<Rightarrow> string \<Rightarrow> string \<Rightarrow> bool" where
  "capability_allowed deps p tid cap \<longleftrightarrow>
     (\<exists>lookup d. lm_kernel deps = Some lookup \<and> lookup cap = Some d \<and>
        (\<forall>q decide. p = Some q \<longrightarrow> lm_security deps = Some decide \<longrightarrow>
           (\<exists>a. decide q (requirement_of d)
                  (Some [(''resource_tenant_id'', PStr tid)]) = Some a \<and> is_allowed a)))"

lemma check_capability_Inr: "check_capability deps p tid cap = Inr () \<Longrightarrow> capability_allowed deps p tid cap"
  by (auto simp: check_capability_def capability_allowed_def split: option.splits if_splits)

definition publishable :: "lifecycle_deps \<Rightarrow> security_principal option \<Rightarrow> string \<Rightarrow> definition_content \<Rightarrow> bool" where
  "publishable deps p tid c \<longleftrightarrow>
     dc_steps c \<noteq> [] \<and>
     (\<forall>g. dc_graph c = Some g \<longrightarrow> graph_to_steps g = Inr (dc_steps c)) \<and>
     (\<forall>s \<in> set (dc_steps c). ws_is_approval_step s \<longrightarrow> ws_capability_name s = None) \<and>
     (\<forall>cap \<in> collect_referenced_capabilities c. capability_allowed deps p tid cap)"


lemma graph_to_steps_nodes:
  assumes "graph_to_steps g = Inr steps"
  shows "\<forall>s \<in> set steps. \<exists>n \<in> set (nodes g). node_to_step n = Inr s"
proof -
  have wf: "well_formed_graph g" using graph_to_steps_Inr [OF assms] by simp
  then have "distinct (map node_id (nodes g))" by (simp add: well_formed_graph_def)
  moreover obtain ids where "collect_steps g ids = Inr steps"
    using assms by (auto simp: graph_to_steps_cases [OF wf] Let_def bind_res_Inr_iff split: if_splits)
  ultimately show ?thesis by (rule collect_steps_nodes [rotated])
qed

lemma concat_map_Nil: "concat (map f xs) = [] \<longleftrightarrow> (\<forall>x \<in> set xs. f x = [])"
  by (induction xs) auto

lemma valid_content_approvals:
  assumes "validate_content deps c = Inr report" "vr_is_valid report"
  shows "(\<forall>g. dc_graph c = Some g \<longrightarrow>
       (\<forall>n \<in> set (nodes g). approval_node n \<longrightarrow> gn_capability_name n = None)) \<and>
     (\<forall>s \<in> set (dc_steps c). ws_is_approval_step s \<longrightarrow> ws_capability_name s = None)"
proof -
  from assms obtain ge gw where g: "(case dc_graph c of None \<Rightarrow> Inr ([], []) | Some g \<Rightarrow> graph_problems deps g) = Inr (ge, gw)"
    and none: "ge = []" "fst (step_problems deps c) = []"
    by (auto simp: validate_content_def bind_res_Inr_iff Let_def)
  have "gn_capability_name n = None" if "dc_graph c = Some x" "n \<in> set (nodes x)" "approval_node n" for x n
  proof -
    from g none that(1) have "concat (map (\<lambda>n. if approval_node n then
        (case gn_capability_name n of None \<Rightarrow> [] | Some c \<Rightarrow> [ApprovalNodeCapability (node_id n) c]) else []) (nodes x)) = []"
      by (auto simp: graph_problems_def bind_res_Inr_iff)
    from bspec [OF this [unfolded concat_map_Nil] that(2)] show ?thesis
      using that(3) by (simp split: option.splits)
  qed
  moreover have "ws_capability_name s = None" if "s \<in> set (dc_steps c)" "ws_is_approval_step s" for s
  proof -
    have "dc_steps c \<noteq> []" using that(1) by auto
    with none(2) have "concat (map (\<lambda>s. if ws_is_approval_step s then
        (case ws_capability_name s of None \<Rightarrow> [] | Some n \<Rightarrow> [ApprovalStepCapability (ws_id s) n]) else []) (dc_steps c)) = []"
      by (simp add: step_problems_def)
    from bspec [OF this [unfolded concat_map_Nil] that(1)] show ?thesis
      using that(2) by (simp split: option.splits)
  qed
  ultimately show ?thesis by blast
qed

lemma node_to_step_approval:
  assumes "node_to_step n = Inr s" "ws_is_approval_step s"
  shows "approval_node n \<and> ws_capability_name s = gn_capability_name n"
  using assms by (auto simp: node_to_step_def bind_res_Inr_iff Let_def or_else_def approval_node_def
      empty_metadata_def split: option.splits)

lemma publish_draft_Inr:
  assumes "publish_draft now new_id did tid expected version db = (Inr v, db')"
    "find (control_row did tid) (d_versions db) = Some draft"
  shows "dv_content v = dv_content draft \<and> dv_status v = DS_PUBLISHED \<and> dv_version v = version \<and>
     dv_definition_id v = did \<and> dv_tenant_id v = tid \<and> model_accepts v \<and>
     version_key v \<notin> version_key ` set (d_versions db) \<and> dv_id v \<notin> dv_id ` set (d_versions db) \<and>
     dv_id draft \<in> dv_id ` set (d_versions db) \<and> dv_lock_version draft = expected \<and>
     v \<in> set (d_versions db') \<and>
     project did tid version (dv_content draft) (d_definitions db) = Some (d_definitions db')"
proof -
  from assms have read: "publish_read did tid expected db = Inr draft"
    by (auto simp: publish_draft_def publish_read_def split: sum.splits option.splits if_splits)
  let ?pub = "\<lparr>dv_id = new_id, dv_definition_id = did, dv_tenant_id = tid, dv_version = version,
     dv_status = DS_PUBLISHED, dv_content = dv_content draft, dv_created_by = dv_created_by draft,
     dv_lock_version = 1, dv_created_at = Some now, dv_updated_at = Some now, dv_published_at = Some now\<rparr>"
  from assms read obtain rows defs where
    i: "insert_version ?pub (d_versions db) = Some rows"
    and p: "project did tid version (dv_content draft) (d_definitions db) = Some defs"
    and v: "model_to_definition_version ?pub = Inr v"
    and db': "db' = \<lparr>d_versions = map (\<lambda>r. if dv_id r = dv_id draft
        then r\<lparr>dv_lock_version := expected + 1, dv_updated_at := Some now\<rparr> else r) rows, d_definitions = defs\<rparr>"
    by (auto simp: publish_draft_def publish_write_def Let_def split: option.splits)
  from v have vp: "v = ?pub" "model_accepts v" by (auto simp: model_to_definition_version_def split: if_splits)
  from i have rows: "rows = d_versions db @ [?pub]" and new: "dv_id ?pub \<notin> dv_id ` set (d_versions db)"
    "version_key ?pub \<notin> version_key ` set (d_versions db)"
    using insert_version_Some [OF i] by blast+
  have d: "draft \<in> set (d_versions db)" using publish_read_Inr [OF read] by simp
  then have "dv_id draft \<noteq> new_id" using new(1) by auto
  then have "?pub \<in> set (d_versions db')" unfolding db' rows by simp
  then show ?thesis using vp new p d publish_read_Inr [OF read] by (simp add: db')
qed

lemma project_get:
  assumes "project did tid version c defs = Some defs'" "1 \<le> dc_timeout_seconds c" "tid \<noteq> []"
    "d_definitions db' = defs'"
  shows "get_definition did tid None db' =
     Inr (Some \<lparr>wd_id = did, wd_tenant_id = tid, wd_version = version, wd_content = legacy_content c\<rparr>)"
proof -
  let ?P = "\<lambda>r. wd_id r = did \<and> wd_tenant_id r = tid"
  have P: "(\<lambda>r. wd_id r = did \<and> tenant_matches tid (wd_tenant_id r)) = ?P"
    using assms(3) by (auto simp: tenant_matches_def)
  let ?row = "\<lparr>wd_id = did, wd_tenant_id = tid, wd_version = version, wd_content = legacy_content c\<rparr>"
  have "find ?P defs' = Some ?row"
  proof (cases "find ?P defs")
    case None
    then have "defs' = defs @ [?row]" using assms(1) by (auto simp: project_def split: if_splits)
    moreover have "find ?P (xs @ [?row]) = Some ?row" if "find ?P xs = None" for xs
      using that by (induction xs) (auto split: if_splits)
    ultimately show ?thesis using None by simp
  next
    case (Some p)
    let ?f = "\<lambda>r. if ?P r then r\<lparr>wd_version := version, wd_content := legacy_content c\<rparr> else r"
    have "defs' = map ?f defs" using assms(1) Some by (simp add: project_def)
    moreover have "find ?P (map ?f xs) = Some ?row" if "find ?P xs = Some p" for xs
      using that by (induction xs) (auto split: if_splits)
    ultimately show ?thesis using Some by simp
  qed
  then show ?thesis using assms(2)
    by (simp add: get_definition_def P assms(4) model_to_definition_def legacy_content_def)
qed

lemma publish_flow_sound:
  assumes inv: "db_inv db" and pub: "publish_flow deps now row_id did expected version p tid db = (Inr v, db')"
  shows "publishable deps p tid (dv_content v) \<and> dv_status v = DS_PUBLISHED \<and> model_accepts v \<and>
     v \<in> set (d_versions db') \<and> version_key v = (tid, did, dv_version v) \<and>
     version_key v \<notin> version_key ` set (d_versions db) \<and>
     (version = None \<longrightarrow> (\<forall>r \<in> set (d_versions db). dv_definition_id r = did \<longrightarrow> dv_tenant_id r = tid \<longrightarrow>
        dv_status r = DS_PUBLISHED \<longrightarrow> key_less (semver_key (dv_version r)) (semver_key (dv_version v)))) \<and>
     (tid \<noteq> [] \<longrightarrow> get_definition did tid None db' =
        Inr (Some \<lparr>wd_id = did, wd_tenant_id = tid, wd_version = dv_version v,
                   wd_content = legacy_content (dv_content v)\<rparr>))"
proof -
  from pub obtain ctrl where c0: "get_control_row did tid db = Inr (Some ctrl)"
    by (auto simp: publish_flow_def then_do_def reading_def split: prod.splits sum.splits option.splits if_splits)
  from c0 pub obtain report ctrl' steps db1 where
    rep: "validate_content deps (dv_content ctrl) = Inr report" "vr_is_valid report"
    and eff: "effective_control now did tid ctrl db = (Inr (ctrl', steps), db1)" and ne: "steps \<noteq> []"
    and rest: "then_do (check_all (check_capability deps p tid)
        (sorted_list_of_set (collect_referenced_capabilities (dv_content ctrl'))), db1) (\<lambda>_ db.
          then_do (reading (published_candidates did tid) db) (\<lambda>candidates db.
            publish_draft now row_id did tid (dv_lock_version ctrl')
              (case version of Some v \<Rightarrow> v | None \<Rightarrow> next_version_from candidates) db)) = (Inr v, db')"
    by (auto simp: publish_flow_def then_do_def [of "(_ :: _ + _, _)"] reading_def
        elim!: then_do_Inr split: sum.splits if_splits)
  from rest obtain cs where
    caps: "check_all (check_capability deps p tid)
       (sorted_list_of_set (collect_referenced_capabilities (dv_content ctrl'))) = Inr ()"
    and cs: "published_candidates did tid db1 = Inr cs"
    and pd: "publish_draft now row_id did tid (dv_lock_version ctrl')
       (case version of Some v \<Rightarrow> v | None \<Rightarrow> next_version_from cs) db1 = (Inr v, db')"
    by (auto simp: reading_Inr elim!: then_do_Inr)
  have found: "find (control_row did tid) (d_versions db) = Some ctrl" "model_accepts ctrl"
    using c0 by (simp_all add: get_control_Inr)
  note e = effective_control_Inr [OF eff inv found(1)]
  from publish_draft_Inr [OF pd] e have
    v: "dv_content v = dv_content ctrl'" "dv_status v = DS_PUBLISHED" "v \<in> set (d_versions db')"
      "dv_definition_id v = did" "dv_tenant_id v = tid" "model_accepts v"
      "dv_version v = (case version of Some v \<Rightarrow> v | None \<Rightarrow> next_version_from cs)"
      "version_key v \<notin> version_key ` set (d_versions db1)"
      "project did tid (dv_version v) (dv_content ctrl') (d_definitions db1) = Some (d_definitions db')" by auto
  have content: "dv_content v = (dv_content ctrl)\<lparr>dc_steps := steps\<rparr>" using v(1) e by simp
  have fin: "finite (collect_referenced_capabilities (dv_content ctrl'))"
    by (auto simp: collect_referenced_capabilities_def split: option.split)
  have "\<forall>cap \<in> collect_referenced_capabilities (dv_content v). capability_allowed deps p tid cap"
    using caps check_capability_Inr by (simp add: check_all_ok fin v(1))
  moreover have "ws_capability_name s = None" if "s \<in> set steps" "ws_is_approval_step s" for s
  proof (cases "dc_graph (dv_content ctrl)")
    case None
    then have "steps = dc_steps (dv_content ctrl)" using eff by (auto simp: effective_control_def)
    then show ?thesis using valid_content_approvals [OF rep] that by blast
  next
    case (Some g)
    then have "graph_to_steps g = Inr steps" using e by blast
    from graph_to_steps_nodes [OF this] that obtain n where "n \<in> set (nodes g)" "node_to_step n = Inr s" by blast
    with node_to_step_approval [OF _ that(2)] valid_content_approvals [OF rep] Some show ?thesis by metis
  qed
  ultimately have "publishable deps p tid (dv_content v)"
    using ne e content by (simp add: publishable_def)
  moreover have "key_less (semver_key (dv_version r)) (semver_key (dv_version v))"
    if "version = None" "r \<in> set (d_versions db)" "dv_definition_id r = did" "dv_tenant_id r = tid" "dv_status r = DS_PUBLISHED" for r
  proof -
    have "r \<in> set (d_versions db1)" using e that(2,5) by blast
    from published_candidates_Inr [OF cs this that(3-5)] show ?thesis
      using v(7) that(1) next_version_greater by simp
  qed
  moreover have "get_definition did tid None db' =
      Inr (Some \<lparr>wd_id = did, wd_tenant_id = tid, wd_version = dv_version v, wd_content = legacy_content (dv_content v)\<rparr>)"
    if "tid \<noteq> []"
    using project_get [OF v(9) _ that refl] v(1,6) by (simp add: model_accepts_def)
  moreover have "version_key v \<notin> version_key ` set (d_versions db)" using v(8) e by simp
  ultimately show ?thesis using v by (simp add: version_key_def)
qed

section \<open>Pinned versions\<close>

lemma get_published_row:
  assumes "db_inv db" "r \<in> set (d_versions db)" "dv_status r = DS_PUBLISHED" "model_accepts r"
  shows "get_published_version (dv_definition_id r) (dv_tenant_id r) (dv_version r) db = Inr (Some r)"
proof -
  let ?P = "\<lambda>q. dv_definition_id q = dv_definition_id r \<and> dv_tenant_id q = dv_tenant_id r \<and>
     dv_version q = dv_version r \<and> dv_status q = DS_PUBLISHED"
  obtain q where q: "find ?P (d_versions db) = Some q"
    using assms(2,3) by (cases "find ?P (d_versions db)") (auto simp: find_None_iff)
  then have "q \<in> set (d_versions db)" "version_key q = version_key r"
    by (auto simp: find_Some_iff version_key_def)
  with assms(1,2) have "q = r" by (auto simp: db_inv_def distinct_map dest: inj_onD)
  with q assms(4) show ?thesis by (simp add: get_published_version_def model_to_definition_version_def)
qed

lemma pinned_run:
  assumes "db_inv (ls_db s)" "r \<in> set (d_versions (ls_db s))" "dv_status r = DS_PUBLISHED" "model_accepts r"
  shows "get_published_version (dv_definition_id r) (dv_tenant_id r) (dv_version r)
     (ls_db (run (lifecycle_apply deps) s es)) = Inr (Some r)"
proof -
  have "db_inv (ls_db (run (lifecycle_apply deps) s es))"
    using definitions.below_run [of s deps es] assms(1) by (simp add: forward_state_def forward_def)
  moreover have "r \<in> set (d_versions (ls_db (run (lifecycle_apply deps) s es)))"
    using frozen_run [OF assms(1,2)] assms(3) by simp
  ultimately show ?thesis using assms(3,4) by (intro get_published_row)
qed

text \<open>A successful \<open>publish\<close> is a successful run of its flow, audited.\<close>

lemma lifecycle_publish_Inr:
  assumes "lifecycle_publish deps now row_id did expected version ec who tenant s = (Inr v, s')"
  shows "\<exists>p tid. resolve_identity ec who tenant = Inr (p, tid) \<and>
     publish_flow deps now row_id did expected version p tid (ls_db s) = (Inr v, ls_db s')"
proof (cases "resolve_identity ec who tenant")
  case (Inl e)
  with assms show ?thesis by (simp add: lifecycle_publish_def)
next
  case (Inr r)
  obtain p tid where r: "r = (p, tid)" by (cases r)
  obtain res db where f: "publish_flow deps now row_id did expected version p tid (ls_db s) = (res, db)"
    by (cases "publish_flow deps now row_id did expected version p tid (ls_db s)")
  have "res = Inr v \<and> db = ls_db s'"
    using assms by (auto simp: lifecycle_publish_def Inr r f Let_def with_audit_def split: sum.splits if_splits)
  with Inr r f show ?thesis by blast
qed

lemma lifecycle_publish_state: "lifecycle_publish deps now row_id did expected version ec who tenant s = (r, s') \<Longrightarrow>
   s' = lifecycle_apply deps s (Def_publish now row_id did expected version
          \<lparr>cl_context = ec, cl_principal = who, cl_tenant = tenant\<rparr>)"
  by simp

end
