(* ===== verification/Effects.thy ===== *)
theory Effects
  imports Main
begin

text \<open>
  Handlers as effects on a state: an effect may raise, and what it changed before raising stays
  changed.  The locale \<open>effect_order\<close> is what every composition of effects preserves.
\<close>

section \<open>Composition\<close>

type_synonym ('s, 'e, 'a) eff = "'s \<Rightarrow> ('e + 'a) \<times> 's"

definition ret :: "'a \<Rightarrow> ('s, 'e, 'a) eff" where "ret x s = (Inr x, s)"
definition raise_error :: "'e \<Rightarrow> ('s, 'e, 'a) eff" where "raise_error e s = (Inl e, s)"
definition modify :: "('s \<Rightarrow> 's) \<Rightarrow> ('s, 'e, unit) eff" where "modify f s = (Inr (), f s)"
definition reads :: "('s \<Rightarrow> 'a) \<Rightarrow> ('s, 'e, 'a) eff" where "reads f s = (Inr (f s), s)"

definition bind_eff :: "('s, 'e, 'a) eff \<Rightarrow> ('a \<Rightarrow> ('s, 'e, 'b) eff) \<Rightarrow> ('s, 'e, 'b) eff" where
  "bind_eff m f s = (case m s of (Inl e, s') \<Rightarrow> (Inl e, s') | (Inr x, s') \<Rightarrow> f x s')"

definition seq_eff :: "('s, 'e, unit) eff \<Rightarrow> ('s, 'e, 'b) eff \<Rightarrow> ('s, 'e, 'b) eff" where
  "seq_eff m k = bind_eff m (\<lambda>_. k)"

definition when_eff :: "bool \<Rightarrow> ('s, 'e, unit) eff \<Rightarrow> ('s, 'e, unit) eff" where
  "when_eff b m = (if b then m else ret ())"

definition lift_res :: "('e + 'a) \<Rightarrow> ('s, 'e, 'a) eff" where "lift_res r s = (r, s)"

text \<open>\<open>try: ... except Exception\<close> around an effect whose error is only logged.\<close>

definition swallow :: "('s, 'e, unit) eff \<Rightarrow> ('s, 'e, unit) eff" where
  "swallow m s = (Inr (), snd (m s))"

text \<open>\<open>except Exception: return None\<close> around the whole body of a function that returns an option.\<close>

definition attempt_eff :: "('s, 'e, 'a option) eff \<Rightarrow> ('s, 'e, 'a option) eff" where
  "attempt_eff m s = (case m s of (Inl e, s') \<Rightarrow> (Inr None, s') | (Inr x, s') \<Rightarrow> (Inr x, s'))"

fun each :: "('a \<Rightarrow> ('s, 'e, unit) eff) \<Rightarrow> 'a list \<Rightarrow> ('s, 'e, unit) eff" where
  "each f [] = ret ()"
| "each f (x # xs) = seq_eff (f x) (each f xs)"

text \<open>
  What effects preserve: a reflexive and transitive relation between states that every primitive
  respects is respected by what is composed of them.
\<close>

locale effect_order =
  fixes below :: "'s \<Rightarrow> 's \<Rightarrow> bool"
  assumes refl_below: "below s s"
    and trans_below: "below s t \<Longrightarrow> below t u \<Longrightarrow> below s u"
begin

definition climbs :: "('s, 'e, 'a) eff \<Rightarrow> bool" where
  "climbs m \<longleftrightarrow> (\<forall>s. below s (snd (m s)))"

lemma climbs_ret [simp, intro]: "climbs (ret x)"
  by (simp add: climbs_def ret_def refl_below)

lemma climbs_raise [simp, intro]: "climbs (raise_error e)"
  by (simp add: climbs_def raise_error_def refl_below)

lemma climbs_reads [simp, intro]: "climbs (reads f)"
  by (simp add: climbs_def reads_def refl_below)

lemma climbs_lift [simp, intro]: "climbs (lift_res r)"
  by (simp add: climbs_def lift_res_def refl_below)

lemma climbs_modify [intro]: "(\<And>s. below s (f s)) \<Longrightarrow> climbs (modify f)"
  by (simp add: climbs_def modify_def)

lemma climbs_bind [intro]: "climbs m \<Longrightarrow> (\<And>x. climbs (f x)) \<Longrightarrow> climbs (bind_eff m f)"
proof -
  assume m: "climbs m" and f: "\<And>x. climbs (f x)"
  have "below s (snd (bind_eff m f s))" for s
  proof -
    obtain r s' where ms: "m s = (r, s')" by (cases "m s")
    with m have first: "below s s'" unfolding climbs_def by (metis snd_conv)
    show ?thesis
    proof (cases r)
      case (Inl e)
      with first ms show ?thesis by (simp add: bind_eff_def)
    next
      case (Inr x)
      have "below s' (snd (f x s'))" using f unfolding climbs_def by blast
      with first ms Inr show ?thesis by (simp add: bind_eff_def trans_below)
    qed
  qed
  then show ?thesis by (simp add: climbs_def)
qed

lemma climbs_seq [intro]: "climbs m \<Longrightarrow> climbs k \<Longrightarrow> climbs (seq_eff m k)"
  by (auto simp: seq_eff_def)

lemma climbs_when [intro]: "climbs m \<Longrightarrow> climbs (when_eff b m)"
  by (simp add: when_eff_def)

lemma climbs_swallow [intro]: "climbs m \<Longrightarrow> climbs (swallow m)"
  by (simp add: climbs_def swallow_def)

lemma climbs_each [intro]: "(\<And>x. climbs (f x)) \<Longrightarrow> climbs (each f xs)"
  by (induction xs) auto

lemma climbs_if [intro]: "(b \<Longrightarrow> climbs m) \<Longrightarrow> (\<not> b \<Longrightarrow> climbs k) \<Longrightarrow> climbs (if b then m else k)"
  by simp

lemma climbs_option [intro]:
  "(x = None \<Longrightarrow> climbs m) \<Longrightarrow> (\<And>y. x = Some y \<Longrightarrow> climbs (k y)) \<Longrightarrow>
     climbs (case x of None \<Rightarrow> m | Some y \<Rightarrow> k y)"
  by (simp split: option.split)

lemma climbs_sum [intro]:
  "(\<And>e. x = Inl e \<Longrightarrow> climbs (m e)) \<Longrightarrow> (\<And>y. x = Inr y \<Longrightarrow> climbs (k y)) \<Longrightarrow>
     climbs (case x of Inl e \<Rightarrow> m e | Inr y \<Rightarrow> k y)"
  by (simp split: sum.split)

lemma climbs_run: "climbs m \<Longrightarrow> m s = (r, s') \<Longrightarrow> below s s'"
  unfolding climbs_def by (metis snd_conv)

end

end
