(* ===== verification/Instance_Store.thy ===== *)
theory Instance_Store
  imports Definition_Store Security_Models
begin

text \<open>
  The durable store of workflow instances (the instance and ledger part of \<open>WorkflowStore\<close> in
  \<open>engines/workflow/persistence.py\<close>): rows guarded by an optimistic version, the ledger of step
  runs, and what of an instance's context is written.  JSON columns are held as the values they
  encode; foreign keys are not enforced (the default of the bundled SQLite).
\<close>

section \<open>Columns\<close>

datatype run_status = RUN_RUNNING | RUN_COMPLETED | RUN_FAILED

record step_run_row =
  sn_id :: string
  sn_instance_id :: string
  sn_step_id :: string
  sn_attempt :: nat
  sn_status :: run_status
  sn_started_at :: instant
  sn_completed_at :: "instant option"
  sn_output :: "pyval option"
  sn_error :: "string option"

record instance_db =
  i_definitions :: definition_db
  i_rows :: "workflow_instance list"
  i_runs :: "step_run_row list"

datatype instance_error =
    InstanceNotFound string
  | InstanceConflict string nat
  | InstanceIntegrity string

text \<open>\<open>model_dump(mode="json")\<close>: nested models become objects.\<close>

fun json_dump :: "pyval \<Rightarrow> pyval" where
  "json_dump (PModel d) = PDict (map (\<lambda>(k, v). (k, json_dump v)) d)"
| "json_dump (PDict d) = PDict (map (\<lambda>(k, v). (k, json_dump v)) d)"
| "json_dump (PList vs) = PList (map json_dump vs)"
| "json_dump v = v"

definition dump_dict :: "(string, pyval) dict \<Rightarrow> (string, pyval) dict" where
  "dump_dict d = map (\<lambda>(k, v). (k, json_dump v)) d"

definition CONTEXT_SENSITIVE_KEYS :: "string list" where
  "CONTEXT_SENSITIVE_KEYS =
     [''session_token'', ''auth_token'', ''token'', ''password'', ''secret'', ''secret_key'', ''credentials'',
      ''bearer_token'']"

definition public_entry :: "string \<times> pyval \<Rightarrow> bool" where
  "public_entry e \<longleftrightarrow> py_lower (fst e) \<notin> set CONTEXT_SENSITIVE_KEYS"

definition sanitize_context :: "workflow_context \<Rightarrow> workflow_context" where
  "sanitize_context ctx =
     \<lparr>wc_variables = filter public_entry (dump_dict (wc_variables ctx)),
      wc_step_outputs = dump_dict (wc_step_outputs ctx), wc_metadata = dump_dict (wc_metadata ctx),
      wc_session_token = None\<rparr>"

text \<open>
  What of a step's output the ledger keeps: the value, or its text when \<open>json.dumps\<close> refuses it
  (a model instance anywhere inside); \<open>text_of\<close> is \<open>str\<close>.
\<close>

fun json_able :: "pyval \<Rightarrow> bool" where
  "json_able (PModel d) = False"
| "json_able (PDict d) = (\<forall>(k, v) \<in> set d. json_able v)"
| "json_able (PList vs) = (\<forall>v \<in> set vs. json_able v)"
| "json_able v = True"

definition ledger_output :: "(pyval \<Rightarrow> string) \<Rightarrow> pyval \<Rightarrow> pyval option" where
  "ledger_output text_of v =
     (if v = PNone then None else if json_able v then Some v else Some (PStr (text_of v)))"

definition instance_to_model :: "workflow_instance \<Rightarrow> string \<Rightarrow> workflow_instance" where
  "instance_to_model inst tid =
     inst\<lparr>wi_tenant_id := (if wi_tenant_id inst = [] then tid else wi_tenant_id inst),
          wi_context := sanitize_context (wi_context inst)\<rparr>"

text \<open>An absent or an empty tenant is no filter.\<close>

definition tenant_given :: "string option \<Rightarrow> string \<Rightarrow> bool" where
  "tenant_given tenant t \<longleftrightarrow> (case tenant of None \<Rightarrow> True | Some x \<Rightarrow> x = [] \<or> t = x)"

section \<open>Instances\<close>

definition save_instance ::
  "workflow_instance \<Rightarrow> workflow_definition option \<Rightarrow> string \<Rightarrow> instance_db \<Rightarrow> instance_error + instance_db" where
  "save_instance inst def tenant db =
     (let tid = (if wi_tenant_id inst = [] then tenant else wi_tenant_id inst);
          defs = d_definitions (i_definitions db);
          with_def =
            (case def of
               None \<Rightarrow> Some defs
             | Some d \<Rightarrow>
                 (let owner = (if wd_tenant_id d = [] then tid else wd_tenant_id d) in
                  if \<exists>r \<in> set defs. wd_id r = wd_id d \<and> wd_tenant_id r = owner then Some defs
                  else if \<exists>r \<in> set defs. wd_id r = wd_id d then None
                  else Some (defs @ [d\<lparr>wd_tenant_id := owner, wd_content := legacy_content (wd_content d)\<rparr>])))
      in case with_def of
           None \<Rightarrow> Inl (InstanceIntegrity (wi_id inst))
         | Some defs' \<Rightarrow>
             if \<exists>r \<in> set (i_rows db). wi_id r = wi_id inst then Inl (InstanceIntegrity (wi_id inst))
             else Inr (db\<lparr>i_definitions := (i_definitions db)\<lparr>d_definitions := defs'\<rparr>,
                          i_rows := i_rows db @ [instance_to_model inst tid]\<rparr>))"

text \<open>The \<open>UPDATE ... WHERE id = ... AND version = ...\<close> all writers share.\<close>

definition guarded_row :: "workflow_instance \<Rightarrow> nat \<Rightarrow> string option \<Rightarrow> workflow_instance \<Rightarrow> bool" where
  "guarded_row inst version tenant r \<longleftrightarrow>
     wi_id r = wi_id inst \<and> wi_version r = version \<and> tenant_given tenant (wi_tenant_id r)"

definition write_row :: "instant \<Rightarrow> workflow_instance \<Rightarrow> nat \<Rightarrow> workflow_instance \<Rightarrow> workflow_instance" where
  "write_row now inst next r =
     r\<lparr>wi_current_step_index := wi_current_step_index inst, wi_current_step_id := wi_current_step_id inst,
       wi_state := wi_state inst, wi_status := wi_status inst,
       wi_context := sanitize_context (wi_context inst),
       wi_compensation_stack := wi_compensation_stack inst, wi_version := next, wi_updated_at := now\<rparr>"

definition update_rows ::
  "instant \<Rightarrow> workflow_instance \<Rightarrow> nat \<Rightarrow> string option \<Rightarrow> workflow_instance list \<Rightarrow> nat \<times> workflow_instance list" where
  "update_rows now inst version tenant rows =
     (length (filter (guarded_row inst version tenant) rows),
      map (\<lambda>r. if guarded_row inst version tenant r then write_row now inst (version + 1) r else r) rows)"

definition get_instance :: "string \<Rightarrow> string option \<Rightarrow> instance_db \<Rightarrow> workflow_instance option" where
  "get_instance iid tenant db =
     find (\<lambda>r. wi_id r = iid \<and> tenant_given tenant (wi_tenant_id r)) (i_rows db)"

text \<open>The object's version moves only after the transaction.\<close>

definition update_instance ::
  "instant \<Rightarrow> workflow_instance \<Rightarrow> string option \<Rightarrow> instance_db \<Rightarrow>
   instance_error + (workflow_instance \<times> instance_db)" where
  "update_instance now inst tenant db =
     (case update_rows now inst (wi_version inst) tenant (i_rows db) of
        (n, rows) \<Rightarrow>
          if n = 0 then
            (case get_instance (wi_id inst) None db of
               None \<Rightarrow> Inl (InstanceNotFound (wi_id inst))
             | Some existing \<Rightarrow> Inl (InstanceConflict (wi_id inst) (wi_version existing)))
          else Inr (inst\<lparr>wi_version := wi_version inst + 1\<rparr>, db\<lparr>i_rows := rows\<rparr>))"

definition list_instances :: "string option \<Rightarrow> workflow_state option \<Rightarrow> instance_db \<Rightarrow> workflow_instance list" where
  "list_instances tenant state db =
     filter (\<lambda>r. tenant_given tenant (wi_tenant_id r) \<and>
                 (case state of None \<Rightarrow> True | Some s \<Rightarrow> wi_state r = s)) (i_rows db)"

definition get_unfinalized_instances :: "string option \<Rightarrow> instance_db \<Rightarrow> workflow_instance list" where
  "get_unfinalized_instances tenant db =
     filter (\<lambda>r. wi_state r \<notin> {WS_COMPLETED, WS_FAILED, WS_CANCELLED} \<and> tenant_given tenant (wi_tenant_id r)) (i_rows db)"

section \<open>The ledger of step runs\<close>

text \<open>A failure to write the ledger is logged and the run identifier returned all the same.\<close>

definition record_step_run_start ::
  "instant \<Rightarrow> string \<Rightarrow> string \<Rightarrow> string \<Rightarrow> nat \<Rightarrow> instance_db \<Rightarrow> instance_db" where
  "record_step_run_start now run_id iid step_id attempt db =
     (if \<exists>r \<in> set (i_runs db). sn_id r = run_id then db
      else db\<lparr>i_runs := i_runs db @
        [\<lparr>sn_id = run_id, sn_instance_id = iid, sn_step_id = step_id, sn_attempt = attempt,
          sn_status = RUN_RUNNING, sn_started_at = now, sn_completed_at = None, sn_output = None,
          sn_error = None\<rparr>]\<rparr>)"

definition finish_run ::
  "instant \<Rightarrow> string \<Rightarrow> run_status \<Rightarrow> pyval option \<Rightarrow> string option \<Rightarrow> step_run_row list \<Rightarrow> step_run_row list" where
  "finish_run now run_id status out err runs =
     map (\<lambda>r. if sn_id r = run_id
              then r\<lparr>sn_status := status, sn_completed_at := Some now, sn_output := out, sn_error := err\<rparr>
              else r) runs"

definition record_step_run_complete ::
  "(pyval \<Rightarrow> string) \<Rightarrow> instant \<Rightarrow> string \<Rightarrow> run_status \<Rightarrow> pyval \<Rightarrow> string option \<Rightarrow> instance_db \<Rightarrow> instance_db" where
  "record_step_run_complete text_of now run_id status out err db =
     db\<lparr>i_runs := finish_run now run_id status (ledger_output text_of out) err (i_runs db)\<rparr>"

text \<open>
  Step completion and instance update in one transaction.  Here the object's version moves before
  the transaction, and stays moved when the transaction is refused.
\<close>

definition record_step_complete ::
  "(pyval \<Rightarrow> string) \<Rightarrow> instant \<Rightarrow> string option \<Rightarrow> workflow_instance \<Rightarrow> pyval \<Rightarrow> string option \<Rightarrow> instance_db \<Rightarrow>
   (instance_error + unit) \<times> workflow_instance \<times> instance_db" where
  "record_step_complete text_of now run_id inst out err db =
     (let inst' = inst\<lparr>wi_version := wi_version inst + 1\<rparr>;
          runs = (case run_id of
                    None \<Rightarrow> i_runs db
                  | Some rid \<Rightarrow> finish_run now rid (if err = None then RUN_COMPLETED else RUN_FAILED)
                                  (ledger_output text_of out) err (i_runs db))
      in case update_rows now inst' (wi_version inst) None (i_rows db) of
           (n, rows) \<Rightarrow>
             if n = 0 then (Inl (InstanceConflict (wi_id inst) (wi_version inst)), inst', db)
             else (Inr (), inst', db\<lparr>i_rows := rows, i_runs := runs\<rparr>))"

definition list_step_runs :: "string \<Rightarrow> instance_db \<Rightarrow> step_run_row list" where
  "list_step_runs iid db = sort_key sn_started_at (filter (\<lambda>r. sn_instance_id r = iid) (i_runs db))"

end
