(* ===== verification/Engine_State.thy ===== *)
theory Engine_State
  imports Effects Instance_Store Step_Evaluator Approval_Managers
begin

text \<open>
  The state of the workflow engine (\<open>engines/workflow/engine.py\<close>) and the primitives its handlers
  are made of.  Instances are shared mutable objects: they live on a heap, the cache of the engine
  and the running tasks hold addresses.
\<close>

section \<open>Configuration\<close>

text \<open>
  \<open>ec_invoke\<close> is \<open>Kernel.invoke_capability\<close> on a request (capability, parameters, context, session
  token) acting on the world outside; \<open>ec_token_ok\<close> is \<open>TokenPayload(**fields)\<close> accepting its fields;
  \<open>ec_mint\<close> is the token the security engine issues to a deciding principal (or \<open>None\<close>);
  \<open>ec_uuid\<close> and \<open>ec_clock\<close> are the identifiers and instants drawn so far.
\<close>

record 'x engine_config =
  ec_store :: bool
  ec_kernel :: bool
  ec_storage :: bool
  ec_approvals :: manager_config
  ec_invoke :: "string \<Rightarrow> (string, pyval) dict \<Rightarrow> pyval \<Rightarrow> (string, pyval) dict option \<Rightarrow> 'x \<Rightarrow> (string + pyval) \<times> 'x"
  ec_token_ok :: "(string, pyval) dict \<Rightarrow> bool"
  ec_mint :: "security_principal \<Rightarrow> pyval"
  ec_uuid :: "nat \<Rightarrow> string"
  ec_clock :: "nat \<Rightarrow> instant"
  ec_text :: "pyval \<Rightarrow> string"
  ec_floats :: float_ops
  ec_parse_mapping :: "(string, pyval) dict \<Rightarrow> workflow_mapping option"
  ec_show_failure :: "step_failure \<Rightarrow> string"
  ec_default_retry :: retry_policy

text \<open>What a step can act on: the outside, the approval manager, the supply of identifiers.\<close>

record 'x engine_env =
  en_world :: 'x
  en_approvals :: manager_state
  en_supply :: nat

datatype engine_metric =
    Workflows_started | Workflows_completed | Workflows_failed | Workflows_cancelled | Steps_executed
  | Approvals_requested | Compensations_executed | Schedules_created | Schedules_triggered

record engine_task =
  tk_object :: nat
  tk_definition :: workflow_definition
  tk_live :: bool
  tk_pops :: bool    \<comment> \<open>its end removes the instance's entry from the running tasks\<close>

record 'x engine_state =
  es_definitions :: "(string, workflow_definition) dict"
  es_heap :: "workflow_instance list"
  es_cache :: "(string, nat) dict"
  es_running :: "(string, nat) dict"
  es_tasks :: "engine_task list"
  es_db :: instance_db
  es_env :: "'x engine_env"
  es_events :: "(string \<times> (string, pyval) dict) list"
  es_snapshots :: "(string, workflow_instance) dict"
  es_metrics :: "engine_metric \<Rightarrow> nat"

datatype engine_error =
    EngineNotFound string
  | EngineState state_error
  | EngineBadState workflow_state
  | EngineStore instance_error
  | EngineDefinition definition_error
  | EngineArchived string
  | EngineValidation string
  | EngineApproval approval_error
  | EngineDenied string string

type_synonym ('x, 'a) engine_op = "('x engine_state, engine_error, 'a) eff"

section \<open>Primitives\<close>

definition object_at :: "'x engine_state \<Rightarrow> nat \<Rightarrow> workflow_instance" where
  "object_at s a = es_heap s ! a"

definition set_object :: "nat \<Rightarrow> (workflow_instance \<Rightarrow> workflow_instance) \<Rightarrow> ('x, unit) engine_op" where
  "set_object a f = modify (\<lambda>s. s\<lparr>es_heap := (es_heap s)[a := f (es_heap s ! a)]\<rparr>)"

definition new_object :: "workflow_instance \<Rightarrow> ('x, nat) engine_op" where
  "new_object i s = (Inr (length (es_heap s)), s\<lparr>es_heap := es_heap s @ [i]\<rparr>)"

definition cache_object :: "string \<Rightarrow> nat \<Rightarrow> ('x, unit) engine_op" where
  "cache_object iid a = modify (\<lambda>s. s\<lparr>es_cache := dict_set iid a (es_cache s)\<rparr>)"

definition draw :: "('x, nat) engine_op" where
  "draw s = (Inr (en_supply (es_env s)), s\<lparr>es_env := (es_env s)\<lparr>en_supply := Suc (en_supply (es_env s))\<rparr>\<rparr>)"

definition count_metric :: "engine_metric \<Rightarrow> nat \<Rightarrow> ('x, unit) engine_op" where
  "count_metric m n = modify (\<lambda>s. s\<lparr>es_metrics := (es_metrics s)(m := es_metrics s m + n)\<rparr>)"

definition publish_event :: "'x engine_config \<Rightarrow> string \<Rightarrow> (string, pyval) dict \<Rightarrow> ('x, unit) engine_op" where
  "publish_event cfg topic payload =
     when_eff (ec_kernel cfg) (modify (\<lambda>s. s\<lparr>es_events := es_events s @ [(topic, payload)]\<rparr>))"

text \<open>The snapshot is the instance as it is, with its session token.\<close>

definition persist_snapshot :: "'x engine_config \<Rightarrow> nat \<Rightarrow> ('x, unit) engine_op" where
  "persist_snapshot cfg a =
     when_eff (ec_storage cfg)
       (modify (\<lambda>s. s\<lparr>es_snapshots := dict_set (wi_id (object_at s a)) (object_at s a) (es_snapshots s)\<rparr>))"

definition move_object :: "nat \<Rightarrow> workflow_state \<Rightarrow> ('x, unit) engine_op" where
  "move_object a target s =
     (case transition (object_at s a) target of
        Inl e \<Rightarrow> (Inl (EngineState e), s)
      | Inr i \<Rightarrow> set_object a (\<lambda>_. i) s)"

definition store_update :: "'x engine_config \<Rightarrow> nat \<Rightarrow> ('x, unit) engine_op" where
  "store_update cfg a =
     (if \<not> ec_store cfg then ret ()
      else bind_eff draw (\<lambda>n s.
        case update_instance (ec_clock cfg n) (object_at s a) None (es_db s) of
          Inl e \<Rightarrow> (Inl (EngineStore e), s)
        | Inr (i, db) \<Rightarrow> set_object a (\<lambda>_. i) (s\<lparr>es_db := db\<rparr>)))"

definition store_step_complete ::
  "'x engine_config \<Rightarrow> nat \<Rightarrow> string option \<Rightarrow> pyval \<Rightarrow> string option \<Rightarrow> ('x, unit) engine_op" where
  "store_step_complete cfg a run_id out err =
     (if \<not> ec_store cfg then ret ()
      else bind_eff draw (\<lambda>n s.
        case record_step_complete (ec_text cfg) (ec_clock cfg n) run_id (object_at s a) out err (es_db s) of
          (Inl e, i, db) \<Rightarrow> seq_eff (set_object a (\<lambda>_. i)) (raise_error (EngineStore e)) (s\<lparr>es_db := db\<rparr>)
        | (Inr _, i, db) \<Rightarrow> set_object a (\<lambda>_. i) (s\<lparr>es_db := db\<rparr>)))"

definition start_run :: "'x engine_config \<Rightarrow> nat \<Rightarrow> string \<Rightarrow> ('x, string option) engine_op" where
  "start_run cfg a step_id =
     (if \<not> ec_store cfg then ret None
      else bind_eff draw (\<lambda>n s.
        (Inr (Some (ec_uuid cfg n)),
         s\<lparr>es_db := record_step_run_start (ec_clock cfg n) (ec_uuid cfg n) (wi_id (object_at s a)) step_id 1 (es_db s)\<rparr>)))"

definition spawn :: "bool \<Rightarrow> nat \<Rightarrow> workflow_definition \<Rightarrow> ('x, unit) engine_op" where
  "spawn pops a def = modify (\<lambda>s.
     s\<lparr>es_tasks := es_tasks s @ [\<lparr>tk_object = a, tk_definition = def, tk_live = True, tk_pops = pops\<rparr>],
       es_running := dict_set (wi_id (object_at s a)) (length (es_tasks s)) (es_running s)\<rparr>)"

definition instance_payload :: "'x engine_state \<Rightarrow> nat \<Rightarrow> (string, pyval) dict \<Rightarrow> (string, pyval) dict" where
  "instance_payload s a extra =
     (''instance_id'', PStr (wi_id (object_at s a))) # extra @ [(''tenant_id'', PStr (wi_tenant_id (object_at s a)))]"

definition announce :: "'x engine_config \<Rightarrow> string \<Rightarrow> nat \<Rightarrow> (string, pyval) dict \<Rightarrow> ('x, unit) engine_op" where
  "announce cfg topic a extra s = publish_event cfg topic (instance_payload s a extra) s"

end
