(* ===== verification/Workflow_Engine.thy ===== *)
theory Workflow_Engine
  imports Engine_State
begin

text \<open>
  The workflow engine (\<open>engines/workflow/engine.py\<close>): starting an instance, the loop that runs its
  steps, and the handlers that pause, resume, cancel, decide, expire and recover instances.  Other
  handlers run between two iterations of a loop; within one the loop is not interrupted.
\<close>

section \<open>Capability dispatch\<close>

text \<open>The session token travels as JSON, its signature as a hexadecimal string.\<close>

definition decode_token :: "'x engine_config \<Rightarrow> (string, pyval) dict \<Rightarrow> (string, pyval) dict option" where
  "decode_token cfg tok =
     (case (case dict_get tok ''signature'' of
              Some (PStr h) \<Rightarrow>
                (case fromhex h of
                   None \<Rightarrow> None
                 | Some bs \<Rightarrow> Some (dict_set ''signature'' (PList (map (PInt \<circ> uint) bs)) tok))
            | _ \<Rightarrow> Some tok) of
        None \<Rightarrow> None
      | Some decoded \<Rightarrow> if ec_token_ok cfg decoded then Some decoded else None)"

definition in_world :: "('x \<Rightarrow> 'r \<times> 'x) \<Rightarrow> 'x engine_env \<Rightarrow> 'r \<times> 'x engine_env" where
  "in_world f env = (case f (en_world env) of (r, x) \<Rightarrow> (r, env\<lparr>en_world := x\<rparr>))"

text \<open>The dispatch of a run, with the instance's own session token.\<close>

definition run_dispatch :: "'x engine_config \<Rightarrow> (string, pyval) dict option \<Rightarrow> 'x engine_env dispatcher" where
  "run_dispatch cfg token cap params ctx env =
     (if \<not> ec_kernel cfg
      then (Inl (''Cannot invoke capability '' @ cap @ '': Workflow Engine has no Kernel reference.''), env)
      else case token of
             None \<Rightarrow> in_world (ec_invoke cfg cap params ctx None) env
           | Some [] \<Rightarrow> in_world (ec_invoke cfg cap params ctx None) env
           | Some tok \<Rightarrow>
               (case decode_token cfg tok of
                  None \<Rightarrow> (Inl ''malformed session token'', env)
                | Some decoded \<Rightarrow> in_world (ec_invoke cfg cap params ctx (Some decoded)) env))"

text \<open>The dispatch of a compensation outside a run, with the token of its context if it has one.\<close>

definition internal_dispatch :: "'x engine_config \<Rightarrow> 'x engine_env dispatcher" where
  "internal_dispatch cfg cap params ctx env =
     (if \<not> ec_kernel cfg then (Inr PNone, env)
      else case (case ctx of PDict d \<Rightarrow> dict_get d ''session_token'' | _ \<Rightarrow> None) of
             Some (PDict tok) \<Rightarrow>
               (case decode_token cfg tok of
                  None \<Rightarrow> (Inl ''malformed session token'', env)
                | Some decoded \<Rightarrow> in_world (ec_invoke cfg cap params ctx (Some decoded)) env)
           | _ \<Rightarrow> in_world (ec_invoke cfg cap params ctx None) env)"

text \<open>The ticket of an approval step: no timeout, no requester, no signature.\<close>

definition request_ticket ::
  "'x engine_config \<Rightarrow> string \<Rightarrow> string \<Rightarrow> string \<Rightarrow> string \<Rightarrow> 'x engine_env \<Rightarrow> 'x engine_env" where
  "request_ticket cfg inst step role tenant env =
     (let n = en_supply env
      in case create_request (ec_approvals cfg) (ec_clock cfg n) (ec_uuid cfg n) (ec_uuid cfg (n + 1))
                (Some inst) (Some step) role tenant None [] False None None None (en_approvals env) of
           Inl _ \<Rightarrow> env\<lparr>en_supply := n + 2\<rparr>
         | Inr (_, m) \<Rightarrow> env\<lparr>en_approvals := m, en_supply := n + 2\<rparr>)"

definition evaluator_of :: "'x engine_config \<Rightarrow> 'x engine_env evaluator_deps" where
  "evaluator_of cfg =
     \<lparr>ev_floats = ec_floats cfg, ev_parse_mapping = ec_parse_mapping cfg,
      ev_create_request = request_ticket cfg, ev_show_failure = ec_show_failure cfg,
      ev_default_retry = ec_default_retry cfg\<rparr>"

section \<open>The step loop\<close>

definition runnable :: "workflow_state \<Rightarrow> bool" where
  "runnable st \<longleftrightarrow> st \<in> {WS_RUNNING, WS_APPROVED, WS_READY}"

definition run_step :: "'x engine_config \<Rightarrow> nat \<Rightarrow> workflow_step \<Rightarrow> ('x, execution_result) engine_op" where
  "run_step cfg a step s =
     (let inst = object_at s a
      in case execute_step (evaluator_of cfg) (Some (run_dispatch cfg (wc_session_token (wi_context inst))))
                inst step (es_env s) of
           Inl (e, env) \<Rightarrow> (Inl (EngineState e), s\<lparr>es_env := env\<rparr>)
         | Inr r \<Rightarrow>
             (Inr (sr_result r), s\<lparr>es_env := sr_env r, es_heap := (es_heap s)[a := sr_instance r]\<rparr>))"

fun record_value :: "compensation_record \<Rightarrow> pyval" where
  "record_value r = PDict ([(''action_id'', PStr (cr_action_id r)), (''name'', PStr (cr_name r))] @
     (case cr_status r of
        COMPENSATED \<Rightarrow> [(''status'', PStr ''COMPENSATED'')]
      | COMPENSATION_FAILED e \<Rightarrow> [(''status'', PStr ''FAILED''), (''error'', PStr e)]))"

definition compensate :: "'x engine_env dispatcher \<Rightarrow> nat \<Rightarrow> ('x, compensation_record list) engine_op" where
  "compensate disp a s =
     (case execute_compensation_stack (Some disp) (object_at s a) (es_env s) of
        (records, i, env) \<Rightarrow> (Inr records, s\<lparr>es_env := env, es_heap := (es_heap s)[a := i]\<rparr>))"

definition text_or_none :: "string option \<Rightarrow> pyval" where
  "text_or_none e = (case e of None \<Rightarrow> PNone | Some m \<Rightarrow> PStr m)"

definition fail_run :: "'x engine_config \<Rightarrow> nat \<Rightarrow> string option \<Rightarrow> execution_result \<Rightarrow> ('x, bool) engine_op" where
  "fail_run cfg a run_id res =
     seq_eff (move_object a WS_FAILED)
    (seq_eff (count_metric Workflows_failed 1)
    (bind_eff (\<lambda>s. compensate (run_dispatch cfg (wc_session_token (wi_context (object_at s a)))) a s) (\<lambda>records.
     seq_eff (count_metric Compensations_executed (length records))
    (seq_eff (store_step_complete cfg a run_id (er_output res) (er_error res))
    (seq_eff (persist_snapshot cfg a)
    (seq_eff (announce cfg ''workflow.failed'' a [(''error'', text_or_none (er_error res))])
    (seq_eff (announce cfg ''workflow.rollback'' a [(''compensations'', PList (map record_value records))])
     (ret False))))))))"

definition wait_run :: "'x engine_config \<Rightarrow> nat \<Rightarrow> string \<Rightarrow> string option \<Rightarrow> execution_result \<Rightarrow> ('x, bool) engine_op" where
  "wait_run cfg a step_id run_id res =
     seq_eff (count_metric Approvals_requested 1)
    (seq_eff (store_step_complete cfg a run_id (er_output res) (er_error res))
    (seq_eff (persist_snapshot cfg a)
    (seq_eff (announce cfg ''workflow.waiting'' a [(''step_id'', PStr step_id)])
     (ret False))))"

definition advance_run :: "'x engine_config \<Rightarrow> nat \<Rightarrow> string option \<Rightarrow> execution_result \<Rightarrow> ('x, bool) engine_op" where
  "advance_run cfg a run_id res =
     seq_eff (set_object a (\<lambda>i. i\<lparr>wi_current_step_index := wi_current_step_index i + 1\<rparr>))
    (seq_eff (store_step_complete cfg a run_id (er_output res) (er_error res))
     (ret True))"

definition after_step ::
  "'x engine_config \<Rightarrow> nat \<Rightarrow> workflow_step \<Rightarrow> string option \<Rightarrow> execution_result \<Rightarrow> ('x, bool) engine_op" where
  "after_step cfg a step run_id res =
     seq_eff (count_metric Steps_executed 1)
       (if \<not> er_success res \<and> \<not> ws_on_failure_continue step then fail_run cfg a run_id res
        else (\<lambda>s. if wi_state (object_at s a) = WS_WAITING then wait_run cfg a (ws_id step) run_id res s
                  else advance_run cfg a run_id res s))"

definition begin_step :: "'x engine_config \<Rightarrow> nat \<Rightarrow> workflow_step \<Rightarrow> ('x, unit) engine_op" where
  "begin_step cfg a step =
     seq_eff (set_object a (\<lambda>i. i\<lparr>wi_current_step_id := Some (ws_id step)\<rparr>))
       (\<lambda>s. if wi_state (object_at s a) \<in> {WS_APPROVED, WS_READY}
            then seq_eff (move_object a WS_RUNNING) (store_update cfg a) s
            else ret () s)"

definition complete_run :: "'x engine_config \<Rightarrow> workflow_definition \<Rightarrow> nat \<Rightarrow> ('x, bool) engine_op" where
  "complete_run cfg def a s =
     (if length (dc_steps (wd_content def)) \<le> wi_current_step_index (object_at s a) \<and>
         wi_state (object_at s a) = WS_RUNNING
      then seq_eff (move_object a WS_COMPLETED)
          (seq_eff (count_metric Workflows_completed 1)
          (seq_eff (store_update cfg a)
          (seq_eff (persist_snapshot cfg a)
          (seq_eff (announce cfg ''workflow.completed'' a [])
           (ret False))))) s
      else ret False s)"

text \<open>One iteration of the loop; the result tells whether there is another one.\<close>

definition loop_turn :: "'x engine_config \<Rightarrow> workflow_definition \<Rightarrow> nat \<Rightarrow> ('x, bool) engine_op" where
  "loop_turn cfg def a s =
     (let inst = object_at s a; steps = dc_steps (wd_content def)
      in if wi_current_step_index inst < length steps \<and> runnable (wi_state inst) then
           (let step = steps ! wi_current_step_index inst
            in seq_eff (begin_step cfg a step)
              (bind_eff (start_run cfg a (ws_id step)) (\<lambda>run_id.
               bind_eff (run_step cfg a step) (\<lambda>res.
               after_step cfg a step run_id res))) s)
         else complete_run cfg def a s)"

text \<open>
  The whole loop.  Every iteration that asks for another one has advanced the index, so the number
  of steps left bounds the iterations.
\<close>

fun loop_turns :: "nat \<Rightarrow> 'x engine_config \<Rightarrow> workflow_definition \<Rightarrow> nat \<Rightarrow> ('x, unit) engine_op" where
  "loop_turns 0 cfg def a = ret ()"
| "loop_turns (Suc n) cfg def a = bind_eff (loop_turn cfg def a) (\<lambda>more. when_eff more (loop_turns n cfg def a))"

definition run_instance_steps :: "'x engine_config \<Rightarrow> workflow_definition \<Rightarrow> nat \<Rightarrow> ('x, unit) engine_op" where
  "run_instance_steps cfg def a s =
     loop_turns (length (dc_steps (wd_content def)) - wi_current_step_index (object_at s a) + 1) cfg def a s"

text \<open>One iteration of the background task \<open>k\<close>; a finished task may remove its instance's entry.\<close>

definition end_task :: "nat \<Rightarrow> ('x, unit) engine_op" where
  "end_task k = modify (\<lambda>s.
     (let t = es_tasks s ! k; iid = wi_id (object_at s (tk_object t))
      in s\<lparr>es_tasks := (es_tasks s)[k := t\<lparr>tk_live := False\<rparr>],
           es_running := (if tk_pops t then dict_pop iid (es_running s) else es_running s)\<rparr>))"

definition task_turn :: "'x engine_config \<Rightarrow> nat \<Rightarrow> ('x, unit) engine_op" where
  "task_turn cfg k s =
     (if k < length (es_tasks s) \<and> tk_live (es_tasks s ! k) then
        (let t = es_tasks s ! k
         in case loop_turn cfg (tk_definition t) (tk_object t) s of
              (Inr True, s') \<Rightarrow> (Inr (), s')
            | (_, s') \<Rightarrow> end_task k s')
      else (Inr (), s))"

end
