(* ===== verification/Engine_Handlers.thy ===== *)
theory Engine_Handlers
  imports Workflow_Engine Definition_Lifecycle
begin

text \<open>
  The capability handlers of the workflow engine: definitions, instances, approvals, expiry and
  recovery (\<open>engines/workflow/engine.py\<close>).
\<close>

section \<open>Definitions\<close>

definition own_tenant :: "string \<Rightarrow> workflow_definition \<Rightarrow> workflow_definition" where
  "own_tenant tenant d =
     (if wd_tenant_id d = ''default'' \<and> tenant \<noteq> ''default'' then d\<lparr>wd_tenant_id := tenant\<rparr> else d)"

definition cache_definition :: "workflow_definition \<Rightarrow> ('x, unit) engine_op" where
  "cache_definition d = modify (\<lambda>s. s\<lparr>es_definitions := dict_set (wd_id d) d (es_definitions s)\<rparr>)"

definition announce_definition :: "'x engine_config \<Rightarrow> workflow_definition \<Rightarrow> ('x, unit) engine_op" where
  "announce_definition cfg d =
     (let payload = [(''definition_id'', PStr (wd_id d)), (''name'', PStr (dc_name (wd_content d)))]
      in seq_eff (publish_event cfg ''workflow.created'' payload) (publish_event cfg ''workflow.validated'' payload))"

definition register_definition :: "'x engine_config \<Rightarrow> workflow_definition \<Rightarrow> string \<Rightarrow> ('x, string) engine_op" where
  "register_definition cfg d tenant =
     (if dc_steps (wd_content d) = [] then raise_error (EngineValidation (wd_id d))
      else (let d' = own_tenant tenant d
            in seq_eff (cache_definition d') (seq_eff (announce_definition cfg d') (ret (wd_id d)))))"

text \<open>\<open>save_definition\<close> of the store: an integrity error is taken for a concurrent insert.\<close>

definition save_definition :: "workflow_definition \<Rightarrow> string \<Rightarrow> definition_db \<Rightarrow> definition_db" where
  "save_definition d tenant db =
     (let owner = (if wd_tenant_id d = [] then tenant else wd_tenant_id d);
          row = d\<lparr>wd_tenant_id := owner, wd_content := legacy_content (wd_content d)\<rparr>
      in if \<exists>r \<in> set (d_definitions db). wd_id r = wd_id d \<and> wd_tenant_id r = owner then
           db\<lparr>d_definitions := map (\<lambda>r. if wd_id r = wd_id d \<and> wd_tenant_id r = owner then row else r) (d_definitions db)\<rparr>
         else if \<exists>r \<in> set (d_definitions db). wd_id r = wd_id d then db
         else db\<lparr>d_definitions := d_definitions db @ [row]\<rparr>)"

definition register_definition_async :: "'x engine_config \<Rightarrow> workflow_definition \<Rightarrow> string \<Rightarrow> ('x, string) engine_op" where
  "register_definition_async cfg d tenant =
     (if dc_steps (wd_content d) = [] then raise_error (EngineValidation (wd_id d))
      else (let d' = own_tenant tenant d
            in seq_eff (cache_definition d')
              (seq_eff (when_eff (ec_store cfg) (modify (\<lambda>s. s\<lparr>es_db := (es_db s)
                 \<lparr>i_definitions := save_definition d' (wd_tenant_id d') (i_definitions (es_db s))\<rparr>\<rparr>)))
              (seq_eff (announce_definition cfg d') (ret (wd_id d))))))"

definition opt_tenant :: "string option \<Rightarrow> string" where
  "opt_tenant t = (case t of None \<Rightarrow> [] | Some x \<Rightarrow> x)"

definition load_definition ::
  "string \<Rightarrow> string option \<Rightarrow> string option \<Rightarrow> ('x, workflow_definition option) engine_op" where
  "load_definition did tenant version s =
     (case get_definition did (opt_tenant tenant) version (i_definitions (es_db s)) of
        Inl e \<Rightarrow> (Inl (EngineDefinition e), s) | Inr d \<Rightarrow> (Inr d, s))"

definition get_definition_async ::
  "'x engine_config \<Rightarrow> string \<Rightarrow> string option \<Rightarrow> string option \<Rightarrow> ('x, workflow_definition) engine_op" where
  "get_definition_async cfg did tenant version =
     (case version of
        Some v \<Rightarrow>
          bind_eff (if ec_store cfg then load_definition did tenant (Some v) else ret None) (\<lambda>loaded.
            case loaded of
              Some d \<Rightarrow> ret d
            | None \<Rightarrow>
                bind_eff (reads (\<lambda>s. dict_get (es_definitions s) did)) (\<lambda>cached.
                  case cached of
                    Some d \<Rightarrow> if wd_version d = v then ret d else raise_error (EngineNotFound did)
                  | None \<Rightarrow> raise_error (EngineNotFound did)))
      | None \<Rightarrow>
          bind_eff (reads (\<lambda>s. dict_get (es_definitions s) did)) (\<lambda>cached.
            case cached of
              Some d \<Rightarrow> ret d
            | None \<Rightarrow>
                bind_eff (if ec_store cfg then load_definition did tenant None else ret None) (\<lambda>loaded.
                  case loaded of
                    Some d \<Rightarrow> seq_eff (cache_definition d) (ret d)
                  | None \<Rightarrow> raise_error (EngineNotFound did))))"

section \<open>Instances\<close>

definition cached_or_stored ::
  "'x engine_config \<Rightarrow> string \<Rightarrow> string option \<Rightarrow> security_principal option \<Rightarrow> ('x, nat) engine_op" where
  "cached_or_stored cfg iid tenant who s =
     (let tid = (case who of Some p \<Rightarrow> Some (sp_tenant_id p) | None \<Rightarrow> tenant)
      in case dict_get (es_cache s) iid of
           Some a \<Rightarrow>
             if tenant_given tid (wi_tenant_id (object_at s a)) then (Inr a, s) else (Inl (EngineNotFound iid), s)
         | None \<Rightarrow>
             if \<not> ec_store cfg then (Inl (EngineNotFound iid), s)
             else (case get_instance iid tid (es_db s) of
                     None \<Rightarrow> (Inl (EngineNotFound iid), s)
                   | Some i \<Rightarrow> bind_eff (new_object i) (\<lambda>a. seq_eff (cache_object (wi_id i) a) (ret a)) s))"

definition start_tenant :: "security_principal option \<Rightarrow> string option \<Rightarrow> (string, pyval) dict option \<Rightarrow> string" where
  "start_tenant who tenant token =
     (let tid = (case who of Some p \<Rightarrow> sp_tenant_id p | None \<Rightarrow> opt_tenant tenant);
          claimed = (case token of
                       None \<Rightarrow> []
                     | Some tok \<Rightarrow> (case dict_get tok ''tenant_id'' of Some (PStr t) \<Rightarrow> t | _ \<Rightarrow> []))
      in py_or tid (py_or claimed ''default''))"

definition fresh_instance ::
  "string \<Rightarrow> string \<Rightarrow> instant \<Rightarrow> workflow_definition \<Rightarrow> string \<Rightarrow> (string, pyval) dict \<Rightarrow> (string, pyval) dict option \<Rightarrow>
   workflow_instance" where
  "fresh_instance iid trace now d tid vars token =
     \<lparr>wi_id = iid, wi_definition_id = wd_id d, wi_definition_version = wd_version d, wi_tenant_id = tid,
      wi_current_step_index = 0, wi_current_step_id = None, wi_state = WS_CREATED, wi_status = St_PENDING,
      wi_context = \<lparr>wc_variables = vars, wc_step_outputs = [], wc_metadata = [], wc_session_token = token\<rparr>,
      wi_compensation_stack = [], wi_trace_id = trace, wi_version = 1, wi_created_at = now, wi_updated_at = now\<rparr>"

definition refuse_archived :: "'x engine_config \<Rightarrow> string \<Rightarrow> string \<Rightarrow> ('x, unit) engine_op" where
  "refuse_archived cfg did tid s =
     (if \<not> ec_store cfg then (Inr (), s)
      else case get_control_row did tid (i_definitions (es_db s)) of
             Inl e \<Rightarrow> (Inl (EngineDefinition e), s)
           | Inr (Some r) \<Rightarrow> if dv_status r = DS_ARCHIVED then (Inl (EngineArchived did), s) else (Inr (), s)
           | Inr None \<Rightarrow> (Inr (), s))"

definition store_save :: "'x engine_config \<Rightarrow> nat \<Rightarrow> workflow_definition \<Rightarrow> string \<Rightarrow> ('x, unit) engine_op" where
  "store_save cfg a d tid s =
     (if \<not> ec_store cfg then (Inr (), s)
      else case save_instance (object_at s a) (Some d) tid (es_db s) of
             Inl e \<Rightarrow> (Inl (EngineStore e), s) | Inr db \<Rightarrow> (Inr (), s\<lparr>es_db := db\<rparr>))"

definition start_workflow ::
  "'x engine_config \<Rightarrow> string \<Rightarrow> (string, pyval) dict \<Rightarrow> (string, pyval) dict option \<Rightarrow> string option \<Rightarrow>
   security_principal option \<Rightarrow> ('x, nat) engine_op" where
  "start_workflow cfg did vars token tenant who =
     (let tid = start_tenant who tenant token
      in bind_eff (get_definition_async cfg did (Some tid) None) (\<lambda>d.
         seq_eff (refuse_archived cfg did tid)
        (bind_eff draw (\<lambda>n. bind_eff draw (\<lambda>m.
         bind_eff (new_object (fresh_instance (ec_uuid cfg n) (ec_uuid cfg m) (ec_clock cfg n) d tid vars token)) (\<lambda>a.
         seq_eff (cache_object (ec_uuid cfg n) a)
        (seq_eff (count_metric Workflows_started 1)
        (seq_eff (move_object a WS_VALIDATED)
        (seq_eff (move_object a WS_READY)
        (seq_eff (move_object a WS_RUNNING)
        (seq_eff (store_save cfg a d tid)
        (seq_eff (persist_snapshot cfg a)
        (seq_eff (announce cfg ''workflow.started'' a [(''definition_id'', PStr (wd_id d))])
        (seq_eff (spawn True a d)
         (ret a)))))))))))))))"

definition pause_workflow ::
  "'x engine_config \<Rightarrow> string \<Rightarrow> string option \<Rightarrow> security_principal option \<Rightarrow> ('x, nat) engine_op" where
  "pause_workflow cfg iid tenant who =
     bind_eff (cached_or_stored cfg iid tenant who) (\<lambda>a s.
       if wi_state (object_at s a) \<noteq> WS_RUNNING then (Inl (EngineBadState (wi_state (object_at s a))), s)
       else seq_eff (set_object a (\<lambda>i. i\<lparr>wi_status := St_PAUSED\<rparr>))
           (seq_eff (store_update cfg a)
           (seq_eff (persist_snapshot cfg a)
           (seq_eff (announce cfg ''workflow.paused'' a [])
            (ret a)))) s)"

definition resume_workflow ::
  "'x engine_config \<Rightarrow> string \<Rightarrow> string option \<Rightarrow> security_principal option \<Rightarrow> ('x, nat) engine_op" where
  "resume_workflow cfg iid tenant who =
     bind_eff (cached_or_stored cfg iid tenant who) (\<lambda>a s.
       if wi_state (object_at s a) \<notin> {WS_WAITING, WS_APPROVED, WS_RUNNING}
       then (Inl (EngineBadState (wi_state (object_at s a))), s)
       else seq_eff (\<lambda>s. when_eff (wi_state (object_at s a) = WS_WAITING) (move_object a WS_APPROVED) s)
           (seq_eff (set_object a (\<lambda>i. i\<lparr>wi_status := St_RUNNING\<rparr>))
           (bind_eff (\<lambda>s. get_definition_async cfg (wi_definition_id (object_at s a)) (Some (wi_tenant_id (object_at s a)))
                            (Some (wi_definition_version (object_at s a))) s) (\<lambda>d.
            seq_eff (store_update cfg a)
           (seq_eff (persist_snapshot cfg a)
           (seq_eff (announce cfg ''workflow.resumed'' a [])
           (seq_eff (spawn False a d)
            (ret a))))))) s)"

text \<open>
  The synchronous entry point: the start has already spawned a task, and the caller runs the same
  instance as well.
\<close>

definition execute_workflow ::
  "'x engine_config \<Rightarrow> workflow_definition \<Rightarrow> (string, pyval) dict \<Rightarrow> string \<Rightarrow> ('x, nat) engine_op" where
  "execute_workflow cfg d vars tenant =
     bind_eff (register_definition cfg d tenant) (\<lambda>did.
     bind_eff (start_workflow cfg did vars None (Some tenant) None) (\<lambda>a.
     seq_eff (run_instance_steps cfg d a) (ret a)))"

text \<open>The task registered for the instance is taken off and, if it still runs, cancelled.\<close>

definition cancel_task :: "string \<Rightarrow> ('x, unit) engine_op" where
  "cancel_task iid = modify (\<lambda>s.
     (case dict_get (es_running s) iid of
        None \<Rightarrow> s
      | Some k \<Rightarrow> s\<lparr>es_running := dict_pop iid (es_running s),
                    es_tasks := (es_tasks s)[k := (es_tasks s ! k)\<lparr>tk_live := False\<rparr>]\<rparr>))"

definition cancel_workflow ::
  "'x engine_config \<Rightarrow> string \<Rightarrow> string \<Rightarrow> string option \<Rightarrow> security_principal option \<Rightarrow> ('x, nat) engine_op" where
  "cancel_workflow cfg iid cause tenant who =
     bind_eff (cached_or_stored cfg iid tenant who) (\<lambda>a s.
       if wi_state (object_at s a) \<in> {WS_COMPLETED, WS_FAILED, WS_CANCELLED}
       then (Inl (EngineBadState (wi_state (object_at s a))), s)
       else seq_eff (cancel_task (wi_id (object_at s a)))
           (seq_eff (move_object a WS_CANCELLED)
           (seq_eff (count_metric Workflows_cancelled 1)
           (seq_eff (store_update cfg a)
           (seq_eff (persist_snapshot cfg a)
           (seq_eff (announce cfg ''workflow.cancelled'' a [(''reason'', PStr cause)])
            (ret a)))))) s)"

text \<open>Reads of the memory alone.\<close>

definition cached_definition :: "string \<Rightarrow> ('x, workflow_definition) engine_op" where
  "cached_definition did s =
     (case dict_get (es_definitions s) did of None \<Rightarrow> (Inl (EngineNotFound did), s) | Some d \<Rightarrow> (Inr d, s))"

definition cached_definitions :: "'x engine_state \<Rightarrow> workflow_definition list" where
  "cached_definitions s = map snd (es_definitions s)"

definition cached_instance :: "string \<Rightarrow> string option \<Rightarrow> ('x, workflow_instance) engine_op" where
  "cached_instance iid tenant s =
     (case dict_get (es_cache s) iid of
        None \<Rightarrow> (Inl (EngineNotFound iid), s)
      | Some a \<Rightarrow> if tenant_given tenant (wi_tenant_id (object_at s a)) then (Inr (object_at s a), s)
                  else (Inl (EngineNotFound iid), s))"

definition cached_instances :: "string option \<Rightarrow> 'x engine_state \<Rightarrow> workflow_instance list" where
  "cached_instances tenant s =
     filter (\<lambda>i. tenant_given tenant (wi_tenant_id i)) (map (\<lambda>(iid, a). object_at s a) (es_cache s))"

definition list_instances_durable ::
  "'x engine_config \<Rightarrow> string option \<Rightarrow> workflow_state option \<Rightarrow> security_principal option \<Rightarrow> ('x, workflow_instance list) engine_op" where
  "list_instances_durable cfg tenant state who =
     (let tid = (case who of Some p \<Rightarrow> Some (sp_tenant_id p) | None \<Rightarrow> tenant)
      in if ec_store cfg then
           bind_eff (reads (\<lambda>s. list_instances tid state (es_db s))) (\<lambda>rows.
             seq_eff (each (\<lambda>i. bind_eff (new_object i) (cache_object (wi_id i))) rows) (ret rows))
         else
           reads (\<lambda>s. filter (\<lambda>i. tenant_given tid (wi_tenant_id i) \<and>
                                  (case state of None \<Rightarrow> True | Some st \<Rightarrow> wi_state i = st))
                       (map (\<lambda>(iid, a). object_at s a) (es_cache s))))"

section \<open>Approvals\<close>

text \<open>The stack is only run when it is not empty; its result is not persisted here.\<close>

definition roll_back :: "'x engine_config \<Rightarrow> nat \<Rightarrow> ('x, unit) engine_op" where
  "roll_back cfg a s =
     when_eff (wi_compensation_stack (object_at s a) \<noteq> []) (bind_eff (compensate (internal_dispatch cfg) a) (\<lambda>_. ret ())) s"

definition fail_waiting :: "'x engine_config \<Rightarrow> nat \<Rightarrow> string \<Rightarrow> ('x, unit) engine_op" where
  "fail_waiting cfg a cause =
     seq_eff (move_object a WS_FAILED)
    (seq_eff (count_metric Workflows_failed 1)
    (seq_eff (store_update cfg a)
    (seq_eff (persist_snapshot cfg a)
    (seq_eff (announce cfg ''workflow.failed'' a [(''reason'', PStr cause)])
     (roll_back cfg a)))))"

definition advance_after_approval ::
  "'x engine_config \<Rightarrow> approval_request \<Rightarrow> approval_decision \<Rightarrow> string option \<Rightarrow> ('x, nat) engine_op" where
  "advance_after_approval cfg ticket d tenant =
     (case ar_instance_id ticket of
        None \<Rightarrow> raise_error (EngineApproval (TicketNotFound (ar_id ticket)))
      | Some iid \<Rightarrow>
          bind_eff (cached_or_stored cfg iid tenant None) (\<lambda>a.
            if ad_decision d = AS_APPROVED then
              seq_eff (announce cfg ''workflow.approved'' a [(''approver_id'', PStr (ad_approver_id d))])
             (seq_eff (set_object a (\<lambda>i. i\<lparr>wi_current_step_index := wi_current_step_index i + 1\<rparr>))
             (seq_eff (store_update cfg a)
              (\<lambda>s. resume_workflow cfg (wi_id (object_at s a)) tenant None s)))
            else seq_eff (fail_waiting cfg a ''Approval rejected'') (ret a)))"

definition manager_decide ::
  "'x engine_config \<Rightarrow> approval_decision \<Rightarrow> security_principal option \<Rightarrow> string \<Rightarrow> ('x, approval_request) engine_op" where
  "manager_decide cfg d who tid =
     bind_eff draw (\<lambda>n s.
       case submit_decision (ec_approvals cfg) (ec_clock cfg n) (ec_uuid cfg n) d who (Some tid)
              (en_approvals (es_env s)) of
         Inl e \<Rightarrow> (Inl (EngineApproval e), s)
       | Inr (ticket, m) \<Rightarrow> (Inr ticket, s\<lparr>es_env := (es_env s)\<lparr>en_approvals := m\<rparr>\<rparr>))"

definition submit_approval_decision ::
  "'x engine_config \<Rightarrow> approval_decision \<Rightarrow> string option \<Rightarrow> security_principal option \<Rightarrow> ('x, nat) engine_op" where
  "submit_approval_decision cfg d tenant who =
     (let tid = decision_tenant tenant d
      in bind_eff (manager_decide cfg d who tid) (\<lambda>ticket. advance_after_approval cfg ticket d (Some tid)))"

text \<open>The tenant of a call: the authenticated one, which a supplied tenant must not contradict.\<close>

definition caller_tenant ::
  "execution_context option \<Rightarrow> security_principal option \<Rightarrow> string option \<Rightarrow> engine_error + (security_principal option \<times> string)" where
  "caller_tenant ec who tenant =
     (let p = (case who of Some q \<Rightarrow> Some q | None \<Rightarrow> (case ec of None \<Rightarrow> None | Some e \<Rightarrow> ec_principal e));
          authenticated = (case ec of Some e \<Rightarrow> Some (ec_tenant_id e) | None \<Rightarrow> map_option sp_tenant_id p)
      in case authenticated of
           Some t \<Rightarrow>
             (case tenant of
                Some u \<Rightarrow> if u \<noteq> t then Inl (EngineDenied u t) else Inr (p, t) | None \<Rightarrow> Inr (p, t))
         | None \<Rightarrow> Inr (p, py_or (opt_tenant tenant) ''default''))"

fun approval_state_of_value :: "string \<Rightarrow> approval_state option" where
  "approval_state_of_value v = find (\<lambda>st. approval_state_value st = v) [AS_PENDING, AS_APPROVED, AS_REJECTED, AS_EXPIRED, AS_CANCELLED]"

definition decide_approval_request ::
  "'x engine_config \<Rightarrow> string \<Rightarrow> string \<Rightarrow> string \<Rightarrow> string option \<Rightarrow> string option \<Rightarrow> string option \<Rightarrow>
   (string, pyval) dict \<Rightarrow> string option \<Rightarrow> execution_context option \<Rightarrow> security_principal option \<Rightarrow>
   ('x, approval_request) engine_op" where
  "decide_approval_request cfg rid verdict approver cause signature key data tenant ec who =
     bind_eff (lift_res (caller_tenant ec who tenant)) (\<lambda>(p, tid).
       (case approval_state_of_value verdict of
          None \<Rightarrow> raise_error (EngineValidation verdict)
        | Some st \<Rightarrow>
            bind_eff draw (\<lambda>n.
              (let d = \<lparr>ad_id = ec_uuid cfg n, ad_request_id = rid, ad_tenant_id = tid, ad_approver_id = approver,
                        ad_decision = st, ad_reason = cause, ad_signature_hex = signature,
                        ad_public_key_hex = key, ad_decision_data = data, ad_decided_at = ec_clock cfg n\<rparr>
               in bind_eff (manager_decide cfg d p tid) (\<lambda>ticket.
                  seq_eff (case ar_instance_id ticket of
                             None \<Rightarrow> ret ()
                           | Some _ \<Rightarrow> bind_eff (advance_after_approval cfg ticket d (Some tid)) (\<lambda>_. ret ()))
                 (seq_eff (publish_event cfg ''workflow.approval.decided''
                    [(''request_id'', PStr (ar_id ticket)), (''tenant_id'', PStr tid),
                     (''decision'', PStr (approval_state_value st)),
                     (''correlation_id'', opt_str (ar_correlation_id ticket)),
                     (''action_fingerprint'', opt_str (ar_action_fingerprint ticket)),
                     (''context_snapshot'', PDict (ar_context_snapshot ticket)),
                     (''decider_session_token'', case p of None \<Rightarrow> PNone | Some q \<Rightarrow> ec_mint cfg q)])
                  (ret ticket)))))))"

text \<open>The ticket capabilities act under the tenant of the authenticated caller.\<close>

definition ticket_tenant :: "security_principal option \<Rightarrow> string option \<Rightarrow> string" where
  "ticket_tenant who tenant =
     (case who of Some p \<Rightarrow> sp_tenant_id p | None \<Rightarrow> py_or (opt_tenant tenant) ''default'')"

definition create_approval_request ::
  "'x engine_config \<Rightarrow> string \<Rightarrow> string option \<Rightarrow> string option \<Rightarrow> int option \<Rightarrow> (string, pyval) dict \<Rightarrow> bool \<Rightarrow>
   string option \<Rightarrow> string option \<Rightarrow> string option \<Rightarrow> security_principal option \<Rightarrow> ('x, approval_request) engine_op" where
  "create_approval_request cfg role iid sid timeout ctx signature tenant correlation fingerprint who =
     bind_eff draw (\<lambda>n. bind_eff draw (\<lambda>m s.
       case create_request (ec_approvals cfg) (ec_clock cfg n) (ec_uuid cfg n) (ec_uuid cfg m) iid sid role
              (ticket_tenant who tenant) timeout ctx signature who correlation fingerprint (en_approvals (es_env s)) of
         Inl e \<Rightarrow> (Inl (EngineApproval e), s)
       | Inr (r, mgr) \<Rightarrow> (Inr r, s\<lparr>es_env := (es_env s)\<lparr>en_approvals := mgr\<rparr>\<rparr>)))"

definition list_approval_requests ::
  "'x engine_config \<Rightarrow> string option \<Rightarrow> string option \<Rightarrow> string option \<Rightarrow> security_principal option \<Rightarrow>
   ('x, approval_request list) engine_op" where
  "list_approval_requests cfg tenant role state who =
     bind_eff draw (\<lambda>n. reads (\<lambda>s. list_requests (ec_clock cfg n) (ms_db (en_approvals (es_env s)))
        (ticket_tenant who tenant) role state))"

definition get_approval_request ::
  "'x engine_config \<Rightarrow> string \<Rightarrow> string option \<Rightarrow> security_principal option \<Rightarrow> ('x, approval_request) engine_op" where
  "get_approval_request cfg rid tenant who =
     bind_eff draw (\<lambda>n s.
       case get_request (ec_clock cfg n) (ms_db (en_approvals (es_env s))) rid (Some (ticket_tenant who tenant)) of
         None \<Rightarrow> (Inl (EngineNotFound rid), s)
       | Some r \<Rightarrow>
           if (case who of None \<Rightarrow> False | Some p \<Rightarrow> ar_tenant_id r \<noteq> sp_tenant_id p)
           then (Inl (EngineNotFound rid), s) else (Inr r, s))"

definition delegate_approval_role ::
  "'x engine_config \<Rightarrow> string \<Rightarrow> string \<Rightarrow> string \<Rightarrow> instant \<Rightarrow> instant \<Rightarrow> string option \<Rightarrow> execution_context option \<Rightarrow>
   security_principal option \<Rightarrow> ('x, approval_delegation) engine_op" where
  "delegate_approval_role cfg delegator delegatee role valid_from valid_until tenant ec who =
     bind_eff (lift_res (caller_tenant ec who tenant)) (\<lambda>(p, tid).
     bind_eff draw (\<lambda>n s.
       case create_delegation (ec_approvals cfg) (ec_clock cfg n) (ec_uuid cfg n) delegator delegatee role
              valid_from valid_until tid p (en_approvals (es_env s)) of
         Inl e \<Rightarrow> (Inl (EngineApproval e), s)
       | Inr (g, mgr) \<Rightarrow> (Inr g, s\<lparr>es_env := (es_env s)\<lparr>en_approvals := mgr\<rparr>\<rparr>)))"

definition sweep_manager :: "'x engine_config \<Rightarrow> string option \<Rightarrow> ('x, approval_request list) engine_op" where
  "sweep_manager cfg tenant =
     bind_eff draw (\<lambda>n s.
       case sweep_expired_requests (ec_approvals cfg) (ec_clock cfg n) (\<lambda>rid. ec_uuid cfg n @ rid) tenant
              (en_approvals (es_env s)) of
         (tickets, m) \<Rightarrow> (Inr tickets, s\<lparr>es_env := (es_env s)\<lparr>en_approvals := m\<rparr>\<rparr>))"

definition sweep_expired_approvals :: "'x engine_config \<Rightarrow> string option \<Rightarrow> ('x, approval_request list) engine_op" where
  "sweep_expired_approvals cfg tenant =
     bind_eff (sweep_manager cfg tenant) (\<lambda>tickets.
     seq_eff (each (\<lambda>t.
       (case ar_instance_id t of
          None \<Rightarrow> ret ()
        | Some iid \<Rightarrow>
            swallow (bind_eff (cached_or_stored cfg iid (Some (ar_tenant_id t)) None) (\<lambda>a s.
              if wi_state (object_at s a) = WS_WAITING then fail_waiting cfg a ''Approval timed out'' s
              else (Inr (), s))))) tickets)
     (ret tickets))"

section \<open>Recovery\<close>

definition recover_failed :: "'x engine_config \<Rightarrow> nat \<Rightarrow> ('x, unit) engine_op" where
  "recover_failed cfg a = seq_eff (move_object a WS_FAILED) (store_update cfg a)"

text \<open>A waiting instance is recovered according to the newest ticket of its step.\<close>

definition recover_waiting :: "'x engine_config \<Rightarrow> nat \<Rightarrow> workflow_definition \<Rightarrow> ('x, unit) engine_op" where
  "recover_waiting cfg a d s =
     (let inst = object_at s a
      in case wi_current_step_id inst of
           None \<Rightarrow> ret () s
         | Some sid \<Rightarrow>
             (case find (\<lambda>st. ws_id st = sid) (dc_steps (wd_content d)) of
                None \<Rightarrow> ret () s
              | Some step \<Rightarrow>
                  if sid = [] \<or> \<not> ws_is_approval_step step then ret () s
                  else
                    (let role = (case ws_required_approval_role step of
                                   None \<Rightarrow> ''APPROVAL_ROLE'' | Some [] \<Rightarrow> ''APPROVAL_ROLE'' | Some r \<Rightarrow> r)
                     in case get_request_by_step (ec_clock cfg (en_supply (es_env s))) (ms_db (en_approvals (es_env s)))
                               (wi_id inst) sid (Some (wi_tenant_id inst)) of
                          None \<Rightarrow>
                            modify (\<lambda>s. s\<lparr>es_env := request_ticket cfg (wi_id inst) sid role (wi_tenant_id inst) (es_env s)\<rparr>) s
                        | Some req \<Rightarrow>
                            (case ar_state req of
                               AS_APPROVED \<Rightarrow>
                                 seq_eff (set_object a (\<lambda>i. i\<lparr>wi_current_step_index := wi_current_step_index i + 1\<rparr>))
                                (seq_eff (store_update cfg a) (spawn False a d)) s
                             | AS_PENDING \<Rightarrow> ret () s
                             | AS_CANCELLED \<Rightarrow> ret () s
                             | _ \<Rightarrow> seq_eff (recover_failed cfg a) (roll_back cfg a) s))))"

definition recover_one :: "'x engine_config \<Rightarrow> workflow_instance \<Rightarrow> ('x, unit) engine_op" where
  "recover_one cfg i =
     bind_eff (new_object i) (\<lambda>a.
     seq_eff (cache_object (wi_id i) a)
       (\<lambda>s. case get_definition (wi_definition_id i) (wi_tenant_id i) (Some (wi_definition_version i)) (i_definitions (es_db s)) of
              Inr (Some d) \<Rightarrow>
                if wi_state i = WS_WAITING then recover_waiting cfg a d s
                else if runnable (wi_state i) then spawn False a d s
                else ret () s
            | _ \<Rightarrow> seq_eff (move_object a WS_FAILED) (swallow (store_update cfg a)) s))"

definition hydrate_and_recover :: "'x engine_config \<Rightarrow> string option \<Rightarrow> ('x, unit) engine_op" where
  "hydrate_and_recover cfg tenant =
     (if \<not> ec_store cfg then ret ()
      else bind_eff (reads (\<lambda>s. get_unfinalized_instances tenant (es_db s))) (each (recover_one cfg)))"

end
