(* ===== verification/Instance_Correct.thy ===== *)
theory Instance_Correct
  imports Instance_Store
begin

text \<open>
  What the instance store guarantees whoever writes to it: versions only grow, of all writers that
  hold one version at most one succeeds, and no session token or named credential reaches a row.
\<close>

section \<open>Writes\<close>

text \<open>A row is kept or rewritten under a greater version.\<close>

definition row_grows :: "workflow_instance \<Rightarrow> workflow_instance \<Rightarrow> bool" where
  "row_grows r r' \<longleftrightarrow> r' = r \<or> wi_id r' = wi_id r \<and> wi_tenant_id r' = wi_tenant_id r \<and> wi_version r < wi_version r'"

definition rows_grow :: "instance_db \<Rightarrow> instance_db \<Rightarrow> bool" where
  "rows_grow db db' \<longleftrightarrow> (distinct (map wi_id (i_rows db)) \<longrightarrow>
     distinct (map wi_id (i_rows db')) \<and> (\<forall>r \<in> set (i_rows db). \<exists>r' \<in> set (i_rows db'). row_grows r r'))"

lemma row_grows_refl [simp]: "row_grows r r"
  by (simp add: row_grows_def)

lemma row_grows_trans: "row_grows a b \<Longrightarrow> row_grows b c \<Longrightarrow> row_grows a c"
  by (auto simp: row_grows_def)

lemma rows_grow_refl [simp, intro]: "rows_grow db db"
  unfolding rows_grow_def using row_grows_refl by blast

lemma rows_grow_trans: "rows_grow a b \<Longrightarrow> rows_grow b c \<Longrightarrow> rows_grow a c"
  unfolding rows_grow_def by (meson row_grows_trans)

lemma rows_grow_same: "i_rows db' = i_rows db \<Longrightarrow> rows_grow db db'"
  unfolding rows_grow_def using row_grows_refl by metis

lemma write_row_fields [simp]:
  "wi_id (write_row now inst next r) = wi_id r"
  "wi_tenant_id (write_row now inst next r) = wi_tenant_id r"
  "wi_version (write_row now inst next r) = next"
  "wi_context (write_row now inst next r) = sanitize_context (wi_context inst)"
  "wi_state (write_row now inst next r) = wi_state inst"
  by (simp_all add: write_row_def)

lemma guarded_row_version [simp]: "guarded_row (inst\<lparr>wi_version := n\<rparr>) v t = guarded_row inst v t"
  by (rule ext) (simp add: guarded_row_def)

lemma update_rows_grow:
  assumes "i_rows db' = snd (update_rows now inst version tenant (i_rows db))"
  shows "rows_grow db db'"
proof -
  let ?f = "\<lambda>r. if guarded_row inst version tenant r then write_row now inst (version + 1) r else r"
  have rows: "i_rows db' = map ?f (i_rows db)" using assms by (simp add: update_rows_def)
  have grow: "row_grows r (?f r)" for r by (simp add: row_grows_def guarded_row_def)
  have ids: "map wi_id (i_rows db') = map wi_id (i_rows db)" unfolding rows map_map by (rule map_cong) auto
  have "\<exists>r' \<in> set (i_rows db'). row_grows r r'" if "r \<in> set (i_rows db)" for r
  proof
    show "?f r \<in> set (i_rows db')" unfolding rows set_map using that by (rule imageI)
  qed (rule grow)
  then show ?thesis unfolding rows_grow_def ids by blast
qed

lemma update_rows_count: "fst (update_rows now inst version tenant rows) = 0 \<longleftrightarrow> (\<forall>r \<in> set rows. \<not> guarded_row inst version tenant r)"
  by (simp add: update_rows_def filter_empty_conv)

lemma update_instance_ok_iff:
  "ok (update_instance now inst tenant db) \<longleftrightarrow> (\<exists>r \<in> set (i_rows db). guarded_row inst (wi_version inst) tenant r)"
proof -
  have "ok (update_instance now inst tenant db) \<longleftrightarrow> fst (update_rows now inst (wi_version inst) tenant (i_rows db)) \<noteq> 0"
    by (simp add: update_instance_def split: prod.split option.split)
  then show ?thesis by (simp add: update_rows_count)
qed

lemma update_instance_Inr:
  assumes "update_instance now inst tenant db = Inr (inst', db')"
  shows "inst' = inst\<lparr>wi_version := wi_version inst + 1\<rparr> \<and>
     i_rows db' = snd (update_rows now inst (wi_version inst) tenant (i_rows db)) \<and>
     i_runs db' = i_runs db \<and> i_definitions db' = i_definitions db \<and>
     (\<exists>r \<in> set (i_rows db). guarded_row inst (wi_version inst) tenant r)"
proof -
  have "\<exists>r \<in> set (i_rows db). guarded_row inst (wi_version inst) tenant r"
    using update_instance_ok_iff [of now inst tenant db] assms by simp
  moreover have "inst' = inst\<lparr>wi_version := wi_version inst + 1\<rparr> \<and>
     i_rows db' = snd (update_rows now inst (wi_version inst) tenant (i_rows db)) \<and>
     i_runs db' = i_runs db \<and> i_definitions db' = i_definitions db"
    using assms by (auto simp: update_instance_def split: prod.splits option.splits if_splits)
  ultimately show ?thesis by blast
qed

lemma record_step_complete_rows:
  assumes "record_step_complete text_of now run_id inst out err db = (res, inst', db')"
  shows "(ok res \<longleftrightarrow> (\<exists>r \<in> set (i_rows db). guarded_row inst (wi_version inst) None r)) \<and>
     inst' = inst\<lparr>wi_version := wi_version inst + 1\<rparr> \<and>
     (i_rows db' = i_rows db \<or>
      i_rows db' = snd (update_rows now inst' (wi_version inst) None (i_rows db)))"
proof -
  let ?i = "inst\<lparr>wi_version := Suc (wi_version inst)\<rparr>"
  obtain n rows where u: "update_rows now ?i (wi_version inst) None (i_rows db) = (n, rows)"
    by (cases "update_rows now ?i (wi_version inst) None (i_rows db)")
  have "n = 0 \<longleftrightarrow> (\<forall>r \<in> set (i_rows db). \<not> guarded_row inst (wi_version inst) None r)"
    using update_rows_count [of now ?i "wi_version inst" None "i_rows db"] unfolding u by simp
  then show ?thesis
    using assms by (auto simp: record_step_complete_def Let_def u split: if_splits)
qed

lemma save_instance_Inr:
  assumes "save_instance inst def tenant db = Inr db'"
  shows "\<exists>tid. i_rows db' = i_rows db @ [instance_to_model inst tid] \<and> wi_id inst \<notin> wi_id ` set (i_rows db)"
  using assms by (auto simp: save_instance_def Let_def split: option.splits if_splits)

lemma instance_to_model_fields [simp]:
  "wi_id (instance_to_model inst tid) = wi_id inst" "wi_version (instance_to_model inst tid) = wi_version inst"
  "wi_context (instance_to_model inst tid) = sanitize_context (wi_context inst)"
  "wi_state (instance_to_model inst tid) = wi_state inst"
  by (simp_all add: instance_to_model_def)

section \<open>Any sequence of writers\<close>

text \<open>
  A writer may hold any copy of an instance, however stale: the events carry arbitrary objects.
\<close>

datatype store_event =
    Inst_save workflow_instance "workflow_definition option" string
  | Inst_update instant workflow_instance "string option"
  | Inst_complete "pyval \<Rightarrow> string" instant "string option" workflow_instance pyval "string option"
  | Run_start instant string string string nat
  | Run_complete "pyval \<Rightarrow> string" instant string run_status pyval "string option"

fun store_apply :: "instance_db \<Rightarrow> store_event \<Rightarrow> instance_db" where
  "store_apply db (Inst_save inst def tenant) = (case save_instance inst def tenant db of Inl _ \<Rightarrow> db | Inr db' \<Rightarrow> db')"
| "store_apply db (Inst_update now inst tenant) = (case update_instance now inst tenant db of Inl _ \<Rightarrow> db | Inr (_, db') \<Rightarrow> db')"
| "store_apply db (Inst_complete text_of now rid inst out err) = snd (snd (record_step_complete text_of now rid inst out err db))"
| "store_apply db (Run_start now rid iid sid n) = record_step_run_start now rid iid sid n db"
| "store_apply db (Run_complete text_of now rid st out err) = record_step_run_complete text_of now rid st out err db"

lemma store_apply_grow: "rows_grow db (store_apply db e)"
proof (cases e)
  case (Inst_save inst def tenant)
  show ?thesis
  proof (cases "save_instance inst def tenant db")
    case (Inr db')
    then obtain tid where "i_rows db' = i_rows db @ [instance_to_model inst tid]" "wi_id inst \<notin> wi_id ` set (i_rows db)"
      using save_instance_Inr by blast
    then have "rows_grow db db'" unfolding rows_grow_def by simp (metis row_grows_refl)
    then show ?thesis using Inst_save Inr by simp
  next
    case (Inl e)
    then show ?thesis using Inst_save by simp
  qed
next
  case (Inst_update now inst tenant)
  show ?thesis
  proof (cases "update_instance now inst tenant db")
    case (Inr p)
    then show ?thesis using Inst_update update_rows_grow update_instance_Inr
      by (cases p) fastforce
  next
    case (Inl e)
    then show ?thesis using Inst_update by simp
  qed
next
  case (Inst_complete text_of now rid inst out err)
  obtain res inst' db' where c: "record_step_complete text_of now rid inst out err db = (res, inst', db')"
    by (metis prod_cases3)
  from record_step_complete_rows [OF c] have "rows_grow db db'"
    using rows_grow_same update_rows_grow by metis
  then show ?thesis using Inst_complete c by simp
next
  case (Run_start now rid iid sid n)
  then show ?thesis by (auto simp: record_step_run_start_def intro: rows_grow_same)
next
  case (Run_complete text_of now rid st out err)
  then show ?thesis by (auto simp: record_step_run_complete_def intro: rows_grow_same)
qed

interpretation instances: monotone_machine store_apply rows_grow
  by unfold_locales (auto intro: rows_grow_trans store_apply_grow)

lemma unique_row: "distinct (map wi_id rows) \<Longrightarrow> r \<in> set rows \<Longrightarrow> r' \<in> set rows \<Longrightarrow> wi_id r = wi_id r' \<Longrightarrow> r = r'"
  by (metis distinct_map inj_onD)

text \<open>Once a version has been overwritten, no copy of it or of an older one is accepted again.\<close>

lemma outdated_refused:
  assumes "distinct (map wi_id (i_rows db))" "r \<in> set (i_rows db)" "wi_version copy < wi_version r" "wi_id copy = wi_id r"
    and "rows_grow db db'" and g: "guarded_row copy (wi_version copy) tenant q"
  shows "q \<notin> set (i_rows db')"
proof
  assume q: "q \<in> set (i_rows db')"
  from assms obtain r' where r': "r' \<in> set (i_rows db')" "row_grows r r'" "distinct (map wi_id (i_rows db'))"
    unfolding rows_grow_def by blast
  have "wi_id q = wi_id r'" using g r'(2) assms(4) by (auto simp: guarded_row_def row_grows_def)
  then have "q = r'" using unique_row r' q by blast
  then show False using g r'(2) assms(3) by (auto simp: guarded_row_def row_grows_def)
qed

text \<open>After a successful update every later write from a copy that is not newer is refused.\<close>

lemma stale_write_refused:
  assumes ids: "distinct (map wi_id (i_rows db))" and won: "update_instance now inst tenant db = Inr (inst', db')"
    and copy: "wi_id copy = wi_id inst" "wi_version copy \<le> wi_version inst"
  shows "\<not> ok (update_instance now' copy tenant' (run store_apply db' es)) \<and>
     \<not> ok (fst (record_step_complete text_of now' run_id copy out err (run store_apply db' es)))"
proof -
  let ?late = "run store_apply db' es"
  from update_instance_Inr [OF won] obtain r where
    rows: "i_rows db' = snd (update_rows now inst (wi_version inst) tenant (i_rows db))"
    and r: "r \<in> set (i_rows db)" "guarded_row inst (wi_version inst) tenant r" by blast
  let ?r = "write_row now inst (wi_version inst + 1) r"
  have new: "?r \<in> set (i_rows db')" using r by (auto simp: rows update_rows_def)
  have id: "wi_id ?r = wi_id inst" using r(2) by (simp add: guarded_row_def)
  have "rows_grow db db'" by (rule update_rows_grow [OF rows])
  then have d: "distinct (map wi_id (i_rows db'))" using ids by (simp add: rows_grow_def)
  have "wi_version copy < wi_version ?r" "wi_id copy = wi_id ?r" using copy id by simp_all
  from outdated_refused [OF d new this instances.below_run [of db' es]]
  have "\<forall>q \<in> set (i_rows ?late). \<not> guarded_row copy (wi_version copy) t q" for t by blast
  moreover obtain res i d where c: "record_step_complete text_of now' run_id copy out err ?late = (res, i, d)"
    by (metis prod_cases3)
  ultimately show ?thesis using record_step_complete_rows [OF c] update_instance_ok_iff by (metis fst_conv)
qed

section \<open>What is written\<close>

definition clean_context :: "workflow_context \<Rightarrow> bool" where
  "clean_context ctx \<longleftrightarrow> wc_session_token ctx = None \<and>
     (\<forall>e \<in> set (wc_variables ctx). public_entry e)"

lemma sanitize_clean [simp]: "clean_context (sanitize_context ctx)"
  by (auto simp: clean_context_def sanitize_context_def)

lemma update_rows_clean:
  assumes "\<forall>r \<in> set rows. clean_context (wi_context r)" "r \<in> set (snd (update_rows now inst version tenant rows))"
  shows "clean_context (wi_context r)"
  using assms by (auto simp: update_rows_def split: if_splits)

lemma store_apply_clean:
  assumes "\<forall>r \<in> set (i_rows db). clean_context (wi_context r)"
  shows "\<forall>r \<in> set (i_rows (store_apply db e)). clean_context (wi_context r)"
proof (cases e)
  case (Inst_save inst def tenant)
  with assms show ?thesis
    by (cases "save_instance inst def tenant db") (auto dest!: save_instance_Inr)
next
  case (Inst_update now inst tenant)
  show ?thesis
  proof (cases "update_instance now inst tenant db")
    case (Inr p)
    then show ?thesis using Inst_update update_rows_clean [OF assms] update_instance_Inr
      by (cases p) fastforce
  next
    case (Inl e)
    then show ?thesis using Inst_update assms by simp
  qed
next
  case (Inst_complete text_of now rid inst out err)
  obtain res inst' db' where c: "record_step_complete text_of now rid inst out err db = (res, inst', db')"
    by (metis prod_cases3)
  from record_step_complete_rows [OF c] have "\<forall>r \<in> set (i_rows db'). clean_context (wi_context r)"
    using assms update_rows_clean [OF assms] by metis
  then show ?thesis using Inst_complete c by simp
next
  case (Run_start now rid iid sid n)
  with assms show ?thesis by (simp add: record_step_run_start_def)
next
  case (Run_complete text_of now rid st out err)
  with assms show ?thesis by (simp add: record_step_run_complete_def)
qed

interpretation clean_rows: invariant_machine store_apply "\<lambda>db. \<forall>r \<in> set (i_rows db). clean_context (wi_context r)"
  by unfold_locales (rule store_apply_clean)

end
