(* ===== verification/Engine_Correct.thy ===== *)
theory Engine_Correct
  imports Engine_Handlers Instance_Correct
begin

text \<open>
  What the engine's operations do to instances in memory: whatever handlers and loop iterations are
  interleaved, an object keeps its identity and tenant and its state only moves along the allowed
  transitions.  Then what one run of the step loop leaves behind.
\<close>

section \<open>Objects only move forward\<close>

definition object_step :: "workflow_instance \<Rightarrow> workflow_instance \<Rightarrow> bool" where
  "object_step i j \<longleftrightarrow> wi_id j = wi_id i \<and> wi_tenant_id j = wi_tenant_id i \<and>
     wi_definition_id j = wi_definition_id i \<and> wi_definition_version j = wi_definition_version i \<and>
     can_transition\<^sup>*\<^sup>* (wi_state i) (wi_state j)"

text \<open>Most operations also leave the position in the definition alone.\<close>

definition still_step :: "workflow_instance \<Rightarrow> workflow_instance \<Rightarrow> bool" where
  "still_step i j \<longleftrightarrow> object_step i j \<and> wi_current_step_index j = wi_current_step_index i"

definition each_object ::
  "(workflow_instance \<Rightarrow> workflow_instance \<Rightarrow> bool) \<Rightarrow> 'x engine_state \<Rightarrow> 'x engine_state \<Rightarrow> bool" where
  "each_object R s t \<longleftrightarrow> length (es_heap s) \<le> length (es_heap t) \<and>
     (\<forall>a < length (es_heap s). R (es_heap s ! a) (es_heap t ! a))"

abbreviation heap_step :: "'x engine_state \<Rightarrow> 'x engine_state \<Rightarrow> bool" where
  "heap_step \<equiv> each_object object_step"

abbreviation heap_still :: "'x engine_state \<Rightarrow> 'x engine_state \<Rightarrow> bool" where
  "heap_still \<equiv> each_object still_step"

lemma object_step_refl [simp]: "object_step i i"
  by (simp add: object_step_def)

lemma object_step_trans: "object_step i j \<Longrightarrow> object_step j k \<Longrightarrow> object_step i k"
  by (auto simp: object_step_def)

lemma object_step_same:
  "wi_id j = wi_id i \<Longrightarrow> wi_tenant_id j = wi_tenant_id i \<Longrightarrow> wi_definition_id j = wi_definition_id i \<Longrightarrow>
     wi_definition_version j = wi_definition_version i \<Longrightarrow> wi_state j = wi_state i \<Longrightarrow> object_step i j"
  by (simp add: object_step_def)

lemma still_step_refl [simp]: "still_step i i"
  by (simp add: still_step_def)

lemma still_step_same:
  "wi_id j = wi_id i \<Longrightarrow> wi_tenant_id j = wi_tenant_id i \<Longrightarrow> wi_definition_id j = wi_definition_id i \<Longrightarrow>
     wi_definition_version j = wi_definition_version i \<Longrightarrow> wi_state j = wi_state i \<Longrightarrow>
     wi_current_step_index j = wi_current_step_index i \<Longrightarrow> still_step i j"
  by (simp add: still_step_def object_step_def)

lemma transition_still_step: "transition i target = Inr j \<Longrightarrow> still_step i j"
  by (auto simp: transition_def still_step_def object_step_def Let_def split: if_splits)

lemma each_object_refl: "(\<And>i. R i i) \<Longrightarrow> each_object R s s"
  by (simp add: each_object_def)

lemma each_object_trans:
  assumes "\<And>i j k. R i j \<Longrightarrow> R j k \<Longrightarrow> R i k" "each_object R s t" "each_object R t u"
  shows "each_object R s u"
  using assms unfolding each_object_def by (meson less_le_trans order_trans)

lemma heap_step_refl: "heap_step s s"
  by (rule each_object_refl) simp

lemma heap_still_refl: "heap_still s s"
  by (rule each_object_refl) simp

lemma heap_step_trans: "heap_step s t \<Longrightarrow> heap_step t u \<Longrightarrow> heap_step s u"
  by (rule each_object_trans [OF object_step_trans])

lemma heap_still_trans: "heap_still s t \<Longrightarrow> heap_still t u \<Longrightarrow> heap_still s u"
  by (rule each_object_trans) (auto simp: still_step_def object_step_trans)

interpretation eff: effect_order "heap_step :: 'x engine_state \<Rightarrow> 'x engine_state \<Rightarrow> bool"
  by unfold_locales (rule heap_step_refl, rule heap_step_trans)

interpretation still: effect_order "heap_still :: 'x engine_state \<Rightarrow> 'x engine_state \<Rightarrow> bool"
  by unfold_locales (rule heap_still_refl, rule heap_still_trans)

lemma still_climbs: "still.climbs m \<Longrightarrow> eff.climbs m"
  unfolding still.climbs_def eff.climbs_def each_object_def still_step_def by blast

lemma heap_same: "(\<And>i. R i i) \<Longrightarrow> es_heap t = es_heap s \<Longrightarrow> each_object R s t"
  by (simp add: each_object_def)

lemma heap_put:
  "(\<And>j. R j j) \<Longrightarrow> R (es_heap s ! a) i \<Longrightarrow> es_heap t = (es_heap s)[a := i] \<Longrightarrow> each_object R s t"
  by (cases "a < length (es_heap s)") (auto simp: each_object_def nth_list_update)

text \<open>An effect that ends by writing one object.\<close>

lemma heap_write:
  assumes "es_heap u = es_heap s" "still_step (es_heap s ! a) i"
  shows "heap_still s (snd (set_object a (\<lambda>_. i) u))"
  by (rule heap_put [OF still_step_refl assms(2)]) (simp add: set_object_def modify_def assms(1))

subsection \<open>Primitives\<close>

lemma still_modify_same [intro]: "(\<And>s. es_heap (f s) = es_heap s) \<Longrightarrow> still.climbs (modify f)"
  by (rule still.climbs_modify) (simp add: heap_same)

lemma still_set_object [intro]: "(\<And>i. still_step i (f i)) \<Longrightarrow> still.climbs (set_object a f)"
  unfolding set_object_def by (rule still.climbs_modify) (rule heap_put [where a = a], simp_all)

lemma still_new_object [simp, intro]: "still.climbs (new_object i)"
  by (simp add: still.climbs_def new_object_def each_object_def nth_append)

lemma still_cache_object [simp, intro]: "still.climbs (cache_object iid a)"
  unfolding cache_object_def by (rule still_modify_same) simp

lemma still_draw [simp, intro]: "still.climbs draw"
  by (simp add: still.climbs_def draw_def heap_same)

lemma still_count [simp, intro]: "still.climbs (count_metric m n)"
  unfolding count_metric_def by (rule still_modify_same) simp

lemma still_publish [simp, intro]: "still.climbs (publish_event cfg topic payload)"
  unfolding publish_event_def by (intro still.climbs_when still_modify_same) simp

lemma still_snapshot [simp, intro]: "still.climbs (persist_snapshot cfg a)"
  unfolding persist_snapshot_def by (intro still.climbs_when still_modify_same) simp

lemma still_state_fun: "(\<And>s. still.climbs (m s)) \<Longrightarrow> still.climbs (\<lambda>s. m s s)"
  by (simp add: still.climbs_def)

lemma still_announce [simp, intro]: "still.climbs (announce cfg topic a extra)"
  unfolding announce_def [abs_def] by (rule still_state_fun) simp

lemma still_spawn [simp, intro]: "still.climbs (spawn pops a d)"
  unfolding spawn_def by (rule still_modify_same) simp

lemma still_move [simp, intro]: "still.climbs (move_object a target)"
proof -
  have "heap_still s (snd (move_object a target s))" for s :: "'a engine_state"
    by (auto simp: move_object_def object_at_def heap_still_refl
        intro!: heap_write dest: transition_still_step split: sum.split)
  then show ?thesis by (simp add: still.climbs_def)
qed

lemma still_store_update [simp, intro]: "still.climbs (store_update cfg a)"
proof -
  have "still.climbs (\<lambda>s. case update_instance now (object_at s a) None (es_db s) of
          Inl e \<Rightarrow> (Inl (EngineStore e), s)
        | Inr (i, db) \<Rightarrow> set_object a (\<lambda>_. i) (s\<lparr>es_db := db\<rparr>))" for now
    by (auto simp: still.climbs_def object_at_def heap_still_refl
        intro!: heap_write still_step_same dest!: update_instance_Inr split: sum.split)
  then show ?thesis unfolding store_update_def by auto
qed

lemma still_store_complete [simp, intro]: "still.climbs (store_step_complete (cfg :: 'x engine_config) a rid out err)"
proof -
  have "heap_still s (snd (case record_step_complete text_of now rid (object_at s a) out err (es_db s) of
          (Inl e, i, db) \<Rightarrow> seq_eff (set_object a (\<lambda>_. i)) (raise_error (EngineStore e)) (s\<lparr>es_db := db\<rparr>)
        | (Inr _, i, db) \<Rightarrow> set_object a (\<lambda>_. i) (s\<lparr>es_db := db\<rparr>)))" for s :: "'x engine_state" and text_of now
  proof -
    obtain res i db where c: "record_step_complete text_of now rid (object_at s a) out err (es_db s) = (res, i, db)"
      by (metis prod_cases3)
    have "still_step (es_heap s ! a) i"
      using record_step_complete_rows [OF c] by (simp add: still_step_same object_at_def)
    then have "heap_still s (snd (set_object a (\<lambda>_. i) (s\<lparr>es_db := db\<rparr>)))" by (intro heap_write) simp_all
    then show ?thesis
      by (cases res) (simp_all add: c seq_eff_def bind_eff_def raise_error_def set_object_def modify_def)
  qed
  then have "still.climbs (\<lambda>s :: 'x engine_state. case record_step_complete text_of now rid (object_at s a) out err (es_db s) of
          (Inl e, i, db) \<Rightarrow> seq_eff (set_object a (\<lambda>_. i)) (raise_error (EngineStore e)) (s\<lparr>es_db := db\<rparr>)
        | (Inr _, i, db) \<Rightarrow> set_object a (\<lambda>_. i) (s\<lparr>es_db := db\<rparr>))" for text_of now
    by (simp add: still.climbs_def)
  then show ?thesis unfolding store_step_complete_def by auto
qed

lemma still_start_run [simp, intro]: "still.climbs (start_run cfg a sid)"
  unfolding start_run_def by (intro still.climbs_if still.climbs_bind still_draw still.climbs_ret)
    (simp add: still.climbs_def heap_same)

lemma execute_step_still:
  assumes "execute_step deps disp inst step env = Inr r"
  shows "still_step inst (sr_instance r)"
proof (cases "ws_is_approval_step step")
  case True
  then show ?thesis
    using assms by (auto simp: execute_step_def Let_def dest!: transition_still_step split: sum.splits)
next
  case False
  then have "sr_instance r = inst \<or> (\<exists>out. sr_instance r = record_success inst step out)"
    using assms retry_loop_instance [of _ deps disp _ inst step 0 None "[]" env]
    by (auto simp: execute_step_def Let_def split: if_splits)
  then show ?thesis by (auto simp: record_success_def intro: still_step_same)
qed

lemma still_run_step [simp, intro]: "still.climbs (run_step (cfg :: 'x engine_config) a step)"
proof -
  have "heap_still s (snd (run_step cfg a step s))" for s :: "'x engine_state"
    by (auto simp: run_step_def Let_def object_at_def heap_same
        intro!: heap_put dest!: execute_step_still split: sum.split)
  then show ?thesis by (simp add: still.climbs_def)
qed

lemma still_compensate [simp, intro]: "still.climbs (compensate (disp :: 'x engine_env dispatcher) a)"
proof -
  have "heap_still s (snd (compensate disp a s))" for s :: "'x engine_state"
    by (auto simp: compensate_def execute_compensation_stack_def Let_def object_at_def
        intro!: heap_put [where i = "(es_heap s ! a)\<lparr>wi_compensation_stack := []\<rparr>"] still_step_same split: prod.split)
  then show ?thesis by (simp add: still.climbs_def)
qed

lemma still_compensate_own [simp, intro]: "still.climbs (\<lambda>s. compensate (disp s) a s)"
  by (rule still_state_fun) simp


text \<open>The same for the weaker order, where the position may move as well.\<close>

lemmas climbs_primitives [simp, intro] =
  still_new_object [THEN still_climbs] still_cache_object [THEN still_climbs] still_draw [THEN still_climbs]
  still_count [THEN still_climbs] still_publish [THEN still_climbs] still_snapshot [THEN still_climbs]
  still_announce [THEN still_climbs] still_spawn [THEN still_climbs] still_move [THEN still_climbs]
  still_store_update [THEN still_climbs] still_store_complete [THEN still_climbs]
  still_start_run [THEN still_climbs] still_run_step [THEN still_climbs] still_compensate [THEN still_climbs]
  still_compensate_own [THEN still_climbs]

lemma climbs_modify_same [intro]: "(\<And>s. es_heap (f s) = es_heap s) \<Longrightarrow> eff.climbs (modify f)"
  by (rule eff.climbs_modify) (simp add: heap_same)

lemma climbs_set_object [intro]: "(\<And>i. object_step i (f i)) \<Longrightarrow> eff.climbs (set_object a f)"
  unfolding set_object_def by (rule eff.climbs_modify) (rule heap_put [where a = a], simp_all)

lemma climbs_state_fun: "(\<And>s. eff.climbs (m s)) \<Longrightarrow> eff.climbs (\<lambda>s. m s s)"
  by (simp add: eff.climbs_def)

subsection \<open>The loop\<close>

lemma climbs_fail_run [simp, intro]: "eff.climbs (fail_run cfg a rid res)"
  unfolding fail_run_def by (intro eff.climbs_seq eff.climbs_bind) auto

lemma climbs_wait_run [simp, intro]: "eff.climbs (wait_run cfg a sid rid res)"
  unfolding wait_run_def by (intro eff.climbs_seq) auto

lemma climbs_advance_run [simp, intro]: "eff.climbs (advance_run cfg a rid res)"
  unfolding advance_run_def by (intro eff.climbs_seq climbs_set_object object_step_same) auto

lemma climbs_split_state:
  assumes "eff.climbs m" "eff.climbs k"
  shows "eff.climbs (\<lambda>s. if b s then m s else k s)"
  using assms by (simp add: eff.climbs_def)

lemma climbs_after_step [simp, intro]: "eff.climbs (after_step cfg a step rid res)"
  unfolding after_step_def by (intro eff.climbs_seq climbs_primitives eff.climbs_if climbs_split_state) auto

lemma climbs_begin_step [simp, intro]: "eff.climbs (begin_step cfg a step)"
  unfolding begin_step_def
  by (intro eff.climbs_seq climbs_set_object climbs_split_state object_step_same) auto

lemma climbs_complete_run [simp, intro]: "eff.climbs (complete_run cfg d a)"
  unfolding complete_run_def [abs_def] by (intro climbs_split_state eff.climbs_seq) auto

lemma climbs_loop_turn [simp, intro]: "eff.climbs (loop_turn cfg d a)"
proof -
  have "eff.climbs (seq_eff (begin_step cfg a step) (bind_eff (start_run cfg a (ws_id step)) (\<lambda>rid.
      bind_eff (run_step cfg a step) (\<lambda>res. after_step cfg a step rid res))))" for step
    by (intro eff.climbs_seq eff.climbs_bind) auto
  then show ?thesis unfolding loop_turn_def [abs_def] Let_def by (simp add: eff.climbs_def) (metis climbs_complete_run eff.climbs_def)
qed

lemma climbs_end_task [simp, intro]: "eff.climbs (end_task k)"
  unfolding end_task_def by (rule climbs_modify_same) (simp add: Let_def)

lemma climbs_task_turn [simp, intro]: "eff.climbs (task_turn (cfg :: 'x engine_config) k)"
proof -
  have "heap_step s (snd (task_turn cfg k s))" for s :: "'x engine_state"
  proof -
    let ?t = "es_tasks s ! k"
    obtain r s' where l: "loop_turn cfg (tk_definition ?t) (tk_object ?t) s = (r, s')"
      by (cases "loop_turn cfg (tk_definition ?t) (tk_object ?t) s")
    have one: "heap_step s s'" by (rule eff.climbs_run [OF climbs_loop_turn l])
    have "heap_step s' (snd (end_task k s'))" using climbs_end_task [of k] unfolding eff.climbs_def by blast
    with one have two: "heap_step s (snd (end_task k s'))" by (rule heap_step_trans)
    show ?thesis
      by (auto simp: task_turn_def Let_def l one two heap_step_refl split: sum.split bool.split)
  qed
  then show ?thesis by (simp add: eff.climbs_def)
qed

subsection \<open>The handlers\<close>

lemma climbs_cache_definition [simp, intro]: "eff.climbs (cache_definition d)"
  unfolding cache_definition_def by (rule climbs_modify_same) simp

lemma climbs_announce_definition [simp, intro]: "eff.climbs (announce_definition cfg d)"
  unfolding announce_definition_def Let_def by (intro eff.climbs_seq) auto

lemma climbs_register [simp, intro]: "eff.climbs (register_definition cfg d tenant)"
  unfolding register_definition_def Let_def by (intro eff.climbs_if eff.climbs_seq) auto

lemma climbs_register_async [simp, intro]: "eff.climbs (register_definition_async cfg d tenant)"
  unfolding register_definition_async_def Let_def
  by (intro eff.climbs_if eff.climbs_seq eff.climbs_when climbs_modify_same) auto

lemma climbs_load [simp, intro]: "eff.climbs (load_definition did tenant version)"
  by (simp add: eff.climbs_def load_definition_def heap_step_refl split: sum.split)

lemma climbs_get_definition [simp, intro]: "eff.climbs (get_definition_async cfg did tenant version)"
  unfolding get_definition_async_def
  by (intro eff.climbs_option eff.climbs_bind eff.climbs_if eff.climbs_seq) auto

lemma climbs_cached_or_stored [simp, intro]: "eff.climbs (cached_or_stored (cfg :: 'x engine_config) iid tenant who)"
proof -
  have "heap_step s (snd (bind_eff (new_object i) (\<lambda>a. seq_eff (cache_object (wi_id i) a) (ret a)) s))"
    for s :: "'x engine_state" and i
  proof -
    have "eff.climbs (bind_eff (new_object i) (\<lambda>a. seq_eff (cache_object (wi_id i) a) (ret a)) :: ('x, nat) engine_op)"
      by (intro eff.climbs_bind eff.climbs_seq) auto
    then show ?thesis by (simp add: eff.climbs_def)
  qed
  then have "heap_step s (snd (cached_or_stored cfg iid tenant who s))" for s :: "'x engine_state"
    by (simp add: cached_or_stored_def Let_def heap_step_refl split: option.split)
  then show ?thesis by (simp add: eff.climbs_def)
qed

lemma climbs_refuse_archived [simp, intro]: "eff.climbs (refuse_archived cfg did tid)"
  by (simp add: eff.climbs_def refuse_archived_def heap_step_refl split: sum.split option.split)

lemma climbs_store_save [simp, intro]: "eff.climbs (store_save cfg a d tid)"
  by (simp add: eff.climbs_def store_save_def heap_step_refl heap_same split: sum.split)

lemma climbs_start [simp, intro]: "eff.climbs (start_workflow cfg did vars token tenant who)"
  unfolding start_workflow_def Let_def by (intro eff.climbs_bind eff.climbs_seq) auto

lemma climbs_run_steps [simp, intro]: "eff.climbs (run_instance_steps cfg d a)"
proof -
  have "eff.climbs (loop_turns n cfg d a)" for n
    by (induction n) (auto intro!: eff.climbs_bind eff.climbs_when)
  then show ?thesis unfolding run_instance_steps_def [abs_def] by (rule climbs_state_fun)
qed

lemma climbs_execute [simp, intro]: "eff.climbs (execute_workflow cfg d vars tenant)"
  unfolding execute_workflow_def by (intro eff.climbs_bind eff.climbs_seq) auto

text \<open>A handler that looks the instance up, refuses some states, and otherwise goes on.\<close>

lemma climbs_refuse:
  assumes "eff.climbs k"
  shows "eff.climbs (\<lambda>s. if b s then (Inl (e s), s) else k s)"
  using assms by (simp add: eff.climbs_def heap_step_refl)

lemma climbs_pause [simp, intro]: "eff.climbs (pause_workflow cfg iid tenant who)"
  unfolding pause_workflow_def
  by (intro eff.climbs_bind eff.climbs_seq climbs_refuse climbs_set_object object_step_same) auto

lemma climbs_own_definition [simp, intro]: "eff.climbs (\<lambda>s. get_definition_async cfg (f s) (g s) (h s) s)"
  by (rule climbs_state_fun) simp

lemma climbs_when_state [simp, intro]: "eff.climbs m \<Longrightarrow> eff.climbs (\<lambda>s. when_eff (b s) m s)"
  by (simp add: eff.climbs_def when_eff_def ret_def heap_step_refl)

lemma climbs_resume [simp, intro]: "eff.climbs (resume_workflow cfg iid tenant who)"
  unfolding resume_workflow_def
  by (intro eff.climbs_bind eff.climbs_seq climbs_refuse climbs_set_object climbs_when_state object_step_same
      climbs_own_definition) auto

lemma climbs_cancel_task [simp, intro]: "eff.climbs (cancel_task iid)"
  unfolding cancel_task_def by (rule climbs_modify_same) (simp split: option.split)

lemma climbs_cancel_own [simp, intro]: "eff.climbs k \<Longrightarrow> eff.climbs (\<lambda>s. seq_eff (cancel_task (f s)) k s)"
  by (rule climbs_state_fun) (intro eff.climbs_seq climbs_cancel_task)

lemma climbs_cancel [simp, intro]: "eff.climbs (cancel_workflow cfg iid cause tenant who)"
  unfolding cancel_workflow_def
  by (intro eff.climbs_bind climbs_cached_or_stored climbs_refuse climbs_cancel_own eff.climbs_seq) auto

lemma climbs_list_durable [simp, intro]: "eff.climbs (list_instances_durable cfg tenant st who)"
  unfolding list_instances_durable_def Let_def
  by (intro eff.climbs_if eff.climbs_bind eff.climbs_seq eff.climbs_each) auto

lemma climbs_roll_back [simp, intro]: "eff.climbs (roll_back cfg a)"
  unfolding roll_back_def [abs_def] by (intro climbs_when_state eff.climbs_bind) auto

lemma climbs_fail_waiting [simp, intro]: "eff.climbs (fail_waiting cfg a cause)"
  unfolding fail_waiting_def by (intro eff.climbs_seq) auto

lemma climbs_resume_own [simp, intro]: "eff.climbs (\<lambda>s. resume_workflow cfg (f s) tenant who s)"
  by (rule climbs_state_fun) simp

lemma climbs_advance [simp, intro]: "eff.climbs (advance_after_approval cfg ticket d tenant)"
  unfolding advance_after_approval_def
  by (intro eff.climbs_option eff.climbs_bind eff.climbs_if eff.climbs_seq climbs_set_object object_step_same
      climbs_resume_own) auto

text \<open>Operations on the approval manager and the other parts of the environment leave the heap alone.\<close>

lemma climbs_heap_same: "(\<And>s. es_heap (snd (m s)) = es_heap s) \<Longrightarrow> eff.climbs m"
  by (simp add: eff.climbs_def heap_same)

lemma climbs_manager_decide [simp, intro]: "eff.climbs (manager_decide cfg d who tid)"
  unfolding manager_decide_def
  by (intro eff.climbs_bind climbs_primitives climbs_heap_same) (simp split: sum.split prod.split)

lemma climbs_submit [simp, intro]: "eff.climbs (submit_approval_decision cfg d tenant who)"
  unfolding submit_approval_decision_def Let_def by (intro eff.climbs_bind) auto

lemma climbs_decide [simp, intro]:
  "eff.climbs (decide_approval_request cfg rid verdict approver cause sig key data tenant ec who)"
  unfolding decide_approval_request_def Let_def split_def
  by (intro eff.climbs_bind eff.climbs_option eff.climbs_seq) auto

lemma climbs_create_ticket [simp, intro]:
  "eff.climbs (create_approval_request cfg role iid sid timeout ctx sig tenant corr fp who)"
  unfolding create_approval_request_def
  by (intro eff.climbs_bind climbs_primitives climbs_heap_same) (simp split: sum.split prod.split)

lemma climbs_delegate [simp, intro]:
  "eff.climbs (delegate_approval_role cfg delegator delegatee role vf vu tenant ec who)"
  unfolding delegate_approval_role_def split_def
  by (intro eff.climbs_bind climbs_primitives eff.climbs_lift climbs_heap_same) (simp split: sum.split)

lemma climbs_sweep_manager [simp, intro]: "eff.climbs (sweep_manager cfg tenant)"
  unfolding sweep_manager_def
  by (intro eff.climbs_bind climbs_primitives climbs_heap_same) (simp split: prod.split)

lemma climbs_if_state: "eff.climbs m \<Longrightarrow> eff.climbs (\<lambda>s. if b s then m s else (Inr x, s))"
  by (simp add: eff.climbs_def heap_step_refl)

lemma climbs_sweep [simp, intro]: "eff.climbs (sweep_expired_approvals cfg tenant)"
  unfolding sweep_expired_approvals_def
  by (intro eff.climbs_bind eff.climbs_seq eff.climbs_each eff.climbs_option eff.climbs_swallow climbs_if_state) auto

lemma climbs_recover_failed [simp, intro]: "eff.climbs (recover_failed cfg a)"
  unfolding recover_failed_def by (intro eff.climbs_seq) auto

lemma climbs_recover_waiting [simp, intro]: "eff.climbs (recover_waiting (cfg :: 'x engine_config) a d)"
proof -
  have 1: "eff.climbs (modify (\<lambda>s. s\<lparr>es_env := f s\<rparr>) :: ('x, unit) engine_op)" for f
    by (rule climbs_modify_same) simp
  have 2: "eff.climbs (seq_eff (set_object a (\<lambda>i. i\<lparr>wi_current_step_index := wi_current_step_index i + 1\<rparr>))
      (seq_eff (store_update cfg a) (spawn False a d)))"
    by (intro eff.climbs_seq climbs_set_object object_step_same) auto
  have 3: "eff.climbs (seq_eff (recover_failed cfg a) (roll_back cfg a))"
    by (intro eff.climbs_seq) auto
  have 4: "eff.climbs (ret () :: ('x, unit) engine_op)" by simp
  have "heap_step s (snd (recover_waiting cfg a d s))" for s
    using 1 2 3 4 unfolding eff.climbs_def recover_waiting_def Let_def
    by (simp split: option.split approval_state.split)
  then show ?thesis by (simp add: eff.climbs_def)
qed

lemma climbs_recover_one [simp, intro]: "eff.climbs (recover_one (cfg :: 'x engine_config) i)"
proof -
  have 1: "eff.climbs (seq_eff (move_object a WS_FAILED) (swallow (store_update cfg a)))" for a
    by (intro eff.climbs_seq eff.climbs_swallow) auto
  have 2: "eff.climbs (spawn False a d :: ('x, unit) engine_op)" for a d by simp
  have "heap_step s (snd (case get_definition did tid v (i_definitions (es_db s)) of
      Inr (Some d) \<Rightarrow>
        if wi_state i = WS_WAITING then recover_waiting cfg a d s
        else if runnable (wi_state i) then spawn False a d s else ret () s
    | _ \<Rightarrow> seq_eff (move_object a WS_FAILED) (swallow (store_update cfg a)) s))" for a did tid v and s :: "'x engine_state"
    using 1 2 climbs_recover_waiting [of cfg a] heap_step_refl [of s]
    unfolding eff.climbs_def by (simp add: ret_def split: sum.split option.split)
  then have "eff.climbs (\<lambda>s :: 'x engine_state. case get_definition did tid v (i_definitions (es_db s)) of
      Inr (Some d) \<Rightarrow>
        if wi_state i = WS_WAITING then recover_waiting cfg a d s
        else if runnable (wi_state i) then spawn False a d s else ret () s
    | _ \<Rightarrow> seq_eff (move_object a WS_FAILED) (swallow (store_update cfg a)) s)" for a did tid v
    by (simp add: eff.climbs_def)
  then show ?thesis unfolding recover_one_def
    by (intro eff.climbs_bind eff.climbs_seq climbs_primitives)
qed

lemma climbs_hydrate [simp, intro]: "eff.climbs (hydrate_and_recover cfg tenant)"
  unfolding hydrate_and_recover_def by (intro eff.climbs_if eff.climbs_bind eff.climbs_each) auto

end
