(* ===== verification/Engine_Runs.thy ===== *)
theory Engine_Runs
  imports Engine_Correct
begin

text \<open>
  Runs of the engine: any interleaving of handlers, loop iterations and other writers of the
  database, and then what one run of the step loop leaves behind when it is not disturbed.
\<close>

section \<open>Any interleaving\<close>

text \<open>
  One event is a call of a handler, one iteration of a background task, or a write of another
  process to the shared store.
\<close>

datatype engine_event =
    Ev_register workflow_definition string
  | Ev_register_async workflow_definition string
  | Ev_start string "(string, pyval) dict" "(string, pyval) dict option" "string option" "security_principal option"
  | Ev_execute workflow_definition "(string, pyval) dict" string
  | Ev_turn nat
  | Ev_pause string "string option" "security_principal option"
  | Ev_resume string "string option" "security_principal option"
  | Ev_cancel string string "string option" "security_principal option"
  | Ev_list "string option" "workflow_state option" "security_principal option"
  | Ev_submit approval_decision "string option" "security_principal option"
  | Ev_decide string string string "string option" "string option" "string option" "(string, pyval) dict"
      "string option" "execution_context option" "security_principal option"
  | Ev_ticket string "string option" "string option" "int option" "(string, pyval) dict" bool
      "string option" "string option" "string option" "security_principal option"
  | Ev_delegate string string string instant instant "string option" "execution_context option" "security_principal option"
  | Ev_sweep "string option"
  | Ev_recover "string option"
  | Ev_other_writer store_event

fun engine_apply :: "'x engine_config \<Rightarrow> 'x engine_state \<Rightarrow> engine_event \<Rightarrow> 'x engine_state" where
  "engine_apply cfg s (Ev_register d tenant) = snd (register_definition cfg d tenant s)"
| "engine_apply cfg s (Ev_register_async d tenant) = snd (register_definition_async cfg d tenant s)"
| "engine_apply cfg s (Ev_start did vars token tenant who) = snd (start_workflow cfg did vars token tenant who s)"
| "engine_apply cfg s (Ev_execute d vars tenant) = snd (execute_workflow cfg d vars tenant s)"
| "engine_apply cfg s (Ev_turn k) = snd (task_turn cfg k s)"
| "engine_apply cfg s (Ev_pause iid tenant who) = snd (pause_workflow cfg iid tenant who s)"
| "engine_apply cfg s (Ev_resume iid tenant who) = snd (resume_workflow cfg iid tenant who s)"
| "engine_apply cfg s (Ev_cancel iid cause tenant who) = snd (cancel_workflow cfg iid cause tenant who s)"
| "engine_apply cfg s (Ev_list tenant state who) = snd (list_instances_durable cfg tenant state who s)"
| "engine_apply cfg s (Ev_submit d tenant who) = snd (submit_approval_decision cfg d tenant who s)"
| "engine_apply cfg s (Ev_decide rid verdict approver cause sig key data tenant ec who) =
     snd (decide_approval_request cfg rid verdict approver cause sig key data tenant ec who s)"
| "engine_apply cfg s (Ev_ticket role iid sid timeout ctx sig tenant corr fp who) =
     snd (create_approval_request cfg role iid sid timeout ctx sig tenant corr fp who s)"
| "engine_apply cfg s (Ev_delegate delegator delegatee role vf vu tenant ec who) =
     snd (delegate_approval_role cfg delegator delegatee role vf vu tenant ec who s)"
| "engine_apply cfg s (Ev_sweep tenant) = snd (sweep_expired_approvals cfg tenant s)"
| "engine_apply cfg s (Ev_recover tenant) = snd (hydrate_and_recover cfg tenant s)"
| "engine_apply cfg s (Ev_other_writer e) = s\<lparr>es_db := store_apply (es_db s) e\<rparr>"

lemma climbs_snd: "eff.climbs m \<Longrightarrow> heap_step s (snd (m s))"
  by (simp add: eff.climbs_def)

lemma engine_apply_step: "heap_step s (engine_apply cfg s e)"
  by (cases e) (simp_all add: climbs_snd heap_same)

interpretation engine: monotone_machine "engine_apply cfg" heap_step for cfg
  by unfold_locales (rule heap_step_refl, erule (1) heap_step_trans, rule engine_apply_step)

lemma engine_object_step:
  assumes "a < length (es_heap s)"
  shows "object_step (es_heap s ! a) (es_heap (run (engine_apply cfg) s es) ! a)"
  using engine.below_run [of s cfg es] assms by (simp add: each_object_def)

lemma terminal_reaches: "can_transition\<^sup>*\<^sup>* st st' \<Longrightarrow> terminal_state st \<Longrightarrow> st' = st"
  by (induction rule: rtranclp_induct) (auto simp: can_transition_def)

section \<open>Effects that end\<close>

lemma bind_done [simp]: "m s = (Inr x, t) \<Longrightarrow> bind_eff m f s = f x t"
  by (simp add: bind_eff_def)

lemma seq_done [simp]: "m s = (Inr (), t) \<Longrightarrow> seq_eff m k s = k t"
  by (simp add: seq_eff_def)

lemma ret_done [simp]: "ret x s = (Inr x, s)"
  by (simp add: ret_def)

text \<open>Effects that neither raise nor touch instances or rows.\<close>

definition quiet :: "('x engine_state, engine_error, unit) eff \<Rightarrow> bool" where
  "quiet m \<longleftrightarrow> (\<forall>s. fst (m s) = Inr () \<and> es_heap (snd (m s)) = es_heap s \<and> es_db (snd (m s)) = es_db s)"

lemma quiet_count [simp, intro]: "quiet (count_metric m n)"
  by (simp add: quiet_def count_metric_def modify_def)

lemma quiet_publish [simp, intro]: "quiet (publish_event cfg topic payload)"
  by (simp add: quiet_def publish_event_def when_eff_def modify_def)

lemma quiet_snapshot [simp, intro]: "quiet (persist_snapshot cfg a)"
  by (simp add: quiet_def persist_snapshot_def when_eff_def modify_def)

lemma quiet_announce [simp, intro]: "quiet (announce cfg topic a extra)"
proof -
  have "quiet (publish_event cfg topic p)" for p by simp
  then show ?thesis by (simp add: quiet_def announce_def)
qed

lemma quiet_step:
  assumes "quiet m"
  obtains t where "m s = (Inr (), t)" "es_heap t = es_heap s" "es_db t = es_db s"
proof
  show "m s = (Inr (), snd (m s))" using assms by (metis prod.collapse quiet_def)
  show "es_heap (snd (m s)) = es_heap s" "es_db (snd (m s)) = es_db s"
    using assms by (simp_all add: quiet_def)
qed

lemma quiet_seq [intro]:
  assumes "quiet m" "quiet k"
  shows "quiet (seq_eff m k)"
proof -
  have "fst (seq_eff m k s) = Inr () \<and> es_heap (snd (seq_eff m k s)) = es_heap s \<and> es_db (snd (seq_eff m k s)) = es_db s" for s
  proof -
    obtain t where t: "m s = (Inr (), t)" "es_heap t = es_heap s" "es_db t = es_db s" using assms(1) by (rule quiet_step)
    obtain u where "k t = (Inr (), u)" "es_heap u = es_heap t" "es_db u = es_db t" using assms(2) by (rule quiet_step)
    with t show ?thesis by simp
  qed
  then show ?thesis by (simp add: quiet_def)
qed

section \<open>Objects and their rows\<close>

text \<open>
  A row can be written from an object when it has the object's version; it mirrors the object when
  it also shows its progress.  Without a store both only say that the object exists.
\<close>

definition row_like :: "workflow_instance \<Rightarrow> workflow_instance \<Rightarrow> bool" where
  "row_like r i \<longleftrightarrow> wi_id r = wi_id i \<and> wi_version r = wi_version i \<and>
     wi_current_step_index r = wi_current_step_index i \<and> wi_current_step_id r = wi_current_step_id i \<and>
     wi_state r = wi_state i \<and> wi_status r = wi_status i \<and>
     wi_context r = sanitize_context (wi_context i) \<and> wi_compensation_stack r = wi_compensation_stack i"

definition has_row :: "(workflow_instance \<Rightarrow> bool) \<Rightarrow> 'x engine_config \<Rightarrow> 'x engine_state \<Rightarrow> nat \<Rightarrow> bool" where
  "has_row P cfg s a \<longleftrightarrow> a < length (es_heap s) \<and>
     (ec_store cfg \<longrightarrow> distinct (map wi_id (i_rows (es_db s))) \<and> (\<exists>r \<in> set (i_rows (es_db s)). P r))"

definition synced :: "'x engine_config \<Rightarrow> 'x engine_state \<Rightarrow> nat \<Rightarrow> bool" where
  "synced cfg s a \<longleftrightarrow>
     has_row (\<lambda>r. wi_id r = wi_id (object_at s a) \<and> wi_version r = wi_version (object_at s a)) cfg s a"

definition mirrored :: "'x engine_config \<Rightarrow> 'x engine_state \<Rightarrow> nat \<Rightarrow> bool" where
  "mirrored cfg s a \<longleftrightarrow> has_row (\<lambda>r. row_like r (object_at s a)) cfg s a"

lemma has_row_mono: "has_row P cfg s a \<Longrightarrow> (\<And>r. P r \<Longrightarrow> Q r) \<Longrightarrow> has_row Q cfg s a"
  unfolding has_row_def by blast

lemma mirrored_synced [intro]: "mirrored cfg s a \<Longrightarrow> synced cfg s a"
  unfolding mirrored_def synced_def by (erule has_row_mono) (simp add: row_like_def)

lemma synced_object: "synced cfg s a \<Longrightarrow> a < length (es_heap s)"
  by (simp add: synced_def has_row_def)

lemma synced_cong:
  assumes "synced cfg s a" "i_rows (es_db t) = i_rows (es_db s)" "length (es_heap t) = length (es_heap s)"
    "wi_id (object_at t a) = wi_id (object_at s a)" "wi_version (object_at t a) = wi_version (object_at s a)"
  shows "synced cfg t a"
  using assms by (simp add: synced_def has_row_def)

lemma mirrored_cong:
  "mirrored cfg s a \<Longrightarrow> es_db t = es_db s \<Longrightarrow> es_heap t = es_heap s \<Longrightarrow> mirrored cfg t a"
  by (simp add: mirrored_def has_row_def object_at_def)

lemma quiet_mirrored:
  assumes "quiet m" "mirrored cfg s a"
  obtains t where "m s = (Inr (), t)" "mirrored cfg t a" "object_at t a = object_at s a"
proof -
  obtain t where "m s = (Inr (), t)" "es_heap t = es_heap s" "es_db t = es_db s" using assms(1) by (rule quiet_step)
  with assms(2) that [of t] mirrored_cong show ?thesis by (metis object_at_def)
qed

lemma set_object_done:
  "set_object a f s = (Inr (), s\<lparr>es_heap := (es_heap s)[a := f (es_heap s ! a)]\<rparr>)"
  by (simp add: set_object_def modify_def)

lemma draw_done: "draw s = (Inr (en_supply (es_env s)), s\<lparr>es_env := (es_env s)\<lparr>en_supply := Suc (en_supply (es_env s))\<rparr>\<rparr>)"
  by (simp add: draw_def)

text \<open>What one guarded write does to the rows when exactly the object's version is there.\<close>

lemma update_rows_mirror:
  assumes "distinct (map wi_id rows)" "r \<in> set rows" "wi_id r = wi_id i" "wi_version r = v"
  shows "distinct (map wi_id (snd (update_rows now i v None rows))) \<and>
     (\<exists>r' \<in> set (snd (update_rows now i v None rows)). row_like r' (i\<lparr>wi_version := v + 1\<rparr>))"
proof
  let ?f = "\<lambda>q. if guarded_row i v None q then write_row now i (v + 1) q else q"
  have rows: "snd (update_rows now i v None rows) = map ?f rows" by (simp add: update_rows_def)
  have ids: "map wi_id (map ?f rows) = map wi_id rows" unfolding map_map by (rule map_cong) auto
  show "distinct (map wi_id (snd (update_rows now i v None rows)))" unfolding rows ids by (rule assms(1))
  have g: "guarded_row i v None r" using assms by (simp add: guarded_row_def tenant_given_def)
  have "row_like (?f r) (i\<lparr>wi_version := v + 1\<rparr>)" using g assms by (simp add: row_like_def write_row_def)
  then show "\<exists>r' \<in> set (snd (update_rows now i v None rows)). row_like r' (i\<lparr>wi_version := v + 1\<rparr>)"
    unfolding rows set_map using imageI [OF assms(2), of ?f] by blast
qed

text \<open>Both ways the loop persists an object succeed from a synchronised row and leave a mirror.\<close>

lemma store_update_mirrors:
  assumes "synced cfg s a"
  obtains t v where "store_update cfg a s = (Inr (), t)" "mirrored cfg t a"
    "object_at t a = (object_at s a)\<lparr>wi_version := v\<rparr>"
proof (cases "ec_store cfg")
  case False
  with assms have "store_update cfg a s = (Inr (), s)" "mirrored cfg s a"
    by (simp_all add: store_update_def synced_def mirrored_def has_row_def)
  then show thesis by (intro that [of s "wi_version (object_at s a)"]) simp_all
next
  case True
  let ?i = "object_at s a" and ?now = "ec_clock cfg (en_supply (es_env s))"
  from assms True obtain r where r: "r \<in> set (i_rows (es_db s))" "wi_id r = wi_id ?i" "wi_version r = wi_version ?i"
    "distinct (map wi_id (i_rows (es_db s)))" "a < length (es_heap s)"
    by (auto simp: synced_def has_row_def)
  have "guarded_row ?i (wi_version ?i) None r" using r by (simp add: guarded_row_def tenant_given_def)
  with r(1) have "ok (update_instance ?now ?i None (es_db s))" using update_instance_ok_iff by blast
  then obtain i db where u: "update_instance ?now ?i None (es_db s) = Inr (i, db)" by (auto simp: ok_iff)
  note f = update_instance_Inr [OF u]
  let ?s = "snd (draw s)"
  let ?t = "?s\<lparr>es_db := db, es_heap := (es_heap s)[a := i]\<rparr>"
  have heap: "es_heap ?s = es_heap s" "es_db ?s = es_db s" "object_at ?s a = ?i" by (simp_all add: draw_def object_at_def)
  have "store_update cfg a s = (Inr (), ?t)"
    using True u by (simp add: store_update_def draw_done set_object_done object_at_def)
  moreover have obj: "object_at ?t a = ?i\<lparr>wi_version := wi_version ?i + 1\<rparr>" using r(5) f by (simp add: object_at_def)
  moreover have "mirrored cfg ?t a"
    using update_rows_mirror [OF r(4,1,2,3), of ?now] f r(5) obj unfolding mirrored_def has_row_def by simp
  ultimately show thesis using that by blast
qed

lemma store_complete_mirrors:
  assumes "synced cfg s a"
  obtains t v where "store_step_complete cfg a run_id out err s = (Inr (), t)" "mirrored cfg t a"
    "object_at t a = (object_at s a)\<lparr>wi_version := v\<rparr>"
proof (cases "ec_store cfg")
  case False
  with assms have "store_step_complete cfg a run_id out err s = (Inr (), s)" "mirrored cfg s a"
    by (simp_all add: store_step_complete_def synced_def mirrored_def has_row_def)
  then show thesis by (intro that [of s "wi_version (object_at s a)"]) simp_all
next
  case True
  let ?i = "object_at s a" and ?now = "ec_clock cfg (en_supply (es_env s))"
  from assms True obtain r where r: "r \<in> set (i_rows (es_db s))" "wi_id r = wi_id ?i" "wi_version r = wi_version ?i"
    "distinct (map wi_id (i_rows (es_db s)))" "a < length (es_heap s)"
    by (auto simp: synced_def has_row_def)
  let ?j = "?i\<lparr>wi_version := wi_version ?i + 1\<rparr>"
  have "guarded_row ?j (wi_version ?i) None r" using r by (simp add: guarded_row_def tenant_given_def)
  then have n: "fst (update_rows ?now ?j (wi_version ?i) None (i_rows (es_db s))) \<noteq> 0"
    using r(1) update_rows_count by metis
  let ?rows = "snd (update_rows ?now ?j (wi_version ?i) None (i_rows (es_db s)))"
  obtain db where c: "record_step_complete (ec_text cfg) ?now run_id ?i out err (es_db s) = (Inr (), ?j, db)"
    and rows: "i_rows db = ?rows"
    using n by (cases "update_rows ?now ?j (wi_version ?i) None (i_rows (es_db s))")
      (simp add: record_step_complete_def Let_def)
  let ?t = "(snd (draw s))\<lparr>es_db := db, es_heap := (es_heap s)[a := ?j]\<rparr>"
  have "store_step_complete cfg a run_id out err s = (Inr (), ?t)"
    using True c by (simp add: store_step_complete_def draw_done set_object_done object_at_def)
  moreover have obj: "object_at ?t a = ?j" using r(5) by (simp add: object_at_def)
  moreover have "mirrored cfg ?t a"
    using update_rows_mirror [OF r(4,1), of ?j "wi_version ?i" ?now] r rows obj unfolding mirrored_def has_row_def by simp
  ultimately show thesis using that by blast
qed

section \<open>One iteration\<close>

lemma move_object_done:
  assumes "can_transition (wi_state (object_at s a)) target" "a < length (es_heap s)"
  shows "move_object a target s = (Inr (), s\<lparr>es_heap := (es_heap s)
     [a := (object_at s a)\<lparr>wi_state := target, wi_status := STATE_TO_STATUS_MAP target\<rparr>]\<rparr>)"
proof -
  have "transition (object_at s a) target =
      Inr ((object_at s a)\<lparr>wi_state := target, wi_status := STATE_TO_STATUS_MAP target\<rparr>)"
    using assms(1) by (auto simp: transition_Inr_iff)
  then show ?thesis by (simp add: move_object_def set_object_done)
qed

lemma begin_step_running:
  assumes "synced cfg s a" "runnable (wi_state (object_at s a))"
  obtains t where "begin_step cfg a step s = (Inr (), t)" "synced cfg t a"
    "wi_state (object_at t a) = WS_RUNNING"
    "wi_current_step_index (object_at t a) = wi_current_step_index (object_at s a)"
proof -
  let ?i = "(object_at s a)\<lparr>wi_current_step_id := Some (ws_id step)\<rparr>"
  let ?u = "s\<lparr>es_heap := (es_heap s)[a := ?i]\<rparr>"
  have a: "a < length (es_heap s)" by (rule synced_object [OF assms(1)])
  have b: "begin_step cfg a step s =
      (if wi_state ?i \<in> {WS_APPROVED, WS_READY} then seq_eff (move_object a WS_RUNNING) (store_update cfg a) ?u
       else ret () ?u)"
    using a by (simp add: begin_step_def set_object_done object_at_def)
  have u: "synced cfg ?u a" using a by (intro synced_cong [OF assms(1)]) (simp_all add: object_at_def)
  show thesis
  proof (cases "wi_state ?i \<in> {WS_APPROVED, WS_READY}")
    case False
    then have "wi_state ?i = WS_RUNNING" using assms(2) by (auto simp: runnable_def)
    then show thesis using that [of ?u] b u a False by (simp add: object_at_def)
  next
    case True
    let ?v = "?u\<lparr>es_heap := (es_heap ?u)[a := ?i\<lparr>wi_state := WS_RUNNING, wi_status := STATE_TO_STATUS_MAP WS_RUNNING\<rparr>]\<rparr>"
    have obj: "object_at ?u a = ?i" using a by (simp add: object_at_def)
    have m: "move_object a WS_RUNNING ?u = (Inr (), ?v)"
      using move_object_done [of ?u a WS_RUNNING] True a by (auto simp: obj can_transition_def)
    have "synced cfg ?v a" using a by (intro synced_cong [OF u]) (simp_all add: object_at_def)
    then obtain t v where "store_update cfg a ?v = (Inr (), t)" "mirrored cfg t a"
      "object_at t a = (object_at ?v a)\<lparr>wi_version := v\<rparr>" by (rule store_update_mirrors)
    then show thesis using that [of t] b m True a mirrored_synced [of cfg t a] by (simp add: object_at_def)
  qed
qed

lemma start_run_synced:
  assumes "synced cfg s a"
  obtains run_id t where "start_run cfg a sid s = (Inr run_id, t)" "synced cfg t a" "object_at t a = object_at s a"
proof (cases "ec_store cfg")
  case False
  then show thesis using that [of None s] assms by (simp add: start_run_def)
next
  case True
  let ?t = "snd (start_run cfg a sid s)"
  have "i_rows (es_db ?t) = i_rows (es_db s)" "es_heap ?t = es_heap s"
    by (simp_all add: start_run_def True draw_done record_step_run_start_def)
  moreover have "fst (start_run cfg a sid s) = Inr (Some (ec_uuid cfg (en_supply (es_env s))))"
    by (simp add: start_run_def True draw_done)
  ultimately show thesis
    using that [of _ ?t] synced_cong [OF assms, of ?t] by (metis object_at_def prod.collapse)
qed

text \<open>What the evaluator makes of a step of a running instance.\<close>

lemma execute_step_running:
  assumes "wi_state inst = WS_RUNNING"
  obtains r where "execute_step deps disp inst step env = Inr r"
    "wi_id (sr_instance r) = wi_id inst" "wi_version (sr_instance r) = wi_version inst"
    "wi_current_step_index (sr_instance r) = wi_current_step_index inst"
    "wi_state (sr_instance r) = (if ws_is_approval_step step then WS_WAITING else WS_RUNNING)"
    "ws_is_approval_step step \<longrightarrow> er_success (sr_result r)"
proof (cases "ws_is_approval_step step")
  case True
  moreover have "transition inst WS_WAITING =
      Inr (inst\<lparr>wi_state := WS_WAITING, wi_status := STATE_TO_STATUS_MAP WS_WAITING\<rparr>)"
    using assms by (simp add: transition_Inr_iff can_transition_def)
  ultimately show thesis using that by (simp add: execute_step_def Let_def)
next
  case False
  define p where "p = (case ws_retry_policy step of None \<Rightarrow> ev_default_retry deps | Some p \<Rightarrow> p)"
  define r where "r = retry_loop (max_attempts p) deps disp p inst step 0 None [] env"
  have e: "execute_step deps disp inst step env = Inr r" using False by (simp add: execute_step_def Let_def p_def r_def)
  have "sr_instance r = (if er_success (sr_result r) then record_success inst step (er_output (sr_result r)) else inst)"
    using retry_loop_instance [of "max_attempts p" deps disp p inst step 0 None "[]" env] by (simp add: r_def Let_def)
  then consider "sr_instance r = inst" | out where "sr_instance r = record_success inst step out"
    by (cases "er_success (sr_result r)") simp_all
  then show thesis
    by cases (rule that [OF e]; simp add: False assms record_success_def)+
qed

lemma run_step_synced:
  assumes "synced cfg s a" "wi_state (object_at s a) = WS_RUNNING"
  obtains res t where "run_step cfg a step s = (Inr res, t)" "synced cfg t a"
    "wi_state (object_at t a) = (if ws_is_approval_step step then WS_WAITING else WS_RUNNING)"
    "wi_current_step_index (object_at t a) = wi_current_step_index (object_at s a)"
    "ws_is_approval_step step \<longrightarrow> er_success res"
proof -
  let ?i = "object_at s a"
  obtain r where r: "execute_step (evaluator_of cfg) (Some (run_dispatch cfg (wc_session_token (wi_context ?i)))) ?i step (es_env s) = Inr r"
    "wi_id (sr_instance r) = wi_id ?i" "wi_version (sr_instance r) = wi_version ?i"
    "wi_current_step_index (sr_instance r) = wi_current_step_index ?i"
    "wi_state (sr_instance r) = (if ws_is_approval_step step then WS_WAITING else WS_RUNNING)"
    "ws_is_approval_step step \<longrightarrow> er_success (sr_result r)"
    by (rule execute_step_running [OF assms(2)])
  let ?t = "s\<lparr>es_env := sr_env r, es_heap := (es_heap s)[a := sr_instance r]\<rparr>"
  have "a < length (es_heap s)" by (rule synced_object [OF assms(1)])
  then have obj: "object_at ?t a = sr_instance r" by (simp add: object_at_def)
  have run: "run_step cfg a step s = (Inr (sr_result r), ?t)" unfolding run_step_def Let_def r(1) by simp
  have "synced cfg ?t a" by (intro synced_cong [OF assms(1)]) (simp_all add: obj r(2,3))
  note s = this
  show thesis
  proof (rule that [of "sr_result r" ?t])
    show "wi_state (object_at ?t a) = (if ws_is_approval_step step then WS_WAITING else WS_RUNNING)"
      unfolding obj by (rule r(5))
    show "wi_current_step_index (object_at ?t a) = wi_current_step_index ?i" unfolding obj by (rule r(4))
  qed (fact run, fact s, fact r(6))
qed

lemma store_complete_then:
  assumes "synced cfg s a" "quiet k"
  obtains t v where "seq_eff (store_step_complete cfg a run_id out err) (seq_eff k (ret x)) s = (Inr x, t)"
    "mirrored cfg t a" "object_at t a = (object_at s a)\<lparr>wi_version := v\<rparr>"
proof -
  obtain u v where u: "store_step_complete cfg a run_id out err s = (Inr (), u)" "mirrored cfg u a"
    "object_at u a = (object_at s a)\<lparr>wi_version := v\<rparr>"
    using assms(1) by (rule store_complete_mirrors)
  obtain t where "k u = (Inr (), t)" "mirrored cfg t a" "object_at t a = object_at u a"
    using assms(2) u(2) by (rule quiet_mirrored)
  with u that show thesis by simp
qed

lemma quiet_step_synced:
  assumes "quiet m" "synced cfg s a"
  obtains t where "m s = (Inr (), t)" "synced cfg t a" "object_at t a = object_at s a"
proof -
  obtain t where t: "m s = (Inr (), t)" "es_heap t = es_heap s" "es_db t = es_db s" using assms(1) by (rule quiet_step)
  then have "synced cfg t a" by (intro synced_cong [OF assms(2)]) (simp_all add: object_at_def)
  with t show thesis using that by (simp add: object_at_def)
qed

lemma seq_assoc: "seq_eff m (seq_eff k l) = seq_eff (seq_eff m k) l"
  by (rule ext) (simp add: seq_eff_def bind_eff_def split: prod.split sum.split)

lemma wait_run_ends:
  assumes "synced cfg s a"
  obtains t v where "wait_run cfg a sid run_id res s = (Inr False, t)" "mirrored cfg t a"
    "object_at t a = (object_at s a)\<lparr>wi_version := v\<rparr>"
proof -
  let ?k = "seq_eff (persist_snapshot cfg a) (announce cfg ''workflow.waiting'' a [(''step_id'', PStr sid)])"
  have q: "quiet ?k" by blast
  obtain u where u: "count_metric Approvals_requested 1 s = (Inr (), u)" "synced cfg u a" "object_at u a = object_at s a"
    using quiet_count assms by (rule quiet_step_synced)
  obtain t v where "seq_eff (store_step_complete cfg a run_id (er_output res) (er_error res)) (seq_eff ?k (ret False)) u = (Inr False, t)"
    "mirrored cfg t a" "object_at t a = (object_at u a)\<lparr>wi_version := v\<rparr>"
    using u(2) q by (rule store_complete_then)
  then show thesis using that u(1,3) by (simp add: wait_run_def seq_assoc [symmetric])
qed

lemma advance_run_ends:
  assumes "synced cfg s a"
  obtains t v where "advance_run cfg a run_id res s = (Inr True, t)" "mirrored cfg t a"
    "object_at t a = (object_at s a)\<lparr>wi_current_step_index := wi_current_step_index (object_at s a) + 1, wi_version := v\<rparr>"
proof -
  let ?i = "(object_at s a)\<lparr>wi_current_step_index := Suc (wi_current_step_index (object_at s a))\<rparr>"
  let ?u = "s\<lparr>es_heap := (es_heap s)[a := ?i]\<rparr>"
  have a: "a < length (es_heap s)" by (rule synced_object [OF assms])
  then have obj: "object_at ?u a = ?i" by (simp add: object_at_def)
  have "synced cfg ?u a" by (intro synced_cong [OF assms]) (simp_all add: obj)
  then obtain t v where "store_step_complete cfg a run_id (er_output res) (er_error res) ?u = (Inr (), t)"
    "mirrored cfg t a" "object_at t a = (object_at ?u a)\<lparr>wi_version := v\<rparr>"
    by (rule store_complete_mirrors)
  then show thesis using that by (simp add: advance_run_def set_object_done obj) (simp add: object_at_def)
qed

lemma fail_run_ends:
  assumes "synced cfg s a" "wi_state (object_at s a) = WS_RUNNING"
  obtains t where "fail_run cfg a run_id res s = (Inr False, t)" "mirrored cfg t a"
    "wi_state (object_at t a) = WS_FAILED" "wi_compensation_stack (object_at t a) = []"
    "wi_current_step_index (object_at t a) = wi_current_step_index (object_at s a)"
proof -
  let ?i = "(object_at s a)\<lparr>wi_state := WS_FAILED, wi_status := St_FAILED\<rparr>"
  let ?u = "s\<lparr>es_heap := (es_heap s)[a := ?i]\<rparr>"
  have a: "a < length (es_heap s)" by (rule synced_object [OF assms(1)])
  then have obj: "object_at ?u a = ?i" by (simp add: object_at_def)
  have m: "move_object a WS_FAILED s = (Inr (), ?u)"
    using move_object_done [of s a WS_FAILED] assms(2) a by (simp add: can_transition_def)
  have "synced cfg ?u a" by (intro synced_cong [OF assms(1)]) (simp_all add: obj)
  then obtain u where u: "count_metric Workflows_failed 1 ?u = (Inr (), u)" "synced cfg u a" "object_at u a = object_at ?u a"
    by (rule quiet_step_synced [OF quiet_count])
  let ?disp = "run_dispatch cfg (wc_session_token (wi_context (object_at u a)))"
  obtain records env where c: "execute_compensation_stack (Some ?disp) (object_at u a) (es_env u) =
      (records, (object_at u a)\<lparr>wi_compensation_stack := []\<rparr>, env)"
    by (simp add: execute_compensation_stack_def Let_def)
  define w where "w = u\<lparr>es_env := env, es_heap := (es_heap u)[a := (object_at u a)\<lparr>wi_compensation_stack := []\<rparr>]\<rparr>"
  have comp: "compensate ?disp a u = (Inr records, w)" by (simp add: compensate_def c w_def)
  have aw: "a < length (es_heap u)" by (rule synced_object [OF u(2)])
  have objw: "object_at w a = (object_at u a)\<lparr>wi_compensation_stack := []\<rparr>" using aw by (simp add: object_at_def w_def)
  have "synced cfg w a" by (rule synced_cong [OF u(2)]) (simp add: w_def, simp add: w_def, simp_all add: objw)
  then obtain x where x: "count_metric Compensations_executed (length records) w = (Inr (), x)" "synced cfg x a"
    "object_at x a = object_at w a"
    by (rule quiet_step_synced [OF quiet_count])
  let ?k = "seq_eff (persist_snapshot cfg a)
    (seq_eff (announce cfg ''workflow.failed'' a [(''error'', text_or_none (er_error res))])
      (announce cfg ''workflow.rollback'' a [(''compensations'', PList (map record_value records))]))"
  have q: "quiet ?k" by blast
  obtain t v where t: "seq_eff (store_step_complete cfg a run_id (er_output res) (er_error res)) (seq_eff ?k (ret False)) x = (Inr False, t)"
    "mirrored cfg t a" "object_at t a = (object_at x a)\<lparr>wi_version := v\<rparr>"
    using x(2) q by (rule store_complete_then)
  have "fail_run cfg a run_id res s = (Inr False, t)"
    using m u(1) comp x(1) t(1) by (simp add: fail_run_def seq_assoc [symmetric])
  moreover have "object_at t a = ?i\<lparr>wi_compensation_stack := [], wi_version := v\<rparr>"
    unfolding t(3) x(3) objw u(3) obj by simp
  ultimately show thesis using that t(2) by simp
qed

lemma after_step_ends:
  assumes "synced cfg s a"
    "wi_state (object_at s a) = (if ws_is_approval_step step then WS_WAITING else WS_RUNNING)"
    "ws_is_approval_step step \<longrightarrow> er_success res"
  obtains more t where "after_step cfg a step run_id res s = (Inr more, t)" "mirrored cfg t a"
    "wi_current_step_index (object_at t a) = wi_current_step_index (object_at s a) + of_bool more"
    "if more then \<not> ws_is_approval_step step \<and> wi_state (object_at t a) = WS_RUNNING
     else if ws_is_approval_step step then wi_state (object_at t a) = WS_WAITING
     else wi_state (object_at t a) = WS_FAILED \<and> wi_compensation_stack (object_at t a) = [] \<and>
       \<not> ws_on_failure_continue step"
proof -
  obtain u where u: "count_metric Steps_executed 1 s = (Inr (), u)" "synced cfg u a" "object_at u a = object_at s a"
    using quiet_count assms(1) by (rule quiet_step_synced)
  show thesis
  proof (cases "\<not> er_success res \<and> \<not> ws_on_failure_continue step")
    case True
    then have st: "\<not> ws_is_approval_step step" "wi_state (object_at u a) = WS_RUNNING" using assms u(3) by auto
    obtain t where "fail_run cfg a run_id res u = (Inr False, t)" "mirrored cfg t a"
      "wi_state (object_at t a) = WS_FAILED" "wi_compensation_stack (object_at t a) = []"
      "wi_current_step_index (object_at t a) = wi_current_step_index (object_at u a)"
      using u(2) st(2) by (rule fail_run_ends)
    then show thesis using that [of False t] u True st(1) by (simp add: after_step_def)
  next
    case ok: False
    show thesis
    proof (cases "ws_is_approval_step step")
      case True
      obtain t v where "wait_run cfg a (ws_id step) run_id res u = (Inr False, t)" "mirrored cfg t a"
        "object_at t a = (object_at u a)\<lparr>wi_version := v\<rparr>"
        using u(2) by (rule wait_run_ends)
      then show thesis using that [of False t] u ok True assms(2) by (auto simp: after_step_def)
    next
      case False
      obtain t v where "advance_run cfg a run_id res u = (Inr True, t)" "mirrored cfg t a"
        "object_at t a = (object_at u a)\<lparr>wi_current_step_index := wi_current_step_index (object_at u a) + 1, wi_version := v\<rparr>"
        using u(2) by (rule advance_run_ends)
      then show thesis using that [of True t] u ok False assms(2) by (auto simp: after_step_def)
    qed
  qed
qed

lemma loop_turn_step:
  assumes "synced cfg s a" and i: "i = object_at s a" "step = dc_steps (wd_content def) ! wi_current_step_index i"
    and go: "wi_current_step_index i < length (dc_steps (wd_content def))" "runnable (wi_state i)"
  obtains more t where "loop_turn cfg def a s = (Inr more, t)" "mirrored cfg t a"
    "wi_current_step_index (object_at t a) = wi_current_step_index i + of_bool more"
    "if more then \<not> ws_is_approval_step step \<and> wi_state (object_at t a) = WS_RUNNING
     else if ws_is_approval_step step then wi_state (object_at t a) = WS_WAITING
     else wi_state (object_at t a) = WS_FAILED \<and> wi_compensation_stack (object_at t a) = [] \<and>
       \<not> ws_on_failure_continue step"
proof -
  obtain u where u: "begin_step cfg a step s = (Inr (), u)" "synced cfg u a" "wi_state (object_at u a) = WS_RUNNING"
    "wi_current_step_index (object_at u a) = wi_current_step_index i"
    using assms(1) go(2) unfolding i(1) by (rule begin_step_running)
  obtain run_id w where w: "start_run cfg a (ws_id step) u = (Inr run_id, w)" "synced cfg w a" "object_at w a = object_at u a"
    using u(2) by (rule start_run_synced)
  have "wi_state (object_at w a) = WS_RUNNING" using w u by simp
  with w(2) obtain res x where x: "run_step cfg a step w = (Inr res, x)" "synced cfg x a"
    "wi_state (object_at x a) = (if ws_is_approval_step step then WS_WAITING else WS_RUNNING)"
    "wi_current_step_index (object_at x a) = wi_current_step_index (object_at w a)"
    "ws_is_approval_step step \<longrightarrow> er_success res"
    by (rule run_step_synced)
  obtain more t where t: "after_step cfg a step run_id res x = (Inr more, t)" "mirrored cfg t a"
    "wi_current_step_index (object_at t a) = wi_current_step_index (object_at x a) + of_bool more"
    "if more then \<not> ws_is_approval_step step \<and> wi_state (object_at t a) = WS_RUNNING
     else if ws_is_approval_step step then wi_state (object_at t a) = WS_WAITING
     else wi_state (object_at t a) = WS_FAILED \<and> wi_compensation_stack (object_at t a) = [] \<and>
       \<not> ws_on_failure_continue step"
    using x(2,3,5) by (rule after_step_ends)
  have "loop_turn cfg def a s = (Inr more, t)"
    using go u(1) w(1) x(1) t(1) unfolding loop_turn_def Let_def i(1) [symmetric] i(2) [symmetric] by simp
  then show thesis using t(2) _ t(4) by (rule that) (simp add: t(3) x(4) w(3) u(4))
qed

lemma complete_run_ends:
  assumes "mirrored cfg s a" "length (dc_steps (wd_content def)) \<le> wi_current_step_index (object_at s a)"
    "wi_state (object_at s a) = WS_RUNNING"
  obtains t v where "complete_run cfg def a s = (Inr False, t)" "mirrored cfg t a"
    "object_at t a = (object_at s a)\<lparr>wi_state := WS_COMPLETED, wi_status := St_COMPLETED, wi_version := v\<rparr>"
proof -
  let ?i = "(object_at s a)\<lparr>wi_state := WS_COMPLETED, wi_status := St_COMPLETED\<rparr>"
  define u where "u = s\<lparr>es_heap := (es_heap s)[a := ?i]\<rparr>"
  have syn: "synced cfg s a" by (rule mirrored_synced [OF assms(1)])
  have a: "a < length (es_heap s)" by (rule synced_object [OF syn])
  then have obj: "object_at u a = ?i" by (simp add: object_at_def u_def)
  have m: "move_object a WS_COMPLETED s = (Inr (), u)"
    using move_object_done [of s a WS_COMPLETED] assms(3) a by (simp add: can_transition_def u_def)
  have "synced cfg u a" by (rule synced_cong [OF syn]) (simp add: u_def, simp add: u_def, simp_all add: obj)
  then obtain w where w: "count_metric Workflows_completed 1 u = (Inr (), w)" "synced cfg w a" "object_at w a = object_at u a"
    by (rule quiet_step_synced [OF quiet_count])
  obtain x v where x: "store_update cfg a w = (Inr (), x)" "mirrored cfg x a" "object_at x a = (object_at w a)\<lparr>wi_version := v\<rparr>"
    using w(2) by (rule store_update_mirrors)
  have q: "quiet (seq_eff (persist_snapshot cfg a) (announce cfg ''workflow.completed'' a []))" by blast
  obtain t where t: "seq_eff (persist_snapshot cfg a) (announce cfg ''workflow.completed'' a []) x = (Inr (), t)"
    "mirrored cfg t a" "object_at t a = object_at x a"
    using q x(2) by (rule quiet_mirrored)
  have "seq_eff (persist_snapshot cfg a) (seq_eff (announce cfg ''workflow.completed'' a []) (ret False)) x = (Inr False, t)"
    using t(1) by (simp add: seq_assoc)
  then have "complete_run cfg def a s = (Inr False, t)"
    using assms(2,3) m w(1) x(1) by (simp add: complete_run_def)
  then show thesis using t(2) by (rule that) (simp add: t(3) x(3) w(3) obj)
qed

section \<open>The whole loop\<close>

text \<open>
  However the store and the outside behave, an iteration that asks for another one has moved the
  position by one, so the fuel of \<open>run_instance_steps\<close> is never exhausted.
\<close>

lemma bind_InrE:
  assumes "bind_eff m f s = (Inr y, t)"
  obtains x u where "m s = (Inr x, u)" "f x u = (Inr y, t)"
  using assms by (auto simp: bind_eff_def split: prod.splits sum.splits)

lemma seq_InrE:
  assumes "seq_eff m k s = (Inr y, t)"
  obtains u where "m s = (Inr (), u)" "k u = (Inr y, t)"
  using assms unfolding seq_eff_def by (rule bind_InrE) auto

lemma still_if_state: "still.climbs m \<Longrightarrow> still.climbs (\<lambda>s. if b s then m s else ret () s)"
  by (simp add: still.climbs_def heap_still_refl)

lemma still_begin_step: "still.climbs (begin_step cfg a step)"
  unfolding begin_step_def
  by (intro still.climbs_seq still_set_object still_step_same still_if_state) auto

lemma still_position:
  assumes "still.climbs m" "m s = (r, t)" "a < length (es_heap s)"
  shows "wi_current_step_index (object_at t a) = wi_current_step_index (object_at s a)" "a < length (es_heap t)"
  using still.climbs_run [OF assms(1,2)] assms(3) by (auto simp: each_object_def still_step_def object_at_def)

lemma only_advance_continues:
  "fail_run cfg a run_id res s \<noteq> (Inr True, t)" "wait_run cfg a sid run_id res s \<noteq> (Inr True, t)"
  by (auto simp: fail_run_def wait_run_def elim!: seq_InrE bind_InrE)

lemma advance_run_position:
  assumes "advance_run cfg a run_id res s = (Inr b, t)" "a < length (es_heap s)"
  shows "wi_current_step_index (object_at t a) = Suc (wi_current_step_index (object_at s a))" "a < length (es_heap t)"
proof -
  let ?u = "s\<lparr>es_heap := (es_heap s)
    [a := (es_heap s ! a)\<lparr>wi_current_step_index := wi_current_step_index (es_heap s ! a) + 1\<rparr>]\<rparr>"
  from assms(1) have "store_step_complete cfg a run_id (er_output res) (er_error res) ?u = (Inr (), t)"
    unfolding advance_run_def by (auto simp: set_object_done elim!: seq_InrE)
  from still_position [OF still_store_complete this, of a] assms(2)
  show "wi_current_step_index (object_at t a) = Suc (wi_current_step_index (object_at s a))" "a < length (es_heap t)"
    by (simp_all add: object_at_def)
qed

lemma loop_turn_advances:
  assumes turn: "loop_turn cfg def a s = (Inr True, t)" and a: "a < length (es_heap s)"
  shows "wi_current_step_index (object_at t a) = Suc (wi_current_step_index (object_at s a)) \<and>
     wi_current_step_index (object_at s a) < length (dc_steps (wd_content def)) \<and> a < length (es_heap t)"
proof -
  let ?i = "object_at s a" and ?steps = "dc_steps (wd_content def)"
  have "complete_run cfg def a s \<noteq> (Inr True, t)" by (auto simp: complete_run_def elim!: seq_InrE split: if_splits)
  with turn have more: "wi_current_step_index ?i < length ?steps" "runnable (wi_state ?i)"
    by (auto simp: loop_turn_def Let_def split: if_splits)
  define step where "step = ?steps ! wi_current_step_index ?i"
  have "seq_eff (begin_step cfg a step) (bind_eff (start_run cfg a (ws_id step)) (\<lambda>rid.
      bind_eff (run_step cfg a step) (\<lambda>res. after_step cfg a step rid res))) s = (Inr True, t)"
    using turn more by (simp add: loop_turn_def Let_def step_def)
  then obtain u w x y rid res where u: "begin_step cfg a step s = (Inr (), u)" and w: "start_run cfg a (ws_id step) u = (Inr rid, w)"
    and x: "run_step cfg a step w = (Inr res, x)" and y: "count_metric Steps_executed 1 x = (Inr (), y)"
    and t: "(if \<not> er_success res \<and> \<not> ws_on_failure_continue step then fail_run cfg a rid res
        else (\<lambda>s. if wi_state (object_at s a) = WS_WAITING then wait_run cfg a (ws_id step) rid res s
                  else advance_run cfg a rid res s)) y = (Inr True, t)"
    unfolding after_step_def by (elim seq_InrE bind_InrE) blast
  note u' = still_position [OF still_begin_step u a]
  note w' = still_position [OF still_start_run w u'(2)]
  note x' = still_position [OF still_run_step x w'(2)]
  note y' = still_position [OF still_count y x'(2)]
  from t have "advance_run cfg a rid res y = (Inr True, t)"
    by (auto simp: only_advance_continues split: if_splits)
  from advance_run_position [OF this y'(2)] u'(1) w'(1) x'(1) y'(1) more(1) show ?thesis by simp
qed

lemma loop_turns_fuel:
  assumes "a < length (es_heap s)" "length (dc_steps (wd_content def)) - wi_current_step_index (object_at s a) < n"
  shows "loop_turns n cfg def a s = run_instance_steps cfg def a s"
proof -
  have "loop_turns n cfg def a s = loop_turns m cfg def a s"
    if "a < length (es_heap s)" "length (dc_steps (wd_content def)) - wi_current_step_index (object_at s a) < n"
      "length (dc_steps (wd_content def)) - wi_current_step_index (object_at s a) < m" for n m s
    using that
  proof (induction n arbitrary: m s)
    case (Suc n)
    from Suc.prems(3) obtain k where m: "m = Suc k" by (cases m) auto
    obtain r t where turn: "loop_turn cfg def a s = (r, t)" by (cases "loop_turn cfg def a s")
    show ?case
    proof (cases "r = Inr True")
      case True
      with turn have "loop_turn cfg def a s = (Inr True, t)" by simp
      note adv = loop_turn_advances [OF this Suc.prems(1)]
      have "loop_turns n cfg def a t = loop_turns k cfg def a t"
        using adv Suc.prems m by (intro Suc.IH) auto
      with turn True m show ?thesis by (simp add: bind_eff_def when_eff_def)
    next
      case False
      then show ?thesis using turn m by (cases r) (auto simp: bind_eff_def when_eff_def)
    qed
  qed simp
  from this [OF assms, of "length (dc_steps (wd_content def)) - wi_current_step_index (object_at s a) + 1"]
  show ?thesis by (simp add: run_instance_steps_def)
qed

text \<open>
  What an undisturbed run leaves behind.  A run that starts behind the last step from an approved or
  ready instance does nothing: only a running instance is completed.
\<close>

definition run_outcome :: "workflow_definition \<Rightarrow> workflow_instance \<Rightarrow> workflow_instance \<Rightarrow> bool" where
  "run_outcome def i j \<longleftrightarrow>
     (let steps = dc_steps (wd_content def); m = wi_current_step_index j
      in wi_current_step_index i \<le> m \<and>
         (\<forall>k \<in> {wi_current_step_index i ..< m}. \<not> ws_is_approval_step (steps ! k)) \<and>
         (if m < length steps
          then if ws_is_approval_step (steps ! m) then wi_state j = WS_WAITING
               else wi_state j = WS_FAILED \<and> wi_compensation_stack j = [] \<and> \<not> ws_on_failure_continue (steps ! m)
          else if m = wi_current_step_index i \<and> wi_state i \<noteq> WS_RUNNING then j = i else wi_state j = WS_COMPLETED))"

lemma loop_turns_outcome:
  assumes "mirrored cfg s a" "runnable (wi_state (object_at s a))"
    "length (dc_steps (wd_content def)) - wi_current_step_index (object_at s a) < n"
  shows "\<exists>t. loop_turns n cfg def a s = (Inr (), t) \<and> mirrored cfg t a \<and>
     run_outcome def (object_at s a) (object_at t a)"
  using assms
proof (induction n arbitrary: s)
  case (Suc n)
  let ?i = "object_at s a" and ?steps = "dc_steps (wd_content def)"
  show ?case
  proof (cases "wi_current_step_index ?i < length ?steps")
    case True
    define step where "step = ?steps ! wi_current_step_index ?i"
    obtain b t where t: "loop_turn cfg def a s = (Inr b, t)" "mirrored cfg t a"
      "wi_current_step_index (object_at t a) = wi_current_step_index ?i + of_bool b"
      "if b then \<not> ws_is_approval_step step \<and> wi_state (object_at t a) = WS_RUNNING
       else if ws_is_approval_step step then wi_state (object_at t a) = WS_WAITING
       else wi_state (object_at t a) = WS_FAILED \<and> wi_compensation_stack (object_at t a) = [] \<and>
         \<not> ws_on_failure_continue step"
      using mirrored_synced [OF Suc.prems(1)] refl step_def True Suc.prems(2) by (rule loop_turn_step)
    show ?thesis
    proof (cases b)
      case False
      with t True show ?thesis by (auto simp: run_outcome_def Let_def when_eff_def step_def)
    next
      case b: True
      have "runnable (wi_state (object_at t a))" using t(4) b by (simp add: runnable_def)
      moreover have "length ?steps - wi_current_step_index (object_at t a) < n" using t(3) b True Suc.prems(3) by simp
      ultimately obtain u where u: "loop_turns n cfg def a t = (Inr (), u)" "mirrored cfg u a"
        "run_outcome def (object_at t a) (object_at u a)"
        using Suc.IH [OF t(2)] by blast
      have gate: "{wi_current_step_index ?i ..< m} = insert (wi_current_step_index ?i) {wi_current_step_index (object_at t a) ..< m}"
        if "wi_current_step_index (object_at t a) \<le> m" for m
        using that t(3) b by auto
      have "run_outcome def ?i (object_at u a)"
        using u(3) t(3,4) b gate unfolding run_outcome_def Let_def by (auto simp: step_def split: if_splits)
      with t(1) b u show ?thesis by (simp add: when_eff_def)
    qed
  next
    case False
    have turn: "loop_turn cfg def a s = complete_run cfg def a s" using False by (simp add: loop_turn_def Let_def)
    show ?thesis
    proof (cases "wi_state ?i = WS_RUNNING")
      case True
      obtain t v where "complete_run cfg def a s = (Inr False, t)" "mirrored cfg t a"
        "object_at t a = ?i\<lparr>wi_state := WS_COMPLETED, wi_status := St_COMPLETED, wi_version := v\<rparr>"
        using Suc.prems(1) _ True by (rule complete_run_ends [where def = def]) (use False in simp)
      with turn False True show ?thesis by (simp add: run_outcome_def Let_def when_eff_def)
    next
      case stuck: False
      then have "complete_run cfg def a s = (Inr False, s)" by (simp add: complete_run_def)
      with turn False stuck Suc.prems(1) show ?thesis by (simp add: run_outcome_def Let_def when_eff_def)
    qed
  qed
qed simp

end
