(* ===== verification/Demo_Data.thy ===== *)
theory Demo_Data
  imports Step_Evaluator Compat_Correct Approval_Rights Access_Correct Lifecycle_Correct Engine_Runs
begin

text \<open>
  Concrete values at which the properties are evaluated.
\<close>

definition plain_task :: "string \<Rightarrow> workflow_step" where
  "plain_task i = \<lparr>ws_id = i, ws_name = i, ws_capability_name = None, ws_parameters = [], ws_is_approval_step = False,
     ws_required_approval_role = None, ws_retry_policy = None, ws_compensation_action = None,
     ws_on_failure_continue = False, ws_mapping = None\<rparr>"

definition demo_node :: "string \<Rightarrow> step_metadata graph_node" where
  "demo_node i = step_to_node (plain_task i)"

definition demo_graph :: "(string \<times> string) list \<Rightarrow> step_metadata workflow_graph" where
  "demo_graph es = \<lparr>schema_version = ''1'', entry_node_id = ''a'', nodes = map demo_node [''a'', ''b'', ''c''],
     edges = map (\<lambda>(s, t). link_edge s t) es, wg_metadata = []\<rparr>"

definition demo_manager :: manager_config where
  "demo_manager = \<lparr>mc_outbox = True, mc_audit = True, mc_events = True, mc_verifier = None,
     mc_isoformat = (\<lambda>_. ''2026'')\<rparr>"

definition demo_requester :: security_principal where
  "demo_requester = \<lparr>sp_principal_id = ''alice'', sp_principal_type = PT_USER, sp_tenant_id = ''acme'',
     sp_roles = [], sp_attributes = []\<rparr>"

definition demo_approver :: security_principal where
  "demo_approver = \<lparr>sp_principal_id = ''bob'', sp_principal_type = PT_USER, sp_tenant_id = ''acme'',
     sp_roles = [''manager''], sp_attributes = []\<rparr>"

definition demo_decision :: approval_decision where
  "demo_decision = \<lparr>ad_id = ''d1'', ad_request_id = ''r1'', ad_tenant_id = ''acme'', ad_approver_id = ''bob'',
     ad_decision = AS_APPROVED, ad_reason = None, ad_signature_hex = None, ad_public_key_hex = None,
     ad_decision_data = [], ad_decided_at = 5\<rparr>"

definition empty_manager :: manager_state where
  "empty_manager = \<lparr>ms_db = empty_db, ms_audit = [], ms_published = []\<rparr>"

definition demo_open :: manager_event where
  "demo_open = Man_create 1 ''r1'' ''e1'' (Some ''i1'') (Some ''s1'') ''manager'' ''acme'' (Some 60) [] False
     (Some demo_requester) None None"

definition demo_pending :: manager_state where
  "demo_pending = manager_apply demo_manager empty_manager demo_open"

lemma empty_manager_inv: "approval_inv staged (ms_db empty_manager)"
  by (simp add: empty_manager_def empty_db_def approval_inv_def announced_def)

lemma demo_pending_inv: "approval_inv (mc_outbox demo_manager) (ms_db demo_pending)"
  unfolding demo_pending_def by (rule manager_apply_inv) (rule empty_manager_inv)

definition demo_ticket :: approval_request where
  "demo_ticket = \<lparr>ar_id = ''r1'', ar_tenant_id = ''acme'', ar_instance_id = Some ''i1'', ar_step_id = Some ''s1'',
     ar_required_role = ''manager'', ar_requested_at = 1, ar_state = AS_PENDING, ar_timeout_at = Some 61,
     ar_context_snapshot = [], ar_signature_required = False, ar_requester_principal_id = Some ''alice'',
     ar_requester_principal_type = Some ''USER'', ar_correlation_id = None, ar_action_fingerprint = None,
     ar_created_at = None, ar_updated_at = None\<rparr>"

definition demo_opened :: approval_db where
  "demo_opened = projr (save_request 1 ''e1'' True demo_ticket ''acme'' empty_db)"

definition demo_decided :: approval_db where
  "demo_decided = snd (projr (decide_write 5 ''e2'' True demo_decision ''acme'' demo_opened))"

text \<open>A run that opens a ticket, authorizes a decision, reads the row and writes the decision.\<close>

lemma demo_run:
  "(approval_step demo_manager)\<^sup>*\<^sup>* initial_world \<lparr>w_db = demo_decided, w_phase = \<lambda>_. Idle\<rparr>"
proof -
  let ?w = "\<lambda>db ph. \<lparr>w_db = db, w_phase = (\<lambda>_. Idle)(0 := ph)\<rparr>"
  have idle: "(\<lambda>_. Idle)(0 := Idle) = (\<lambda>_. Idle)" by auto
  have "save_request 1 ''e1'' (mc_outbox demo_manager) demo_ticket ''acme'' empty_db = Inr demo_opened"
    by code_simp
  then have s1: "approval_step demo_manager initial_world (?w demo_opened Idle)"
    using step_create [of 1 "''e1''" demo_manager demo_ticket "''acme''" initial_world demo_opened]
    by (simp add: initial_world_def idle empty_db_def demo_ticket_def)
  have "ok (authorize_decision demo_manager 5 demo_opened demo_decision (Some demo_approver) ''acme'')"
    by code_simp
  then have s2: "approval_step demo_manager (?w demo_opened Idle) (?w demo_opened (Checked demo_decision ''acme''))"
    using step_check [of "?w demo_opened Idle" 0 demo_manager 5 demo_decision "Some demo_approver" "''acme''"]
    by (auto simp: ok_iff)
  have "ok (decide_read demo_opened (ad_request_id demo_decision) ''acme'')" by code_simp
  then have s3: "approval_step demo_manager (?w demo_opened (Checked demo_decision ''acme''))
      (?w demo_opened (Reading demo_decision ''acme''))"
    using step_read [of "?w demo_opened (Checked demo_decision ''acme'')" 0 demo_decision "''acme''" _ demo_manager]
    by (auto simp: ok_iff)
  have "ok (decide_write 5 ''e2'' (mc_outbox demo_manager) demo_decision ''acme'' demo_opened)" by code_simp
  then obtain t where "decide_write 5 ''e2'' (mc_outbox demo_manager) demo_decision ''acme'' demo_opened = Inr (t, demo_decided)"
    by (auto simp: ok_iff demo_decided_def demo_manager_def)
  then have s4: "approval_step demo_manager (?w demo_opened (Reading demo_decision ''acme'')) (?w demo_decided Idle)"
    using step_write [of "?w demo_opened (Reading demo_decision ''acme'')" 0 demo_decision "''acme''" 5 "''e2''" demo_manager]
    by simp
  have "(approval_step demo_manager)\<^sup>*\<^sup>* initial_world (?w demo_opened (Checked demo_decision ''acme''))"
    using s1 s2 by (blast intro: rtranclp.intros)
  then have "(approval_step demo_manager)\<^sup>*\<^sup>* initial_world (?w demo_decided Idle)"
    using s3 s4 by (blast intro: rtranclp.rtrancl_into_rtrancl)
  then show ?thesis by (simp add: idle)
qed

lemma demo_decided_state: "manager_ticket_state \<lparr>ms_db = demo_decided, ms_audit = [], ms_published = []\<rparr> ''r1'' = Some AS_APPROVED"
  by code_simp

definition demo_memory :: memory_approvals where
  "demo_memory = run memory_apply \<lparr>mm_requests = [], mm_decisions = []\<rparr>
     [Mem_create 1 ''r1'' (Some ''i1'') (Some ''s1'') ''manager'' (Some demo_requester) None None ''acme'',
      Mem_decide demo_decision]"

definition demo_deps :: lifecycle_deps where
  "demo_deps = \<lparr>lm_parse_step = (\<lambda>d. case dict_get d ''id'' of Some (PStr i) \<Rightarrow> Some (plain_task i) | _ \<Rightarrow> None),
     lm_parse_graph = (\<lambda>_. None), lm_parse_mapping = (\<lambda>_. Some []), lm_kernel = None, lm_security = None,
     lm_audit = True\<rparr>"

definition demo_author :: lifecycle_caller where
  "demo_author = \<lparr>cl_context = None, cl_principal = None, cl_tenant = Some ''acme''\<rparr>"

definition empty_lifecycle :: lifecycle_state where
  "empty_lifecycle = \<lparr>ls_db = \<lparr>d_versions = [], d_definitions = []\<rparr>, ls_audit = []\<rparr>"

definition demo_draft :: lifecycle_state where
  "demo_draft = run (lifecycle_apply demo_deps) empty_lifecycle
     [Def_create 1 ''v0'' ''d1'' ''invoice'' '''' (Inl Trig_MANUAL) (Inl Prio_NORMAL) 60 [[(''id'', PStr ''a'')]] [] demo_author]"

lemma empty_lifecycle_inv: "db_inv (ls_db empty_lifecycle)"
  by (simp add: empty_lifecycle_def db_inv_def)

lemma lifecycle_run_inv: "db_inv (ls_db s) \<Longrightarrow> db_inv (ls_db (run (lifecycle_apply deps) s es))"
  using definitions.below_run [of s deps es] by (simp add: forward_state_def forward_def)

definition demo_published :: "(definition_error + definition_version) \<times> lifecycle_state" where
  "demo_published = lifecycle_publish demo_deps 2 ''v1'' ''d1'' 1 None None None (Some ''acme'') demo_draft"

lemma demo_draft_inv: "db_inv (ls_db demo_draft)"
  unfolding demo_draft_def by (rule lifecycle_run_inv) (rule empty_lifecycle_inv)

lemma demo_published_eq:
  "lifecycle_publish demo_deps 2 ''v1'' ''d1'' 1 None None None (Some ''acme'') demo_draft =
     (Inr (projr (fst demo_published)), snd demo_published)"
  by code_simp

definition demo_clerk :: security_principal where
  "demo_clerk = \<lparr>sp_principal_id = ''eve'', sp_principal_type = PT_USER, sp_tenant_id = ''acme'',
     sp_roles = [''clerk''], sp_attributes = []\<rparr>"

definition demo_need :: permission_requirement where
  "demo_need = \<lparr>pr_capability_name = ''invoice.read'', pr_required_permissions = [''invoice:read''],
     pr_security_classification = CL_PUBLIC\<rparr>"

definition demo_calls where
  "demo_calls = map (\<lambda>t :: int. (t, demo_clerk, demo_need, Some [(''resource_tenant_id'', PStr ''acme'')])) [0, 299, 300]"

text \<open>The grant is revoked at time 1; the cached answer outlives it until time 300.\<close>

definition demo_grants :: "int \<Rightarrow> grants" where
  "demo_grants t = (if t < 1 then [(''clerk'', ''invoice:read'')] else [])"

definition demo_steps :: "workflow_step list" where
  "demo_steps = map (\<lambda>i. \<lparr>ws_id = i, ws_name = i, ws_capability_name = Some ''invoice.read'',
     ws_parameters = [(''page'', PInt 1)], ws_is_approval_step = False, ws_required_approval_role = None,
     ws_retry_policy = None, ws_compensation_action = None, ws_on_failure_continue = False,
     ws_mapping = Some []\<rparr>) [''a'', ''b'', ''c'']"

definition demo_mapping :: workflow_mapping where
  "demo_mapping =
     [(''total'', ExpressionValue OP_SUM [ReferenceValue \<lparr>ref_source_node_id = ''a'', ref_source_port = None,
         ref_path = [Key ''net'']\<rparr>, LiteralValue (PInt 5)]),
      (''memo'', ReferenceValue \<lparr>ref_source_node_id = ''a'', ref_source_port = None, ref_path = [Key ''memo'']\<rparr>)]"

definition demo_instance :: workflow_instance where
  "demo_instance = \<lparr>wi_id = ''i1'', wi_definition_id = ''d1'', wi_definition_version = ''1.0.0'', wi_tenant_id = ''acme'',
     wi_current_step_index = 0, wi_current_step_id = None, wi_state = WS_CREATED,
     wi_status = STATE_TO_STATUS_MAP WS_CREATED,
     wi_context = \<lparr>wc_variables = [], wc_step_outputs = [], wc_metadata = [], wc_session_token = None\<rparr>,
     wi_compensation_stack = [], wi_trace_id = '''', wi_version = 1, wi_created_at = 0, wi_updated_at = 0\<rparr>"

text \<open>A dispatcher that fails on its first two calls.\<close>

definition flaky :: "nat dispatcher" where
  "flaky cap params authz n = ((if n < 2 then Inl ''down'' else Inr (PInt 1)), n + 1)"

definition demo_task :: workflow_step where
  "demo_task = \<lparr>ws_id = ''s1'', ws_name = ''task'', ws_capability_name = Some ''x'', ws_parameters = [],
     ws_is_approval_step = False, ws_required_approval_role = None,
     ws_retry_policy = Some \<lparr>max_attempts = 3, backoff_factor = 2, initial_delay_seconds = 1, jitter = True\<rparr>,
     ws_compensation_action = None, ws_on_failure_continue = False, ws_mapping = None\<rparr>"

definition demo_evaluator :: "nat evaluator_deps" where
  "demo_evaluator = \<lparr>ev_floats = int_float_ops, ev_parse_mapping = (\<lambda>_. None), ev_create_request = (\<lambda>_ _ _ _ n. n),
     ev_show_failure = (\<lambda>_. ''failed''),
     ev_default_retry = \<lparr>max_attempts = 1, backoff_factor = 1, initial_delay_seconds = 1, jitter = True\<rparr>\<rparr>"

end
