(* ===== verification/Approval_Properties.thy ===== *)
theory Approval_Properties
  imports Demo_Data
begin

text \<open>
  What the approval managers promise, stated on their operations.
\<close>

text \<open>
  C1. On a database satisfying the approval invariant the durable manager accepts a decision
  exactly when it is permitted: it approves or rejects a pending ticket of the addressed tenant,
  the verified principal is the named approver, of the ticket's tenant, not its requester, holds
  the required role or an active delegation of it, the signature verifies where one is given and
  one is given where it is mandatory; and the decision identifier is new.
\<close>

theorem decision_authorized:
  assumes "approval_inv (mc_outbox cfg) (ms_db s)"
  shows "ok (submit_decision cfg now ev d who tenant s) \<longleftrightarrow>
     decision_permitted cfg now (ms_db s) d who (decision_tenant tenant d) \<and>
     ad_id d \<notin> ad_id ` set (t_decisions (ms_db s))"
  using assms by (rule submit_decision_ok)

theorem decision_authorized_witness:
  "ok (submit_decision demo_manager 5 ''e2'' demo_decision (Some demo_approver) (Some ''acme'') demo_pending) \<and>
   decision_permitted demo_manager 5 (ms_db demo_pending) demo_decision (Some demo_approver) ''acme''"
proof -
  have "ok (submit_decision demo_manager 5 ''e2'' demo_decision (Some demo_approver) (Some ''acme'') demo_pending)"
    by code_simp
  moreover have "decision_tenant (Some ''acme'') demo_decision = ''acme''" by code_simp
  ultimately show ?thesis
    using decision_authorized [OF demo_pending_inv, of 5 "''e2''" demo_decision "Some demo_approver" "Some ''acme''"] by simp
qed

text \<open>
  C2. In every state reachable by interleaving ticket creation, delegation, the separate check,
  read and write phases of concurrent decisions, crashes between them, and expiry, a ticket has
  at most one decision row, its state agrees with that row and the approver is not the
  requester, and with an outbox exactly one event per decision is staged.
\<close>

theorem one_decision_per_ticket:
  assumes "(approval_step cfg)\<^sup>*\<^sup>* initial_world w"
  shows "length (decisions_of (w_db w) rid) \<le> 1 \<and> (\<forall>r \<in> set (t_requests (w_db w)). ticket_settled (w_db w) r) \<and>
     (mc_outbox cfg \<longrightarrow> announced (t_outbox (w_db w)) = map decision_event (t_decisions (w_db w)))"
proof -
  from reachable_inv [OF assms] have inv: "approval_inv (mc_outbox cfg) (w_db w)" by (simp add: world_inv_def)
  have "length (decisions_of (w_db w) rid) \<le> 1"
  proof (cases "\<exists>r \<in> set (t_requests (w_db w)). ar_id r = rid")
    case True
    then obtain r where r: "r \<in> set (t_requests (w_db w))" "ar_id r = rid" by blast
    with inv have "ticket_settled (w_db w) r" by (simp add: approval_inv_def)
    then show ?thesis using r(2) by (cases "ar_state r") (auto simp: ticket_settled_def)
  next
    case False
    moreover have "\<forall>d \<in> set (t_decisions (w_db w)). \<exists>r \<in> set (t_requests (w_db w)). ar_id r = ad_request_id d"
      using inv by (simp add: approval_inv_def)
    ultimately have "decisions_of (w_db w) rid = []"
      unfolding decisions_of_def filter_empty_conv by blast
    then show ?thesis by simp
  qed
  with inv show ?thesis by (simp add: approval_inv_def)
qed

theorem one_decision_per_ticket_witness:
  "length (decisions_of demo_decided ''r1'') = 1 \<and>
   announced (t_outbox demo_decided) = map decision_event (t_decisions demo_decided)"
proof -
  have "length (decisions_of demo_decided ''r1'') = 1" by code_simp
  then show ?thesis using one_decision_per_ticket [OF demo_run] by (simp add: demo_manager_def)
qed


theorem tickets_close_once:
  assumes "approval_inv (mc_outbox cfg) (ms_db s)" "manager_ticket_state s i = Some a" "a \<noteq> AS_PENDING"
  shows "manager_ticket_state (run (manager_apply cfg) s es) i = Some a"
  using assms by (rule durable_tickets.closed_run)

theorem tickets_close_once_witness:
  "manager_ticket_state (run (manager_apply demo_manager) \<lparr>ms_db = demo_decided, ms_audit = [], ms_published = []\<rparr>
     [Man_decide 9 ''e3'' demo_decision (Some demo_approver) None, Man_sweep 99 id None]) ''r1'' = Some AS_APPROVED"
proof -
  have "approval_inv (mc_outbox demo_manager) demo_decided"
    using reachable_inv [OF demo_run] by (simp add: world_inv_def)
  then show ?thesis by (intro tickets_close_once [OF _ demo_decided_state]) simp_all
qed


theorem memory_tickets_close_once:
  assumes "memory_keyed m" "memory_state m i = Some a" "a \<noteq> AS_PENDING"
  shows "memory_state (run memory_apply m es) i = Some a"
  using assms by (rule memory_tickets.closed_run)

theorem memory_tickets_close_once_witness:
  "memory_state (run memory_apply demo_memory [Mem_decide (demo_decision\<lparr>ad_decision := AS_REJECTED\<rparr>)]) ''r1'' = Some AS_APPROVED"
proof -
  have "memory_keyed demo_memory" unfolding demo_memory_def
    by (rule memory_tickets.inv_run) (simp add: memory_keyed_def)
  moreover have "memory_state demo_memory ''r1'' = Some AS_APPROVED" by code_simp
  ultimately show ?thesis by (rule memory_tickets_close_once) simp
qed


theorem sweep_expires_oldest_hundred:
  assumes "distinct (map ar_id (t_requests (ms_db s)))"
  shows "overdue_rows now tenant (ms_db (snd (sweep_expired_requests cfg now fresh tenant s))) =
     drop 100 (overdue_rows now tenant (ms_db s))"
  using assms by (rule sweep_remaining)

theorem sweep_expires_oldest_hundred_witness:
  "length (overdue_rows 99 None (ms_db demo_pending)) = 1 \<and>
   overdue_rows 99 None (ms_db (snd (sweep_expired_requests demo_manager 99 id None demo_pending))) = []"
proof -
  have one: "length (overdue_rows 99 None (ms_db demo_pending)) = 1" by code_simp
  have "distinct (map ar_id (t_requests (ms_db demo_pending)))"
    using demo_pending_inv by (simp add: approval_inv_def)
  from sweep_expires_oldest_hundred [OF this, of 99 None demo_manager id] one show ?thesis by simp
qed

end
