(* ===== verification/Definition_Properties.thy ===== *)
theory Definition_Properties
  imports Demo_Data
begin

text \<open>
  What the versioned definition store and its lifecycle manager promise.
\<close>


text \<open>
  C5. Once published, a version is returned unchanged under its number after any later sequence
  of lifecycle operations.
\<close>

theorem published_version_pinned:
  assumes "db_inv (ls_db s)"
    and "lifecycle_publish deps now row_id did expected version ec who tenant s = (Inr v, s')"
  shows "get_published_version did (dv_tenant_id v) (dv_version v) (ls_db (run (lifecycle_apply deps') s' es)) = Inr (Some v)"
proof -
  from lifecycle_publish_Inr [OF assms(2)] publish_flow_sound [OF assms(1)]
  have v: "dv_status v = DS_PUBLISHED" "model_accepts v" "v \<in> set (d_versions (ls_db s'))" "dv_definition_id v = did"
    by (auto simp: version_key_def)
  have "db_inv (ls_db s')"
    using lifecycle_run_inv [OF assms(1), of deps "[Def_publish now row_id did expected version \<lparr>cl_context = ec, cl_principal = who, cl_tenant = tenant\<rparr>]"] assms(2)
    by simp
  from pinned_run [OF this v(3,1,2), of deps' es] v(4) show ?thesis by simp
qed


theorem settled_rows_frozen:
  assumes "db_inv (ls_db s)" "r \<in> set (d_versions (ls_db s))" "dv_status r \<noteq> DS_DRAFT"
  shows "r \<in> set (d_versions (ls_db (run (lifecycle_apply deps) s es)))"
  using assms by (rule frozen_run)


theorem published_version_pinned_witness:
  "get_published_version ''d1'' ''acme'' ''1.0.0''
     (ls_db (run (lifecycle_apply demo_deps) (snd demo_published) [Def_archive 3 ''v2'' ''d1'' None demo_author])) =
   Inr (Some (projr (fst demo_published)))"
proof -
  have "dv_version (projr (fst demo_published)) = ''1.0.0''" "dv_tenant_id (projr (fst demo_published)) = ''acme''"
    by code_simp+
  then show ?thesis
    using published_version_pinned [OF demo_draft_inv demo_published_eq, of demo_deps "[Def_archive 3 ''v2'' ''d1'' None demo_author]"] by simp
qed

theorem settled_rows_frozen_witness:
  "projr (fst demo_published) \<in> set (d_versions (ls_db (run (lifecycle_apply demo_deps) (snd demo_published)
     [Def_archive 3 ''v2'' ''d1'' None demo_author])))"
proof -
  have "db_inv (ls_db (snd demo_published))"
    using lifecycle_run_inv [OF demo_draft_inv, of demo_deps "[Def_publish 2 ''v1'' ''d1'' 1 None demo_author]"]
    by (simp add: demo_published_def demo_author_def)
  moreover have "projr (fst demo_published) \<in> set (d_versions (ls_db (snd demo_published)))"
    "dv_status (projr (fst demo_published)) \<noteq> DS_DRAFT" by code_simp+
  ultimately show ?thesis by (rule settled_rows_frozen)
qed


theorem next_version_is_new:
  "next_version_from candidates \<notin> set candidates \<and>
   (\<forall>w \<in> set candidates. key_less (semver_key w) (semver_key (next_version_from candidates)))"
  using next_version_fresh next_version_greater by blast

theorem next_version_is_new_witness:
  "next_version_from [''1.2.9'', ''1.10.0''] = ''1.10.1'' \<and> key_less (semver_key ''1.2.9'') (semver_key ''1.10.1'')"
proof -
  have "next_version_from [''1.2.9'', ''1.10.0''] = ''1.10.1''" by code_simp
  then show ?thesis using next_version_is_new [of "[''1.2.9'', ''1.10.0'']"] by simp
qed

end
