(* ===== verification/Access_Properties.thy ===== *)
theory Access_Properties
  imports Demo_Data
begin

text \<open>
  What the authorization decision promises, without and with the permission cache.
\<close>

text \<open>
  C32. Without a cache the authorization decision allows exactly when every required permission
  is granted to one of the principal's roles, the resource tenant is the principal's own, and
  the clearance rank is at least the required one.
\<close>

theorem authorization_exact:
  "\<exists>d. authorize None now (Some rows) p r ctx c = (Some d, c) \<and>
     (is_allowed d \<longleftrightarrow>
        set (pr_required_permissions r) \<subseteq> {x. \<exists>role. role \<in> set (sp_roles p) \<and> (role, x) \<in> set rows} \<and>
        attributes_allow p r ctx)"
  using authorize_no_cache [of now rows p r ctx c] by blast

text \<open>
  C33. With the permission cache, over any run of calls at non-decreasing times against a
  changing grant table, an allowed call had each of its permissions granted within the last 300
  time units.
\<close>

theorem cached_grants_are_recent:
  assumes "sorted (map fst calls)"
  shows "list_all2 (\<lambda>call d. \<exists>a. d = Some a \<and> (is_allowed a \<longrightarrow> justified H call)) calls
     (authorize_run memory_cache_ops H calls [])"
proof (cases calls)
  case Nil
  then show ?thesis by simp
next
  case (Cons call rest)
  with assms have "sorted (fst call # map fst calls)" by simp
  from memory_timed.authorize_run_justified [OF this memory_fresh_empty] show ?thesis .
qed

theorem cached_grants_are_recent_witness:
  "map (map_option is_allowed) (authorize_run memory_cache_ops demo_grants demo_calls []) = [Some True, Some True, Some False] \<and>
   justified demo_grants (demo_calls ! 0) \<and> justified demo_grants (demo_calls ! 1)"
proof -
  let ?ds = "authorize_run memory_cache_ops demo_grants demo_calls []"
  have ds: "map (map_option is_allowed) ?ds = [Some True, Some True, Some False]" by code_simp
  have "sorted (map fst demo_calls)" by (simp add: demo_calls_def)
  from cached_grants_are_recent [OF this, of demo_grants]
  have "length demo_calls = length ?ds" and
    *: "\<And>i. i < length demo_calls \<Longrightarrow> \<exists>a. ?ds ! i = Some a \<and> (is_allowed a \<longrightarrow> justified demo_grants (demo_calls ! i))"
    by (auto simp: list_all2_conv_all_nth)
  moreover have "map_option is_allowed (?ds ! i) = Some True" if "i = 0 \<or> i = 1" for i
    using that arg_cong [OF ds, of "\<lambda>xs. xs ! i"] arg_cong [OF ds, of length] by auto
  moreover have "length demo_calls = 3" by (simp add: demo_calls_def)
  ultimately show ?thesis using ds * [of 0] * [of 1] by fastforce
qed

end
