(* ===== verification/Graph_Properties.thy ===== *)
theory Graph_Properties
  imports Demo_Data
begin

text \<open>
  What the graph checks, the compatibility adapter and the data mapping promise.
\<close>

text \<open>
  C34. The graph validator accepts exactly the well-formed graphs: distinct node and edge
  identifiers, a declared entry node, no dangling or undeclared references, and an acyclic edge
  relation.
\<close>

theorem graph_accepted_iff: "validate_graph g = Inr () \<longleftrightarrow> well_formed_graph g"
  by (rule validate_graph_iff_well_formed)


theorem rejected_cycle_exists:
  assumes "validate_graph g = Inl e"
  shows "(\<forall>k. e \<noteq> MissingKey k) \<and> (\<forall>nb. e = DirectedCycle nb \<longrightarrow> (nb, nb) \<in> (edge_rel g)\<^sup>+)"
  using assms by (rule validate_graph_Inl)

theorem rejected_cycle_exists_witness:
  "(''b'', ''b'') \<in> (edge_rel (demo_graph [(''a'', ''b''), (''b'', ''c''), (''c'', ''b'')]))\<^sup>+"
proof -
  have "validate_graph (demo_graph [(''a'', ''b''), (''b'', ''c''), (''c'', ''b'')]) = Inl (DirectedCycle ''b'')"
    by code_simp
  from rejected_cycle_exists [OF this] show ?thesis by simp
qed


theorem ancestors_exact: "compute_ancestors g n = {m. (m, n) \<in> (edge_rel g)\<^sup>+}"
  by (rule compute_ancestors_eq)


theorem unreachable_exact:
  "find_unreachable_nodes g = filter (\<lambda>n. (entry_node_id g, n) \<notin> (edge_rel g)\<^sup>*) (map node_id (nodes g))"
  by (rule find_unreachable_nodes_eq)



text \<open>
  C35. A graph the adapter flattens is well formed and linear: the steps are its nodes without
  repetition, from the entry node, and its edges are exactly the consecutive pairs.
\<close>

theorem accepted_graph_is_chain:
  assumes "graph_to_steps g = Inr steps"
  shows "well_formed_graph g \<and> distinct (map ws_id steps) \<and>
     set (map ws_id steps) = node_id ` set (nodes g) \<and> hd (map ws_id steps) = entry_node_id g \<and>
     edge_rel g = set (zip (map ws_id steps) (tl (map ws_id steps)))"
  using assms by (rule graph_to_steps_Inr)

theorem accepted_graph_is_chain_witness:
  "edge_rel (demo_graph [(''b'', ''c''), (''a'', ''b'')]) = {(''a'', ''b''), (''b'', ''c'')}"
proof -
  let ?g = "demo_graph [(''b'', ''c''), (''a'', ''b'')]"
  have "ok (graph_to_steps ?g)" by code_simp
  then obtain steps where s: "graph_to_steps ?g = Inr steps" by (auto simp: ok_iff)
  have "map ws_id (projr (graph_to_steps ?g)) = [''a'', ''b'', ''c'']" by code_simp
  with accepted_graph_is_chain [OF s] s show ?thesis by simp
qed

text \<open>
  C38. What a validated mapping resolves to depends only on the outputs of the ancestors of its
  consuming node.
\<close>

theorem mapping_noninterference:
  assumes "validate_mapping g c m = Inr ()"
    and "\<forall>n. (n, c) \<in> (edge_rel g)\<^sup>+ \<longrightarrow> map_of ctx n = map_of ctx' n"
  shows "resolve_mapping ops m ctx = resolve_mapping ops m ctx'"
  using assms by (rule validate_mapping_resolution)

theorem mapping_noninterference_witness:
  "resolve_mapping int_float_ops demo_mapping [(''a'', PDict [(''net'', PInt 7)])] =
   resolve_mapping int_float_ops demo_mapping [(''a'', PDict [(''net'', PInt 7)]), (''c'', PStr ''later'')]"
proof (rule mapping_noninterference)
  show "validate_mapping (demo_graph [(''a'', ''b''), (''b'', ''c'')]) ''b'' demo_mapping = Inr ()" by code_simp
  have "compute_ancestors (demo_graph [(''a'', ''b''), (''b'', ''c'')]) ''b'' \<subseteq> {''a''}" by code_simp
  then have "{m. (m, ''b'') \<in> (edge_rel (demo_graph [(''a'', ''b''), (''b'', ''c'')]))\<^sup>+} \<subseteq> {''a''}"
    by (simp only: compute_ancestors_eq)
  then show "\<forall>n. (n, ''b'') \<in> (edge_rel (demo_graph [(''a'', ''b''), (''b'', ''c'')]))\<^sup>+ \<longrightarrow>
      map_of [(''a'', PDict [(''net'', PInt 7)])] n = map_of [(''a'', PDict [(''net'', PInt 7)]), (''c'', PStr ''later'')] n"
    by auto
qed


theorem mapping_total:
  assumes "resolve_mapping ops m ctx = Inr (resolved, missing)" "dict_ok m"
  shows "resolved = concat (map (\<lambda>(f, v). case resolve_value ops v ctx of
                   Inr (Some x) \<Rightarrow> [(f, x)] | _ \<Rightarrow> []) m) \<and>
     missing = map fst (filter (\<lambda>(f, v). resolve_value ops v ctx = Inr None) m)"
  using assms by (rule resolve_mapping_shape)

theorem mapping_total_witness:
  "map fst (filter (\<lambda>(f, v). resolve_value int_float_ops v [(''a'', PDict [(''net'', PInt 7)])] = Inr None) demo_mapping) = [''memo'']"
proof -
  have "resolve_mapping int_float_ops demo_mapping [(''a'', PDict [(''net'', PInt 7)])] =
      Inr ([(''total'', PFloat 12)], [''memo''])" by code_simp
  moreover have "dict_ok demo_mapping" by code_simp
  ultimately show ?thesis using mapping_total by metis
qed


theorem resolution_monotone:
  assumes "map_of ctx \<subseteq>\<^sub>m map_of ctx'" "resolve_value ops v ctx = Inr (Some x)"
  shows "resolve_value ops v ctx' = Inr (Some x)"
  using assms by (rule resolve_value_mono)

theorem resolution_monotone_witness:
  "resolve_value int_float_ops (snd (hd demo_mapping)) [(''b'', PNone), (''a'', PDict [(''net'', PInt 7)])] = Inr (Some (PFloat 12))"
proof (rule resolution_monotone)
  show "map_of [(''a'', PDict [(''net'', PInt 7)])] \<subseteq>\<^sub>m map_of [(''b'', PNone), (''a'', PDict [(''net'', PInt 7)])]"
    by (simp add: map_le_def)
  show "resolve_value int_float_ops (snd (hd demo_mapping)) [(''a'', PDict [(''net'', PInt 7)])] = Inr (Some (PFloat 12))"
    by code_simp
qed


theorem operators_total: "ok (evaluate_expression ops oper vs) \<longleftrightarrow> operands_ok ops oper vs"
  by (rule evaluate_expression_ok_iff)

end
