(* ===== verification/Execution_Properties.thy ===== *)
theory Execution_Properties
  imports Demo_Data
begin

text \<open>
  What the state machine and the step evaluator promise.
\<close>


theorem status_follows_state:
  assumes "status_consistent inst"
  shows "status_consistent (run attempt_transition inst ts) \<and>
     (terminal_state (wi_state inst) \<longrightarrow> run attempt_transition inst ts = inst)"
  using status_machine.inv_run [OF assms] lifecycle_order.below_run [of inst ts] by (simp add: frozen_below_def)

theorem status_follows_state_witness:
  "status_consistent (run attempt_transition demo_instance [WS_VALIDATED, WS_COMPLETED, WS_READY])"
proof -
  have "status_consistent demo_instance" by code_simp
  from status_follows_state [OF this] show ?thesis by blast
qed


theorem waiting_needs_approval:
  assumes "state_trace inst ts = xs @ WS_WAITING # zs @ WS_RUNNING # ys"
  shows "WS_APPROVED \<in> set zs"
proof -
  have "successively can_transition ((xs @ (WS_WAITING # zs @ [WS_RUNNING])) @ ys)"
    using successively_state_trace [of inst ts] assms by simp
  then have "successively can_transition (WS_WAITING # zs @ [WS_RUNNING])"
    unfolding successively_append_iff by blast
  then show ?thesis by (rule waiting_gate)
qed

theorem waiting_needs_approval_witness:
  "state_trace (demo_instance\<lparr>wi_state := WS_RUNNING\<rparr>) [WS_WAITING, WS_RUNNING, WS_APPROVED, WS_RUNNING] =
     [WS_RUNNING] @ WS_WAITING # [WS_APPROVED] @ WS_RUNNING # [] \<and> WS_APPROVED \<in> set [WS_APPROVED]"
proof -
  have "state_trace (demo_instance\<lparr>wi_state := WS_RUNNING\<rparr>) [WS_WAITING, WS_RUNNING, WS_APPROVED, WS_RUNNING] =
     [WS_RUNNING] @ WS_WAITING # [WS_APPROVED] @ WS_RUNNING # []" by code_simp
  with waiting_needs_approval [OF this] show ?thesis by simp
qed


theorem completion_path:
  assumes "wi_state inst = WS_CREATED" "WS_COMPLETED \<in> set (state_trace inst ts)"
  shows "take 4 (state_trace inst ts) = [WS_CREATED, WS_VALIDATED, WS_READY, WS_RUNNING]"
  by (rule completed_path [OF successively_state_trace _ _ assms(2)]) (simp_all add: assms(1))

theorem completion_path_witness:
  "take 4 (state_trace demo_instance [WS_RUNNING, WS_VALIDATED, WS_READY, WS_RUNNING, WS_COMPLETED]) =
     [WS_CREATED, WS_VALIDATED, WS_READY, WS_RUNNING]"
  by (rule completion_path) code_simp+




theorem compensation_in_reverse:
  "execute_compensation_stack disp inst env =
     (let r = compensate_all disp (rev (wi_compensation_stack inst)) env
      in (fst r, inst\<lparr>wi_compensation_stack := []\<rparr>, snd r))"
  by (simp add: execute_compensation_stack_def compensation_loop_rev Let_def)

end
