(* ===== verification/Engine_Properties.thy ===== *)
theory Engine_Properties
  imports Demo_Data
begin

text \<open>
  What the workflow engine and its instance store promise, and where they do not.
\<close>

section \<open>A small engine\<close>

definition gate :: "string \<Rightarrow> workflow_step" where
  "gate i = (plain_task i)\<lparr>ws_is_approval_step := True, ws_required_approval_role := Some ''manager''\<rparr>"

definition call :: "string \<Rightarrow> string \<Rightarrow> workflow_step" where
  "call i cap = (plain_task i)\<lparr>ws_capability_name := Some cap\<rparr>"

definition demo_flow :: "workflow_step list \<Rightarrow> workflow_definition" where
  "demo_flow steps = \<lparr>wd_id = ''flow'', wd_tenant_id = ''acme'', wd_version = ''1.0.0'',
     wd_content = \<lparr>dc_name = ''flow'', dc_description = '''', dc_trigger = Trig_MANUAL, dc_priority = Prio_NORMAL,
       dc_timeout_seconds = 60, dc_steps = steps, dc_graph = None\<rparr>\<rparr>"

text \<open>The outside counts its calls and refuses one capability; identifiers are numbered.\<close>

definition demo_engine :: "nat engine_config" where
  "demo_engine = \<lparr>ec_store = True, ec_kernel = True, ec_storage = True, ec_approvals = demo_manager,
     ec_invoke = (\<lambda>cap params ctx tok n. (if cap = ''broken'' then Inl ''down'' else Inr (PInt (int n)), n + 1)),
     ec_token_ok = (\<lambda>_. True), ec_mint = (\<lambda>_. PNone), ec_uuid = (\<lambda>n. replicate n CHR ''x''),
     ec_clock = int, ec_text = (\<lambda>_. ''value''), ec_floats = int_float_ops, ec_parse_mapping = (\<lambda>_. None),
     ec_show_failure = (\<lambda>_. ''failed''),
     ec_default_retry = \<lparr>max_attempts = 1, backoff_factor = 1, initial_delay_seconds = 1, jitter = True\<rparr>\<rparr>"

text \<open>An engine that runs one instance of a flow, whose row mirrors it.\<close>

definition demo_running :: workflow_instance where
  "demo_running = demo_instance\<lparr>wi_state := WS_RUNNING, wi_status := St_RUNNING\<rparr>"

definition engine_with :: "workflow_instance \<Rightarrow> workflow_step list \<Rightarrow> nat engine_state" where
  "engine_with i steps = \<lparr>es_definitions = [(''flow'', demo_flow steps)], es_heap = [i], es_cache = [(wi_id i, 0)],
     es_running = [(wi_id i, 0)],
     es_tasks = [\<lparr>tk_object = 0, tk_definition = demo_flow steps, tk_live = True, tk_pops = True\<rparr>],
     es_db = \<lparr>i_definitions = \<lparr>d_versions = [], d_definitions = []\<rparr>, i_rows = [i], i_runs = []\<rparr>,
     es_env = \<lparr>en_world = 0, en_approvals = empty_manager, en_supply = 1\<rparr>,
     es_events = [], es_snapshots = [], es_metrics = (\<lambda>_. 0)\<rparr>"

abbreviation three_steps :: "workflow_step list" where
  "three_steps \<equiv> [call ''a'' ''x'', gate ''g'', call ''c'' ''x'']"

lemma engine_with_simps [simp]:
  "object_at (engine_with i steps) 0 = i" "length (es_heap (engine_with i steps)) = 1"
  "i_rows (es_db (engine_with i steps)) = [i]" "dc_steps (wd_content (demo_flow steps)) = steps"
  by (simp_all add: engine_with_def object_at_def demo_flow_def)


lemma demo_running_state: "runnable (wi_state demo_running)" "wi_current_step_index demo_running = 0"
  by (simp_all add: demo_running_def demo_instance_def runnable_def)

section \<open>Instances\<close>



text \<open>
  C37. The step loop ends: each iteration that asks for another one has advanced the position,
  so any greater bound on the iterations gives the same result.
\<close>

theorem run_fuel_enough:
  assumes "a < length (es_heap s)" "length (dc_steps (wd_content def)) - wi_current_step_index (object_at s a) < n"
  shows "loop_turns n cfg def a s = run_instance_steps cfg def a s"
  using assms by (rule loop_turns_fuel)

theorem run_fuel_enough_witness:
  "loop_turns 9 demo_engine (demo_flow three_steps) 0 (engine_with demo_running three_steps) =
     run_instance_steps demo_engine (demo_flow three_steps) 0 (engine_with demo_running three_steps)"
  by (rule run_fuel_enough) (simp_all only: engine_with_simps demo_running_state, simp_all)

text \<open>
  C6. Whatever handlers, loop iterations and foreign database writes are interleaved, an
  instance in memory keeps its identity, tenant and version pin, moves only along the allowed
  transitions, and never leaves a terminal state.
\<close>

theorem objects_move_forward:
  assumes "a < length (es_heap s)"
    and "i = object_at s a" "j = object_at (run (engine_apply cfg) s es) a"
  shows "wi_id j = wi_id i \<and> wi_tenant_id j = wi_tenant_id i \<and> wi_definition_version j = wi_definition_version i \<and>
     can_transition\<^sup>*\<^sup>* (wi_state i) (wi_state j) \<and> (terminal_state (wi_state i) \<longrightarrow> wi_state j = wi_state i)"
  using engine_object_step [OF assms(1), of cfg es] terminal_reaches
  unfolding assms(2,3) object_at_def object_step_def by blast

theorem objects_move_forward_witness:
  "wi_state (object_at (run (engine_apply demo_engine) (engine_with (demo_running\<lparr>wi_state := WS_CANCELLED\<rparr>) three_steps)
     [Ev_resume ''i1'' None None, Ev_turn 0, Ev_recover None]) 0) = WS_CANCELLED"
proof -
  let ?s = "engine_with (demo_running\<lparr>wi_state := WS_CANCELLED\<rparr>) three_steps"
  have state: "wi_state (object_at ?s 0) = WS_CANCELLED" and len: "0 < length (es_heap ?s)" by simp_all
  have "terminal_state WS_CANCELLED \<longrightarrow> wi_state (object_at (run (engine_apply demo_engine) ?s
      [Ev_resume ''i1'' None None, Ev_turn 0, Ev_recover None]) 0) = WS_CANCELLED"
    using objects_move_forward [OF len refl refl, of demo_engine "[Ev_resume ''i1'' None None, Ev_turn 0, Ev_recover None]"]
    unfolding state by (elim conjE)
  then show ?thesis by (rule mp) simp
qed

text \<open>
  C7. After a successful update of an instance row, every later write from a copy with the same
  or an older version is refused, whatever other writes happen in between.
\<close>

theorem stale_copies_refused:
  assumes "distinct (map wi_id (i_rows db))" "update_instance now inst tenant db = Inr (inst', db')"
    and "wi_id copy = wi_id inst" "wi_version copy \<le> wi_version inst"
  shows "\<not> ok (update_instance now' copy tenant' (run store_apply db' es)) \<and>
     \<not> ok (fst (record_step_complete text_of now' run_id copy out err (run store_apply db' es)))"
  using assms by (rule stale_write_refused)

theorem stale_copies_refused_witness:
  "(case update_instance 9 demo_running None (es_db (engine_with demo_running [])) of
      Inl _ \<Rightarrow> False
    | Inr (_, db') \<Rightarrow> \<not> ok (update_instance 10 (demo_running\<lparr>wi_state := WS_FAILED\<rparr>) None db'))"
proof -
  let ?db = "es_db (engine_with demo_running [])"
  have "guarded_row demo_running (wi_version demo_running) None demo_running"
    by (simp add: guarded_row_def tenant_given_def)
  then have "ok (update_instance 9 demo_running None ?db)" by (simp add: update_instance_ok_iff)
  then obtain i' db' where u: "update_instance 9 demo_running None ?db = Inr (i', db')" by (auto simp: ok_iff)
  have "\<not> ok (update_instance 10 (demo_running\<lparr>wi_state := WS_FAILED\<rparr>) None (run store_apply db' []))"
    using stale_copies_refused [OF _ u, of "demo_running\<lparr>wi_state := WS_FAILED\<rparr>" 10 None "[]"] by simp
  then show ?thesis by (simp add: u)
qed


theorem rows_stay_clean:
  assumes "\<forall>r \<in> set (i_rows db). clean_context (wi_context r)"
  shows "\<forall>r \<in> set (i_rows (run store_apply db es)). clean_context (wi_context r)"
  using assms by (rule clean_rows.inv_run)

theorem rows_stay_clean_witness:
  "list_all (\<lambda>r. clean_context (wi_context r))
     (i_rows (run store_apply (es_db (engine_with demo_running [])) [Inst_update 9 (demo_running\<lparr>wi_state := WS_FAILED\<rparr>) None]))"
proof -
  have "\<forall>r \<in> set (i_rows (es_db (engine_with demo_running []))). clean_context (wi_context r)"
    by (simp add: demo_running_def demo_instance_def clean_context_def)
  from rows_stay_clean [OF this] show ?thesis by (simp only: list_all_iff)
qed

section \<open>Divergences\<close>

text \<open>
  Closed computations that show where the engine departs from what its documentation says; the
  manifest's findings name them.
\<close>

text \<open>Only a running instance is completed: approved behind its last step it stays there.\<close>


theorem approved_last_gate_stuck:
  assumes "wi_state (object_at s a) = WS_APPROVED" "length (dc_steps (wd_content def)) \<le> wi_current_step_index (object_at s a)"
  shows "run_instance_steps cfg def a s = (Inr (), s)"
  using assms by (simp add: run_instance_steps_def loop_turn_def complete_run_def Let_def when_eff_def bind_eff_def ret_def)

theorem approved_last_gate_stuck_witness:
  "run_instance_steps demo_engine (demo_flow [gate ''g'']) 0
     (engine_with (demo_running\<lparr>wi_state := WS_APPROVED, wi_current_step_index := 1\<rparr>) [gate ''g'']) =
   (Inr (), engine_with (demo_running\<lparr>wi_state := WS_APPROVED, wi_current_step_index := 1\<rparr>) [gate ''g''])"
  by (rule approved_last_gate_stuck) simp_all

text \<open>Which step a ticket was opened for does not matter when it is decided.\<close>


theorem ticket_step_ignored:
  "advance_after_approval cfg (ticket\<lparr>ar_step_id := other, ar_required_role := role\<rparr>) d tenant =
     advance_after_approval cfg ticket d tenant"
  by (simp add: advance_after_approval_def split: option.split)

text \<open>A conflict leaves the object with the version of the row it lost against.\<close>

definition cancelled_row :: workflow_instance where
  "cancelled_row = demo_running\<lparr>wi_state := WS_CANCELLED, wi_version := 2\<rparr>"


theorem lost_write_resurrects:
  "(case record_step_complete (\<lambda>_. []) 9 None demo_running PNone None (es_db (engine_with cancelled_row [])) of
      (lost, i, db) \<Rightarrow> \<not> ok lost \<and> map wi_state (i_rows db) = [WS_CANCELLED] \<and>
        (case update_instance 10 i None db of
           Inl _ \<Rightarrow> False
         | Inr (_, db') \<Rightarrow> map wi_state (i_rows db') = [WS_RUNNING]))"
  by (simp add: record_step_complete_def update_instance_def update_rows_def guarded_row_def tenant_given_def
      write_row_def cancelled_row_def demo_running_def demo_instance_def Let_def)

text \<open>Pausing changes the status only, and the loop looks at the state.\<close>

theorem pause_keeps_running:
  assumes "pause_workflow cfg iid tenant who s = (Inr a, t)" "\<not> ec_store cfg" "\<not> ec_storage cfg" "\<not> ec_kernel cfg"
    "dict_get (es_cache s) iid = Some a" "a < length (es_heap s)"
  shows "wi_status (object_at t a) = St_PAUSED \<and> runnable (wi_state (object_at t a))"
  using assms
  by (auto simp: pause_workflow_def cached_or_stored_def bind_eff_def seq_eff_def set_object_done store_update_def
      persist_snapshot_def announce_def publish_event_def when_eff_def ret_def object_at_def runnable_def Let_def
      split: if_splits option.splits)

text \<open>The cache of definitions answers every tenant.\<close>

theorem cached_definition_any_tenant:
  assumes "dict_get (es_definitions s) did = Some d"
  shows "get_definition_async cfg did tenant None s = (Inr d, s)"
  using assms by (simp add: get_definition_async_def bind_eff_def reads_def ret_def)

theorem snapshot_keeps_token:
  assumes "ec_storage cfg" "wi_id (object_at s a) = iid"
  shows "dict_get (es_snapshots (snd (persist_snapshot cfg a s))) iid = Some (object_at s a)"
  using assms by (simp add: persist_snapshot_def when_eff_def modify_def)

end
