(* ===== verification/Calendar.thy ===== *)
theory Calendar
  imports Main
begin

text \<open>
  Wall clocks of the Gregorian calendar as Python's \<open>datetime\<close> has them: components, their count of
  minutes, and the starts of the next minute, hour, day and month.  The end of Python's calendar
  (year 9999) is not modelled.
\<close>

section \<open>Components\<close>

record wall =
  at_year :: int
  at_month :: int
  at_day :: int
  at_hour :: int
  at_minute :: int

definition leap :: "int \<Rightarrow> bool" where
  "leap y \<longleftrightarrow> y mod 4 = 0 \<and> (y mod 100 \<noteq> 0 \<or> y mod 400 = 0)"

definition month_days :: "int \<Rightarrow> int \<Rightarrow> int" where
  "month_days y m = (if m = 2 then (if leap y then 29 else 28) else if m \<in> {4, 6, 9, 11} then 30 else 31)"

definition days_before_year :: "int \<Rightarrow> int" where
  "days_before_year y = (let p = y - 1 in p * 365 + p div 4 - p div 100 + p div 400)"

definition days_before_month :: "int \<Rightarrow> int \<Rightarrow> int" where
  "days_before_month y m = sum_list (map (month_days y) [1 .. m - 1])"

definition ordinal :: "wall \<Rightarrow> int" where
  "ordinal w = days_before_year (at_year w) + days_before_month (at_year w) (at_month w) + at_day w"

definition minutes :: "wall \<Rightarrow> int" where
  "minutes w = (ordinal w * 24 + at_hour w) * 60 + at_minute w"

definition valid_wall :: "wall \<Rightarrow> bool" where
  "valid_wall w \<longleftrightarrow> 1 \<le> at_month w \<and> at_month w \<le> 12 \<and> 1 \<le> at_day w \<and> at_day w \<le> month_days (at_year w) (at_month w) \<and>
     0 \<le> at_hour w \<and> at_hour w < 24 \<and> 0 \<le> at_minute w \<and> at_minute w < 60"

definition next_month :: "wall \<Rightarrow> wall" where
  "next_month w =
     (if at_month w = 12 then \<lparr>at_year = at_year w + 1, at_month = 1, at_day = 1, at_hour = 0, at_minute = 0\<rparr>
      else \<lparr>at_year = at_year w, at_month = at_month w + 1, at_day = 1, at_hour = 0, at_minute = 0\<rparr>)"

definition next_day :: "wall \<Rightarrow> wall" where
  "next_day w =
     (if at_day w < month_days (at_year w) (at_month w) then w\<lparr>at_day := at_day w + 1, at_hour := 0, at_minute := 0\<rparr>
      else next_month w)"

definition next_hour :: "wall \<Rightarrow> wall" where
  "next_hour w = (if at_hour w < 23 then w\<lparr>at_hour := at_hour w + 1, at_minute := 0\<rparr> else next_day w)"

definition next_minute :: "wall \<Rightarrow> wall" where
  "next_minute w = (if at_minute w < 59 then w\<lparr>at_minute := at_minute w + 1\<rparr> else next_hour w)"

section \<open>Its order\<close>

lemma div_step: "0 < k \<Longrightarrow> (y :: int) div k - (y - 1) div k = (if y mod k = 0 then 1 else 0)"
proof -
  assume k: "0 < k"
  have y: "y = y div k * k + y mod k" by simp
  show ?thesis
  proof (cases "y mod k = 0")
    case True
    have "(y - 1) div k = y div k - 1"
      by (rule int_div_pos_eq [where r = "k - 1"]) (use y True k in \<open>simp_all add: algebra_simps\<close>)
    with True show ?thesis by simp
  next
    case False
    have m: "0 \<le> y mod k" "y mod k < k" using k by simp_all
    have "(y - 1) div k = y div k"
      by (rule int_div_pos_eq [where r = "y mod k - 1"]) (use y False m in \<open>simp_all add: algebra_simps\<close>)
    with False show ?thesis by simp
  qed
qed

lemma days_before_month_Suc: "1 \<le> m \<Longrightarrow> days_before_month y (m + 1) = days_before_month y m + month_days y m"
proof -
  assume "1 \<le> m"
  then have "[1 .. m + 1 - 1] = [1 .. m - 1] @ [m]" by (simp add: upto_rec2)
  then show ?thesis by (simp add: days_before_month_def)
qed

lemma days_before_month_1 [simp]: "days_before_month y 1 = 0"
  by (simp add: days_before_month_def)

lemma year_days: "days_before_month y 13 = 365 + (if leap y then 1 else 0)"
  by (simp add: days_before_month_def month_days_def upto_rec1 [of 1 12])

lemma days_before_year_Suc: "days_before_year (y + 1) = days_before_year y + days_before_month y 13"
proof -
  have mods: "y mod 100 = 0 \<Longrightarrow> y mod 4 = 0" "y mod 400 = 0 \<Longrightarrow> y mod 100 = 0"
    using dvd_trans [of 4 100 y] dvd_trans [of 100 400 y] by (simp_all add: mod_eq_0_iff_dvd)
  have "days_before_year (y + 1) - days_before_year y =
      365 + (y div 4 - (y - 1) div 4) - (y div 100 - (y - 1) div 100) + (y div 400 - (y - 1) div 400)"
    unfolding days_before_year_def Let_def add_diff_cancel_right' by algebra
  also have "\<dots> = 365 + (if leap y then 1 else 0)" using mods by (simp only: div_step zero_less_numeral leap_def split: if_split) auto
  finally show ?thesis by (simp add: year_days)
qed

lemma month_days_pos: "1 \<le> month_days y m"
  by (simp add: month_days_def)

lemma ordinal_next_month:
  assumes "valid_wall w"
  shows "ordinal (next_month w) = ordinal w + (month_days (at_year w) (at_month w) - at_day w) + 1"
proof (cases "at_month w = 12")
  case True
  have "days_before_month (at_year w) 13 = days_before_month (at_year w) 12 + month_days (at_year w) 12"
    using days_before_month_Suc [of 12] by simp
  with True show ?thesis by (simp add: ordinal_def next_month_def days_before_year_Suc)
next
  case False
  with assms show ?thesis by (simp add: ordinal_def next_month_def days_before_month_Suc valid_wall_def)
qed

lemma valid_next_month [simp]: "valid_wall w \<Longrightarrow> valid_wall (next_month w)"
  using month_days_pos by (auto simp: valid_wall_def next_month_def)

lemma ordinal_next_day: "valid_wall w \<Longrightarrow> ordinal (next_day w) = ordinal w + 1"
proof -
  assume v: "valid_wall w"
  show ?thesis
  proof (cases "at_day w < month_days (at_year w) (at_month w)")
    case True
    then show ?thesis by (simp add: next_day_def ordinal_def)
  next
    case False
    then show ?thesis using ordinal_next_month [OF v] v by (simp add: next_day_def valid_wall_def)
  qed
qed

lemma valid_next_day [simp]: "valid_wall w \<Longrightarrow> valid_wall (next_day w)"
proof (cases "at_day w < month_days (at_year w) (at_month w)")
  case True
  then show "valid_wall w \<Longrightarrow> valid_wall (next_day w)" by (simp add: next_day_def valid_wall_def)
qed (simp add: next_day_def)

lemma next_day_start [simp]: "at_hour (next_day w) = 0" "at_minute (next_day w) = 0"
  by (simp_all add: next_day_def next_month_def)

lemma next_month_start [simp]: "at_hour (next_month w) = 0" "at_minute (next_month w) = 0"
  by (simp_all add: next_month_def)

lemma valid_next_hour [simp]: "valid_wall w \<Longrightarrow> valid_wall (next_hour w)"
proof (cases "at_hour w < 23")
  case True
  then show "valid_wall w \<Longrightarrow> valid_wall (next_hour w)" by (simp add: next_hour_def valid_wall_def)
qed (simp add: next_hour_def)

lemma valid_next_minute [simp]: "valid_wall w \<Longrightarrow> valid_wall (next_minute w)"
proof (cases "at_minute w < 59")
  case True
  then show "valid_wall w \<Longrightarrow> valid_wall (next_minute w)" by (simp add: next_minute_def valid_wall_def)
qed (simp add: next_minute_def)

lemma minutes_next_hour: "valid_wall w \<Longrightarrow> minutes (next_hour w) = minutes w + (60 - at_minute w)"
proof (cases "at_hour w < 23")
  case True
  then show ?thesis by (simp add: next_hour_def minutes_def ordinal_def)
next
  case False
  moreover assume "valid_wall w"
  moreover then have "at_hour w = 23" using False by (simp add: valid_wall_def)
  ultimately show ?thesis by (simp add: next_hour_def minutes_def ordinal_next_day)
qed

lemma minutes_next_minute: "valid_wall w \<Longrightarrow> minutes (next_minute w) = minutes w + 1"
proof (cases "at_minute w < 59")
  case True
  then show ?thesis by (simp add: next_minute_def minutes_def ordinal_def)
next
  case False
  moreover assume "valid_wall w"
  moreover then have "at_minute w = 59" using False by (simp add: valid_wall_def)
  ultimately show ?thesis by (simp add: next_minute_def minutes_next_hour)
qed

lemma minutes_next_day:
  "valid_wall w \<Longrightarrow> minutes (next_day w) = minutes w + ((24 - at_hour w) * 60 - at_minute w)"
  by (simp add: minutes_def ordinal_next_day algebra_simps)

lemma minutes_next_month:
  "valid_wall w \<Longrightarrow> minutes (next_month w) =
     minutes w + ((month_days (at_year w) (at_month w) - at_day w) * 24 + 24 - at_hour w) * 60 - at_minute w"
  by (simp add: minutes_def ordinal_next_month algebra_simps)

lemma skips_forward:
  assumes "valid_wall w"
  shows "minutes w < minutes (next_month w)" "minutes w < minutes (next_day w)" "minutes w < minutes (next_hour w)"
    "minutes w < minutes (next_minute w)"
  using assms minutes_next_month [OF assms] minutes_next_day [OF assms] minutes_next_hour [OF assms]
    minutes_next_minute [OF assms]
  by (auto simp: valid_wall_def)

end
