(* ===== verification/Cron.thy ===== *)
theory Cron
  imports Py_Text Calendar Workflow_Models
begin

text \<open>
  Cron expressions (\<open>engines/workflow/cron.py\<close>): the parser of the five fields and the search for
  the next matching minute.  The search runs on wall-clock components, as the code's arithmetic on
  zone-aware datetimes does; a zone is two functions between instants and wall clocks.
\<close>

section \<open>Parsing\<close>

datatype cron_error =
    CronFieldCount nat
  | CronEmptyField string
  | CronEmptyPart string
  | CronStepSyntax string string
  | CronStepValue string string
  | CronRangeSyntax string string
  | CronRangeValue string string
  | CronRangeBounds string string
  | CronValue string string
  | CronBounds string int
  | CronUnknownZone string
  | CronNoMatch int

text \<open>\<open>range(start, end + 1, step)\<close>.\<close>

definition stepped :: "int \<Rightarrow> int \<Rightarrow> int \<Rightarrow> int list" where
  "stepped start end step = map (\<lambda>k. start + int k * step) [0 ..< nat ((end - start) div step + 1)]"

definition part_step :: "string \<Rightarrow> string \<Rightarrow> cron_error + (string \<times> int)" where
  "part_step name part =
     (if CHR ''/'' \<notin> set part then Inr (part, 1)
      else case split_on (CHR ''/'') part of
             [p, s] \<Rightarrow> (case py_int s of
                          None \<Rightarrow> Inl (CronStepValue name s)
                        | Some n \<Rightarrow> if n \<le> 0 then Inl (CronStepValue name s) else Inr (p, n))
           | _ \<Rightarrow> Inl (CronStepSyntax name part))"

definition part_range :: "string \<Rightarrow> int \<Rightarrow> int \<Rightarrow> string \<Rightarrow> cron_error + (int \<times> int)" where
  "part_range name lo hi part =
     (if part = ''*'' then Inr (lo, hi)
      else if CHR ''-'' \<in> set part then
        (case split_on (CHR ''-'') part of
           [a, b] \<Rightarrow>
             (case (py_int a, py_int b) of
                (Some s, Some e) \<Rightarrow>
                  if s > e \<or> s < lo \<or> e > hi then Inl (CronRangeBounds name part) else Inr (s, e)
              | _ \<Rightarrow> Inl (CronRangeValue name part))
         | _ \<Rightarrow> Inl (CronRangeSyntax name part))
      else (case py_int part of
              None \<Rightarrow> Inl (CronValue name part)
            | Some v \<Rightarrow>
                if v < lo \<or> v > hi then
                  (if name = ''day_of_week'' \<and> v = 7 then Inr (0, 0) else Inl (CronBounds name v))
                else Inr (v, v)))"

definition sunday :: "string \<Rightarrow> int \<Rightarrow> int" where
  "sunday name v = (if name = ''day_of_week'' \<and> v = 7 then 0 else v)"

definition parse_part :: "string \<Rightarrow> int \<Rightarrow> int \<Rightarrow> string \<Rightarrow> cron_error + int list" where
  "parse_part name lo hi raw =
     (let part = strip raw
      in if part = [] then Inl (CronEmptyPart name)
         else bind_res (part_step name part) (\<lambda>(p, step).
              bind_res (part_range name lo hi p) (\<lambda>(s, e).
              Inr (map (sunday name) (stepped s e step)))))"

definition parse_field :: "string \<Rightarrow> int \<Rightarrow> int \<Rightarrow> string \<Rightarrow> cron_error + int list" where
  "parse_field name lo hi field =
     (let f = strip field
      in if f = [] then Inl (CronEmptyField name)
         else fold_res (\<lambda>acc part. bind_res (parse_part name lo hi part) (\<lambda>vs. Inr (acc @ vs)))
                [] (split_on (CHR '','') f))"

record cron_spec =
  cs_minutes :: "int list"
  cs_hours :: "int list"
  cs_days_of_month :: "int list"
  cs_months :: "int list"
  cs_days_of_week :: "int list"
  cs_dom_restricted :: bool
  cs_dow_restricted :: bool

definition parse_cron :: "string \<Rightarrow> cron_error + cron_spec" where
  "parse_cron expr =
     (case split_words [] (strip expr) of
        [a, b, c, d, e] \<Rightarrow>
          bind_res (parse_field ''minute'' 0 59 a) (\<lambda>mi.
          bind_res (parse_field ''hour'' 0 23 b) (\<lambda>h.
          bind_res (parse_field ''day_of_month'' 1 31 c) (\<lambda>dom.
          bind_res (parse_field ''month'' 1 12 d) (\<lambda>mo.
          bind_res (parse_field ''day_of_week'' 0 6 e) (\<lambda>dow.
          Inr \<lparr>cs_minutes = mi, cs_hours = h, cs_days_of_month = dom, cs_months = mo, cs_days_of_week = dow,
               cs_dom_restricted = (c \<noteq> ''*''), cs_dow_restricted = (e \<noteq> ''*'')\<rparr>)))))
      | ws \<Rightarrow> Inl (CronFieldCount (length ws)))"

section \<open>The search\<close>

text \<open>Sunday is 0 in cron; the first day of the calendar is a Monday.\<close>

definition cron_weekday :: "wall \<Rightarrow> int" where
  "cron_weekday w = ((ordinal w + 6) mod 7 + 1) mod 7"

definition day_matches :: "cron_spec \<Rightarrow> wall \<Rightarrow> bool" where
  "day_matches spec w =
     (let dom = at_day w \<in> set (cs_days_of_month spec); dow = cron_weekday w \<in> set (cs_days_of_week spec)
      in if cs_dom_restricted spec \<and> cs_dow_restricted spec then dom \<or> dow
         else if cs_dom_restricted spec then dom
         else if cs_dow_restricted spec then dow
         else True)"

text \<open>
  The first match before the limit.  A datetime always has valid components; the test only makes
  the skips go forward for the termination proof.
\<close>

function cron_search :: "cron_spec \<Rightarrow> int \<Rightarrow> wall \<Rightarrow> wall option" where
  "cron_search spec limit w =
     (if limit \<le> minutes w \<or> \<not> valid_wall w then None
      else if at_month w \<notin> set (cs_months spec) then cron_search spec limit (next_month w)
      else if \<not> day_matches spec w then cron_search spec limit (next_day w)
      else if at_hour w \<notin> set (cs_hours spec) then cron_search spec limit (next_hour w)
      else if at_minute w \<notin> set (cs_minutes spec) then cron_search spec limit (next_minute w)
      else Some w)"
  by pat_completeness auto
termination
  by (relation "measure (\<lambda>(spec, limit, w). nat (limit - minutes w))") (auto simp: skips_forward)

declare cron_search.simps [simp del]

text \<open>
  A zone: the wall clock of an instant and whether seconds are left over, and the instant of a wall
  clock (its first occurrence where it is ambiguous).
\<close>

record zone_ops =
  zo_local :: "string \<Rightarrow> instant \<Rightarrow> (wall \<times> bool) option"
  zo_instant :: "string \<Rightarrow> wall \<Rightarrow> instant"

definition search_limit :: "wall \<Rightarrow> bool \<Rightarrow> int \<Rightarrow> int" where
  "search_limit base seconds days = minutes base + days * 1440 + (if seconds then 1 else 0)"

definition compute_next_cron_run ::
  "zone_ops \<Rightarrow> string \<Rightarrow> instant \<Rightarrow> int \<Rightarrow> string \<Rightarrow> cron_error + instant" where
  "compute_next_cron_run zones expr after days zone =
     bind_res (parse_cron expr) (\<lambda>spec.
       case zo_local zones zone after of
         None \<Rightarrow> Inl (CronUnknownZone zone)
       | Some (base, seconds) \<Rightarrow>
           (case cron_search spec (search_limit base seconds days) (next_minute base) of
              None \<Rightarrow> Inl (CronNoMatch days)
            | Some w \<Rightarrow> Inr (zo_instant zones zone w)))"

end
