(* ===== verification/Schedule_Store.thy ===== *)
theory Schedule_Store
  imports Outbox Approval_Store
begin

text \<open>
  The durable store of workflow schedules (\<open>SchedulerStore\<close> in \<open>engines/workflow/persistence.py\<close>):
  creation, status changes, the claim of due schedules by compare-and-swap and the record of a tick.
  Each transaction is one function; a claim is three kinds of transactions, which other callers
  can interleave with.
\<close>

section \<open>Rows\<close>

datatype schedule_type = Sch_CRON | Sch_INTERVAL | Sch_ONCE
datatype schedule_status = Sch_ACTIVE | Sch_PAUSED | Sch_DISABLED | Sch_COMPLETED | Sch_TRIGGERING

record schedule =
  sc_id :: string
  sc_tenant_id :: string
  sc_name :: string
  sc_definition_id :: string
  sc_type :: schedule_type
  sc_cron :: "string option"
  sc_interval :: "int option"
  sc_run_at :: "instant option"
  sc_next_run_at :: "instant option"
  sc_last_run_at :: "instant option"
  sc_last_instance_id :: "string option"
  sc_status :: schedule_status
  sc_context :: "(string, pyval) dict"
  sc_max_runs :: "int option"
  sc_run_count :: int
  sc_timezone :: string
  sc_created_by :: string
  sc_created_at :: instant
  sc_updated_at :: instant

record schedule_db =
  sd_rows :: "schedule list"
  sd_outbox :: "outbox_row list"

fun schedule_type_value :: "schedule_type \<Rightarrow> string" where
  "schedule_type_value Sch_CRON = ''CRON''"
| "schedule_type_value Sch_INTERVAL = ''INTERVAL''"
| "schedule_type_value Sch_ONCE = ''ONCE''"

fun schedule_status_value :: "schedule_status \<Rightarrow> string" where
  "schedule_status_value Sch_ACTIVE = ''ACTIVE''"
| "schedule_status_value Sch_PAUSED = ''PAUSED''"
| "schedule_status_value Sch_DISABLED = ''DISABLED''"
| "schedule_status_value Sch_COMPLETED = ''COMPLETED''"
| "schedule_status_value Sch_TRIGGERING = ''TRIGGERING''"

definition SCHEDULE_CLAIM_LEASE_SECONDS :: int where "SCHEDULE_CLAIM_LEASE_SECONDS = 120"

text \<open>A new row gets its time stamps on insertion.\<close>

definition schedule_to_model :: "instant \<Rightarrow> schedule \<Rightarrow> string \<Rightarrow> schedule" where
  "schedule_to_model now sch tenant =
     sch\<lparr>sc_tenant_id := py_or (sc_tenant_id sch) tenant, sc_context := sanitize_dict (sc_context sch),
         sc_created_at := now, sc_updated_at := now\<rparr>"

definition stage_schedule_event ::
  "bool \<Rightarrow> string \<Rightarrow> instant \<Rightarrow> string \<Rightarrow> string \<Rightarrow> (string, pyval) dict \<Rightarrow> schedule_db \<Rightarrow> schedule_db" where
  "stage_schedule_event staged event_id now tid topic payload db =
     (if staged then db\<lparr>sd_outbox := stage_event_in_session event_id now tid topic payload (sd_outbox db)\<rparr> else db)"

section \<open>Operations\<close>

text \<open>\<^const>\<open>None\<close> is the conflict with the unique name, or with the primary key of another tenant.\<close>

definition name_taken :: "string \<Rightarrow> string \<Rightarrow> string \<Rightarrow> schedule_db \<Rightarrow> bool" where
  "name_taken tid name sid db \<longleftrightarrow>
     (\<exists>r \<in> set (sd_rows db). sc_tenant_id r = tid \<and> sc_name r = name \<and> sc_id r \<noteq> sid)"

definition save_schedule ::
  "instant \<Rightarrow> string \<Rightarrow> bool \<Rightarrow> schedule \<Rightarrow> string \<Rightarrow> schedule_db \<Rightarrow> schedule_db option" where
  "save_schedule now event_id staged sch tenant db =
     (let tid = py_or (sc_tenant_id sch) tenant; m = schedule_to_model now sch tid
      in if name_taken tid (sc_name sch) (sc_id sch) db then None
         else if \<exists>r \<in> set (sd_rows db). sc_id r = sc_id sch \<and> sc_tenant_id r = tid then
           Some (db\<lparr>sd_rows := map (\<lambda>r. if sc_id r = sc_id sch \<and> sc_tenant_id r = tid
              then m\<lparr>sc_created_by := sc_created_by r, sc_created_at := sc_created_at r\<rparr> else r) (sd_rows db)\<rparr>)
         else if \<exists>r \<in> set (sd_rows db). sc_id r = sc_id sch then None
         else Some (stage_schedule_event staged event_id now tid ''workflow.schedule.created''
                [(''schedule_id'', PStr (sc_id sch)), (''name'', PStr (sc_name sch)),
                 (''definition_id'', PStr (sc_definition_id sch)), (''tenant_id'', PStr tid)]
                (db\<lparr>sd_rows := sd_rows db @ [m]\<rparr>)))"

definition get_schedule :: "string \<Rightarrow> string option \<Rightarrow> schedule_db \<Rightarrow> schedule option" where
  "get_schedule sid tenant db = find (\<lambda>r. sc_id r = sid \<and> tenant_is tenant (sc_tenant_id r)) (sd_rows db)"

definition get_schedule_by_name :: "string \<Rightarrow> string \<Rightarrow> schedule_db \<Rightarrow> schedule option" where
  "get_schedule_by_name name tenant db = find (\<lambda>r. sc_name r = name \<and> sc_tenant_id r = tenant) (sd_rows db)"

definition list_schedules :: "string \<Rightarrow> string option \<Rightarrow> schedule_db \<Rightarrow> schedule list" where
  "list_schedules tenant status db =
     sort_key (\<lambda>r. - sc_created_at r)
       (filter (\<lambda>r. sc_tenant_id r = tenant \<and>
          (case status of None \<Rightarrow> True | Some v \<Rightarrow> v = [] \<or> schedule_status_value (sc_status r) = v)) (sd_rows db))"

text \<open>Claims abandoned for longer than the lease go back to ACTIVE.\<close>

definition reclaim_abandoned :: "instant \<Rightarrow> instant \<Rightarrow> string option \<Rightarrow> schedule_db \<Rightarrow> schedule_db" where
  "reclaim_abandoned now dt tenant db =
     db\<lparr>sd_rows := map (\<lambda>r.
        if sc_status r = Sch_TRIGGERING \<and> sc_updated_at r < dt - SCHEDULE_CLAIM_LEASE_SECONDS \<and>
           tenant_is tenant (sc_tenant_id r)
        then r\<lparr>sc_status := Sch_ACTIVE, sc_updated_at := now\<rparr> else r) (sd_rows db)\<rparr>"

definition due_at :: "instant \<Rightarrow> schedule \<Rightarrow> bool" where
  "due_at dt r \<longleftrightarrow> sc_status r = Sch_ACTIVE \<and> (case sc_next_run_at r of None \<Rightarrow> False | Some t \<Rightarrow> t \<le> dt)"

definition select_due :: "instant \<Rightarrow> string option \<Rightarrow> nat \<Rightarrow> schedule_db \<Rightarrow> string list" where
  "select_due dt tenant limit db =
     map sc_id (take limit (sort_key (\<lambda>r. the (sc_next_run_at r))
       (filter (\<lambda>r. due_at dt r \<and> tenant_is tenant (sc_tenant_id r)) (sd_rows db))))"

text \<open>The compare-and-swap: only the caller that finds the row ACTIVE and due gets it.\<close>

definition claim_one :: "instant \<Rightarrow> instant \<Rightarrow> string \<Rightarrow> schedule_db \<Rightarrow> schedule option \<times> schedule_db" where
  "claim_one now dt sid db =
     (let won = (\<lambda>r. sc_id r = sid \<and> due_at dt r);
          rows = map (\<lambda>r. if won r then r\<lparr>sc_status := Sch_TRIGGERING, sc_updated_at := now\<rparr> else r) (sd_rows db)
      in if length (filter won (sd_rows db)) \<noteq> 1 then (None, db)
         else (find (\<lambda>r. sc_id r = sid) rows, db\<lparr>sd_rows := rows\<rparr>))"

fun claim_each :: "instant \<Rightarrow> instant \<Rightarrow> string list \<Rightarrow> schedule_db \<Rightarrow> schedule list \<times> schedule_db" where
  "claim_each now dt [] db = ([], db)"
| "claim_each now dt (sid # sids) db =
     (case claim_one now dt sid db of
        (r, db') \<Rightarrow> (case claim_each now dt sids db' of
                     (rs, db'') \<Rightarrow> ((case r of None \<Rightarrow> rs | Some c \<Rightarrow> c # rs), db'')))"

definition claim_due_schedules ::
  "instant \<Rightarrow> instant \<Rightarrow> string option \<Rightarrow> nat \<Rightarrow> schedule_db \<Rightarrow> schedule list \<times> schedule_db" where
  "claim_due_schedules now dt tenant limit db =
     (let db' = reclaim_abandoned now dt tenant db in claim_each now dt (select_due dt tenant limit db') db')"

definition rewrite_schedule ::
  "string \<Rightarrow> string \<Rightarrow> (schedule \<Rightarrow> schedule) \<Rightarrow> schedule_db \<Rightarrow> (schedule \<times> schedule_db) option" where
  "rewrite_schedule sid tenant f db =
     (case get_schedule sid (Some tenant) db of
        None \<Rightarrow> None
      | Some r \<Rightarrow> Some (f r, db\<lparr>sd_rows := map (\<lambda>q. if sc_id q = sid \<and> sc_tenant_id q = tenant then f q else q) (sd_rows db)\<rparr>))"

definition record_schedule_tick ::
  "instant \<Rightarrow> string \<Rightarrow> bool \<Rightarrow> string \<Rightarrow> instant \<Rightarrow> instant option \<Rightarrow> string option \<Rightarrow> int \<Rightarrow> schedule_status \<Rightarrow>
   string \<Rightarrow> schedule_db \<Rightarrow> schedule option \<times> schedule_db" where
  "record_schedule_tick now event_id staged sid last_run next_run inst count status tenant db =
     (case rewrite_schedule sid tenant
             (\<lambda>r. r\<lparr>sc_last_run_at := Some last_run, sc_next_run_at := next_run, sc_last_instance_id := inst,
                    sc_run_count := count, sc_status := status, sc_updated_at := now\<rparr>) db of
        None \<Rightarrow> (None, db)
      | Some (r, db') \<Rightarrow>
          (Some r, stage_schedule_event staged event_id now tenant ''workflow.schedule.triggered''
             [(''schedule_id'', PStr sid), (''name'', PStr (sc_name r)), (''definition_id'', PStr (sc_definition_id r)),
              (''instance_id'', opt_str inst), (''run_count'', PInt count), (''tenant_id'', PStr tenant)] db'))"

definition status_topic :: "schedule_status \<Rightarrow> string" where
  "status_topic status = ''workflow.schedule.'' @
     (case status of Sch_ACTIVE \<Rightarrow> ''active'' | Sch_PAUSED \<Rightarrow> ''paused'' | Sch_DISABLED \<Rightarrow> ''disabled''
      | Sch_COMPLETED \<Rightarrow> ''completed'' | Sch_TRIGGERING \<Rightarrow> ''triggering'')"

definition update_schedule_status ::
  "instant \<Rightarrow> string \<Rightarrow> bool \<Rightarrow> string \<Rightarrow> schedule_status \<Rightarrow> string \<Rightarrow> schedule_db \<Rightarrow> schedule option \<times> schedule_db" where
  "update_schedule_status now event_id staged sid status tenant db =
     (case rewrite_schedule sid tenant (\<lambda>r. r\<lparr>sc_status := status, sc_updated_at := now\<rparr>) db of
        None \<Rightarrow> (None, db)
      | Some (r, db') \<Rightarrow>
          (Some r, stage_schedule_event staged event_id now tenant (status_topic status)
             [(''schedule_id'', PStr sid), (''name'', PStr (sc_name r)),
              (''status'', PStr (schedule_status_value status)), (''tenant_id'', PStr tenant)] db'))"

end
