(* ===== verification/Scheduler.thy ===== *)
theory Scheduler
  imports Effects Cron Schedule_Store Approval_Managers
begin

text \<open>
  The durable scheduler (\<open>DurableWorkflowScheduler\<close> in \<open>engines/workflow/scheduler.py\<close>): the
  management calls, the tick that starts what is due, and the recovery after a restart.  The
  workflow engine it starts instances with is a parameter here; \<open>Schedule_Handlers\<close> puts the
  modelled engine in its place.
\<close>

section \<open>State\<close>

text \<open>
  \<open>sf_start\<close> is \<open>start_workflow\<close> of the attached engine on its own world: definition, context and
  tenant give the identifier of the new instance, or an error.
\<close>

datatype schedule_error =
    ScheduleNotFound string string
  | ScheduleConflict string string
  | ScheduleNoEngine
  | ScheduleCron cron_error
  | ScheduleInvalid string
  | ScheduleStart string

type_synonym 'w starter = "string \<Rightarrow> (string, pyval) dict \<Rightarrow> string \<Rightarrow> 'w \<Rightarrow> (string + string) \<times> 'w"

record 'w scheduler_config =
  sf_outbox :: bool
  sf_audit :: bool
  sf_start :: "'w starter option"
  sf_zones :: zone_ops
  sf_isoformat :: "instant \<Rightarrow> string"
  sf_clock :: "nat \<Rightarrow> instant"
  sf_uuid :: "nat \<Rightarrow> string"

record 'w scheduler_state =
  ss_db :: schedule_db
  ss_audit :: "audit_entry list"
  ss_world :: 'w
  ss_supply :: nat

type_synonym ('w, 'a) schedule_op = "('w scheduler_state, schedule_error, 'a) eff"

definition tick_supply :: "('w, nat) schedule_op" where
  "tick_supply s = (Inr (ss_supply s), s\<lparr>ss_supply := Suc (ss_supply s)\<rparr>)"

definition record_schedule_audit ::
  "'w scheduler_config \<Rightarrow> string \<Rightarrow> string \<Rightarrow> string \<Rightarrow> string \<Rightarrow> (string, pyval) dict \<Rightarrow> ('w, unit) schedule_op" where
  "record_schedule_audit cfg action actor tenant resource extra =
     when_eff (sf_audit cfg \<and> action \<noteq> [] \<and> actor \<noteq> [] \<and> tenant \<noteq> [])
       (modify (\<lambda>s. s\<lparr>ss_audit := ss_audit s @
          [\<lparr>au_action = action, au_actor_id = actor,
            au_actor_type = (if actor \<in> {''SYSTEM'', ''SCHEDULER''} then ''SYSTEM_ENGINE'' else ''HUMAN''),
            au_tenant_id = tenant, au_resource_id = Some resource, au_context = sanitize_dict extra\<rparr>]\<rparr>))"

definition iso_or_none :: "'w scheduler_config \<Rightarrow> instant option \<Rightarrow> pyval" where
  "iso_or_none cfg t = opt_str (map_option (sf_isoformat cfg) t)"

section \<open>The next run\<close>

text \<open>A string or a number is truthy when it is not empty or not zero.\<close>

definition compute_next_run ::
  "zone_ops \<Rightarrow> schedule_type \<Rightarrow> string option \<Rightarrow> int option \<Rightarrow> instant option \<Rightarrow> instant \<Rightarrow> string \<Rightarrow>
   schedule_error + instant option" where
  "compute_next_run zones typ cron interval run_at after zone =
     (case typ of
        Sch_CRON \<Rightarrow>
          (case cron of
             None \<Rightarrow> Inl (ScheduleInvalid ''cron_expression'')
           | Some e \<Rightarrow>
               if e = [] then Inl (ScheduleInvalid ''cron_expression'')
               else (case compute_next_cron_run zones e after 366 zone of
                       Inl err \<Rightarrow> Inl (ScheduleCron err)
                     | Inr t \<Rightarrow> Inr (Some t)))
      | Sch_INTERVAL \<Rightarrow>
          (case interval of
             None \<Rightarrow> Inl (ScheduleInvalid ''interval_seconds'')
           | Some n \<Rightarrow> if n \<le> 0 then Inl (ScheduleInvalid ''interval_seconds'') else Inr (Some (after + n)))
      | Sch_ONCE \<Rightarrow> Inr (Some (case run_at of Some t \<Rightarrow> t | None \<Rightarrow> after)))"

definition next_run_of :: "'w scheduler_config \<Rightarrow> schedule \<Rightarrow> instant \<Rightarrow> schedule_error + instant option" where
  "next_run_of cfg sch after =
     compute_next_run (sf_zones cfg) (sc_type sch) (sc_cron sch) (sc_interval sch) (sc_run_at sch) after (sc_timezone sch)"

section \<open>Management\<close>

text \<open>The bounds of the model's fields: an interval and a maximum of runs are at least 1.\<close>

definition schedule_fields_ok :: "int option \<Rightarrow> int option \<Rightarrow> bool" where
  "schedule_fields_ok interval max_runs \<longleftrightarrow>
     (case interval of None \<Rightarrow> True | Some n \<Rightarrow> 1 \<le> n) \<and> (case max_runs of None \<Rightarrow> True | Some n \<Rightarrow> 1 \<le> n)"

definition call_tenant :: "security_principal option \<Rightarrow> string \<Rightarrow> string" where
  "call_tenant who tenant = (case who of Some p \<Rightarrow> sp_tenant_id p | None \<Rightarrow> tenant)"

definition call_actor :: "security_principal option \<Rightarrow> string" where
  "call_actor who = (case who of Some p \<Rightarrow> sp_principal_id p | None \<Rightarrow> ''SYSTEM'')"

definition store_schedule :: "'w scheduler_config \<Rightarrow> schedule \<Rightarrow> string \<Rightarrow> ('w, unit) schedule_op" where
  "store_schedule cfg sch tid =
     bind_eff tick_supply (\<lambda>n s.
       case save_schedule (sf_clock cfg n) (sf_uuid cfg n) (sf_outbox cfg) sch tid (ss_db s) of
         None \<Rightarrow> (Inl (ScheduleConflict (sc_name sch) tid), s)
       | Some db \<Rightarrow> (Inr (), s\<lparr>ss_db := db\<rparr>))"

record schedule_request =
  rq_name :: string
  rq_definition :: string
  rq_type :: schedule_type
  rq_cron :: "string option"
  rq_interval :: "int option"
  rq_run_at :: "instant option"
  rq_context :: "(string, pyval) dict"
  rq_max_runs :: "int option"
  rq_timezone :: string

definition requested_schedule ::
  "string \<Rightarrow> instant \<Rightarrow> instant option \<Rightarrow> string \<Rightarrow> string \<Rightarrow> schedule_request \<Rightarrow> schedule" where
  "requested_schedule sid now next tid creator rq =
     \<lparr>sc_id = sid, sc_tenant_id = tid, sc_name = rq_name rq, sc_definition_id = rq_definition rq,
      sc_type = rq_type rq, sc_cron = rq_cron rq, sc_interval = rq_interval rq, sc_run_at = rq_run_at rq,
      sc_next_run_at = next, sc_last_run_at = None, sc_last_instance_id = None, sc_status = Sch_ACTIVE,
      sc_context = sanitize_dict (rq_context rq), sc_max_runs = rq_max_runs rq, sc_run_count = 0,
      sc_timezone = rq_timezone rq, sc_created_by = creator, sc_created_at = now, sc_updated_at = now\<rparr>"

definition create_schedule ::
  "'w scheduler_config \<Rightarrow> schedule_request \<Rightarrow> string \<Rightarrow> security_principal option \<Rightarrow> ('w, schedule) schedule_op" where
  "create_schedule cfg rq tenant who =
     (let tid = call_tenant who tenant; creator = call_actor who
      in bind_eff tick_supply (\<lambda>n.
         bind_eff (lift_res (compute_next_run (sf_zones cfg) (rq_type rq) (rq_cron rq) (rq_interval rq) (rq_run_at rq)
                               (sf_clock cfg n) (rq_timezone rq))) (\<lambda>next.
         let sch = requested_schedule (sf_uuid cfg n) (sf_clock cfg n) next tid creator rq
         in if \<not> schedule_fields_ok (rq_interval rq) (rq_max_runs rq) then raise_error (ScheduleInvalid ''fields'')
            else seq_eff (store_schedule cfg sch tid)
                (seq_eff (record_schedule_audit cfg ''kortex.workflow.schedule.create'' creator tid (sc_id sch)
                   [(''name'', PStr (rq_name rq)), (''definition_id'', PStr (rq_definition rq)),
                    (''schedule_type'', PStr (schedule_type_value (rq_type rq))), (''cron_expression'', opt_str (rq_cron rq)),
                    (''interval_seconds'', opt_int (rq_interval rq)), (''next_run_at'', iso_or_none cfg next)])
                 (ret sch)))))"

definition find_schedule :: "string \<Rightarrow> string \<Rightarrow> ('w, schedule) schedule_op" where
  "find_schedule sid tid s =
     (case get_schedule sid (Some tid) (ss_db s) of
        None \<Rightarrow> (Inl (ScheduleNotFound sid tid), s)
      | Some sch \<Rightarrow> (Inr sch, s))"

definition set_schedule_status ::
  "'w scheduler_config \<Rightarrow> schedule_status \<Rightarrow> string \<Rightarrow> string \<Rightarrow> ('w, schedule) schedule_op" where
  "set_schedule_status cfg status sid tid =
     bind_eff tick_supply (\<lambda>n s.
       case update_schedule_status (sf_clock cfg n) (sf_uuid cfg n) (sf_outbox cfg) sid status tid (ss_db s) of
         (None, db) \<Rightarrow> (Inl (ScheduleNotFound sid tid), s)
       | (Some sch, db) \<Rightarrow> (Inr sch, s\<lparr>ss_db := db\<rparr>))"

definition stop_schedule ::
  "'w scheduler_config \<Rightarrow> schedule_status \<Rightarrow> string \<Rightarrow> string \<Rightarrow> string \<Rightarrow> security_principal option \<Rightarrow>
   ('w, schedule) schedule_op" where
  "stop_schedule cfg status action sid tenant who =
     (let tid = call_tenant who tenant
      in bind_eff (find_schedule sid tid) (\<lambda>sch.
         bind_eff (set_schedule_status cfg status sid tid) (\<lambda>updated.
         seq_eff (record_schedule_audit cfg action (call_actor who) tid sid [(''name'', PStr (sc_name sch))])
           (ret updated))))"

definition pause_schedule where
  "pause_schedule cfg = stop_schedule cfg Sch_PAUSED ''kortex.workflow.schedule.pause''"

definition cancel_schedule where
  "cancel_schedule cfg = stop_schedule cfg Sch_DISABLED ''kortex.workflow.schedule.cancel''"

definition resume_schedule ::
  "'w scheduler_config \<Rightarrow> string \<Rightarrow> string \<Rightarrow> security_principal option \<Rightarrow> ('w, schedule) schedule_op" where
  "resume_schedule cfg sid tenant who =
     (let tid = call_tenant who tenant
      in bind_eff (find_schedule sid tid) (\<lambda>sch.
         bind_eff tick_supply (\<lambda>n.
         bind_eff (lift_res (next_run_of cfg sch (sf_clock cfg n))) (\<lambda>next.
         let sch' = sch\<lparr>sc_status := Sch_ACTIVE, sc_next_run_at := next\<rparr>
         in seq_eff (store_schedule cfg sch' tid)
           (seq_eff (record_schedule_audit cfg ''kortex.workflow.schedule.resume'' (call_actor who) tid sid
              [(''name'', PStr (sc_name sch)), (''next_run_at'', iso_or_none cfg next)])
            (ret sch'))))))"

section \<open>Runs\<close>

definition start_instance ::
  "'w starter \<Rightarrow> string \<Rightarrow> (string, pyval) dict \<Rightarrow> string \<Rightarrow> ('w, string) schedule_op" where
  "start_instance start did vars tid s =
     (case start did vars tid (ss_world s) of
        (Inl e, w) \<Rightarrow> (Inl (ScheduleStart e), s\<lparr>ss_world := w\<rparr>)
      | (Inr iid, w) \<Rightarrow> (Inr iid, s\<lparr>ss_world := w\<rparr>))"

definition runs_exhausted :: "schedule \<Rightarrow> int \<Rightarrow> bool" where
  "runs_exhausted sch count = (case sc_max_runs sch of None \<Rightarrow> False | Some n \<Rightarrow> n \<noteq> 0 \<and> n \<le> count)"

definition write_tick ::
  "'w scheduler_config \<Rightarrow> schedule \<Rightarrow> instant \<Rightarrow> instant option \<Rightarrow> string option \<Rightarrow> int \<Rightarrow> schedule_status \<Rightarrow> string \<Rightarrow>
   ('w, schedule option) schedule_op" where
  "write_tick cfg sch now next inst count status tid =
     bind_eff tick_supply (\<lambda>n s.
       case record_schedule_tick (sf_clock cfg n) (sf_uuid cfg n) (sf_outbox cfg) (sc_id sch) now next inst count status
              tid (ss_db s) of
         (updated, db) \<Rightarrow> (Inr updated, s\<lparr>ss_db := db\<rparr>))"

definition trigger_schedule ::
  "'w scheduler_config \<Rightarrow> string \<Rightarrow> string \<Rightarrow> security_principal option \<Rightarrow> ('w, string) schedule_op" where
  "trigger_schedule cfg sid tenant who =
     (let tid = call_tenant who tenant; actor = call_actor who
      in bind_eff (find_schedule sid tid) (\<lambda>sch.
         case sf_start cfg of
           None \<Rightarrow> raise_error ScheduleNoEngine
         | Some start \<Rightarrow>
             bind_eff tick_supply (\<lambda>n.
             bind_eff (start_instance start (sc_definition_id sch)
               (dict_set ''_triggered_by'' (PStr actor) (dict_set ''_schedule_name'' (PStr (sc_name sch))
                 (dict_set ''_schedule_id'' (PStr (sc_id sch)) (sc_context sch)))) tid) (\<lambda>iid.
             let count = sc_run_count sch + 1;
                 status = (if runs_exhausted sch count then Sch_COMPLETED else sc_status sch)
             in bind_eff (lift_res (if status = Sch_COMPLETED then Inr None else next_run_of cfg sch (sf_clock cfg n))) (\<lambda>next.
                bind_eff (write_tick cfg sch (sf_clock cfg n) next (Some iid) count status tid) (\<lambda>_.
                seq_eff (record_schedule_audit cfg ''kortex.workflow.schedule.manual_trigger'' actor tid sid
                   [(''name'', PStr (sc_name sch)), (''instance_id'', PStr iid)])
                  (ret iid)))))))"

definition tick_context :: "'w scheduler_config \<Rightarrow> schedule \<Rightarrow> instant \<Rightarrow> (string, pyval) dict" where
  "tick_context cfg sch now =
     dict_set ''_schedule_tick_at'' (PStr (sf_isoformat cfg now)) (dict_set ''_schedule_name'' (PStr (sc_name sch))
       (dict_set ''_schedule_id'' (PStr (sc_id sch)) (sc_context sch)))"

text \<open>The status and the next run that the tick of a claimed schedule leads to.\<close>

definition tick_outcome ::
  "'w scheduler_config \<Rightarrow> schedule \<Rightarrow> instant \<Rightarrow> schedule_error + (schedule_status \<times> instant option)" where
  "tick_outcome cfg sch now =
     (if runs_exhausted sch (sc_run_count sch + 1) \<or> sc_type sch = Sch_ONCE then Inr (Sch_COMPLETED, None)
      else bind_res (next_run_of cfg sch now) (\<lambda>next. Inr (Sch_ACTIVE, next)))"

definition start_claimed :: "'w scheduler_config \<Rightarrow> schedule \<Rightarrow> instant \<Rightarrow> ('w, string option) schedule_op" where
  "start_claimed cfg sch now =
     (case sf_start cfg of
        None \<Rightarrow> ret None
      | Some start \<Rightarrow>
          bind_eff (start_instance start (sc_definition_id sch) (tick_context cfg sch now) (sc_tenant_id sch))
            (\<lambda>iid. ret (Some iid)))"

definition finish_claimed ::
  "'w scheduler_config \<Rightarrow> schedule \<Rightarrow> instant \<Rightarrow> string option \<Rightarrow> ('w, schedule option) schedule_op" where
  "finish_claimed cfg sch now iid =
     bind_eff (lift_res (tick_outcome cfg sch now)) (\<lambda>(status, next).
     bind_eff (write_tick cfg sch now next iid (sc_run_count sch + 1) status (sc_tenant_id sch)) (\<lambda>updated.
     seq_eff (record_schedule_audit cfg ''kortex.workflow.schedule.tick'' ''SCHEDULER'' (sc_tenant_id sch) (sc_id sch)
        [(''name'', PStr (sc_name sch)), (''instance_id'', opt_str iid), (''run_count'', PInt (sc_run_count sch + 1)),
         (''next_run_at'', iso_or_none cfg next)])
       (ret updated)))"

text \<open>Whatever the body raises is logged, and the schedule stays claimed.\<close>

definition execute_claimed :: "'w scheduler_config \<Rightarrow> schedule \<Rightarrow> instant \<Rightarrow> ('w, schedule option) schedule_op" where
  "execute_claimed cfg sch now =
     attempt_eff (bind_eff (start_claimed cfg sch now) (finish_claimed cfg sch now))"

fun gather :: "('a \<Rightarrow> ('s, 'e, 'b option) eff) \<Rightarrow> 'a list \<Rightarrow> ('s, 'e, 'b list) eff" where
  "gather f [] = ret []"
| "gather f (x # xs) = bind_eff (f x) (\<lambda>y. bind_eff (gather f xs) (\<lambda>ys.
     ret (case y of None \<Rightarrow> ys | Some z \<Rightarrow> z # ys)))"

definition claim_due :: "'w scheduler_config \<Rightarrow> instant \<Rightarrow> string option \<Rightarrow> nat \<Rightarrow> ('w, schedule list) schedule_op" where
  "claim_due cfg now tenant limit =
     bind_eff tick_supply (\<lambda>n s.
       case claim_due_schedules (sf_clock cfg n) now tenant limit (ss_db s) of
         (claimed, db) \<Rightarrow> (Inr claimed, s\<lparr>ss_db := db\<rparr>))"

definition tick :: "'w scheduler_config \<Rightarrow> instant option \<Rightarrow> string option \<Rightarrow> nat \<Rightarrow> ('w, schedule list) schedule_op" where
  "tick cfg now_dt tenant limit =
     bind_eff tick_supply (\<lambda>n.
     let now = (case now_dt of Some t \<Rightarrow> t | None \<Rightarrow> sf_clock cfg n)
     in bind_eff (claim_due cfg now tenant limit) (gather (\<lambda>sch. execute_claimed cfg sch now)))"

section \<open>Recovery\<close>

text \<open>The missed occurrences of a cron schedule are counted up to a bound of 10000.\<close>

fun count_cron :: "nat \<Rightarrow> zone_ops \<Rightarrow> string \<Rightarrow> string \<Rightarrow> instant \<Rightarrow> instant \<Rightarrow> nat" where
  "count_cron 0 zones expr zone now cursor = 0"
| "count_cron (Suc n) zones expr zone now cursor =
     (if cursor \<le> now then
        (case compute_next_cron_run zones expr cursor 366 zone of
           Inl _ \<Rightarrow> 1
         | Inr t \<Rightarrow> Suc (count_cron n zones expr zone now t))
      else 0)"

definition estimate_missed :: "'w scheduler_config \<Rightarrow> schedule \<Rightarrow> instant \<Rightarrow> int" where
  "estimate_missed cfg sch now =
     (case sc_next_run_at sch of
        None \<Rightarrow> 1
      | Some due \<Rightarrow>
          (case sc_type sch of
             Sch_INTERVAL \<Rightarrow>
               (case sc_interval sch of
                  None \<Rightarrow> 1
                | Some n \<Rightarrow> if n = 0 then 1 else max 1 ((now - due) div n + 1))
           | Sch_ONCE \<Rightarrow> 1
           | Sch_CRON \<Rightarrow>
               (case sc_cron sch of
                  None \<Rightarrow> 1
                | Some e \<Rightarrow> if e = [] then 1 else max 1 (int (count_cron 10000 (sf_zones cfg) e (sc_timezone sch) now due)))))"

definition recover_claimed :: "'w scheduler_config \<Rightarrow> instant \<Rightarrow> schedule \<Rightarrow> ('w, schedule option) schedule_op" where
  "recover_claimed cfg now sch =
     seq_eff (record_schedule_audit cfg ''kortex.workflow.schedule.recovery_catchup'' ''SCHEDULER''
        (sc_tenant_id sch) (sc_id sch)
        [(''name'', PStr (sc_name sch)), (''missed_occurrences'', PInt (estimate_missed cfg sch now)),
         (''originally_due_at'', iso_or_none cfg (sc_next_run_at sch)), (''recovered_at'', PStr (sf_isoformat cfg now))])
       (execute_claimed cfg sch now)"

definition hydrate_and_recover_schedules ::
  "'w scheduler_config \<Rightarrow> string option \<Rightarrow> ('w, schedule list) schedule_op" where
  "hydrate_and_recover_schedules cfg tenant =
     bind_eff tick_supply (\<lambda>n.
     bind_eff (claim_due cfg (sf_clock cfg n) tenant 200) (gather (recover_claimed cfg (sf_clock cfg n))))"

section \<open>The provider's calls\<close>

datatype schedule_spec = Spec_int int | Spec_text string | Spec_time instant | Spec_other

definition all_digits :: "string \<Rightarrow> bool" where
  "all_digits s \<longleftrightarrow> s \<noteq> [] \<and> list_all (\<lambda>c. digit_value c \<noteq> None) s"

text \<open>The fields that a specification selects: its type, its cron expression, its interval, its instant.\<close>

definition read_spec ::
  "schedule_spec \<Rightarrow> schedule_error + (schedule_type \<times> string option \<times> int option \<times> instant option)" where
  "read_spec spec =
     (case spec of
        Spec_int n \<Rightarrow> Inr (Sch_INTERVAL, None, Some n, None)
      | Spec_text e \<Rightarrow>
          if all_digits e then Inr (Sch_INTERVAL, None, py_int e, None) else Inr (Sch_CRON, Some e, None, None)
      | Spec_time t \<Rightarrow> Inr (Sch_ONCE, None, None, Some t)
      | Spec_other \<Rightarrow> Inl (ScheduleInvalid ''specification''))"

text \<open>A schedule without a name is named after its definition and eight digits of a new identifier.\<close>

definition schedule_workflow ::
  "'w scheduler_config \<Rightarrow> string \<Rightarrow> schedule_spec \<Rightarrow> (string, pyval) dict \<Rightarrow> string \<Rightarrow> string option \<Rightarrow> int option \<Rightarrow>
   string \<Rightarrow> security_principal option \<Rightarrow> ('w, string) schedule_op" where
  "schedule_workflow cfg did spec vars tenant name max_runs zone who =
     bind_eff tick_supply (\<lambda>n.
     bind_eff (lift_res (read_spec spec)) (\<lambda>(typ, cron, interval, run_at).
     let hex = take 8 (filter (\<lambda>c. c \<noteq> CHR ''-'') (sf_uuid cfg n));
         named = (case name of Some m \<Rightarrow> py_or m (''sched_'' @ did @ ''_'' @ hex) | None \<Rightarrow> ''sched_'' @ did @ ''_'' @ hex)
     in bind_eff (create_schedule cfg
          \<lparr>rq_name = named, rq_definition = did, rq_type = typ, rq_cron = cron, rq_interval = interval, rq_run_at = run_at,
           rq_context = vars, rq_max_runs = max_runs, rq_timezone = zone\<rparr> tenant who) (\<lambda>sch. ret (sc_id sch))))"

definition cancel_scheduled_workflow :: "'w scheduler_config \<Rightarrow> string \<Rightarrow> string \<Rightarrow> ('w, bool) schedule_op" where
  "cancel_scheduled_workflow cfg sid tenant s =
     (case cancel_schedule cfg sid tenant None s of
        (Inl (ScheduleNotFound _ _), s') \<Rightarrow> (Inr False, s')
      | (Inl e, s') \<Rightarrow> (Inl e, s')
      | (Inr _, s') \<Rightarrow> (Inr True, s'))"

definition scheduled_summary :: "'w scheduler_config \<Rightarrow> schedule \<Rightarrow> (string, pyval) dict" where
  "scheduled_summary cfg s =
     [(''id'', PStr (sc_id s)), (''name'', PStr (sc_name s)), (''definition_id'', PStr (sc_definition_id s)),
      (''schedule_type'', PStr (schedule_type_value (sc_type s))), (''cron_expression'', opt_str (sc_cron s)),
      (''interval_seconds'', opt_int (sc_interval s)), (''next_run_at'', iso_or_none cfg (sc_next_run_at s)),
      (''status'', PStr (schedule_status_value (sc_status s))), (''run_count'', PInt (sc_run_count s))]"

definition list_scheduled_workflows :: "'w scheduler_config \<Rightarrow> string \<Rightarrow> schedule_db \<Rightarrow> (string, pyval) dict list" where
  "list_scheduled_workflows cfg tenant db =
     map (scheduled_summary cfg) (list_schedules tenant (Some ''ACTIVE'') db)"

end
