(* ===== verification/Cron_Correct.thy ===== *)
theory Cron_Correct
  imports Cron
begin

text \<open>
  The parsed fields are non-empty and in range, and the search, which skips whole months, days and
  hours, finds what a search minute by minute finds.
\<close>

section \<open>Fields\<close>

lemma stepped_bounds: "0 < step \<Longrightarrow> v \<in> set (stepped start end step) \<Longrightarrow> start \<le> v \<and> v \<le> end"
proof -
  assume step: "0 < step" and v: "v \<in> set (stepped start end step)"
  then obtain k where k: "v = start + int k * step" "int k < (end - start) div step + 1"
    by (auto simp: stepped_def)
  then have "int k * step \<le> (end - start) div step * step" using step by (intro mult_right_mono) auto
  also have "\<dots> \<le> end - start" using step by (simp add: pos_mod_sign minus_mod_eq_div_mult [symmetric])
  finally show ?thesis using k(1) step by simp
qed

lemma stepped_start: "0 < step \<Longrightarrow> start \<le> end \<Longrightarrow> start \<in> set (stepped start end step)"
  by (auto simp: stepped_def image_iff pos_imp_zdiv_nonneg_iff intro!: bexI [of _ 0])

lemma part_step_Inr: "part_step name part = Inr (p, step) \<Longrightarrow> 0 < step"
  by (auto simp: part_step_def split: if_splits list.splits option.splits)

lemma part_range_Inr:
  "part_range name lo hi part = Inr (s, e) \<Longrightarrow> lo \<le> hi \<Longrightarrow> name = ''day_of_week'' \<longrightarrow> lo = 0 \<Longrightarrow>
     s \<le> e \<and> lo \<le> s \<and> e \<le> hi"
  by (auto simp: part_range_def split: if_splits list.splits option.splits)

lemma parse_part_Inr:
  assumes "parse_part name lo hi raw = Inr vs" "lo \<le> hi" "name = ''day_of_week'' \<longrightarrow> lo = 0 \<and> hi = 6"
  shows "vs \<noteq> [] \<and> set vs \<subseteq> {lo .. hi}"
proof -
  from assms(1) obtain p step s e where p: "part_step name (strip raw) = Inr (p, step)"
    and r: "part_range name lo hi p = Inr (s, e)" and vs: "vs = map (sunday name) (stepped s e step)"
    by (auto simp: parse_part_def Let_def bind_res_Inr_iff split: if_splits)
  have step: "0 < step" by (rule part_step_Inr [OF p])
  have b: "s \<le> e \<and> lo \<le> s \<and> e \<le> hi" using part_range_Inr [OF r] assms by simp
  have "set (stepped s e step) \<subseteq> {lo .. hi}" using stepped_bounds [OF step] b by fastforce
  moreover have "stepped s e step \<noteq> []" using stepped_start [OF step, of s e] b by auto
  ultimately show ?thesis using assms(3) by (auto simp: vs sunday_def)
qed

lemma parse_field_Inr:
  assumes "parse_field name lo hi field = Inr vs" "lo \<le> hi" "name = ''day_of_week'' \<longrightarrow> lo = 0 \<and> hi = 6"
  shows "vs \<noteq> [] \<and> set vs \<subseteq> {lo .. hi}"
proof -
  let ?f = "\<lambda>acc part. bind_res (parse_part name lo hi part) (\<lambda>vs. Inr (acc @ vs))"
  obtain p ps where parts: "split_on (CHR '','') (strip field) = p # ps"
    by (cases "split_on (CHR '','') (strip field)") auto
  with assms(1) obtain ws where ws: "parse_part name lo hi p = Inr ws" and rest: "fold_res ?f ws ps = Inr vs"
    by (auto simp: parse_field_def Let_def bind_res_Inr_iff split: if_splits)
  have start: "ws \<noteq> [] \<and> set ws \<subseteq> {lo .. hi}" by (rule parse_part_Inr [OF ws assms(2,3)])
  have "acc' \<noteq> [] \<and> set acc' \<subseteq> {lo .. hi}"
    if "acc \<noteq> [] \<and> set acc \<subseteq> {lo .. hi}" "?f acc part = Inr acc'" for acc part acc'
    using that parse_part_Inr [OF _ assms(2,3)] by (fastforce simp: bind_res_Inr_iff)
  then show ?thesis
    by (intro fold_res_invariant [where P = "\<lambda>acc. acc \<noteq> [] \<and> set acc \<subseteq> {lo .. hi}", OF rest start]) blast
qed

definition spec_in_range :: "cron_spec \<Rightarrow> bool" where
  "spec_in_range spec \<longleftrightarrow>
     cs_minutes spec \<noteq> [] \<and> set (cs_minutes spec) \<subseteq> {0 .. 59} \<and> cs_hours spec \<noteq> [] \<and> set (cs_hours spec) \<subseteq> {0 .. 23} \<and>
     cs_days_of_month spec \<noteq> [] \<and> set (cs_days_of_month spec) \<subseteq> {1 .. 31} \<and>
     cs_months spec \<noteq> [] \<and> set (cs_months spec) \<subseteq> {1 .. 12} \<and>
     cs_days_of_week spec \<noteq> [] \<and> set (cs_days_of_week spec) \<subseteq> {0 .. 6}"

lemma five_words:
  assumes "length ws = 5"
  obtains a b c d e where "ws = [a, b, c, d, e]"
  using assms by (auto simp: length_Suc_conv numeral_eq_Suc)

lemma parse_cron_in_range:
  assumes "parse_cron expr = Inr spec"
  shows "spec_in_range spec"
proof -
  from assms have "length (split_words [] (strip expr)) = 5"
    by (auto simp: parse_cron_def split: list.splits)
  then obtain a b c d e where words: "split_words [] (strip expr) = [a, b, c, d, e]" by (rule five_words)
  from assms words obtain mi h dom mo dow where
    "parse_field ''minute'' 0 59 a = Inr mi" "parse_field ''hour'' 0 23 b = Inr h"
    "parse_field ''day_of_month'' 1 31 c = Inr dom" "parse_field ''month'' 1 12 d = Inr mo"
    "parse_field ''day_of_week'' 0 6 e = Inr dow" and
    "spec = \<lparr>cs_minutes = mi, cs_hours = h, cs_days_of_month = dom, cs_months = mo, cs_days_of_week = dow,
       cs_dom_restricted = (c \<noteq> ''*''), cs_dow_restricted = (e \<noteq> ''*'')\<rparr>"
    by (auto simp: parse_cron_def bind_res_Inr_iff)
  then show ?thesis using parse_field_Inr by (simp add: spec_in_range_def)
qed

section \<open>The search\<close>

definition cron_matches :: "cron_spec \<Rightarrow> wall \<Rightarrow> bool" where
  "cron_matches spec w \<longleftrightarrow> at_month w \<in> set (cs_months spec) \<and> day_matches spec w \<and>
     at_hour w \<in> set (cs_hours spec) \<and> at_minute w \<in> set (cs_minutes spec)"

text \<open>The reference: the first match among the next \<open>n\<close> minutes.\<close>

fun minute_search :: "nat \<Rightarrow> cron_spec \<Rightarrow> wall \<Rightarrow> wall option" where
  "minute_search 0 spec w = None"
| "minute_search (Suc n) spec w = (if cron_matches spec w then Some w else minute_search n spec (next_minute w))"

text \<open>Skipping to a target is sound when nothing matches on the way to it.\<close>

lemma minute_search_jump:
  assumes stay: "\<And>u. Q u \<Longrightarrow> valid_wall u \<and> \<not> cron_matches spec u \<and> minutes u < minutes t \<and> (next_minute u = t \<or> Q (next_minute u))"
    and "Q w"
  shows "minute_search (nat (limit - minutes w)) spec w = minute_search (nat (limit - minutes t)) spec t"
  using assms(2)
proof (induction "nat (minutes t - minutes w)" arbitrary: w rule: less_induct)
  case less
  have w: "valid_wall w" "\<not> cron_matches spec w" "minutes w < minutes t" "next_minute w = t \<or> Q (next_minute w)"
    using stay [OF less.prems] by blast+
  have m: "minutes (next_minute w) = minutes w + 1" by (rule minutes_next_minute [OF w(1)])
  show ?case
  proof (cases "limit \<le> minutes w")
    case True
    with w(3) show ?thesis by simp
  next
    case False
    then have "nat (limit - minutes w) = Suc (nat (limit - minutes (next_minute w)))" using m by simp
    then have "minute_search (nat (limit - minutes w)) spec w =
        minute_search (nat (limit - minutes (next_minute w))) spec (next_minute w)"
      using w(2) by simp
    also have "\<dots> = minute_search (nat (limit - minutes t)) spec t"
      using w(4) less.hyps [of "next_minute w"] m w(3) by auto
    finally show ?thesis .
  qed
qed

lemma jump_hour:
  assumes "valid_wall w" "at_hour w \<notin> set (cs_hours spec)"
  shows "minute_search (nat (limit - minutes w)) spec w = minute_search (nat (limit - minutes (next_hour w))) spec (next_hour w)"
proof (rule minute_search_jump [where Q = "\<lambda>u. valid_wall u \<and> at_hour u = at_hour w \<and> next_hour u = next_hour w"])
  show "valid_wall u \<and> \<not> cron_matches spec u \<and> minutes u < minutes (next_hour w) \<and>
      (next_minute u = next_hour w \<or> valid_wall (next_minute u) \<and> at_hour (next_minute u) = at_hour w \<and>
       next_hour (next_minute u) = next_hour w)"
    if u: "valid_wall u \<and> at_hour u = at_hour w \<and> next_hour u = next_hour w" for u
  proof -
    have "minutes u < minutes (next_hour w)" using u minutes_next_hour [of u] by (auto simp: valid_wall_def)
    moreover have "\<not> cron_matches spec u" using u assms(2) by (simp add: cron_matches_def)
    moreover have "next_minute u = next_hour w \<or> at_hour (next_minute u) = at_hour w \<and> next_hour (next_minute u) = next_hour w"
      using u by (auto simp: next_minute_def next_hour_def next_day_def next_month_def)
    ultimately show ?thesis using u by simp
  qed
qed (use assms in simp)

lemma jump_day:
  assumes "valid_wall w" "\<not> day_matches spec w"
  shows "minute_search (nat (limit - minutes w)) spec w = minute_search (nat (limit - minutes (next_day w))) spec (next_day w)"
proof (rule minute_search_jump [where
    Q = "\<lambda>u. valid_wall u \<and> at_year u = at_year w \<and> at_month u = at_month w \<and> at_day u = at_day w"])
  show "valid_wall u \<and> \<not> cron_matches spec u \<and> minutes u < minutes (next_day w) \<and>
      (next_minute u = next_day w \<or> valid_wall (next_minute u) \<and> at_year (next_minute u) = at_year w \<and>
       at_month (next_minute u) = at_month w \<and> at_day (next_minute u) = at_day w)"
    if u: "valid_wall u \<and> at_year u = at_year w \<and> at_month u = at_month w \<and> at_day u = at_day w" for u
  proof -
    have same: "next_day u = next_day w" using u by (simp add: next_day_def next_month_def)
    then have "minutes u < minutes (next_day w)" using u minutes_next_day [of u] by (auto simp: valid_wall_def)
    moreover have "day_matches spec u = day_matches spec w"
      using u by (simp add: day_matches_def cron_weekday_def ordinal_def)
    then have "\<not> cron_matches spec u" using assms(2) by (simp add: cron_matches_def)
    moreover have "next_minute u = next_day w \<or> at_year (next_minute u) = at_year w \<and>
       at_month (next_minute u) = at_month w \<and> at_day (next_minute u) = at_day w"
      using u same by (simp add: next_minute_def next_hour_def)
    ultimately show ?thesis using u by simp
  qed
qed (use assms in simp)

lemma jump_month:
  assumes "valid_wall w" "at_month w \<notin> set (cs_months spec)"
  shows "minute_search (nat (limit - minutes w)) spec w = minute_search (nat (limit - minutes (next_month w))) spec (next_month w)"
proof (rule minute_search_jump [where Q = "\<lambda>u. valid_wall u \<and> at_year u = at_year w \<and> at_month u = at_month w"])
  show "valid_wall u \<and> \<not> cron_matches spec u \<and> minutes u < minutes (next_month w) \<and>
      (next_minute u = next_month w \<or> valid_wall (next_minute u) \<and> at_year (next_minute u) = at_year w \<and>
       at_month (next_minute u) = at_month w)"
    if u: "valid_wall u \<and> at_year u = at_year w \<and> at_month u = at_month w" for u
  proof -
    have same: "next_month u = next_month w" using u by (simp add: next_month_def)
    then have "minutes u < minutes (next_month w)" using u minutes_next_month [of u] by (auto simp: valid_wall_def)
    moreover have "\<not> cron_matches spec u" using u assms(2) by (simp add: cron_matches_def)
    moreover have "next_minute u = next_month w \<or> at_year (next_minute u) = at_year w \<and> at_month (next_minute u) = at_month w"
      using u same by (auto simp: next_minute_def next_hour_def next_day_def)
    ultimately show ?thesis using u by simp
  qed
qed (use assms in simp)

text \<open>The search ends and finds what the reference finds.\<close>

lemma cron_search_exact:
  "valid_wall w \<Longrightarrow> cron_search spec limit w = minute_search (nat (limit - minutes w)) spec w"
proof (induction "nat (limit - minutes w)" arbitrary: w rule: less_induct)
  case less
  note v = less.prems
  show ?case
  proof (cases "limit \<le> minutes w")
    case True
    then show ?thesis by (subst cron_search.simps) simp
  next
    case False
    have later: "cron_search spec limit u = minute_search (nat (limit - minutes u)) spec u"
      if "valid_wall u" "minutes w < minutes u" for u
      using less.hyps [of u] that False by simp
    note gain = skips_forward [OF v]
    consider (month) "at_month w \<notin> set (cs_months spec)"
      | (day) "at_month w \<in> set (cs_months spec)" "\<not> day_matches spec w"
      | (hour) "at_month w \<in> set (cs_months spec)" "day_matches spec w" "at_hour w \<notin> set (cs_hours spec)"
      | (minute) "at_month w \<in> set (cs_months spec)" "day_matches spec w" "at_hour w \<in> set (cs_hours spec)"
      by blast
    then show ?thesis
    proof cases
      case month
      then have "cron_search spec limit w = cron_search spec limit (next_month w)"
        using False v by (subst cron_search.simps) simp
      then show ?thesis using later [OF _ gain(1)] jump_month [OF v month] v by simp
    next
      case day
      then have "cron_search spec limit w = cron_search spec limit (next_day w)"
        using False v by (subst cron_search.simps) simp
      then show ?thesis using later [OF _ gain(2)] jump_day [OF v day(2)] v by simp
    next
      case hour
      then have "cron_search spec limit w = cron_search spec limit (next_hour w)"
        using False v by (subst cron_search.simps) simp
      then show ?thesis using later [OF _ gain(3)] jump_hour [OF v hour(3)] v by simp
    next
      case minute
      have n: "nat (limit - minutes w) = Suc (nat (limit - minutes (next_minute w)))"
        using False minutes_next_minute [OF v] by simp
      have "cron_search spec limit w =
          (if at_minute w \<in> set (cs_minutes spec) then Some w else cron_search spec limit (next_minute w))"
        using False minute v by (subst cron_search.simps) simp
      then show ?thesis using later [OF _ gain(4)] v minute unfolding n by (simp add: cron_matches_def)
    qed
  qed
qed

lemma minute_search_Some:
  "minute_search n spec w = Some v \<longleftrightarrow>
     (\<exists>k < n. v = (next_minute ^^ k) w \<and> cron_matches spec v \<and> (\<forall>j < k. \<not> cron_matches spec ((next_minute ^^ j) w)))"
proof (induction n arbitrary: w)
  case (Suc n)
  show ?case
  proof (cases "cron_matches spec w")
    case True
    then show ?thesis by (auto intro: exI [of _ 0]) (metis funpow_0 gr0I)
  next
    case False
    have shift: "(next_minute ^^ k) (next_minute w) = (next_minute ^^ Suc k) w" for k by (simp only: funpow_Suc_right o_apply)
    have "(\<exists>k < Suc n. Q k) \<longleftrightarrow> Q 0 \<or> (\<exists>k < n. Q (Suc k))" for Q by (auto simp: less_Suc_eq_0_disj)
    moreover have "(\<forall>j < Suc k. Q j) \<longleftrightarrow> Q 0 \<and> (\<forall>j < k. Q (Suc j))" for Q k by (auto simp: less_Suc_eq_0_disj)
    ultimately show ?thesis using False by (auto simp: Suc.IH shift simp del: funpow.simps)
  qed
qed simp

end
