(* ===== verification/Schedule_Runs.thy ===== *)
theory Schedule_Runs
  imports Scheduler Cron_Correct Approval_Correct
begin

text \<open>
  Schedulers that run concurrently on one store, as a step relation on the transactions of
  \<open>Schedule_Store\<close>: any number of ticks, recoveries, creations and stops interleave.  Its
  invariant gives that an occurrence is started at most once, and a whole tick is a path of it.
\<close>

section \<open>The next run is later\<close>

text \<open>
  A zone whose wall clock never goes back: a later wall-clock minute is a later instant.
\<close>

definition steady_zones :: "zone_ops \<Rightarrow> bool" where
  "steady_zones zones \<longleftrightarrow>
     (\<forall>zone after base seconds. zo_local zones zone after = Some (base, seconds) \<longrightarrow>
        valid_wall base \<and> (\<forall>w. valid_wall w \<longrightarrow> minutes base < minutes w \<longrightarrow> after < zo_instant zones zone w))"

lemma next_minutes: "valid_wall w \<Longrightarrow> valid_wall ((next_minute ^^ k) w) \<and> minutes ((next_minute ^^ k) w) = minutes w + int k"
  by (induction k) (simp_all add: minutes_next_minute)

lemma cron_search_later:
  assumes "valid_wall w" "cron_search spec limit w = Some v"
  shows "valid_wall v \<and> minutes w \<le> minutes v"
proof -
  obtain k where "v = (next_minute ^^ k) w"
    using assms minute_search_Some [of _ spec w v] by (auto simp: cron_search_exact)
  then show ?thesis using next_minutes [OF assms(1), of k] by simp
qed

lemma cron_run_later:
  assumes "steady_zones zones" "compute_next_cron_run zones expr after days zone = Inr t"
  shows "after < t"
proof -
  from assms(2) obtain spec base seconds w where
    local: "zo_local zones zone after = Some (base, seconds)" and
    found: "cron_search spec (search_limit base seconds days) (next_minute base) = Some w" and
    t: "t = zo_instant zones zone w"
  proof -
    obtain spec where spec: "(case zo_local zones zone after of
         None \<Rightarrow> Inl (CronUnknownZone zone)
       | Some (base, seconds) \<Rightarrow>
           (case cron_search spec (search_limit base seconds days) (next_minute base) of
              None \<Rightarrow> Inl (CronNoMatch days)
            | Some w \<Rightarrow> Inr (zo_instant zones zone w))) = Inr t"
      using assms(2) by (auto simp: compute_next_cron_run_def bind_res_Inr_iff)
    then obtain base seconds where local: "zo_local zones zone after = Some (base, seconds)"
      by (cases "zo_local zones zone after") auto
    with spec obtain w where "cron_search spec (search_limit base seconds days) (next_minute base) = Some w"
      "t = zo_instant zones zone w"
      by (cases "cron_search spec (search_limit base seconds days) (next_minute base)") auto
    with local that show thesis by blast
  qed
  from assms(1) local have base: "valid_wall base"
    and steady: "\<forall>w. valid_wall w \<longrightarrow> minutes base < minutes w \<longrightarrow> after < zo_instant zones zone w"
    unfolding steady_zones_def by blast+
  have "valid_wall w" "minutes base < minutes w"
    using cron_search_later [OF valid_next_minute [OF base] found] minutes_next_minute [OF base] by simp_all
  with steady t show ?thesis by simp
qed

lemma tick_outcome_later:
  assumes "steady_zones (sf_zones cfg)" "tick_outcome cfg sch now = Inr (status, Some t)"
  shows "now < t"
proof -
  have n: "next_run_of cfg sch now = Inr (Some t)" and kind: "sc_type sch \<noteq> Sch_ONCE"
    using assms(2) by (auto simp: tick_outcome_def bind_res_Inr_iff split: if_splits)
  show ?thesis
  proof (cases "sc_type sch")
    case Sch_CRON
    then show ?thesis using n cron_run_later [OF assms(1)]
      by (auto simp: next_run_of_def compute_next_run_def split: option.splits if_splits sum.splits)
  next
    case Sch_INTERVAL
    then show ?thesis using n
      by (auto simp: next_run_of_def compute_next_run_def split: option.splits if_splits)
  qed (use kind in simp)
qed

section \<open>Steps\<close>

record claim =
  cl_schedule :: schedule
  cl_time :: instant
  cl_started :: bool

text \<open>\<open>sw_claims\<close> are the claims that workers hold; \<open>sw_fired\<close> the occurrences started so far.\<close>

record schedule_world =
  sw_db :: schedule_db
  sw_claims :: "claim list"
  sw_fired :: "(string \<times> instant) list"

abbreviation ids :: "schedule_db \<Rightarrow> string set" where
  "ids db \<equiv> sc_id ` set (sd_rows db)"

abbreviation claim_id :: "claim \<Rightarrow> string" where
  "claim_id cl \<equiv> sc_id (cl_schedule cl)"

definition abandoned :: "instant \<Rightarrow> string option \<Rightarrow> schedule \<Rightarrow> bool" where
  "abandoned dt tenant r \<longleftrightarrow> sc_status r = Sch_TRIGGERING \<and> sc_updated_at r < dt - SCHEDULE_CLAIM_LEASE_SECONDS \<and>
     tenant_is tenant (sc_tenant_id r)"

text \<open>
  A worker that dies before it has started the instance drops its claim, and the lease gives the
  schedule back; the last premise of a reclaim is that no worker still holds what it takes.
\<close>

inductive schedule_step :: "'w scheduler_config \<Rightarrow> schedule_world \<Rightarrow> schedule_world \<Rightarrow> bool" for cfg where
  create_row: "sc_id sch \<notin> ids (sw_db s) \<Longrightarrow> save_schedule now e staged sch tid (sw_db s) = Some db \<Longrightarrow>
     schedule_step cfg s (s\<lparr>sw_db := db\<rparr>)"
| claim_row: "claim_one now dt sid (sw_db s) = (Some c, db) \<Longrightarrow>
     schedule_step cfg s (s\<lparr>sw_db := db, sw_claims := sw_claims s @ [\<lparr>cl_schedule = c, cl_time = dt, cl_started = False\<rparr>]\<rparr>)"
| start_claim: "sw_claims s = xs @ cl # ys \<Longrightarrow> \<not> cl_started cl \<Longrightarrow>
     schedule_step cfg s (s\<lparr>sw_claims := xs @ cl\<lparr>cl_started := True\<rparr> # ys,
       sw_fired := sw_fired s @ [(claim_id cl, the (sc_next_run_at (cl_schedule cl)))]\<rparr>)"
| drop_claim: "sw_claims s = xs @ cl # ys \<Longrightarrow> \<not> cl_started cl \<Longrightarrow> schedule_step cfg s (s\<lparr>sw_claims := xs @ ys\<rparr>)"
| record_claim: "sw_claims s = xs @ cl # ys \<Longrightarrow> cl_started cl \<Longrightarrow>
     tick_outcome cfg (cl_schedule cl) (cl_time cl) = Inr (status, next_run) \<Longrightarrow>
     record_schedule_tick now e staged (claim_id cl) (cl_time cl) next_run inst (sc_run_count (cl_schedule cl) + 1) status
       (sc_tenant_id (cl_schedule cl)) (sw_db s) = (updated, db) \<Longrightarrow>
     schedule_step cfg s (s\<lparr>sw_db := db, sw_claims := xs @ ys\<rparr>)"
| stop_row: "status \<in> {Sch_PAUSED, Sch_DISABLED} \<Longrightarrow>
     update_schedule_status now e staged sid status tid (sw_db s) = (updated, db) \<Longrightarrow> schedule_step cfg s (s\<lparr>sw_db := db\<rparr>)"
| reclaim_rows: "\<forall>r \<in> set (sd_rows (sw_db s)). abandoned dt tenant r \<longrightarrow> sc_id r \<notin> claim_id ` set (sw_claims s) \<Longrightarrow>
     schedule_step cfg s (s\<lparr>sw_db := reclaim_abandoned now dt tenant (sw_db s)\<rparr>)"

inductive schedule_run :: "'w scheduler_config \<Rightarrow> schedule_world \<Rightarrow> schedule_world \<Rightarrow> bool" for cfg where
  here: "schedule_run cfg s s"
| further: "schedule_run cfg s t \<Longrightarrow> schedule_step cfg t u \<Longrightarrow> schedule_run cfg s u"

lemma schedule_run_step: "schedule_step cfg s t \<Longrightarrow> schedule_run cfg s t"
  by (rule further [OF here])

lemma schedule_run_trans: "schedule_run cfg t u \<Longrightarrow> schedule_run cfg s t \<Longrightarrow> schedule_run cfg s u"
  by (induction rule: schedule_run.induct) (auto intro: further)

section \<open>Transactions as row updates\<close>

lemma stage_rows [simp]: "sd_rows (stage_schedule_event staged e now tid topic payload db) = sd_rows db"
  by (simp add: stage_schedule_event_def)

lemma save_fresh_rows:
  assumes "save_schedule now e staged sch tid db = Some db'" "sc_id sch \<notin> ids db"
  obtains m where "sd_rows db' = sd_rows db @ [m]" "sc_id m = sc_id sch"
proof -
  have fresh: "\<not> (\<exists>r \<in> set (sd_rows db). sc_id r = sc_id sch)" using assms(2) by (metis image_eqI)
  then have no_row: "\<not> (\<exists>r \<in> set (sd_rows db). sc_id r = sc_id sch \<and> P r)" for P by blast
  show ?thesis
    by (rule that [of "schedule_to_model now sch (py_or (sc_tenant_id sch) tid)"])
      (use assms(1) no_row [of "\<lambda>r. sc_tenant_id r = py_or (sc_tenant_id sch) tid"] fresh
       in \<open>auto simp: save_schedule_def Let_def schedule_to_model_def split: if_splits\<close>)
qed

lemma rewrite_rows:
  assumes "rewrite_schedule sid tid f db = Some (r, db')"
  shows "sd_rows db' = map (\<lambda>q. if sc_id q = sid \<and> sc_tenant_id q = tid then f q else q) (sd_rows db)"
  using assms by (auto simp: rewrite_schedule_def split: option.splits)

lemma record_rows:
  assumes "record_schedule_tick now e staged sid last_run next_run inst count status tid db = (u, db')"
  shows "u = None \<and> db' = db \<and> get_schedule sid (Some tid) db = None \<or>
    sd_rows db' = map (\<lambda>q. if sc_id q = sid \<and> sc_tenant_id q = tid
      then q\<lparr>sc_last_run_at := Some last_run, sc_next_run_at := next_run, sc_last_instance_id := inst, sc_run_count := count,
             sc_status := status, sc_updated_at := now\<rparr> else q) (sd_rows db)"
  using assms by (auto simp: record_schedule_tick_def rewrite_schedule_def split: option.splits)

lemma stop_rows:
  assumes "update_schedule_status now e staged sid status tid db = (u, db')"
  shows "db' = db \<or>
    sd_rows db' = map (\<lambda>q. if sc_id q = sid \<and> sc_tenant_id q = tid then q\<lparr>sc_status := status, sc_updated_at := now\<rparr> else q)
      (sd_rows db)"
  using assms by (auto simp: update_schedule_status_def rewrite_schedule_def split: option.splits)

lemma same_row:
  "distinct (map sc_id rows) \<Longrightarrow> q \<in> set rows \<Longrightarrow> r \<in> set rows \<Longrightarrow> sc_id q = sc_id r \<Longrightarrow> q = r"
  by (auto simp: distinct_map dest: inj_onD)

lemma claim_rows:
  assumes "claim_one now dt sid db = (Some c, db')" "distinct (map sc_id (sd_rows db))"
  obtains r where "r \<in> set (sd_rows db)" "sc_id r = sid" "due_at dt r"
    "c = r\<lparr>sc_status := Sch_TRIGGERING, sc_updated_at := now\<rparr>"
    "sd_rows db' = map (\<lambda>q. if sc_id q = sid then c else q) (sd_rows db)"
proof -
  let ?claimed = "\<lambda>r. r\<lparr>sc_status := Sch_TRIGGERING, sc_updated_at := now\<rparr>"
  let ?won = "\<lambda>r. sc_id r = sid \<and> due_at dt r"
  have "length (filter ?won (sd_rows db)) = 1"
    and c: "find (\<lambda>r. sc_id r = sid) (map (\<lambda>r. if ?won r then ?claimed r else r) (sd_rows db)) = Some c"
    and rows: "sd_rows db' = map (\<lambda>r. if ?won r then ?claimed r else r) (sd_rows db)"
    using assms(1) by (auto simp: claim_one_def Let_def split: if_splits)
  then have "filter ?won (sd_rows db) \<noteq> []" by (metis list.size(3) zero_neq_one)
  then obtain r where r: "r \<in> set (sd_rows db)" "sc_id r = sid" "due_at dt r"
    by (auto simp: filter_empty_conv)
  have same: "q = r" if "q \<in> set (sd_rows db)" "sc_id q = sid" for q
    by (rule same_row [OF assms(2) that(1) r(1)]) (simp add: that r)
  have "sc_id c = sid" by (rule conjunct2 [OF find_Some_conv [OF c]])
  obtain q where q: "q \<in> set (sd_rows db)" "c = (if ?won q then ?claimed q else q)"
    using conjunct1 [OF find_Some_conv [OF c]] unfolding set_map by (rule imageE) (rule that)
  have "sc_id q = sid"
  proof (rule ccontr)
    assume "sc_id q \<noteq> sid"
    with q(2) have "c = q" by simp
    with \<open>sc_id c = sid\<close> \<open>sc_id q \<noteq> sid\<close> show False by simp
  qed
  then have "q = r" by (rule same [OF q(1)])
  then have "c = ?claimed r" using q(2) r by simp
  moreover have "map (\<lambda>r. if ?won r then ?claimed r else r) (sd_rows db) = map (\<lambda>q. if sc_id q = sid then ?claimed r else q) (sd_rows db)"
  proof (rule map_cong [OF HOL.refl])
    fix q assume "q \<in> set (sd_rows db)"
    then show "(if ?won q then ?claimed q else q) = (if sc_id q = sid then ?claimed r else q)"
      using same [of q] r(3) by (cases "sc_id q = sid") simp_all
  qed
  ultimately show ?thesis using that [OF r] rows by simp
qed

lemma reclaim_rows_map:
  "sd_rows (reclaim_abandoned now dt tenant db) =
     map (\<lambda>r. if abandoned dt tenant r then r\<lparr>sc_status := Sch_ACTIVE, sc_updated_at := now\<rparr> else r) (sd_rows db)"
  by (simp add: reclaim_abandoned_def abandoned_def)

section \<open>The invariant\<close>

definition claim_ok :: "claim \<Rightarrow> bool" where
  "claim_ok cl \<longleftrightarrow> (\<exists>due. sc_next_run_at (cl_schedule cl) = Some due \<and> due \<le> cl_time cl)"

text \<open>A claimed row is not ACTIVE and keeps the occurrence of its claim.\<close>

definition guarded :: "claim list \<Rightarrow> schedule \<Rightarrow> bool" where
  "guarded claims r \<longleftrightarrow>
     (\<forall>cl \<in> set claims. claim_id cl = sc_id r \<longrightarrow>
        sc_tenant_id r = sc_tenant_id (cl_schedule cl) \<and> sc_status r \<noteq> Sch_ACTIVE \<and>
        sc_next_run_at r = sc_next_run_at (cl_schedule cl))"

text \<open>What was started lies before the next run of its row, unless it is started and not yet recorded.\<close>

definition pending_start :: "claim list \<Rightarrow> string \<Rightarrow> bool" where
  "pending_start claims sid \<longleftrightarrow> (\<exists>cl \<in> set claims. claim_id cl = sid \<and> cl_started cl)"

definition past_next :: "claim list \<Rightarrow> (string \<times> instant) list \<Rightarrow> schedule \<Rightarrow> bool" where
  "past_next claims fired r \<longleftrightarrow>
     (\<forall>due next_run. (sc_id r, due) \<in> set fired \<longrightarrow> sc_next_run_at r = Some next_run \<longrightarrow>
        due < next_run \<or> due = next_run \<and> pending_start claims (sc_id r))"

definition rows_ok :: "schedule_world \<Rightarrow> bool" where
  "rows_ok s \<longleftrightarrow> (\<forall>r \<in> set (sd_rows (sw_db s)). guarded (sw_claims s) r \<and> past_next (sw_claims s) (sw_fired s) r)"

definition schedule_inv :: "schedule_world \<Rightarrow> bool" where
  "schedule_inv s \<longleftrightarrow>
     distinct (map sc_id (sd_rows (sw_db s))) \<and> distinct (map claim_id (sw_claims s)) \<and> distinct (sw_fired s) \<and>
     (\<forall>cl \<in> set (sw_claims s). claim_ok cl) \<and> claim_id ` set (sw_claims s) \<subseteq> ids (sw_db s) \<and>
     fst ` set (sw_fired s) \<subseteq> ids (sw_db s) \<and> rows_ok s"

lemmas inv_defs = schedule_inv_def rows_ok_def guarded_def past_next_def pending_start_def

lemma guarded_append: "guarded (xs @ ys) r \<longleftrightarrow> guarded xs r \<and> guarded ys r"
  by (auto simp: guarded_def)

lemma past_next_more: "past_next xs fired r \<Longrightarrow> past_next (xs @ ys) fired r"
  by (auto simp: past_next_def pending_start_def)

text \<open>Rows rewritten one by one, the claims and the occurrences as they are.\<close>

lemma inv_rewrite:
  assumes inv: "schedule_inv s" and rows: "sd_rows db = map f (sd_rows (sw_db s))"
    and keep: "\<And>r. r \<in> set (sd_rows (sw_db s)) \<Longrightarrow> sc_id (f r) = sc_id r \<and> sc_tenant_id (f r) = sc_tenant_id r \<and>
        sc_next_run_at (f r) = sc_next_run_at r"
    and idle: "\<And>r. r \<in> set (sd_rows (sw_db s)) \<Longrightarrow> sc_status (f r) = Sch_ACTIVE \<Longrightarrow> sc_status r \<noteq> Sch_ACTIVE \<Longrightarrow>
        \<forall>cl \<in> set (sw_claims s). claim_id cl \<noteq> sc_id r"
  shows "schedule_inv (s\<lparr>sw_db := db\<rparr>)"
proof -
  have same: "map sc_id (sd_rows db) = map sc_id (sd_rows (sw_db s))" "ids db = ids (sw_db s)"
    using keep unfolding rows by (force simp: image_iff)+
  have "guarded (sw_claims s) (f r) \<and> past_next (sw_claims s) (sw_fired s) (f r)"
    if r: "r \<in> set (sd_rows (sw_db s))" for r
  proof -
    have "guarded (sw_claims s) r" "past_next (sw_claims s) (sw_fired s) r"
      using inv r by (auto simp: schedule_inv_def rows_ok_def)
    then show ?thesis using keep [OF r] idle [OF r] by (auto simp: guarded_def past_next_def)
  qed
  then have "\<forall>r \<in> set (sd_rows db). guarded (sw_claims s) r \<and> past_next (sw_claims s) (sw_fired s) r"
    unfolding rows by simp
  with inv same show ?thesis by (simp add: schedule_inv_def rows_ok_def)
qed

lemma inv_create:
  assumes inv: "schedule_inv s" and fresh: "sc_id sch \<notin> ids (sw_db s)"
    and saved: "save_schedule now e staged sch tid (sw_db s) = Some db"
  shows "schedule_inv (s\<lparr>sw_db := db\<rparr>)"
proof -
  obtain m where m: "sd_rows db = sd_rows (sw_db s) @ [m]" "sc_id m = sc_id sch"
    by (rule save_fresh_rows [OF saved fresh])
  have "sc_id m \<notin> claim_id ` set (sw_claims s)" "sc_id m \<notin> fst ` set (sw_fired s)"
    using inv fresh m(2) by (auto simp: schedule_inv_def)
  then have "guarded (sw_claims s) m" "past_next (sw_claims s) (sw_fired s) m"
    by (force simp: guarded_def past_next_def)+
  with inv fresh m show ?thesis by (auto simp: schedule_inv_def rows_ok_def)
qed

lemma inv_claim:
  assumes inv: "schedule_inv s" and claimed: "claim_one now dt sid (sw_db s) = (Some c, db)"
  shows "schedule_inv (s\<lparr>sw_db := db, sw_claims := sw_claims s @ [\<lparr>cl_schedule = c, cl_time = dt, cl_started = False\<rparr>]\<rparr>)"
proof -
  have dist: "distinct (map sc_id (sd_rows (sw_db s)))" using inv by (simp add: schedule_inv_def)
  obtain r where r: "r \<in> set (sd_rows (sw_db s))" "sc_id r = sid" "due_at dt r"
    and c: "c = r\<lparr>sc_status := Sch_TRIGGERING, sc_updated_at := now\<rparr>"
    and rows: "sd_rows db = map (\<lambda>q. if sc_id q = sid then c else q) (sd_rows (sw_db s))"
    by (rule claim_rows [OF claimed dist])
  have same: "q = r" if "q \<in> set (sd_rows (sw_db s))" "sc_id q = sid" for q
    by (rule same_row [OF dist that(1) r(1)]) (simp add: that r)
  have "sid \<notin> claim_id ` set (sw_claims s)"
    using inv r by (auto simp: inv_defs due_at_def)
  define cl where "cl = \<lparr>cl_schedule = c, cl_time = dt, cl_started = False\<rparr>"
  have inv': "schedule_inv (s\<lparr>sw_db := db\<rparr>)"
  proof (rule inv_rewrite [OF inv rows])
    fix q assume q: "q \<in> set (sd_rows (sw_db s))"
    show "sc_id (if sc_id q = sid then c else q) = sc_id q \<and> sc_tenant_id (if sc_id q = sid then c else q) = sc_tenant_id q \<and>
        sc_next_run_at (if sc_id q = sid then c else q) = sc_next_run_at q"
      by (cases "sc_id q = sid") (use same [OF q] c in simp_all)
    show "\<forall>cl \<in> set (sw_claims s). claim_id cl \<noteq> sc_id q"
      if "sc_status (if sc_id q = sid then c else q) = Sch_ACTIVE" "sc_status q \<noteq> Sch_ACTIVE"
      using that c by (cases "sc_id q = sid") simp_all
  qed
  have ok: "claim_ok cl" using r(3) by (auto simp: claim_ok_def cl_def c due_at_def split: option.splits)
  have fields: "claim_id cl = sid" "\<not> cl_started cl" using r(2) by (simp_all add: cl_def c)
  have own: "guarded [cl] q" if "q \<in> set (sd_rows db)" for q
    using that fields unfolding rows by (auto simp: guarded_def cl_def c r(2) split: if_splits)
  have "guarded (sw_claims s @ [cl]) q \<and> past_next (sw_claims s @ [cl]) (sw_fired s) q" if "q \<in> set (sd_rows db)" for q
  proof -
    have "guarded (sw_claims s) q" "past_next (sw_claims s) (sw_fired s) q"
      using inv' that by (simp_all add: schedule_inv_def rows_ok_def)
    then show ?thesis using own [OF that] guarded_append past_next_more by auto
  qed
  then have "rows_ok (s\<lparr>sw_db := db, sw_claims := sw_claims s @ [cl]\<rparr>)" by (simp add: rows_ok_def)
  moreover have "map sc_id (sd_rows db) = map sc_id (sd_rows (sw_db s))" using r(2) c by (simp add: rows)
  then have "ids db = ids (sw_db s)" by (metis image_set)
  then have "sid \<in> ids db" using r by auto
  ultimately show ?thesis
    using inv' ok fields \<open>sid \<notin> claim_id ` set (sw_claims s)\<close> unfolding cl_def [symmetric]
    by (auto simp: schedule_inv_def)
qed

lemma claims_apart:
  assumes "schedule_inv s" "sw_claims s = xs @ cl # ys" "cl' \<in> set (xs @ ys)"
  shows "claim_id cl' \<noteq> claim_id cl"
proof -
  have "distinct (map claim_id (xs @ cl # ys))" using assms(1, 2) by (simp add: schedule_inv_def)
  then have "claim_id cl \<notin> claim_id ` set (xs @ ys)" by auto
  with assms(3) show ?thesis by (metis image_eqI)
qed

text \<open>A claim replaced or taken out, the rows as they are.\<close>

lemma guarded_less: "guarded claims r \<Longrightarrow> set claims' \<subseteq> set claims \<Longrightarrow> guarded claims' r"
  unfolding guarded_def by blast

lemma inv_drop:
  assumes inv: "schedule_inv s" and claims: "sw_claims s = xs @ cl # ys" and idle: "\<not> cl_started cl"
  shows "schedule_inv (s\<lparr>sw_claims := xs @ ys\<rparr>)"
proof -
  have "pending_start (xs @ ys) sid = pending_start (sw_claims s) sid" for sid
    using idle by (auto simp: pending_start_def claims)
  then have "past_next (xs @ ys) fired r = past_next (sw_claims s) fired r" for fired r by (simp add: past_next_def)
  moreover have "guarded (xs @ ys) r" if "guarded (sw_claims s) r" for r
    using guarded_less [OF that, of "xs @ ys"] by (auto simp: claims)
  ultimately show ?thesis using inv by (auto simp: schedule_inv_def rows_ok_def claims)
qed

lemma inv_start:
  assumes inv: "schedule_inv s" and claims: "sw_claims s = xs @ cl # ys" and idle: "\<not> cl_started cl"
  shows "schedule_inv (s\<lparr>sw_claims := xs @ cl\<lparr>cl_started := True\<rparr> # ys,
      sw_fired := sw_fired s @ [(claim_id cl, the (sc_next_run_at (cl_schedule cl)))]\<rparr>)"
proof -
  let ?claims = "xs @ cl\<lparr>cl_started := True\<rparr> # ys" and ?sid = "claim_id cl"
  obtain due where due: "sc_next_run_at (cl_schedule cl) = Some due" "due \<le> cl_time cl"
    using inv by (auto simp: schedule_inv_def claims claim_ok_def)
  have alone: "\<not> pending_start (sw_claims s) ?sid"
  proof
    assume "pending_start (sw_claims s) ?sid"
    then obtain cl' where "cl' \<in> set (sw_claims s)" "claim_id cl' = ?sid" "cl_started cl'" by (auto simp: pending_start_def)
    moreover have "cl' \<in> set (xs @ ys)" using calculation idle by (auto simp: claims)
    ultimately show False using claims_apart [OF inv claims] by blast
  qed
  have more: "pending_start ?claims sid" if "pending_start (sw_claims s) sid" for sid
    using that by (auto simp: pending_start_def claims)
  have now: "pending_start ?claims ?sid" by (simp add: pending_start_def)
  have guard: "guarded ?claims r = guarded (sw_claims s) r" for r by (simp add: guarded_def claims)
  have row: "sc_next_run_at r = Some due" if "r \<in> set (sd_rows (sw_db s))" "sc_id r = ?sid" for r
    using inv that due by (auto simp: schedule_inv_def rows_ok_def guarded_def claims)
  obtain own where own: "own \<in> set (sd_rows (sw_db s))" "sc_id own = ?sid"
    using inv by (auto simp: schedule_inv_def claims)
  have "past_next (sw_claims s) (sw_fired s) own" using inv own by (simp add: schedule_inv_def rows_ok_def)
  then have fresh: "(?sid, due) \<notin> set (sw_fired s)"
    using row [OF own] own(2) alone by (auto simp: past_next_def)
  have "past_next ?claims (sw_fired s @ [(?sid, due)]) r" if r: "r \<in> set (sd_rows (sw_db s))" for r
  proof -
    have "past_next (sw_claims s) (sw_fired s) r" using inv r by (simp add: schedule_inv_def rows_ok_def)
    then show ?thesis using row [OF r] more now by (auto simp: past_next_def)
  qed
  with inv guard fresh due own show ?thesis
    by (auto simp: schedule_inv_def rows_ok_def claims claim_ok_def intro!: rev_image_eqI [of own])
qed

lemma inv_stop:
  assumes inv: "schedule_inv s" and status: "status \<in> {Sch_PAUSED, Sch_DISABLED}"
    and stop: "update_schedule_status now e staged sid status tid (sw_db s) = (updated, db)"
  shows "schedule_inv (s\<lparr>sw_db := db\<rparr>)"
  using stop_rows [OF stop]
proof
  assume "db = sw_db s"
  with inv show ?thesis by simp
next
  assume rows: "sd_rows db = map (\<lambda>q. if sc_id q = sid \<and> sc_tenant_id q = tid
      then q\<lparr>sc_status := status, sc_updated_at := now\<rparr> else q) (sd_rows (sw_db s))"
  show ?thesis by (rule inv_rewrite [OF inv rows]) (use status in \<open>auto split: if_splits\<close>)
qed

lemma inv_reclaim:
  assumes inv: "schedule_inv s"
    and free: "\<forall>r \<in> set (sd_rows (sw_db s)). abandoned dt tenant r \<longrightarrow> sc_id r \<notin> claim_id ` set (sw_claims s)"
  shows "schedule_inv (s\<lparr>sw_db := reclaim_abandoned now dt tenant (sw_db s)\<rparr>)"
proof (rule inv_rewrite [OF inv reclaim_rows_map])
  fix r assume r: "r \<in> set (sd_rows (sw_db s))"
  let ?r = "if abandoned dt tenant r then r\<lparr>sc_status := Sch_ACTIVE, sc_updated_at := now\<rparr> else r"
  show "sc_id ?r = sc_id r \<and> sc_tenant_id ?r = sc_tenant_id r \<and> sc_next_run_at ?r = sc_next_run_at r" by simp
  show "\<forall>cl \<in> set (sw_claims s). claim_id cl \<noteq> sc_id r" if "sc_status ?r = Sch_ACTIVE" "sc_status r \<noteq> Sch_ACTIVE"
  proof -
    have "abandoned dt tenant r" using that by (cases "abandoned dt tenant r") simp_all
    with free r have "sc_id r \<notin> claim_id ` set (sw_claims s)" by blast
    then show ?thesis by (metis image_eqI)
  qed
qed

text \<open>The record moves the row past everything that was started of it.\<close>

lemma inv_record:
  assumes inv: "schedule_inv s" and steady: "steady_zones (sf_zones cfg)"
    and claims: "sw_claims s = xs @ cl # ys"
    and outcome: "tick_outcome cfg (cl_schedule cl) (cl_time cl) = Inr (status, next_run)"
    and recorded: "record_schedule_tick now e staged (claim_id cl) (cl_time cl) next_run inst count status
      (sc_tenant_id (cl_schedule cl)) (sw_db s) = (updated, db)"
  shows "schedule_inv (s\<lparr>sw_db := db, sw_claims := xs @ ys\<rparr>)"
proof -
  let ?sid = "claim_id cl" and ?tid = "sc_tenant_id (cl_schedule cl)"
  let ?f = "\<lambda>q. q\<lparr>sc_last_run_at := Some (cl_time cl), sc_next_run_at := next_run, sc_last_instance_id := inst,
      sc_run_count := count, sc_status := status, sc_updated_at := now\<rparr>"
  obtain due where due: "sc_next_run_at (cl_schedule cl) = Some due" "due \<le> cl_time cl"
    using inv by (auto simp: schedule_inv_def claims claim_ok_def)
  have row: "sc_next_run_at r = Some due \<and> sc_tenant_id r = ?tid" if "r \<in> set (sd_rows (sw_db s))" "sc_id r = ?sid" for r
    using inv that due by (auto simp: schedule_inv_def rows_ok_def guarded_def claims)
  obtain own where own: "own \<in> set (sd_rows (sw_db s))" "sc_id own = ?sid"
    using inv by (auto simp: schedule_inv_def claims)
  have "get_schedule ?sid (Some ?tid) (sw_db s) \<noteq> None"
    using own row [OF own] by (auto simp: get_schedule_def find_None_conv tenant_is_def)
  with record_rows [OF recorded]
  have rows: "sd_rows db = map (\<lambda>q. if sc_id q = ?sid \<and> sc_tenant_id q = ?tid then ?f q else q) (sd_rows (sw_db s))"
    by (elim disjE) simp_all
  have same: "map sc_id (sd_rows db) = map sc_id (sd_rows (sw_db s))" by (simp add: rows)
  then have idset: "ids db = ids (sw_db s)" by (metis image_set)
  have later: "cl_time cl < t" if "next_run = Some t" for t
    using tick_outcome_later [OF steady] outcome that by blast
  note others = claims_apart [OF inv claims]
  have "guarded (xs @ ys) (if sc_id r = ?sid \<and> sc_tenant_id r = ?tid then ?f r else r) \<and>
      past_next (xs @ ys) (sw_fired s) (if sc_id r = ?sid \<and> sc_tenant_id r = ?tid then ?f r else r)"
    if r: "r \<in> set (sd_rows (sw_db s))" for r
  proof (cases "sc_id r = ?sid")
    case True
    have past: "past_next (sw_claims s) (sw_fired s) r" using inv r by (simp add: schedule_inv_def rows_ok_def)
    have "guarded (xs @ ys) (?f r)" using others True by (auto simp: guarded_def)
    moreover have "past_next (xs @ ys) (sw_fired s) (?f r)"
      unfolding past_next_def
    proof (intro allI impI)
      fix d t assume "(sc_id (?f r), d) \<in> set (sw_fired s)" "sc_next_run_at (?f r) = Some t"
      then have "d \<le> due" "cl_time cl < t"
        using past row [OF r True] later by (auto simp: past_next_def)
      with due(2) show "d < t \<or> d = t \<and> pending_start (xs @ ys) (sc_id (?f r))" by simp
    qed
    ultimately show ?thesis using True row [OF r True] by simp
  next
    case False
    have "guarded (sw_claims s) r" and past: "past_next (sw_claims s) (sw_fired s) r"
      using inv r by (simp_all add: schedule_inv_def rows_ok_def)
    then have "guarded (xs @ ys) r" using guarded_less [of "sw_claims s" r "xs @ ys"] by (auto simp: claims)
    moreover have "pending_start (xs @ ys) (sc_id r)" if "pending_start (sw_claims s) (sc_id r)"
      using that False by (auto simp: pending_start_def claims)
    then have "past_next (xs @ ys) (sw_fired s) r" using past by (auto simp: past_next_def)
    ultimately show ?thesis using False by simp
  qed
  then have "\<forall>r \<in> set (sd_rows db). guarded (xs @ ys) r \<and> past_next (xs @ ys) (sw_fired s) r"
    unfolding rows set_map ball_simps by blast
  then have "rows_ok (s\<lparr>sw_db := db, sw_claims := xs @ ys\<rparr>)" by (simp add: rows_ok_def)
  then show ?thesis using inv same idset by (auto simp: schedule_inv_def claims)
qed

theorem inv_step: "schedule_step cfg s t \<Longrightarrow> steady_zones (sf_zones cfg) \<Longrightarrow> schedule_inv s \<Longrightarrow> schedule_inv t"
  by (induction rule: schedule_step.induct)
    (simp_all add: inv_create inv_claim inv_start inv_drop inv_record inv_stop inv_reclaim)

lemma inv_schedule_run:
  "schedule_run cfg s t \<Longrightarrow> steady_zones (sf_zones cfg) \<Longrightarrow> schedule_inv s \<Longrightarrow> schedule_inv t"
  by (induction rule: schedule_run.induct) (auto intro: inv_step)

definition no_schedules :: "schedule_world" where
  "no_schedules = \<lparr>sw_db = \<lparr>sd_rows = [], sd_outbox = []\<rparr>, sw_claims = [], sw_fired = []\<rparr>"

lemma inv_no_schedules: "schedule_inv no_schedules"
  by (simp add: inv_defs no_schedules_def)

end
