(* ===== verification/Scheduler_Correct.thy ===== *)
theory Scheduler_Correct
  imports Schedule_Runs Approval_Contract
begin

text \<open>
  The scheduler's operations against the steps of \<open>Schedule_Runs\<close>: claiming, executing and a whole
  tick are paths of them.  Then the UTC zone, and what the code does where the steps do not apply.
\<close>

section \<open>Effects on a store\<close>

lemma tick_supply_db [simp]: "tick_supply s = (Inr (ss_supply s), s\<lparr>ss_supply := Suc (ss_supply s)\<rparr>)"
  by (simp add: tick_supply_def)

lemma audit_db [simp]: "ss_db (snd (record_schedule_audit cfg action actor tenant resource extra s)) = ss_db s"
  "fst (record_schedule_audit cfg action actor tenant resource extra s) = Inr ()"
  by (simp_all add: record_schedule_audit_def when_eff_def modify_def ret_def)

definition world_of :: "'w scheduler_state \<Rightarrow> claim list \<Rightarrow> (string \<times> instant) list \<Rightarrow> schedule_world" where
  "world_of s claims fired = \<lparr>sw_db = ss_db s, sw_claims = claims, sw_fired = fired\<rparr>"

abbreviation fresh_claim :: "instant \<Rightarrow> schedule \<Rightarrow> claim" where
  "fresh_claim dt c \<equiv> \<lparr>cl_schedule = c, cl_time = dt, cl_started = False\<rparr>"

section \<open>Claims\<close>

lemma claim_one_lost:
  assumes "claim_one now dt sid db = (None, db')"
  shows "db' = db"
proof (cases "length (filter (\<lambda>r. sc_id r = sid \<and> due_at dt r) (sd_rows db)) = 1")
  case True
  then have "filter (\<lambda>r. sc_id r = sid \<and> due_at dt r) (sd_rows db) \<noteq> []" by (metis list.size(3) zero_neq_one)
  then obtain r where r: "r \<in> set (sd_rows db)" "sc_id r = sid" by (auto simp: filter_empty_conv)
  define f where "f = (\<lambda>r. if sc_id r = sid \<and> due_at dt r
      then r\<lparr>sc_status := Sch_TRIGGERING, sc_updated_at := now\<rparr> else r)"
  from True assms have "find (\<lambda>r. sc_id r = sid) (map f (sd_rows db)) = None"
    by (simp add: claim_one_def Let_def f_def)
  then have "sc_id (f r) \<noteq> sid" using r(1) unfolding find_None_conv by simp
  moreover have "sc_id (f r) = sid" using r(2) by (simp add: f_def)
  ultimately show ?thesis ..
next
  case False
  with assms show ?thesis by (simp add: claim_one_def Let_def)
qed

lemma claim_each_run:
  "claim_each now dt sids db = (cs, db') \<Longrightarrow>
     schedule_run cfg \<lparr>sw_db = db, sw_claims = claims, sw_fired = fired\<rparr>
       \<lparr>sw_db = db', sw_claims = claims @ map (fresh_claim dt) cs, sw_fired = fired\<rparr>"
proof (induction sids arbitrary: db cs db' claims)
  case Nil
  then show ?case by (simp add: here)
next
  case (Cons sid sids)
  obtain r db1 where one: "claim_one now dt sid db = (r, db1)" by (cases "claim_one now dt sid db")
  obtain rs db2 where rest: "claim_each now dt sids db1 = (rs, db2)" by (cases "claim_each now dt sids db1")
  show ?case
  proof (cases r)
    case None
    then have "db1 = db" using one claim_one_lost by blast
    then show ?thesis using Cons rest one None by simp
  next
    case (Some c)
    let ?s = "\<lparr>sw_db = db, sw_claims = claims, sw_fired = fired\<rparr>"
    have "schedule_step cfg ?s (?s\<lparr>sw_db := db1, sw_claims := sw_claims ?s @ [fresh_claim dt c]\<rparr>)"
      by (rule claim_row) (use one Some in simp)
    then have step: "schedule_run cfg ?s \<lparr>sw_db = db1, sw_claims = claims @ [fresh_claim dt c], sw_fired = fired\<rparr>"
      by (simp add: schedule_run_step)
    have "schedule_run cfg \<lparr>sw_db = db1, sw_claims = claims @ [fresh_claim dt c], sw_fired = fired\<rparr>
       \<lparr>sw_db = db2, sw_claims = (claims @ [fresh_claim dt c]) @ map (fresh_claim dt) rs, sw_fired = fired\<rparr>"
      by (rule Cons.IH [OF rest])
    from schedule_run_trans [OF this step] show ?thesis using Cons.prems one rest Some by auto
  qed
qed

text \<open>No worker holds what the lease gives back.\<close>

definition lease_kept :: "instant \<Rightarrow> string option \<Rightarrow> claim list \<Rightarrow> schedule_db \<Rightarrow> bool" where
  "lease_kept dt tenant claims db \<longleftrightarrow>
     list_all (\<lambda>r. \<not> abandoned dt tenant r \<or> sc_id r \<notin> set (map claim_id claims)) (sd_rows db)"

lemma claim_due_run:
  assumes "claim_due_schedules now dt tenant limit db = (cs, db')" "lease_kept dt tenant claims db"
  shows "schedule_run cfg \<lparr>sw_db = db, sw_claims = claims, sw_fired = fired\<rparr>
     \<lparr>sw_db = db', sw_claims = claims @ map (fresh_claim dt) cs, sw_fired = fired\<rparr>"
proof -
  let ?s = "\<lparr>sw_db = db, sw_claims = claims, sw_fired = fired\<rparr>" and ?free = "reclaim_abandoned now dt tenant db"
  have "schedule_step cfg ?s (?s\<lparr>sw_db := reclaim_abandoned now dt tenant (sw_db ?s)\<rparr>)"
    by (rule reclaim_rows) (use assms(2) in \<open>auto simp: lease_kept_def list_all_iff\<close>)
  then have step: "schedule_run cfg ?s \<lparr>sw_db = ?free, sw_claims = claims, sw_fired = fired\<rparr>"
    by (simp add: schedule_run_step)
  have each: "claim_each now dt (select_due dt tenant limit ?free) ?free = (cs, db')"
    using assms(1) by (simp add: claim_due_schedules_def Let_def)
  show ?thesis by (rule schedule_run_trans [OF claim_each_run [OF each] step])
qed

section \<open>Execution\<close>

lemma start_claimed_db [simp]: "ss_db (snd (start_claimed cfg sch now s)) = ss_db s"
  by (simp add: start_claimed_def ret_def bind_eff_def start_instance_def split: option.split sum.split prod.split)

lemma finish_claimed_db:
  assumes "finish_claimed cfg sch now iid s = (r, s')"
  shows "(\<exists>e. tick_outcome cfg sch now = Inl e \<and> r = Inl e \<and> ss_db s' = ss_db s) \<or>
    (\<exists>status next_run updated. tick_outcome cfg sch now = Inr (status, next_run) \<and> r = Inr updated \<and>
       record_schedule_tick (sf_clock cfg (ss_supply s)) (sf_uuid cfg (ss_supply s)) (sf_outbox cfg) (sc_id sch) now next_run
         iid (sc_run_count sch + 1) status (sc_tenant_id sch) (ss_db s) = (updated, ss_db s'))"
proof (cases "tick_outcome cfg sch now")
  case (Inl e)
  then show ?thesis using assms by (simp add: finish_claimed_def bind_eff_def lift_res_def)
next
  case (Inr p)
  obtain status next_run where p: "p = (status, next_run)" by (cases p)
  obtain updated db where rec: "record_schedule_tick (sf_clock cfg (ss_supply s)) (sf_uuid cfg (ss_supply s)) (sf_outbox cfg)
      (sc_id sch) now next_run iid (sc_run_count sch + 1) status (sc_tenant_id sch) (ss_db s) = (updated, db)"
    by (cases "record_schedule_tick (sf_clock cfg (ss_supply s)) (sf_uuid cfg (ss_supply s)) (sf_outbox cfg)
      (sc_id sch) now next_run iid (sc_run_count sch + 1) status (sc_tenant_id sch) (ss_db s)")
  have "r = Inr updated \<and> ss_db s' = db"
    using assms Inr p rec
    by (auto simp: finish_claimed_def bind_eff_def lift_res_def write_tick_def seq_eff_def ret_def
        record_schedule_audit_def when_eff_def modify_def split: if_splits)
  with Inr p rec show ?thesis by simp
qed

text \<open>
  An execution leaves its claim out, recorded or never started, or leaves it started when the next
  run cannot be computed; it never raises.
\<close>

lemma execute_claimed_run:
  assumes run: "execute_claimed cfg sch now s = (r, s')"
  shows "\<exists>left started. ok r \<and> schedule_run cfg (world_of s (xs @ fresh_claim now sch # ys) fired)
      (world_of s' (xs @ left @ ys) (fired @ started))"
proof -
  let ?cl = "fresh_claim now sch"
  let ?w = "world_of s (xs @ ?cl # ys) fired"
  let ?occurrence = "(sc_id sch, the (sc_next_run_at sch))"
  obtain a s1 where start: "start_claimed cfg sch now s = (a, s1)" by (cases "start_claimed cfg sch now s")
  then have db1: "ss_db s1 = ss_db s" using start_claimed_db [of cfg sch now s] by simp
  show ?thesis
  proof (cases a)
    case (Inl e)
    then have "r = Inr None" "s' = s1" using run start by (simp_all add: execute_claimed_def attempt_eff_def bind_eff_def)
    moreover have "schedule_run cfg ?w (world_of s1 (xs @ [] @ ys) (fired @ []))"
      using schedule_run_step [OF drop_claim [of ?w xs ?cl ys cfg]] db1 by (simp add: world_of_def)
    ultimately show ?thesis by (metis ok_simps(1))
  next
    case (Inr iid)
    obtain b s2 where fin: "finish_claimed cfg sch now iid s1 = (b, s2)" by (cases "finish_claimed cfg sch now iid s1")
    have s': "s' = s2" "ok r"
      using run start Inr fin by (auto simp: execute_claimed_def attempt_eff_def bind_eff_def split: sum.splits)
    have started: "schedule_run cfg ?w (world_of s1 (xs @ ?cl\<lparr>cl_started := True\<rparr> # ys) (fired @ [?occurrence]))"
      using schedule_run_step [OF start_claim [of ?w xs ?cl ys cfg]] db1 by (simp add: world_of_def)
    let ?v = "world_of s1 (xs @ ?cl\<lparr>cl_started := True\<rparr> # ys) (fired @ [?occurrence])"
    from finish_claimed_db [OF fin] show ?thesis
    proof
      assume "\<exists>e. tick_outcome cfg sch now = Inl e \<and> b = Inl e \<and> ss_db s2 = ss_db s1"
      then have "world_of s2 (xs @ [?cl\<lparr>cl_started := True\<rparr>] @ ys) (fired @ [?occurrence]) = ?v" by (auto simp: world_of_def)
      with started s' show ?thesis by metis
    next
      assume "\<exists>status next_run updated. tick_outcome cfg sch now = Inr (status, next_run) \<and> b = Inr updated \<and>
         record_schedule_tick (sf_clock cfg (ss_supply s1)) (sf_uuid cfg (ss_supply s1)) (sf_outbox cfg) (sc_id sch) now next_run
           iid (sc_run_count sch + 1) status (sc_tenant_id sch) (ss_db s1) = (updated, ss_db s2)"
      then obtain status next_run updated where out: "tick_outcome cfg sch now = Inr (status, next_run)" and
        rec: "record_schedule_tick (sf_clock cfg (ss_supply s1)) (sf_uuid cfg (ss_supply s1)) (sf_outbox cfg) (sc_id sch) now
          next_run iid (sc_run_count sch + 1) status (sc_tenant_id sch) (ss_db s1) = (updated, ss_db s2)"
        by blast
      have "schedule_step cfg ?v (?v\<lparr>sw_db := ss_db s2, sw_claims := xs @ ys\<rparr>)"
        by (rule record_claim [where cl = "?cl\<lparr>cl_started := True\<rparr>"]) (use out rec in \<open>simp_all add: world_of_def\<close>)
      then have "schedule_run cfg ?v (world_of s2 (xs @ [] @ ys) (fired @ [?occurrence]))"
        by (simp add: world_of_def schedule_run_step)
      from schedule_run_trans [OF this started] s' show ?thesis by metis
    qed
  qed
qed

text \<open>Any work on the claims, one after the other, that never raises and is a path for each.\<close>

lemma gather_run:
  assumes each: "\<And>sch s r s' xs ys fired. f sch s = (r, s') \<Longrightarrow>
      \<exists>left started. ok r \<and> schedule_run cfg (world_of s (xs @ fresh_claim now sch # ys) fired)
        (world_of s' (xs @ left @ ys) (fired @ started))"
  shows "gather f schs s = (r, s') \<Longrightarrow>
      \<exists>left started. ok r \<and> schedule_run cfg (world_of s (xs @ map (fresh_claim now) schs) fired)
        (world_of s' (xs @ left) (fired @ started))"
proof (induction schs arbitrary: s r s' xs fired)
  case Nil
  then have "ok r \<and> schedule_run cfg (world_of s (xs @ map (fresh_claim now) []) fired) (world_of s' (xs @ []) (fired @ []))"
    by (auto simp: ret_def here)
  then show ?case by metis
next
  case (Cons sch schs)
  obtain a s1 where one: "f sch s = (a, s1)" by (cases "f sch s")
  obtain left started where first: "ok a" "schedule_run cfg (world_of s (xs @ fresh_claim now sch # map (fresh_claim now) schs) fired)
      (world_of s1 (xs @ left @ map (fresh_claim now) schs) (fired @ started))"
    using each [OF one] by metis
  obtain y where y: "a = Inr y" using first(1) by (cases a) auto
  obtain b s2 where rest: "gather f schs s1 = (b, s2)" by (cases "gather f schs s1")
  obtain left' started' where second: "ok b" "schedule_run cfg (world_of s1 ((xs @ left) @ map (fresh_claim now) schs) (fired @ started))
      (world_of s2 ((xs @ left) @ left') ((fired @ started) @ started'))"
    using Cons.IH [OF rest] by metis
  have "s' = s2" "ok r"
    using Cons.prems one y rest second(1) by (auto simp: bind_eff_def ret_def ok_iff split: sum.splits)
  moreover have "schedule_run cfg (world_of s (xs @ map (fresh_claim now) (sch # schs)) fired)
      (world_of s2 (xs @ (left @ left')) (fired @ (started @ started')))"
    using schedule_run_trans [of cfg _ _ "world_of s (xs @ map (fresh_claim now) (sch # schs)) fired"] first(2) second(2) by simp
  ultimately show ?case by blast
qed

lemma world_of_cong: "ss_db s = ss_db t \<Longrightarrow> world_of s claims fired = world_of t claims fired"
  by (simp add: world_of_def)

lemma tick_run:
  assumes "tick cfg now_dt tenant limit s = (r, s')"
    and "lease_kept (case now_dt of Some t \<Rightarrow> t | None \<Rightarrow> sf_clock cfg (ss_supply s)) tenant claims (ss_db s)"
  shows "\<exists>left started. ok r \<and> schedule_run cfg (world_of s claims fired) (world_of s' (claims @ left) (fired @ started))"
proof -
  let ?now = "case now_dt of Some t \<Rightarrow> t | None \<Rightarrow> sf_clock cfg (ss_supply s)"
  let ?s1 = "s\<lparr>ss_supply := Suc (ss_supply s)\<rparr>"
  obtain cs db where claim: "claim_due_schedules (sf_clock cfg (Suc (ss_supply s))) ?now tenant limit (ss_db s) = (cs, db)"
    by (cases "claim_due_schedules (sf_clock cfg (Suc (ss_supply s))) ?now tenant limit (ss_db s)")
  let ?s2 = "?s1\<lparr>ss_supply := Suc (Suc (ss_supply s)), ss_db := db\<rparr>"
  have "gather (\<lambda>sch. execute_claimed cfg sch ?now) cs ?s2 = (r, s')"
    using assms(1) claim by (simp add: tick_def claim_due_def bind_eff_def Let_def)
  from gather_run [OF execute_claimed_run this] obtain left started where
    "ok r" and rest: "schedule_run cfg (world_of ?s2 (claims @ map (fresh_claim ?now) cs) fired)
      (world_of s' (claims @ left) (fired @ started))"
    by metis
  moreover have "schedule_run cfg (world_of s claims fired) (world_of ?s2 (claims @ map (fresh_claim ?now) cs) fired)"
    using claim_due_run [OF claim assms(2)] by (simp add: world_of_def)
  ultimately show ?thesis using schedule_run_trans [OF rest] by blast
qed

lemma recover_claimed_run:
  assumes "recover_claimed cfg now sch s = (r, s')"
  shows "\<exists>left started. ok r \<and> schedule_run cfg (world_of s (xs @ fresh_claim now sch # ys) fired)
      (world_of s' (xs @ left @ ys) (fired @ started))"
proof -
  obtain a s1 where audit: "record_schedule_audit cfg ''kortex.workflow.schedule.recovery_catchup'' ''SCHEDULER''
        (sc_tenant_id sch) (sc_id sch)
        [(''name'', PStr (sc_name sch)), (''missed_occurrences'', PInt (estimate_missed cfg sch now)),
         (''originally_due_at'', iso_or_none cfg (sc_next_run_at sch)), (''recovered_at'', PStr (sf_isoformat cfg now))] s
      = (a, s1)" (is "?audit s = _") by (cases "?audit s")
  have "a = Inr ()" "ss_db s1 = ss_db s" using audit audit_db by (metis fst_conv, metis snd_conv)
  moreover from this have "execute_claimed cfg sch now s1 = (r, s')"
    using assms audit by (simp add: recover_claimed_def seq_eff_def bind_eff_def)
  ultimately show ?thesis using execute_claimed_run [of cfg sch now s1 r s' xs ys fired] world_of_cong [of s s1] by metis
qed

lemma recovery_run:
  assumes "hydrate_and_recover_schedules cfg tenant s = (r, s')"
    and "lease_kept (sf_clock cfg (ss_supply s)) tenant claims (ss_db s)"
  shows "\<exists>left started. ok r \<and> schedule_run cfg (world_of s claims fired) (world_of s' (claims @ left) (fired @ started))"
proof -
  let ?now = "sf_clock cfg (ss_supply s)"
  let ?s1 = "s\<lparr>ss_supply := Suc (ss_supply s)\<rparr>"
  obtain cs db where claim: "claim_due_schedules (sf_clock cfg (Suc (ss_supply s))) ?now tenant 200 (ss_db s) = (cs, db)"
    by (cases "claim_due_schedules (sf_clock cfg (Suc (ss_supply s))) ?now tenant 200 (ss_db s)")
  let ?s2 = "?s1\<lparr>ss_supply := Suc (Suc (ss_supply s)), ss_db := db\<rparr>"
  have "gather (recover_claimed cfg ?now) cs ?s2 = (r, s')"
    using assms(1) claim by (simp add: hydrate_and_recover_schedules_def claim_due_def bind_eff_def)
  from gather_run [OF recover_claimed_run this] obtain left started where
    "ok r" and rest: "schedule_run cfg (world_of ?s2 (claims @ map (fresh_claim ?now) cs) fired)
      (world_of s' (claims @ left) (fired @ started))"
    by metis
  moreover have "schedule_run cfg (world_of s claims fired) (world_of ?s2 (claims @ map (fresh_claim ?now) cs) fired)"
    using claim_due_run [OF claim assms(2)] by (simp add: world_of_def)
  ultimately show ?thesis using schedule_run_trans [OF rest] by blast
qed

section \<open>Zones\<close>

definition epoch :: wall where
  "epoch = \<lparr>at_year = 1970, at_month = 1, at_day = 1, at_hour = 0, at_minute = 0\<rparr>"

definition wall_at :: "nat \<Rightarrow> wall" where
  "wall_at n = (next_minute ^^ n) epoch"

text \<open>UTC from the epoch on, and a zone whose first hour is repeated.\<close>

definition utc_zones :: zone_ops where
  "utc_zones = \<lparr>zo_local = (\<lambda>_ t. if 0 \<le> t then Some (wall_at (nat (t div 60)), t mod 60 \<noteq> 0) else None),
     zo_instant = (\<lambda>_ w. (minutes w - minutes epoch) * 60)\<rparr>"

definition folded_zones :: zone_ops where
  "folded_zones = utc_zones\<lparr>zo_local := (\<lambda>zone t. zo_local utc_zones zone (if 3600 \<le> t then t - 3600 else t))\<rparr>"

lemma wall_at_minutes: "valid_wall (wall_at n) \<and> minutes (wall_at n) = minutes epoch + int n"
  unfolding wall_at_def by (rule next_minutes) (simp add: valid_wall_def epoch_def month_days_def)

lemma steady_utc: "steady_zones utc_zones"
  unfolding steady_zones_def
proof (intro allI impI conjI)
  fix zone after base seconds
  assume "zo_local utc_zones zone after = Some (base, seconds)"
  then have after: "0 \<le> after" and base: "base = wall_at (nat (after div 60))"
    by (auto simp: utc_zones_def split: if_splits)
  then have m: "minutes base = minutes epoch + after div 60" and v: "valid_wall base"
    using wall_at_minutes by simp_all
  show "valid_wall base" by (rule v)
  fix w assume "minutes base < minutes w"
  then have "after div 60 + 1 \<le> minutes w - minutes epoch" using m by simp
  then have "(after div 60 + 1) * 60 \<le> (minutes w - minutes epoch) * 60" by simp
  moreover have "after < (after div 60 + 1) * 60" by simp
  ultimately show "after < zo_instant utc_zones zone w" by (simp add: utc_zones_def)
qed

section \<open>Where the steps do not lead forward\<close>

lemma get_rewritten:
  assumes rewritten: "rewrite_schedule sid tid f db = Some (r, db')"
    and keep: "\<And>q. sc_id (f q) = sc_id q \<and> sc_tenant_id (f q) = sc_tenant_id q"
  shows "get_schedule sid (Some tid) db' = Some r"
proof -
  let ?g = "\<lambda>q. if sc_id q = sid \<and> sc_tenant_id q = tid then f q else q"
  let ?P = "\<lambda>q. sc_id q = sid \<and> tenant_is (Some tid) (sc_tenant_id q)"
  obtain r0 where r0: "find ?P (sd_rows db) = Some r0" "r = f r0"
    using rewritten by (auto simp: rewrite_schedule_def get_schedule_def split: option.splits)
  then have "?g r0 = r" using find_Some_conv [OF r0(1)] by (simp add: tenant_is_def)
  moreover have "find ?P (map ?g (sd_rows db)) = map_option ?g (find ?P (sd_rows db))"
    by (rule find_map_keep) (use keep in simp)
  ultimately show ?thesis using r0(1) by (simp add: get_schedule_def rewrite_rows [OF rewritten])
qed

text \<open>An execution whose next run cannot be computed keeps its claim, although its instance runs.\<close>

lemma failed_outcome_keeps_claim:
  assumes "tick_outcome cfg sch now = Inl e" "sf_start cfg = Some start"
    and "start (sc_definition_id sch) (tick_context cfg sch now) (sc_tenant_id sch) (ss_world s) = (Inr iid, w)"
  shows "execute_claimed cfg sch now s = (Inr None, s\<lparr>ss_world := w\<rparr>)"
  using assms by (simp add: execute_claimed_def attempt_eff_def bind_eff_def start_claimed_def start_instance_def
      ret_def finish_claimed_def lift_res_def)

end
