(* ===== verification/Schedule_Handlers.thy ===== *)
theory Schedule_Handlers
  imports Scheduler Engine_Handlers
begin

text \<open>
  The schedule capabilities of the workflow engine (\<open>engines/workflow/engine.py\<close>) over the
  scheduler, and the scheduler over the engine it starts instances with: the world of the scheduler
  is the state of the engine.
\<close>

section \<open>The scheduler on the engine\<close>

definition start_failure :: "engine_error \<Rightarrow> string" where
  "start_failure e = (case e of EngineNotFound did \<Rightarrow> did | EngineArchived did \<Rightarrow> did | _ \<Rightarrow> ''failed'')"

text \<open>A schedule starts an instance of its tenant without a principal and without a session token.\<close>

definition engine_start :: "'x engine_config \<Rightarrow> 'x engine_state starter" where
  "engine_start cfg did vars tenant s =
     (case start_workflow cfg did vars None (Some tenant) None s of
        (Inl e, s') \<Rightarrow> (Inl (start_failure e), s')
      | (Inr a, s') \<Rightarrow> (Inr (wi_id (object_at s' a)), s'))"

section \<open>Capabilities\<close>

text \<open>
  \<open>sh_time\<close> is \<open>datetime.fromisoformat\<close>, \<open>sh_uuid\<close> the canonical text of \<open>UUID(text)\<close>; \<^const>\<open>None\<close>
  is the \<open>ValueError\<close> of either.  Without a scheduler, \<open>sh_scheduler\<close> is \<^const>\<open>None\<close>.
\<close>

record 'x schedule_handler =
  sh_scheduler :: "'x engine_state scheduler_config option"
  sh_time :: "string \<Rightarrow> instant option"
  sh_uuid :: "string \<Rightarrow> string option"

datatype call_error = Call_schedule schedule_error | Call_denied string string | Call_value string | Call_missing

type_synonym ('x, 'a) schedule_call = "('x engine_state scheduler_state, call_error, 'a) eff"

definition as_call :: "('x engine_state, 'a) schedule_op \<Rightarrow> ('x, 'a) schedule_call" where
  "as_call m s = (case m s of (Inl e, s') \<Rightarrow> (Inl (Call_schedule e), s') | (Inr x, s') \<Rightarrow> (Inr x, s'))"

definition with_scheduler ::
  "'x schedule_handler \<Rightarrow> ('x engine_state scheduler_config \<Rightarrow> ('x, 'a) schedule_call) \<Rightarrow> ('x, 'a) schedule_call" where
  "with_scheduler h f = (case sh_scheduler h of None \<Rightarrow> raise_error Call_missing | Some cfg \<Rightarrow> f cfg)"

definition count_schedule :: "engine_metric \<Rightarrow> ('x, unit) schedule_call" where
  "count_schedule m s = (Inr (), s\<lparr>ss_world := snd (count_metric m 1 (ss_world s))\<rparr>)"

definition schedule_type_of :: "string \<Rightarrow> schedule_type option" where
  "schedule_type_of v = find (\<lambda>t. schedule_type_value t = v) [Sch_CRON, Sch_INTERVAL, Sch_ONCE]"

datatype run_at_arg = At_text string | At_instant instant | At_none

definition read_run_at :: "'x schedule_handler \<Rightarrow> run_at_arg \<Rightarrow> call_error + instant option" where
  "read_run_at h at =
     (case at of
        At_none \<Rightarrow> Inr None
      | At_instant t \<Rightarrow> Inr (Some t)
      | At_text v \<Rightarrow> (case sh_time h v of None \<Rightarrow> Inl (Call_value v) | Some t \<Rightarrow> Inr (Some t)))"

definition create_tenant :: "execution_context option \<Rightarrow> string option \<Rightarrow> call_error + string" where
  "create_tenant ec tenant =
     (case ec of
        None \<Rightarrow> Inr (py_or (opt_tenant tenant) ''default'')
      | Some e \<Rightarrow>
          (case tenant of
             None \<Rightarrow> Inr (ec_tenant_id e)
           | Some t \<Rightarrow> if t \<noteq> ec_tenant_id e then Inl (Call_denied t (ec_tenant_id e)) else Inr (ec_tenant_id e)))"

definition schedule_view ::
  "'w scheduler_config \<Rightarrow> schedule \<Rightarrow> (string, pyval) dict \<Rightarrow> (string, pyval) dict" where
  "schedule_view cfg s extra =
     [(''id'', PStr (sc_id s)), (''name'', PStr (sc_name s)), (''definition_id'', PStr (sc_definition_id s)),
      (''schedule_type'', PStr (schedule_type_value (sc_type s))), (''cron_expression'', opt_str (sc_cron s)),
      (''interval_seconds'', opt_int (sc_interval s)), (''next_run_at'', iso_or_none cfg (sc_next_run_at s))] @ extra"

definition status_view :: "schedule \<Rightarrow> (string, pyval) dict" where
  "status_view s =
     [(''id'', PStr (sc_id s)), (''name'', PStr (sc_name s)), (''status'', PStr (schedule_status_value (sc_status s))),
      (''tenant_id'', PStr (sc_tenant_id s))]"

definition call_create_schedule ::
  "'x schedule_handler \<Rightarrow> string \<Rightarrow> string \<Rightarrow> string \<Rightarrow> string option \<Rightarrow> int option \<Rightarrow> run_at_arg \<Rightarrow> (string, pyval) dict \<Rightarrow>
   int option \<Rightarrow> string \<Rightarrow> string option \<Rightarrow> execution_context option \<Rightarrow> ('x, (string, pyval) dict) schedule_call" where
  "call_create_schedule h name did typ cron interval run_at vars max_runs zone tenant ec =
     with_scheduler h (\<lambda>cfg.
       bind_eff (lift_res (create_tenant ec tenant)) (\<lambda>tid.
       bind_eff (lift_res (read_run_at h run_at)) (\<lambda>at.
       bind_eff (lift_res (case schedule_type_of typ of None \<Rightarrow> Inl (Call_value typ) | Some t \<Rightarrow> Inr t)) (\<lambda>t.
       bind_eff (as_call (create_schedule cfg
          \<lparr>rq_name = name, rq_definition = did, rq_type = t, rq_cron = cron, rq_interval = interval, rq_run_at = at,
           rq_context = vars, rq_max_runs = max_runs, rq_timezone = zone\<rparr> tid
          (case ec of None \<Rightarrow> None | Some e \<Rightarrow> ec_principal e))) (\<lambda>s.
       seq_eff (count_schedule Schedules_created)
        (ret (schedule_view cfg s
           [(''status'', PStr (schedule_status_value (sc_status s))), (''tenant_id'', PStr (sc_tenant_id s))])))))))"

text \<open>A principal is authoritative over the tenant it passes when listing and reading.\<close>

definition read_tenant :: "security_principal option \<Rightarrow> string option \<Rightarrow> string" where
  "read_tenant who tenant = call_tenant who (py_or (opt_tenant tenant) ''default'')"

definition call_list_schedules ::
  "'x schedule_handler \<Rightarrow> string option \<Rightarrow> string option \<Rightarrow> security_principal option \<Rightarrow>
   ('x, (string, pyval) dict list) schedule_call" where
  "call_list_schedules h tenant status who =
     (case sh_scheduler h of
        None \<Rightarrow> ret []
      | Some cfg \<Rightarrow> reads (\<lambda>s. map (\<lambda>r. schedule_view cfg r
          [(''status'', PStr (schedule_status_value (sc_status r))), (''run_count'', PInt (sc_run_count r)),
           (''tenant_id'', PStr (sc_tenant_id r))]) (list_schedules (read_tenant who tenant) status (ss_db s))))"

text \<open>By identifier, or by name when the text is not an identifier.\<close>

definition call_get_schedule ::
  "'x schedule_handler \<Rightarrow> string \<Rightarrow> string option \<Rightarrow> security_principal option \<Rightarrow> ('x, (string, pyval) dict) schedule_call" where
  "call_get_schedule h sid tenant who =
     with_scheduler h (\<lambda>cfg s.
       let tid = read_tenant who tenant
       in case (case sh_uuid h sid of
                  Some u \<Rightarrow> get_schedule u (Some tid) (ss_db s)
                | None \<Rightarrow> get_schedule_by_name sid tid (ss_db s)) of
            None \<Rightarrow> (Inl (Call_schedule (ScheduleNotFound sid tid)), s)
          | Some r \<Rightarrow> (Inr (schedule_view cfg r
              [(''last_run_at'', iso_or_none cfg (sc_last_run_at r)), (''status'', PStr (schedule_status_value (sc_status r))),
               (''run_count'', PInt (sc_run_count r)), (''tenant_id'', PStr (sc_tenant_id r))]), s))"

definition call_pause_schedule ::
  "'x schedule_handler \<Rightarrow> string \<Rightarrow> string option \<Rightarrow> security_principal option \<Rightarrow> ('x, (string, pyval) dict) schedule_call" where
  "call_pause_schedule h sid tenant who =
     with_scheduler h (\<lambda>cfg.
       bind_eff (as_call (pause_schedule cfg sid (py_or (opt_tenant tenant) ''default'') who)) (\<lambda>s. ret (status_view s)))"

definition call_resume_schedule ::
  "'x schedule_handler \<Rightarrow> string \<Rightarrow> string option \<Rightarrow> security_principal option \<Rightarrow> ('x, (string, pyval) dict) schedule_call" where
  "call_resume_schedule h sid tenant who =
     with_scheduler h (\<lambda>cfg.
       bind_eff (as_call (resume_schedule cfg sid (py_or (opt_tenant tenant) ''default'') who)) (\<lambda>s.
         ret (dict_set ''next_run_at'' (iso_or_none cfg (sc_next_run_at s)) (status_view s))))"

definition call_cancel_schedule ::
  "'x schedule_handler \<Rightarrow> string \<Rightarrow> string option \<Rightarrow> security_principal option \<Rightarrow> ('x, (string, pyval) dict) schedule_call" where
  "call_cancel_schedule h sid tenant who =
     with_scheduler h (\<lambda>cfg.
       bind_eff (as_call (cancel_schedule cfg sid (py_or (opt_tenant tenant) ''default'') who)) (\<lambda>s. ret (status_view s)))"

definition call_trigger_schedule ::
  "'x schedule_handler \<Rightarrow> string \<Rightarrow> string option \<Rightarrow> security_principal option \<Rightarrow> ('x, string) schedule_call" where
  "call_trigger_schedule h sid tenant who =
     with_scheduler h (\<lambda>cfg.
       bind_eff (as_call (trigger_schedule cfg sid (py_or (opt_tenant tenant) ''default'') who)) (\<lambda>iid.
         seq_eff (count_schedule Schedules_triggered) (ret iid)))"

end
