(* ===== verification/Schedule_Properties.thy ===== *)
theory Schedule_Properties
  imports Scheduler_Correct Schedule_Handlers
begin

text \<open>
  What the scheduler promises, and where it does not.
\<close>

section \<open>A small scheduler\<close>

definition demo_scheduler :: "nat scheduler_config" where
  "demo_scheduler = \<lparr>sf_outbox = True, sf_audit = True,
     sf_start = Some (\<lambda>did vars tid n. (Inr (replicate n CHR ''i''), n + 1)),
     sf_zones = utc_zones, sf_isoformat = (\<lambda>_. ''2026''), sf_clock = int, sf_uuid = (\<lambda>n. replicate n CHR ''x'')\<rparr>"

definition demo_schedule :: schedule where
  "demo_schedule = requested_schedule ''s1'' 0 (Some 60) ''acme'' ''alice''
     \<lparr>rq_name = ''nightly'', rq_definition = ''flow'', rq_type = Sch_INTERVAL, rq_cron = None, rq_interval = Some 60,
      rq_run_at = None, rq_context = [], rq_max_runs = None, rq_timezone = ''UTC''\<rparr>"

definition demo_claimed :: schedule where
  "demo_claimed = demo_schedule\<lparr>sc_status := Sch_TRIGGERING, sc_updated_at := 61\<rparr>"

definition demo_world :: "schedule \<Rightarrow> claim list \<Rightarrow> (string \<times> instant) list \<Rightarrow> schedule_world" where
  "demo_world r claims fired = \<lparr>sw_db = \<lparr>sd_rows = [r], sd_outbox = []\<rparr>, sw_claims = claims, sw_fired = fired\<rparr>"

lemma demo_schedule_run:
  "schedule_run demo_scheduler no_schedules
     (demo_world demo_claimed [\<lparr>cl_schedule = demo_claimed, cl_time = 61, cl_started = True\<rparr>] [(''s1'', 60)])"
proof -
  let ?cl = "\<lparr>cl_schedule = demo_claimed, cl_time = 61, cl_started = False\<rparr>"
  have "save_schedule 0 ''e'' False demo_schedule ''acme'' (sw_db no_schedules) = Some \<lparr>sd_rows = [demo_schedule], sd_outbox = []\<rparr>"
    by (simp add: save_schedule_def name_taken_def no_schedules_def schedule_to_model_def stage_schedule_event_def
        demo_schedule_def requested_schedule_def py_or_def sanitize_dict_def)
  then have "schedule_step demo_scheduler no_schedules (no_schedules\<lparr>sw_db := \<lparr>sd_rows = [demo_schedule], sd_outbox = []\<rparr>\<rparr>)"
    by (intro create_row) (simp_all add: no_schedules_def)
  then have created: "schedule_run demo_scheduler no_schedules (demo_world demo_schedule [] [])"
    by (simp add: schedule_run_step no_schedules_def demo_world_def)
  have "claim_one 61 61 ''s1'' (sw_db (demo_world demo_schedule [] [])) = (Some demo_claimed, \<lparr>sd_rows = [demo_claimed], sd_outbox = []\<rparr>)"
    by (simp add: claim_one_def demo_world_def demo_claimed_def demo_schedule_def requested_schedule_def due_at_def)
  from claim_row [where cfg = demo_scheduler, OF this]
  have claimed: "schedule_run demo_scheduler no_schedules (demo_world demo_claimed [?cl] [])"
    using further [OF created] by (simp add: demo_world_def)
  have "schedule_step demo_scheduler (demo_world demo_claimed [?cl] [])
      ((demo_world demo_claimed [?cl] [])\<lparr>sw_claims := [] @ ?cl\<lparr>cl_started := True\<rparr> # [],
        sw_fired := sw_fired (demo_world demo_claimed [?cl] []) @ [(sc_id (cl_schedule ?cl), the (sc_next_run_at (cl_schedule ?cl)))]\<rparr>)"
    by (rule start_claim) (simp_all add: demo_world_def)
  from further [OF claimed this] show ?thesis
    by (simp add: demo_world_def demo_claimed_def demo_schedule_def requested_schedule_def)
qed

section \<open>Ticks\<close>

text \<open>
  C8. However the transactions of concurrent scheduler workers, of creations and of stops
  interleave, in a zone whose clock never goes back, with workers that finish within the lease
  or die before starting, an occurrence of a schedule is started at most once, and no two claims
  hold the same schedule.
\<close>

theorem each_occurrence_started_once:
  assumes "steady_zones (sf_zones cfg)" "schedule_run cfg no_schedules s"
  shows "distinct (sw_fired s) \<and> distinct (map (sc_id \<circ> cl_schedule) (sw_claims s))"
  using inv_schedule_run [OF assms(2, 1) inv_no_schedules] by (simp add: schedule_inv_def comp_def)

theorem each_occurrence_started_once_witness:
  "sf_zones demo_scheduler = utc_zones \<and> distinct (sw_fired (demo_world demo_claimed
     [\<lparr>cl_schedule = demo_claimed, cl_time = 61, cl_started = True\<rparr>] [(''s1'', 60)]))"
proof -
  have zones: "sf_zones demo_scheduler = utc_zones" by (simp add: demo_scheduler_def)
  with each_occurrence_started_once [OF _ demo_schedule_run] steady_utc show ?thesis by simp
qed



section \<open>Cron\<close>

text \<open>
  C11. A cron expression that parses has five non-empty fields whose values lie in their ranges.
\<close>

theorem cron_fields_in_range:
  assumes "parse_cron expr = Inr spec"
  shows "spec_in_range spec"
  using assms by (rule parse_cron_in_range)

theorem cron_fields_in_range_witness:
  "spec_in_range \<lparr>cs_minutes = [0], cs_hours = [0], cs_days_of_month = [29], cs_months = [2],
     cs_days_of_week = [0, 1, 2, 3, 4, 5, 6], cs_dom_restricted = True, cs_dow_restricted = False\<rparr>"
  by (rule cron_fields_in_range [of "''0 0 29 2 *''"]) code_simp

text \<open>
  C10. The cron search, which skips months, days and hours, finds exactly what trying every
  minute after the base finds: the first matching minute before the horizon, or none.
\<close>

theorem next_cron_run_first:
  assumes "parse_cron expr = Inr spec" "zo_local zones zone after = Some (base, seconds)" "valid_wall base"
  shows "compute_next_cron_run zones expr after days zone =
     (case minute_search (nat (days * 1440 + (if seconds then 1 else 0) - 1)) spec (next_minute base) of
        None \<Rightarrow> Inl (CronNoMatch days)
      | Some w \<Rightarrow> Inr (zo_instant zones zone w))"
  using assms
  by (simp add: compute_next_cron_run_def cron_search_exact minutes_next_minute search_limit_def algebra_simps)

theorem next_cron_run_first_witness:
  "compute_next_cron_run utc_zones ''30 9 * * 1'' 0 366 ''UTC'' =
     (case minute_search (366 * 1440 - 1) \<lparr>cs_minutes = [30], cs_hours = [9], cs_days_of_month = [1 .. 31], cs_months = [1 .. 12],
        cs_days_of_week = [1], cs_dom_restricted = False, cs_dow_restricted = True\<rparr> (next_minute epoch) of
        None \<Rightarrow> Inl (CronNoMatch 366)
      | Some w \<Rightarrow> Inr (zo_instant utc_zones ''UTC'' w))"
proof -
  have spec: "parse_cron ''30 9 * * 1'' = Inr \<lparr>cs_minutes = [30], cs_hours = [9], cs_days_of_month = [1 .. 31], cs_months = [1 .. 12],
      cs_days_of_week = [1], cs_dom_restricted = False, cs_dow_restricted = True\<rparr>" by code_simp
  have "zo_local utc_zones ''UTC'' 0 = Some (epoch, False)" by (simp add: utc_zones_def wall_at_def)
  from next_cron_run_first [OF spec this, of 366] show ?thesis by (simp add: valid_wall_def epoch_def month_days_def)
qed

section \<open>Divergences\<close>

text \<open>
  Closed computations that show where the scheduler departs from what its documentation says; the
  manifest's findings name them.
\<close>

text \<open>A wall clock that is set back: the run after the second midnight is in the first hour.\<close>

theorem folded_run_is_earlier:
  "compute_next_cron_run folded_zones ''* * * * *'' 3600 366 ''fold'' = Inr 60"
  by code_simp

text \<open>A leap day is further away than the horizon of the search.\<close>

theorem leap_day_has_no_next:
  assumes "zo_local zones zone after =
     Some (\<lparr>at_year = 2028, at_month = 2, at_day = 29, at_hour = 0, at_minute = 0\<rparr>, False)"
  shows "compute_next_cron_run zones ''0 0 29 2 *'' after 366 zone = Inl (CronNoMatch 366)"
proof -
  have "parse_cron ''0 0 29 2 *'' = Inr \<lparr>cs_minutes = [0], cs_hours = [0], cs_days_of_month = [29], cs_months = [2],
      cs_days_of_week = [0, 1, 2, 3, 4, 5, 6], cs_dom_restricted = True, cs_dow_restricted = False\<rparr>" by code_simp
  moreover have "cron_search \<lparr>cs_minutes = [0], cs_hours = [0], cs_days_of_month = [29], cs_months = [2],
      cs_days_of_week = [0, 1, 2, 3, 4, 5, 6], cs_dom_restricted = True, cs_dow_restricted = False\<rparr>
      (search_limit \<lparr>at_year = 2028, at_month = 2, at_day = 29, at_hour = 0, at_minute = 0\<rparr> False 366)
      (next_minute \<lparr>at_year = 2028, at_month = 2, at_day = 29, at_hour = 0, at_minute = 0\<rparr>) = None" by code_simp
  ultimately show ?thesis using assms by (simp add: compute_next_cron_run_def)
qed

text \<open>Such a schedule starts its instance and stays claimed, so the lease gives it back and it is started again.\<close>

theorem unrecorded_tick_starts_again:
  assumes "tick_outcome cfg sch now = Inl e" "sf_start cfg = Some start"
    "start (sc_definition_id sch) (tick_context cfg sch now) (sc_tenant_id sch) (ss_world s) = (Inr iid, w)"
    "sd_rows (ss_db s) = [sch]" "sc_status sch = Sch_TRIGGERING" "sc_next_run_at sch = Some due" "due \<le> later"
    "sc_updated_at sch < later - SCHEDULE_CLAIM_LEASE_SECONDS"
  shows "execute_claimed cfg sch now s = (Inr None, s\<lparr>ss_world := w\<rparr>) \<and>
    map sc_id (fst (claim_due_schedules later later None (Suc n) (ss_db s))) = [sc_id sch]"
  using failed_outcome_keeps_claim [OF assms(1-3)] assms(4-)
  by (simp add: claim_due_schedules_def reclaim_abandoned_def select_due_def due_at_def tenant_is_def claim_one_def Let_def)

text \<open>Sunday is accepted as 7, but not as the end of a range.\<close>

theorem sunday_range_refused:
  "ok (parse_cron ''0 0 * * 7'') \<and> \<not> ok (parse_cron ''0 0 * * 5-7'')"
  by code_simp

text \<open>A tick in progress writes its status over a pause or a cancellation.\<close>

theorem tick_overwrites_stop:
  assumes "update_schedule_status now e staged sid Sch_DISABLED tid db = (Some r, db1)"
  shows "map_option sc_status
     (fst (record_schedule_tick now' e' staged' sid last_run next_run inst count Sch_ACTIVE tid db1)) = Some Sch_ACTIVE"
proof -
  let ?off = "\<lambda>r. r\<lparr>sc_status := Sch_DISABLED, sc_updated_at := now\<rparr>"
  obtain db' where off: "rewrite_schedule sid tid ?off db = Some (r, db')" and rows: "sd_rows db1 = sd_rows db'"
    using assms by (auto simp: update_schedule_status_def split: option.splits prod.splits)
  have "get_schedule sid (Some tid) db1 = Some r"
    using get_rewritten [OF off] rows by (simp add: get_schedule_def)
  then show ?thesis by (simp add: record_schedule_tick_def rewrite_schedule_def)
qed

text \<open>Resuming makes any schedule active, also one that has completed its runs or was cancelled.\<close>

theorem resume_revives_any:
  assumes "resume_schedule cfg sid tenant who s = (Inr sch, t)"
  shows "sc_status sch = Sch_ACTIVE"
  using assms by (auto simp: resume_schedule_def bind_eff_def seq_eff_def lift_res_def ret_def Let_def
      split: prod.splits sum.splits)

end
