(* ===== verification/Idempotency.thy ===== *)
theory Idempotency
  imports Access_Control
begin

text \<open>
  The idempotency store of the dispatcher (\<open>core/idempotency.py\<close>): claiming a key, completion,
  failure and release.  JSON columns are the values they encode.  A claim reads the row in one
  statement and writes in another, so the row it judges can be older than the table it writes to.
\<close>

section \<open>Records\<close>

datatype idempotency_state = Idem_PROCESSING | Idem_COMPLETED | Idem_FAILED
datatype claim_result = CLAIMED | COMPLETED_BEFORE | IN_PROGRESS

record idempotency_record =
  im_id :: string
  im_tenant :: string
  im_key :: string
  im_capability :: string
  im_request :: string
  im_correlation :: string
  im_state :: idempotency_state
  im_response :: "pyval option"
  im_error :: "string option"
  im_updated :: instant

record idempotency_store =
  is_rows :: "idempotency_record list"
  is_cache :: "memory_cache option"

definition STALE_PROCESSING_LEASE_SECONDS :: int where "STALE_PROCESSING_LEASE_SECONDS = 300"

definition RESPONSE_TTL_SECONDS :: int where "RESPONSE_TTL_SECONDS = 86400"

definition idempotency_cache_key :: "string \<Rightarrow> string \<Rightarrow> string" where
  "idempotency_cache_key tenant key = ''kortex:idemp:'' @ tenant @ '':'' @ key"

definition record_of :: "string \<Rightarrow> string \<Rightarrow> idempotency_record \<Rightarrow> bool" where
  "record_of tenant key r \<longleftrightarrow> im_tenant r = tenant \<and> im_key r = key"

definition get_record :: "string \<Rightarrow> string \<Rightarrow> idempotency_store \<Rightarrow> idempotency_record option" where
  "get_record tenant key st = find (record_of tenant key) (is_rows st)"

section \<open>Claims\<close>

text \<open>A conditional UPDATE of the row with an identifier: the number of rows it hits must be one.\<close>

definition swap_rows ::
  "(idempotency_record \<Rightarrow> bool) \<Rightarrow> (idempotency_record \<Rightarrow> idempotency_record) \<Rightarrow> idempotency_store \<Rightarrow> bool \<times> idempotency_store" where
  "swap_rows won f st =
     (length (filter won (is_rows st)) = 1, st\<lparr>is_rows := map (\<lambda>r. if won r then f r else r) (is_rows st)\<rparr>)"

definition stale_at :: "instant \<Rightarrow> idempotency_record \<Rightarrow> bool" where
  "stale_at now r \<longleftrightarrow> im_state r = Idem_PROCESSING \<and> im_updated r < now - STALE_PROCESSING_LEASE_SECONDS"

definition claim_swap ::
  "(idempotency_record \<Rightarrow> bool) \<Rightarrow> (idempotency_record \<Rightarrow> idempotency_record) \<Rightarrow> idempotency_store \<Rightarrow>
   claim_result \<times> pyval option \<times> idempotency_store" where
  "claim_swap won f st =
     (case swap_rows won f st of (hit, st') \<Rightarrow> (if hit then CLAIMED else IN_PROGRESS, None, st'))"

text \<open>The outcome for a row that was read: its response, a retry of a failure, or a reclaim.\<close>

definition evaluate_row ::
  "instant \<Rightarrow> string \<Rightarrow> string \<Rightarrow> idempotency_record \<Rightarrow> idempotency_store \<Rightarrow>
   claim_result \<times> pyval option \<times> idempotency_store" where
  "evaluate_row now request correlation row st =
     (case im_state row of
        Idem_COMPLETED \<Rightarrow> (COMPLETED_BEFORE, im_response row, st)
      | Idem_PROCESSING \<Rightarrow>
          if now - STALE_PROCESSING_LEASE_SECONDS \<le> im_updated row then (IN_PROGRESS, None, st)
          else claim_swap (\<lambda>r. im_id r = im_id row \<and> stale_at now r)
                 (\<lambda>r. r\<lparr>im_request := request, im_correlation := correlation, im_updated := now\<rparr>) st
      | Idem_FAILED \<Rightarrow>
          claim_swap (\<lambda>r. im_id r = im_id row \<and> im_state r = Idem_FAILED)
            (\<lambda>r. r\<lparr>im_state := Idem_PROCESSING, im_request := request, im_correlation := correlation,
                   im_error := None, im_updated := now\<rparr>) st)"

text \<open>
  An insert that collides with the unique key of tenant and key is judged by the row it collided with.
\<close>

definition claim_with ::
  "instant \<Rightarrow> string \<Rightarrow> string \<Rightarrow> string \<Rightarrow> string \<Rightarrow> string \<Rightarrow> string \<Rightarrow> idempotency_record option \<Rightarrow> idempotency_store \<Rightarrow>
   claim_result \<times> pyval option \<times> idempotency_store" where
  "claim_with now new_id tenant key capability request correlation read st =
     (case read of
        Some row \<Rightarrow> evaluate_row now request correlation row st
      | None \<Rightarrow>
          (case get_record tenant key st of
             Some row \<Rightarrow> evaluate_row now request correlation row st
           | None \<Rightarrow>
               (CLAIMED, None, st\<lparr>is_rows := is_rows st @
                  [\<lparr>im_id = new_id, im_tenant = tenant, im_key = key, im_capability = capability, im_request = request,
                    im_correlation = correlation, im_state = Idem_PROCESSING, im_response = None, im_error = None,
                    im_updated = now\<rparr>]\<rparr>)))"

text \<open>A cached response answers at once; a cached \<open>None\<close> is no answer.\<close>

definition cached_response ::
  "instant \<Rightarrow> string \<Rightarrow> string \<Rightarrow> idempotency_store \<Rightarrow> pyval option \<times> idempotency_store" where
  "cached_response now tenant key st =
     (case is_cache st of
        None \<Rightarrow> (None, st)
      | Some c \<Rightarrow>
          (case cache_get c (idempotency_cache_key tenant key) now of
             (v, c') \<Rightarrow> ((case v of Some PNone \<Rightarrow> None | _ \<Rightarrow> v), st\<lparr>is_cache := Some c'\<rparr>)))"

definition claim_reading ::
  "instant \<Rightarrow> string \<Rightarrow> string \<Rightarrow> string \<Rightarrow> string \<Rightarrow> string \<Rightarrow> string \<Rightarrow> idempotency_record option \<Rightarrow> idempotency_store \<Rightarrow>
   claim_result \<times> pyval option \<times> idempotency_store" where
  "claim_reading now new_id tenant key capability request correlation read st =
     (case cached_response now tenant key st of
        (Some v, st') \<Rightarrow> (COMPLETED_BEFORE, Some v, st')
      | (None, st') \<Rightarrow> claim_with now new_id tenant key capability request correlation read st')"

definition claim_or_get_execution ::
  "instant \<Rightarrow> string \<Rightarrow> string \<Rightarrow> string \<Rightarrow> string \<Rightarrow> string \<Rightarrow> string \<Rightarrow> idempotency_store \<Rightarrow>
   claim_result \<times> pyval option \<times> idempotency_store" where
  "claim_or_get_execution now new_id tenant key capability request correlation st =
     claim_reading now new_id tenant key capability request correlation (get_record tenant key st) st"

section \<open>Outcomes\<close>

definition write_record ::
  "string \<Rightarrow> string \<Rightarrow> (idempotency_record \<Rightarrow> idempotency_record) \<Rightarrow> idempotency_store \<Rightarrow> idempotency_store" where
  "write_record tenant key f st = st\<lparr>is_rows := map (\<lambda>r. if record_of tenant key r then f r else r) (is_rows st)\<rparr>"

definition record_completed :: "instant \<Rightarrow> string \<Rightarrow> string \<Rightarrow> pyval \<Rightarrow> idempotency_store \<Rightarrow> idempotency_store" where
  "record_completed now tenant key response st =
     (let v = sanitize_for_persistence response;
          st' = write_record tenant key
            (\<lambda>r. r\<lparr>im_state := Idem_COMPLETED, im_response := Some v, im_error := None, im_updated := now\<rparr>) st
      in st'\<lparr>is_cache := map_option (\<lambda>c. cache_set c (idempotency_cache_key tenant key) v (Some RESPONSE_TTL_SECONDS) now)
               (is_cache st')\<rparr>)"

definition forget_response :: "string \<Rightarrow> string \<Rightarrow> idempotency_store \<Rightarrow> idempotency_store" where
  "forget_response tenant key st =
     st\<lparr>is_cache := map_option (\<lambda>c. snd (cache_delete c (idempotency_cache_key tenant key))) (is_cache st)\<rparr>"

definition record_failed :: "instant \<Rightarrow> string \<Rightarrow> string \<Rightarrow> string \<Rightarrow> idempotency_store \<Rightarrow> idempotency_store" where
  "record_failed now tenant key err st =
     forget_response tenant key (write_record tenant key
       (\<lambda>r. r\<lparr>im_state := Idem_FAILED, im_error := Some (take 1000 err), im_updated := now\<rparr>) st)"

text \<open>Only a claim that this request holds is released.\<close>

definition release_claim_if_owned ::
  "instant \<Rightarrow> string \<Rightarrow> string \<Rightarrow> string \<Rightarrow> string \<Rightarrow> idempotency_store \<Rightarrow> bool \<times> idempotency_store" where
  "release_claim_if_owned now tenant key request err st =
     (case swap_rows (\<lambda>r. record_of tenant key r \<and> im_request r = request \<and> im_state r = Idem_PROCESSING)
             (\<lambda>r. r\<lparr>im_state := Idem_FAILED, im_error := Some (take 1000 err), im_updated := now\<rparr>) st of
        (released, st') \<Rightarrow> (released, if released then forget_response tenant key st' else st'))"

end
