(* ===== verification/Idempotency_Correct.thy ===== *)
theory Idempotency_Correct
  imports Idempotency Approval_Correct
begin

text \<open>
  Concurrent requests on the idempotency store, as a step relation: claims with rows read before,
  completions, failures, crashes, claims lost to a cancellation and their release.
\<close>

section \<open>Steps\<close>

record mutation_worker =
  mw_key :: "string \<times> string"
  mw_request :: string

text \<open>\<open>iw_done\<close> are the completed executions with their recorded responses.\<close>

record idempotency_world =
  iw_store :: idempotency_store
  iw_workers :: "mutation_worker list"
  iw_done :: "((string \<times> string) \<times> pyval) list"

definition keyed :: "idempotency_record \<Rightarrow> string \<times> string" where
  "keyed r = (im_tenant r, im_key r)"

abbreviation rows_of :: "idempotency_world \<Rightarrow> idempotency_record list" where
  "rows_of s \<equiv> is_rows (iw_store s)"

text \<open>The separator of cache keys does not occur in a tenant.\<close>

definition plain_tenant :: "string \<Rightarrow> bool" where
  "plain_tenant t \<longleftrightarrow> CHR '':'' \<notin> set t"

text \<open>
  What a claim may assume: the row it read is one of the table, its new identifiers are new, and no
  worker holds a record for longer than the lease.
\<close>

definition claim_allowed ::
  "instant \<Rightarrow> string \<Rightarrow> string \<Rightarrow> string \<Rightarrow> string \<Rightarrow> idempotency_record option \<Rightarrow> idempotency_world \<Rightarrow> bool" where
  "claim_allowed now new_id tenant key request read s \<longleftrightarrow>
     plain_tenant tenant \<and> new_id \<notin> im_id ` set (rows_of s) \<and> request \<notin> mw_request ` set (iw_workers s) \<and>
     (\<forall>row. read = Some row \<longrightarrow> (\<exists>r \<in> set (rows_of s). im_id r = im_id row \<and> keyed r = (tenant, key))) \<and>
     (\<forall>r \<in> set (rows_of s). stale_at now r \<longrightarrow> keyed r \<notin> mw_key ` set (iw_workers s))"

inductive idempotency_step :: "idempotency_world \<Rightarrow> idempotency_world \<Rightarrow> bool" where
  claims: "claim_allowed now new_id tenant key request read s \<Longrightarrow>
     claim_reading now new_id tenant key capability request correlation read (iw_store s) = (result, v, st) \<Longrightarrow>
     idempotency_step s (s\<lparr>iw_store := st, iw_workers := (if result = CLAIMED
       then iw_workers s @ [\<lparr>mw_key = (tenant, key), mw_request = request\<rparr>] else iw_workers s)\<rparr>)"
| loses_claim: "claim_allowed now new_id tenant key request read s \<Longrightarrow>
     claim_reading now new_id tenant key capability request correlation read (iw_store s) = (result, v, st) \<Longrightarrow>
     idempotency_step s (s\<lparr>iw_store := st\<rparr>)"
| completes: "iw_workers s = xs @ w # ys \<Longrightarrow>
     idempotency_step s (s\<lparr>iw_store := record_completed now (fst (mw_key w)) (snd (mw_key w)) response (iw_store s),
       iw_workers := xs @ ys, iw_done := iw_done s @ [(mw_key w, sanitize_for_persistence response)]\<rparr>)"
| fails: "iw_workers s = xs @ w # ys \<Longrightarrow>
     idempotency_step s (s\<lparr>iw_store := record_failed now (fst (mw_key w)) (snd (mw_key w)) err (iw_store s),
       iw_workers := xs @ ys\<rparr>)"
| dies: "iw_workers s = xs @ w # ys \<Longrightarrow> idempotency_step s (s\<lparr>iw_workers := xs @ ys\<rparr>)"
| releases: "plain_tenant tenant \<Longrightarrow> request \<notin> mw_request ` set (iw_workers s) \<Longrightarrow>
     idempotency_step s (s\<lparr>iw_store := snd (release_claim_if_owned now tenant key request err (iw_store s))\<rparr>)"

inductive idempotency_run :: "idempotency_world \<Rightarrow> idempotency_world \<Rightarrow> bool" where
  start: "idempotency_run s s"
| more: "idempotency_run s t \<Longrightarrow> idempotency_step t u \<Longrightarrow> idempotency_run s u"

section \<open>The invariant\<close>

definition row_ok :: "mutation_worker list \<Rightarrow> ((string \<times> string) \<times> pyval) list \<Rightarrow> idempotency_record \<Rightarrow> bool" where
  "row_ok workers done_list r \<longleftrightarrow>
     (\<forall>w \<in> set workers. mw_key w = keyed r \<longrightarrow> im_state r = Idem_PROCESSING \<and> im_request r = mw_request w) \<and>
     (\<forall>v. (keyed r, v) \<in> set done_list \<longrightarrow> im_state r = Idem_COMPLETED \<and> im_response r = Some v)"

definition cache_ok :: "memory_cache option \<Rightarrow> ((string \<times> string) \<times> pyval) list \<Rightarrow> bool" where
  "cache_ok cache done_list \<longleftrightarrow>
     (\<forall>c tenant key v e. cache = Some c \<longrightarrow> plain_tenant tenant \<longrightarrow>
        dict_get c (idempotency_cache_key tenant key) = Some (v, e) \<longrightarrow> ((tenant, key), v) \<in> set done_list)"

definition idempotency_inv :: "idempotency_world \<Rightarrow> bool" where
  "idempotency_inv s \<longleftrightarrow>
     distinct (map im_id (rows_of s)) \<and> distinct (map keyed (rows_of s)) \<and>
     distinct (map mw_key (iw_workers s)) \<and> distinct (map fst (iw_done s)) \<and>
     mw_key ` set (iw_workers s) \<subseteq> keyed ` set (rows_of s) \<and> fst ` set (iw_done s) \<subseteq> keyed ` set (rows_of s) \<and>
     (\<forall>w \<in> set (iw_workers s). plain_tenant (fst (mw_key w))) \<and>
     (\<forall>r \<in> set (rows_of s). row_ok (iw_workers s) (iw_done s) r) \<and> cache_ok (is_cache (iw_store s)) (iw_done s)"

lemma cache_key_inject:
  assumes "plain_tenant t" "plain_tenant t'"
  shows "idempotency_cache_key t k = idempotency_cache_key t' k' \<longleftrightarrow> t = t' \<and> k = k'"
proof -
  have "t @ CHR '':'' # k = t' @ CHR '':'' # k' \<Longrightarrow> t = t' \<and> k = k'"
    using assms
  proof (induction t arbitrary: t')
    case Nil
    then show ?case by (cases t') (auto simp: plain_tenant_def)
  next
    case (Cons c t)
    then show ?case by (cases t') (auto simp: plain_tenant_def)
  qed
  then show ?thesis by (auto simp: idempotency_cache_key_def)
qed

lemma cache_key_same [simp]: "idempotency_cache_key t k = idempotency_cache_key t k' \<longleftrightarrow> k = k'"
  by (simp add: idempotency_cache_key_def)

lemma unique_key:
  "distinct (map keyed rows) \<Longrightarrow> q \<in> set rows \<Longrightarrow> r \<in> set rows \<Longrightarrow> keyed q = keyed r \<Longrightarrow> q = r"
  by (auto simp: distinct_map dest: inj_onD)

lemma unique_id:
  "distinct (map im_id rows) \<Longrightarrow> q \<in> set rows \<Longrightarrow> r \<in> set rows \<Longrightarrow> im_id q = im_id r \<Longrightarrow> q = r"
  by (auto simp: distinct_map dest: inj_onD)

text \<open>Rows rewritten one by one, with any new workers, executions and cache.\<close>

lemma inv_rows:
  assumes inv: "idempotency_inv s" and rows: "is_rows st = map f (rows_of s)"
    and keep: "\<And>r. r \<in> set (rows_of s) \<Longrightarrow> im_id (f r) = im_id r \<and> keyed (f r) = keyed r"
    and ok: "\<And>r. r \<in> set (rows_of s) \<Longrightarrow> row_ok ws ds (f r)"
    and workers: "distinct (map mw_key ws)" "mw_key ` set ws \<subseteq> keyed ` set (rows_of s)"
      "\<And>w. w \<in> set ws \<Longrightarrow> plain_tenant (fst (mw_key w))"
    and finished: "distinct (map fst ds)" "fst ` set ds \<subseteq> keyed ` set (rows_of s)"
    and cache: "cache_ok (is_cache st) ds"
  shows "idempotency_inv \<lparr>iw_store = st, iw_workers = ws, iw_done = ds\<rparr>"
proof -
  have "map im_id (is_rows st) = map im_id (rows_of s)" "map keyed (is_rows st) = map keyed (rows_of s)"
    using keep unfolding rows by simp_all
  moreover from this(2) have "keyed ` set (is_rows st) = keyed ` set (rows_of s)" by (metis image_set)
  moreover have "\<forall>r \<in> set (is_rows st). row_ok ws ds r" using ok unfolding rows by simp
  ultimately show ?thesis using inv workers finished cache by (simp add: idempotency_inv_def)
qed

lemma cache_ok_pop: "cache_ok (Some c) ds \<Longrightarrow> cache_ok (Some (dict_pop k c)) ds"
  by (auto simp: cache_ok_def split: if_splits)

lemma cache_ok_forget: "cache_ok (is_cache st) ds \<Longrightarrow> cache_ok (is_cache (forget_response t k st)) ds"
  by (cases "is_cache st") (auto simp: forget_response_def cache_delete_def cache_ok_pop)

lemma cache_ok_more: "cache_ok cache ds \<Longrightarrow> cache_ok cache (ds @ es)"
  by (auto simp: cache_ok_def)

lemma cached_response_cases:
  assumes "cached_response now t k st = (v, st')" "cache_ok (is_cache st) ds" "plain_tenant t"
  shows "is_rows st' = is_rows st \<and> cache_ok (is_cache st') ds \<and> (\<forall>u. v = Some u \<longrightarrow> ((t, k), u) \<in> set ds)"
proof (cases "is_cache st")
  case None
  with assms show ?thesis by (simp add: cached_response_def)
next
  case (Some c)
  obtain u c' where g: "cache_get c (idempotency_cache_key t k) now = (u, c')" by fastforce
  then have popped: "c' = c \<or> c' = dict_pop (idempotency_cache_key t k) c"
    and found: "\<And>x. u = Some x \<Longrightarrow> \<exists>e. dict_get c (idempotency_cache_key t k) = Some (x, e)"
    by (auto simp: cache_get_def split: option.splits if_splits prod.splits)
  have v: "v = None \<or> v = u" and st': "st' = st\<lparr>is_cache := Some c'\<rparr>"
    using assms(1) Some g by (auto simp: cached_response_def split: option.splits pyval.splits)
  have c: "cache_ok (Some c) ds" using assms(2) Some by simp
  then have "cache_ok (Some c') ds" using popped cache_ok_pop by blast
  moreover have "((t, k), x) \<in> set ds" if "u = Some x" for x
    using found [OF that] c assms(3) unfolding cache_ok_def by blast
  ultimately show ?thesis using v st' by auto
qed

section \<open>Claims\<close>

text \<open>Of rows with distinct identifiers a swap hits one row or none.\<close>

lemma swap_cases:
  assumes "distinct (map im_id (is_rows st))" "claim_swap (\<lambda>r. im_id r = i \<and> Q r) f st = (result, v, st')"
  shows "(result = IN_PROGRESS \<and> st' = st) \<or>
    (result = CLAIMED \<and> (\<exists>r \<in> set (is_rows st). im_id r = i \<and> Q r) \<and>
       is_rows st' = map (\<lambda>r. if im_id r = i \<and> Q r then f r else r) (is_rows st) \<and> is_cache st' = is_cache st)"
proof -
  let ?won = "\<lambda>r. im_id r = i \<and> Q r"
  have "distinct (map im_id (filter ?won (is_rows st)))" using assms(1) by (simp add: distinct_map_filter)
  then have "length (filter ?won (is_rows st)) = card (set (map im_id (filter ?won (is_rows st))))"
    using distinct_card by fastforce
  also have "\<dots> \<le> card {i}" by (rule card_mono) auto
  finally have short: "length (filter ?won (is_rows st)) \<le> 1" by simp
  show ?thesis
  proof (cases "length (filter ?won (is_rows st)) = 1")
    case True
    then have "filter ?won (is_rows st) \<noteq> []" by (metis list.size(3) zero_neq_one)
    then have "\<exists>r \<in> set (is_rows st). ?won r" by (auto simp: filter_empty_conv)
    with True assms(2) show ?thesis by (auto simp: claim_swap_def swap_rows_def)
  next
    case False
    with short have "filter ?won (is_rows st) = []" by (metis One_nat_def le_SucE le_zero_eq length_0_conv)
    then have "\<forall>r \<in> set (is_rows st). \<not> ?won r" by (simp add: filter_empty_conv)
    then have "map (\<lambda>r. if ?won r then f r else r) (is_rows st) = is_rows st" by (intro map_idI) auto
    with False assms(2) show ?thesis by (auto simp: claim_swap_def swap_rows_def)
  qed
qed

lemma evaluate_cases:
  assumes "distinct (map im_id (is_rows st))" "evaluate_row now request correlation row st = (result, v, st')"
  shows "(result \<noteq> CLAIMED \<and> st' = st) \<or>
    (result = CLAIMED \<and> is_cache st' = is_cache st \<and> (\<exists>won f.
       (\<exists>r \<in> set (is_rows st). won r) \<and> (\<forall>r. won r \<longrightarrow> im_id r = im_id row \<and> (im_state r = Idem_FAILED \<or> stale_at now r)) \<and>
       (\<forall>r. won r \<longrightarrow> im_id (f r) = im_id r \<and> keyed (f r) = keyed r \<and> im_state (f r) = Idem_PROCESSING \<and>
          im_request (f r) = request) \<and>
       is_rows st' = map (\<lambda>r. if won r then f r else r) (is_rows st)))"
proof (cases "im_state row")
  case Idem_PROCESSING
  show ?thesis
  proof (cases "now - STALE_PROCESSING_LEASE_SECONDS \<le> im_updated row")
    case True
    with Idem_PROCESSING assms(2) show ?thesis by (auto simp: evaluate_row_def)
  next
    case False
    let ?f = "\<lambda>r. r\<lparr>im_request := request, im_correlation := correlation, im_updated := now\<rparr>"
    have "claim_swap (\<lambda>r. im_id r = im_id row \<and> stale_at now r) ?f st = (result, v, st')"
      using Idem_PROCESSING False assms(2) by (simp add: evaluate_row_def)
    from swap_cases [OF assms(1) this] show ?thesis
    proof
      assume "result = IN_PROGRESS \<and> st' = st"
      then show ?thesis by simp
    next
      assume hit: "result = CLAIMED \<and> (\<exists>r \<in> set (is_rows st). im_id r = im_id row \<and> stale_at now r) \<and>
         is_rows st' = map (\<lambda>r. if im_id r = im_id row \<and> stale_at now r then ?f r else r) (is_rows st) \<and> is_cache st' = is_cache st"
      show ?thesis
        by (rule disjI2, intro conjI exI [of _ "\<lambda>r. im_id r = im_id row \<and> stale_at now r"] exI [of _ ?f])
          (use hit in \<open>auto simp: stale_at_def keyed_def\<close>)
    qed
  qed
next
  case Idem_FAILED
  let ?f = "\<lambda>r. r\<lparr>im_state := Idem_PROCESSING, im_request := request, im_correlation := correlation, im_error := None, im_updated := now\<rparr>"
  have "claim_swap (\<lambda>r. im_id r = im_id row \<and> im_state r = Idem_FAILED) ?f st = (result, v, st')"
    using Idem_FAILED assms(2) by (simp add: evaluate_row_def)
  from swap_cases [OF assms(1) this] show ?thesis
  proof
    assume "result = IN_PROGRESS \<and> st' = st"
    then show ?thesis by simp
  next
    assume hit: "result = CLAIMED \<and> (\<exists>r \<in> set (is_rows st). im_id r = im_id row \<and> im_state r = Idem_FAILED) \<and>
       is_rows st' = map (\<lambda>r. if im_id r = im_id row \<and> im_state r = Idem_FAILED then ?f r else r) (is_rows st) \<and> is_cache st' = is_cache st"
    show ?thesis
      by (rule disjI2, intro conjI exI [of _ "\<lambda>r. im_id r = im_id row \<and> im_state r = Idem_FAILED"] exI [of _ ?f])
        (use hit in \<open>auto simp: keyed_def\<close>)
  qed
qed (use assms(2) in \<open>auto simp: evaluate_row_def\<close>)

lemma world_eta: "s\<lparr>iw_store := st\<rparr> = \<lparr>iw_store = st, iw_workers = iw_workers s, iw_done = iw_done s\<rparr>"
  "s\<lparr>iw_store := st, iw_workers := ws\<rparr> = \<lparr>iw_store = st, iw_workers = ws, iw_done = iw_done s\<rparr>"
  "s\<lparr>iw_store := st, iw_workers := ws, iw_done := ds\<rparr> = \<lparr>iw_store = st, iw_workers = ws, iw_done = ds\<rparr>"
  "s\<lparr>iw_workers := ws\<rparr> = \<lparr>iw_store = iw_store s, iw_workers = ws, iw_done = iw_done s\<rparr>"
  by simp_all

lemma inv_same_rows:
  assumes "idempotency_inv s" "is_rows st = rows_of s" "cache_ok (is_cache st) (iw_done s)"
  shows "idempotency_inv (s\<lparr>iw_store := st\<rparr>)"
  using assms by (simp add: idempotency_inv_def)

text \<open>A claim takes a row that nobody holds and that no execution completed.\<close>

lemma row_ok_taken:
  assumes "row_ok ws ds r" "im_state r = Idem_FAILED \<or> im_state r = Idem_PROCESSING \<and> keyed r \<notin> mw_key ` set ws"
    and "keyed q = keyed r" "im_state q = Idem_PROCESSING" "im_request q = request"
  shows "row_ok ws ds q \<and> row_ok (ws @ [\<lparr>mw_key = keyed r, mw_request = request\<rparr>]) ds q \<and> keyed r \<notin> mw_key ` set ws"
proof -
  have idle: "\<forall>w \<in> set ws. mw_key w \<noteq> keyed r" using assms(1, 2) by (force simp: row_ok_def)
  moreover have "\<forall>v. (keyed r, v) \<notin> set ds" using assms(1, 2) by (auto simp: row_ok_def)
  ultimately show ?thesis using assms(3-) by (auto simp: row_ok_def)
qed

lemma row_ok_other:
  "row_ok ws ds r \<Longrightarrow> keyed r \<noteq> k \<Longrightarrow> row_ok (ws @ [\<lparr>mw_key = k, mw_request = request\<rparr>]) ds r"
  by (auto simp: row_ok_def)

lemma inv_take:
  assumes inv: "idempotency_inv s" and rows: "is_rows st = map (\<lambda>r. if won r then f r else r) (rows_of s)"
    and cache: "cache_ok (is_cache st) (iw_done s)"
    and own: "r0 \<in> set (rows_of s)" "won r0" "keyed r0 = k"
    and won: "\<And>r. r \<in> set (rows_of s) \<Longrightarrow> won r \<Longrightarrow> r = r0"
    and free: "im_state r0 = Idem_FAILED \<or> im_state r0 = Idem_PROCESSING \<and> keyed r0 \<notin> mw_key ` set (iw_workers s)"
    and written: "im_id (f r0) = im_id r0" "keyed (f r0) = keyed r0" "im_state (f r0) = Idem_PROCESSING" "im_request (f r0) = request"
    and plain: "plain_tenant (fst k)"
  shows "idempotency_inv (s\<lparr>iw_store := st\<rparr>) \<and>
    idempotency_inv (s\<lparr>iw_store := st, iw_workers := iw_workers s @ [\<lparr>mw_key = k, mw_request = request\<rparr>]\<rparr>)"
proof -
  have each: "row_ok (iw_workers s) (iw_done s) r" if "r \<in> set (rows_of s)" for r
    using inv that by (simp add: idempotency_inv_def)
  note taken = row_ok_taken [OF each [OF own(1)] free written(2-4)]
  have single: "(if won r then f r else r) = (if r = r0 then f r0 else r)" if "r \<in> set (rows_of s)" for r
    using won [OF that] own(2) by (cases "r = r0") auto
  have apart: "keyed r \<noteq> k" if "r \<in> set (rows_of s)" "r \<noteq> r0" for r
    using unique_key [of "rows_of s" r r0] inv own that by (auto simp: idempotency_inv_def)
  have ids: "im_id (if won r then f r else r) = im_id r \<and> keyed (if won r then f r else r) = keyed r"
    if "r \<in> set (rows_of s)" for r
    unfolding single [OF that] using written(1, 2) by simp
  have "idempotency_inv \<lparr>iw_store = st, iw_workers = iw_workers s, iw_done = iw_done s\<rparr>"
  proof (rule inv_rows [OF inv rows ids])
    show "row_ok (iw_workers s) (iw_done s) (if won r then f r else r)" if "r \<in> set (rows_of s)" for r
      unfolding single [OF that] using taken each [OF that] by simp
  qed (use inv cache in \<open>auto simp: idempotency_inv_def\<close>)
  moreover have "idempotency_inv \<lparr>iw_store = st, iw_workers = iw_workers s @ [\<lparr>mw_key = k, mw_request = request\<rparr>], iw_done = iw_done s\<rparr>"
  proof (rule inv_rows [OF inv rows ids])
    show "row_ok (iw_workers s @ [\<lparr>mw_key = k, mw_request = request\<rparr>]) (iw_done s) (if won r then f r else r)"
      if "r \<in> set (rows_of s)" for r
      unfolding single [OF that] using taken own(3) row_ok_other [OF each [OF that] apart [OF that]] by auto
    show "distinct (map mw_key (iw_workers s @ [\<lparr>mw_key = k, mw_request = request\<rparr>]))"
      using inv taken own(3) by (auto simp: idempotency_inv_def)
  qed (use inv cache own plain in \<open>auto simp: idempotency_inv_def\<close>)
  ultimately show ?thesis unfolding world_eta by simp
qed

lemma inv_insert:
  assumes inv: "idempotency_inv s" and rows: "is_rows st = rows_of s @ [r]" and cache: "cache_ok (is_cache st) (iw_done s)"
    and new: "keyed r = k" "k \<notin> keyed ` set (rows_of s)" "im_id r \<notin> im_id ` set (rows_of s)"
    and fields: "im_state r = Idem_PROCESSING" "im_request r = request" and plain: "plain_tenant (fst k)"
  shows "idempotency_inv (s\<lparr>iw_store := st\<rparr>) \<and>
    idempotency_inv (s\<lparr>iw_store := st, iw_workers := iw_workers s @ [\<lparr>mw_key = k, mw_request = request\<rparr>]\<rparr>)"
proof -
  have idle: "k \<notin> mw_key ` set (iw_workers s)" "k \<notin> fst ` set (iw_done s)"
    using inv new by (auto simp: idempotency_inv_def)
  then have own: "row_ok (iw_workers s) (iw_done s) r"
    "row_ok (iw_workers s @ [\<lparr>mw_key = k, mw_request = request\<rparr>]) (iw_done s) r"
    using new(1) fields by (force simp: row_ok_def)+
  have others: "row_ok (iw_workers s @ [\<lparr>mw_key = k, mw_request = request\<rparr>]) (iw_done s) q" if "q \<in> set (rows_of s)" for q
      proof (rule row_ok_other)
    show "row_ok (iw_workers s) (iw_done s) q" using inv that by (simp add: idempotency_inv_def)
    show "keyed q \<noteq> k" using new(2) that by blast
  qed
  have same: "\<forall>q \<in> set (rows_of s). row_ok (iw_workers s) (iw_done s) q" using inv by (simp add: idempotency_inv_def)
  have sets: "keyed ` set (is_rows st) = insert k (keyed ` set (rows_of s))" using rows new(1) by simp
  have "distinct (map im_id (is_rows st))" "distinct (map keyed (is_rows st))"
    using inv new unfolding rows by (simp_all add: idempotency_inv_def)
  moreover have "\<forall>q \<in> set (is_rows st). row_ok (iw_workers s) (iw_done s) q" using same own(1) unfolding rows by simp
  moreover have "\<forall>q \<in> set (is_rows st). row_ok (iw_workers s @ [\<lparr>mw_key = k, mw_request = request\<rparr>]) (iw_done s) q"
    using others own(2) unfolding rows by simp
  moreover have "mw_key ` set (iw_workers s) \<subseteq> keyed ` set (rows_of s)" "fst ` set (iw_done s) \<subseteq> keyed ` set (rows_of s)"
    "\<forall>w \<in> set (iw_workers s). plain_tenant (fst (mw_key w))" "distinct (map mw_key (iw_workers s))" "distinct (map fst (iw_done s))"
    using inv by (simp_all add: idempotency_inv_def)
  ultimately show ?thesis
    using cache idle(1) plain unfolding idempotency_inv_def by (simp add: sets subset_insertI2)
qed

lemma get_record_Some: "get_record t k st = Some r \<Longrightarrow> r \<in> set (is_rows st) \<and> keyed r = (t, k)"
  by (auto simp: get_record_def record_of_def keyed_def dest!: find_Some_conv)

lemma get_record_None: "get_record t k st = None \<Longrightarrow> (t, k) \<notin> keyed ` set (is_rows st)"
  by (auto simp: get_record_def record_of_def keyed_def find_None_conv)

lemma inv_claim_step:
  assumes inv: "idempotency_inv s" and allowed: "claim_allowed now new_id t k request read s"
    and claim: "claim_reading now new_id t k capability request correlation read (iw_store s) = (result, v, st)"
  shows "idempotency_inv (s\<lparr>iw_store := st\<rparr>) \<and> (result = CLAIMED \<longrightarrow>
    idempotency_inv (s\<lparr>iw_store := st, iw_workers := iw_workers s @ [\<lparr>mw_key = (t, k), mw_request = request\<rparr>]\<rparr>))"
proof -
  have plain: "plain_tenant t" using allowed by (simp add: claim_allowed_def)
  have cached0: "cache_ok (is_cache (iw_store s)) (iw_done s)" using inv by (simp add: idempotency_inv_def)
  obtain a st1 where c: "cached_response now t k (iw_store s) = (a, st1)" by fastforce
  from cached_response_cases [OF this cached0 plain]
  have rows1: "is_rows st1 = rows_of s" and cache1: "cache_ok (is_cache st1) (iw_done s)" by simp_all
  show ?thesis
  proof (cases a)
    case (Some u)
    with claim c have "result = COMPLETED_BEFORE" "st = st1" by (auto simp: claim_reading_def)
    with inv_same_rows [OF inv rows1 cache1] show ?thesis by simp
  next
    case None
    with claim c have cw: "claim_with now new_id t k capability request correlation read st1 = (result, v, st)"
      by (simp add: claim_reading_def)
    have distinct_ids: "distinct (map im_id (is_rows st1))" using inv rows1 by (simp add: idempotency_inv_def)
    have judged: ?thesis
      if row: "\<exists>r \<in> set (rows_of s). im_id r = im_id row \<and> keyed r = (t, k)"
        and ev: "evaluate_row now request correlation row st1 = (result, v, st)" for row
      using evaluate_cases [OF distinct_ids ev]
    proof
      assume "result \<noteq> CLAIMED \<and> st = st1"
      with inv_same_rows [OF inv rows1 cache1] show ?thesis by simp
    next
      assume "result = CLAIMED \<and> is_cache st = is_cache st1 \<and> (\<exists>won f.
         (\<exists>r \<in> set (is_rows st1). won r) \<and> (\<forall>r. won r \<longrightarrow> im_id r = im_id row \<and> (im_state r = Idem_FAILED \<or> stale_at now r)) \<and>
         (\<forall>r. won r \<longrightarrow> im_id (f r) = im_id r \<and> keyed (f r) = keyed r \<and> im_state (f r) = Idem_PROCESSING \<and>
            im_request (f r) = request) \<and>
         is_rows st = map (\<lambda>r. if won r then f r else r) (is_rows st1))"
      then obtain won f r0 where cache: "is_cache st = is_cache st1" and r0: "r0 \<in> set (rows_of s)" "won r0"
        and won: "\<And>r. won r \<Longrightarrow> im_id r = im_id row \<and> (im_state r = Idem_FAILED \<or> stale_at now r)"
        and written: "\<And>r. won r \<Longrightarrow> im_id (f r) = im_id r \<and> keyed (f r) = keyed r \<and> im_state (f r) = Idem_PROCESSING \<and>
            im_request (f r) = request"
        and rows: "is_rows st = map (\<lambda>r. if won r then f r else r) (rows_of s)"
        unfolding rows1 by blast
      obtain r1 where r1: "r1 \<in> set (rows_of s)" "im_id r1 = im_id row" "keyed r1 = (t, k)" using row by blast
      have same: "r = r1" if "r \<in> set (rows_of s)" "won r" for r
        using unique_id [OF _ that(1) r1(1)] inv won [OF that(2)] r1(2) by (simp add: idempotency_inv_def)
      then have "r0 = r1" using r0 by blast
      have "im_state r0 = Idem_FAILED \<or> im_state r0 = Idem_PROCESSING \<and> keyed r0 \<notin> mw_key ` set (iw_workers s)"
        using won [OF r0(2)] allowed r0(1) by (auto simp: claim_allowed_def stale_at_def)
      moreover have "cache_ok (is_cache st) (iw_done s)" using cache cache1 by simp
      ultimately show ?thesis
        using inv_take [OF inv rows _ r0, of "(t, k)" request] same \<open>r0 = r1\<close> r1(3) written [OF r0(2)] plain by simp
    qed
    show ?thesis
    proof (cases read)
      case (Some row)
      with cw have "evaluate_row now request correlation row st1 = (result, v, st)" by (simp add: claim_with_def)
      moreover have "\<exists>r \<in> set (rows_of s). im_id r = im_id row \<and> keyed r = (t, k)"
        using allowed Some by (simp add: claim_allowed_def)
      ultimately show ?thesis by (rule judged [rotated])
    next
      case no_read: None
      show ?thesis
      proof (cases "get_record t k st1")
        case (Some row)
        with cw no_read have "evaluate_row now request correlation row st1 = (result, v, st)" by (simp add: claim_with_def)
        moreover have "\<exists>r \<in> set (rows_of s). im_id r = im_id row \<and> keyed r = (t, k)"
          using get_record_Some [OF Some] rows1 by auto
        ultimately show ?thesis by (rule judged [rotated])
      next
        case none: None
        let ?r = "\<lparr>im_id = new_id, im_tenant = t, im_key = k, im_capability = capability, im_request = request,
            im_correlation = correlation, im_state = Idem_PROCESSING, im_response = None, im_error = None, im_updated = now\<rparr>"
        have "result = CLAIMED" "st = st1\<lparr>is_rows := is_rows st1 @ [?r]\<rparr>"
          using cw no_read none by (auto simp: claim_with_def)
        then show ?thesis
          using inv_insert [OF inv, of st ?r "(t, k)" request] get_record_None [OF none] rows1 cache1 allowed plain
          by (simp add: claim_allowed_def keyed_def)
      qed
    qed
  qed
qed

section \<open>Outcomes\<close>

lemma write_rows:
  "is_rows (write_record (fst k) (snd k) f st) = map (\<lambda>r. if keyed r = k then f r else r) (is_rows st)"
  by (cases k) (simp add: write_record_def record_of_def keyed_def)

lemma write_cache [simp]: "is_cache (write_record t k f st) = is_cache st"
  by (simp add: write_record_def)

lemma forget_rows [simp]: "is_rows (forget_response t k st) = is_rows st"
  by (simp add: forget_response_def)

lemma workers_without:
  assumes inv: "idempotency_inv s" and split: "iw_workers s = xs @ w # ys"
  shows "distinct (map mw_key (xs @ ys))" "mw_key w \<notin> mw_key ` set (xs @ ys)"
    "mw_key ` set (xs @ ys) \<subseteq> keyed ` set (rows_of s)" "plain_tenant (fst (mw_key w))"
    "\<And>w'. w' \<in> set (xs @ ys) \<Longrightarrow> plain_tenant (fst (mw_key w'))"
    "mw_key w \<in> keyed ` set (rows_of s)" "mw_key w \<notin> fst ` set (iw_done s)"
proof -
  show "distinct (map mw_key (xs @ ys))" "mw_key w \<notin> mw_key ` set (xs @ ys)"
    "mw_key ` set (xs @ ys) \<subseteq> keyed ` set (rows_of s)" "plain_tenant (fst (mw_key w))"
    "\<And>w'. w' \<in> set (xs @ ys) \<Longrightarrow> plain_tenant (fst (mw_key w'))" and own: "mw_key w \<in> keyed ` set (rows_of s)"
    using inv by (auto simp: idempotency_inv_def split)
  obtain r where r: "r \<in> set (rows_of s)" "keyed r = mw_key w" using own by force
  then have "row_ok (iw_workers s) (iw_done s) r" using inv by (simp add: idempotency_inv_def)
  then have "im_state r = Idem_PROCESSING" "\<forall>v. (keyed r, v) \<in> set (iw_done s) \<longrightarrow> im_state r = Idem_COMPLETED"
    using r(2) by (auto simp: row_ok_def split)
  then show "mw_key w \<notin> fst ` set (iw_done s)" using r(2) by force
qed

lemma row_ok_less: "row_ok ws ds r \<Longrightarrow> set ws' \<subseteq> set ws \<Longrightarrow> row_ok ws' ds r"
  unfolding row_ok_def by blast

lemma inv_done_step:
  assumes inv: "idempotency_inv s" and split: "iw_workers s = xs @ w # ys"
    and rows: "is_rows st = map (\<lambda>r. if keyed r = mw_key w then f r else r) (rows_of s)"
    and keep: "\<And>r. keyed r = mw_key w \<Longrightarrow> im_id (f r) = im_id r \<and> keyed (f r) = keyed r"
    and ds: "ds = iw_done s \<or> (\<exists>v. ds = iw_done s @ [(mw_key w, v)] \<and>
        (\<forall>r. keyed r = mw_key w \<longrightarrow> im_state (f r) = Idem_COMPLETED \<and> im_response (f r) = Some v))"
    and cache: "cache_ok (is_cache st) ds"
  shows "idempotency_inv \<lparr>iw_store = st, iw_workers = xs @ ys, iw_done = ds\<rparr>"
proof (rule inv_rows [OF inv rows])
  note facts = workers_without [OF inv split]
  show "im_id (if keyed r = mw_key w then f r else r) = im_id r \<and> keyed (if keyed r = mw_key w then f r else r) = keyed r" for r
    using keep by simp
  show "row_ok (xs @ ys) ds (if keyed r = mw_key w then f r else r)" if r: "r \<in> set (rows_of s)" for r
  proof (cases "keyed r = mw_key w")
    case True
    have "\<forall>w' \<in> set (xs @ ys). mw_key w' \<noteq> mw_key w" using facts(2) by (metis image_eqI)
    moreover have "\<forall>v. (mw_key w, v) \<notin> set (iw_done s)" using facts(7) by force
    ultimately show ?thesis using True keep [OF True] ds by (auto simp: row_ok_def)
  next
    case False
    have "row_ok (iw_workers s) (iw_done s) r" using inv r by (simp add: idempotency_inv_def)
    then have "row_ok (xs @ ys) (iw_done s) r" by (rule row_ok_less) (auto simp: split)
    with False ds show ?thesis by (auto simp: row_ok_def)
  qed
  have "distinct (map fst (iw_done s))" "fst ` set (iw_done s) \<subseteq> keyed ` set (rows_of s)"
    using inv by (simp_all add: idempotency_inv_def)
  then show "distinct (map fst ds)" "fst ` set ds \<subseteq> keyed ` set (rows_of s)"
    using ds facts(6, 7) by (elim disjE exE; simp)+
  show "distinct (map mw_key (xs @ ys))" "mw_key ` set (xs @ ys) \<subseteq> keyed ` set (rows_of s)" by (fact facts)+
  show "plain_tenant (fst (mw_key w'))" if "w' \<in> set (xs @ ys)" for w' by (rule facts(5) [OF that])
  show "cache_ok (is_cache st) ds" by (rule cache)
qed

lemma cache_ok_completed:
  assumes "cache_ok (is_cache st) ds" "plain_tenant t"
  shows "cache_ok (is_cache (record_completed now t k response st)) (ds @ [((t, k), sanitize_for_persistence response)])"
proof (cases "is_cache st")
  case None
  then show ?thesis by (simp add: record_completed_def cache_ok_def)
next
  case (Some c)
  then show ?thesis using assms
    by (auto simp: record_completed_def Let_def cache_ok_def cache_set_def cache_key_inject split: if_splits)
qed

lemma inv_completes:
  assumes inv: "idempotency_inv s" and split: "iw_workers s = xs @ w # ys"
  shows "idempotency_inv (s\<lparr>iw_store := record_completed now (fst (mw_key w)) (snd (mw_key w)) response (iw_store s),
      iw_workers := xs @ ys, iw_done := iw_done s @ [(mw_key w, sanitize_for_persistence response)]\<rparr>)"
proof -
  let ?f = "\<lambda>r. r\<lparr>im_state := Idem_COMPLETED, im_response := Some (sanitize_for_persistence response), im_error := None, im_updated := now\<rparr>"
  have "is_rows (record_completed now (fst (mw_key w)) (snd (mw_key w)) response (iw_store s)) =
      map (\<lambda>r. if keyed r = mw_key w then ?f r else r) (rows_of s)"
    by (simp add: record_completed_def Let_def write_rows)
  moreover have "cache_ok (is_cache (iw_store s)) (iw_done s)" using inv by (simp add: idempotency_inv_def)
  moreover from this have "cache_ok (is_cache (record_completed now (fst (mw_key w)) (snd (mw_key w)) response (iw_store s)))
      (iw_done s @ [((fst (mw_key w), snd (mw_key w)), sanitize_for_persistence response)])"
    by (rule cache_ok_completed [OF _ workers_without(4) [OF inv split]])
  ultimately show ?thesis
    unfolding world_eta(3) by (intro inv_done_step [OF inv split, where f = ?f]) (auto simp: keyed_def)
qed

lemma inv_fails:
  assumes inv: "idempotency_inv s" and split: "iw_workers s = xs @ w # ys"
  shows "idempotency_inv (s\<lparr>iw_store := record_failed now (fst (mw_key w)) (snd (mw_key w)) err (iw_store s), iw_workers := xs @ ys\<rparr>)"
proof -
  let ?f = "\<lambda>r. r\<lparr>im_state := Idem_FAILED, im_error := Some (take 1000 err), im_updated := now\<rparr>"
  have "is_rows (record_failed now (fst (mw_key w)) (snd (mw_key w)) err (iw_store s)) =
      map (\<lambda>r. if keyed r = mw_key w then ?f r else r) (rows_of s)"
    by (simp add: record_failed_def write_rows)
  moreover have "cache_ok (is_cache (iw_store s)) (iw_done s)" using inv by (simp add: idempotency_inv_def)
  then have "cache_ok (is_cache (record_failed now (fst (mw_key w)) (snd (mw_key w)) err (iw_store s))) (iw_done s)"
    by (simp add: record_failed_def cache_ok_forget)
  ultimately show ?thesis
    unfolding world_eta(2) by (intro inv_done_step [OF inv split, where f = ?f]) (auto simp: keyed_def)
qed

lemma inv_dies:
  assumes inv: "idempotency_inv s" and split: "iw_workers s = xs @ w # ys"
  shows "idempotency_inv (s\<lparr>iw_workers := xs @ ys\<rparr>)"
  unfolding world_eta(4)
  by (rule inv_done_step [OF inv split, where f = "\<lambda>r. r"]) (use inv in \<open>auto simp: idempotency_inv_def\<close>)

text \<open>A release of a claim that no worker holds.\<close>

lemma inv_releases:
  assumes inv: "idempotency_inv s" and other: "request \<notin> mw_request ` set (iw_workers s)"
  shows "idempotency_inv (s\<lparr>iw_store := snd (release_claim_if_owned now t k request err (iw_store s))\<rparr>)"
proof -
  let ?won = "\<lambda>r. record_of t k r \<and> im_request r = request \<and> im_state r = Idem_PROCESSING"
  let ?f = "\<lambda>r. r\<lparr>im_state := Idem_FAILED, im_error := Some (take 1000 err), im_updated := now\<rparr>"
  let ?st = "snd (release_claim_if_owned now t k request err (iw_store s))"
  have rows: "is_rows ?st = map (\<lambda>r. if ?won r then ?f r else r) (rows_of s)"
    by (simp add: release_claim_if_owned_def swap_rows_def)
  have cached: "cache_ok (is_cache (iw_store s)) (iw_done s)" using inv by (simp add: idempotency_inv_def)
  then have cache: "cache_ok (is_cache ?st) (iw_done s)"
    by (auto simp: release_claim_if_owned_def swap_rows_def intro: cache_ok_forget)
  have "row_ok (iw_workers s) (iw_done s) (if ?won r then ?f r else r)" if r: "r \<in> set (rows_of s)" for r
  proof -
    have own: "row_ok (iw_workers s) (iw_done s) r" using inv r by (simp add: idempotency_inv_def)
    show ?thesis
    proof (cases "?won r")
      case True
      then have "\<forall>w \<in> set (iw_workers s). mw_key w \<noteq> keyed r" using own other by (force simp: row_ok_def)
      moreover have "\<forall>v. (keyed r, v) \<notin> set (iw_done s)" using own True by (auto simp: row_ok_def)
      ultimately show ?thesis using True by (auto simp: row_ok_def keyed_def)
    qed (use own in \<open>simp only: if_False\<close>)
  qed
  then show ?thesis
    unfolding world_eta(1)
    by (intro inv_rows [OF inv rows]) (use inv cache in \<open>auto simp: idempotency_inv_def keyed_def\<close>)
qed

theorem inv_idempotency_step: "idempotency_step s t \<Longrightarrow> idempotency_inv s \<Longrightarrow> idempotency_inv t"
proof (induction rule: idempotency_step.induct)
  case (claims now new_id tenant key request read s capability correlation result v st)
  then show ?case using inv_claim_step [OF claims(3, 1, 2)] by (cases "result = CLAIMED") simp_all
next
  case (loses_claim now new_id tenant key request read s capability correlation result v st)
  then show ?case using inv_claim_step [OF loses_claim(3, 1, 2)] by simp
qed (simp_all add: inv_completes inv_fails inv_dies inv_releases)

lemma inv_idempotency_run: "idempotency_run s t \<Longrightarrow> idempotency_inv s \<Longrightarrow> idempotency_inv t"
  by (induction rule: idempotency_run.induct) (auto intro: inv_idempotency_step)

definition no_records :: "memory_cache option \<Rightarrow> idempotency_world" where
  "no_records cache = \<lparr>iw_store = \<lparr>is_rows = [], is_cache = cache\<rparr>, iw_workers = [], iw_done = []\<rparr>"

lemma inv_no_records: "idempotency_inv (no_records None)" "idempotency_inv (no_records (Some []))"
  by (simp_all add: idempotency_inv_def no_records_def cache_ok_def)

section \<open>Replay\<close>

lemma replay_answer:
  assumes inv: "idempotency_inv s" and finished: "((t, k), v) \<in> set (iw_done s)" and plain: "plain_tenant t"
  shows "\<exists>st. claim_or_get_execution now new_id t k capability request correlation (iw_store s) = (COMPLETED_BEFORE, Some v, st)"
proof -
  obtain a st1 where c: "cached_response now t k (iw_store s) = (a, st1)" by fastforce
  have "cache_ok (is_cache (iw_store s)) (iw_done s)" using inv by (simp add: idempotency_inv_def)
  from cached_response_cases [OF c this plain] have rows: "is_rows st1 = rows_of s"
    and known: "\<And>u. a = Some u \<Longrightarrow> ((t, k), u) \<in> set (iw_done s)" by auto
  have one: "u = v" if "((t, k), u) \<in> set (iw_done s)" for u
  proof -
    have "inj_on fst (set (iw_done s))" using inv by (simp add: idempotency_inv_def distinct_map)
    from inj_onD [OF this _ that finished] show ?thesis by simp
  qed
  show ?thesis
  proof (cases a)
    case (Some u)
    with one known c show ?thesis by (simp add: claim_or_get_execution_def claim_reading_def)
  next
    case None
    have "(t, k) \<in> keyed ` set (rows_of s)" using inv finished by (force simp: idempotency_inv_def)
    then obtain r where r: "get_record t k (iw_store s) = Some r"
      using get_record_None [of t k "iw_store s"] by fastforce
    have "row_ok (iw_workers s) (iw_done s) r" "keyed r = (t, k)"
      using inv get_record_Some [OF r] by (simp_all add: idempotency_inv_def)
    then have "im_state r = Idem_COMPLETED" "im_response r = Some v" using finished by (auto simp: row_ok_def)
    with c None r show ?thesis
      by (simp add: claim_or_get_execution_def claim_reading_def claim_with_def evaluate_row_def)
  qed
qed

end
