(* ===== verification/Kernel_Properties.thy ===== *)
theory Kernel_Properties
  imports Idempotency_Correct
begin

text \<open>
  What the kernel's dispatcher and its idempotency store promise, and where they do not.
\<close>

section \<open>Idempotency\<close>

definition claimed_record :: idempotency_record where
  "claimed_record = \<lparr>im_id = ''i1'', im_tenant = ''acme'', im_key = ''k1'', im_capability = ''cap'', im_request = ''r1'',
     im_correlation = ''c1'', im_state = Idem_PROCESSING, im_response = None, im_error = None, im_updated = 0\<rparr>"

definition completed_store :: idempotency_store where
  "completed_store = record_completed 5 ''acme'' ''k1'' (PStr ''paid'') \<lparr>is_rows = [claimed_record], is_cache = Some []\<rparr>"

definition completed_world :: idempotency_world where
  "completed_world = \<lparr>iw_store = completed_store, iw_workers = [], iw_done = [((''acme'', ''k1''), PStr ''paid'')]\<rparr>"

lemma completed_world_run: "idempotency_run (no_records (Some [])) completed_world"
proof -
  let ?s = "no_records (Some [])"
  let ?w = "\<lparr>mw_key = (''acme'', ''k1''), mw_request = ''r1''\<rparr>"
  let ?t = "?s\<lparr>iw_store := \<lparr>is_rows = [claimed_record], is_cache = Some []\<rparr>, iw_workers := [] @ ?w # []\<rparr>"
  have allowed: "claim_allowed 0 ''i1'' ''acme'' ''k1'' ''r1'' None ?s"
    by (simp add: claim_allowed_def no_records_def plain_tenant_def)
  have "claim_reading 0 ''i1'' ''acme'' ''k1'' ''cap'' ''r1'' ''c1'' None (iw_store ?s) =
      (CLAIMED, None, \<lparr>is_rows = [claimed_record], is_cache = Some []\<rparr>)"
    by (simp add: claim_reading_def cached_response_def cache_get_def claim_with_def get_record_def no_records_def
        claimed_record_def)
  from idempotency_step.claims [OF allowed this] have claimed: "idempotency_run ?s ?t"
    using idempotency_run.more [OF idempotency_run.start] by (simp add: no_records_def)
  have "iw_workers ?t = [] @ ?w # []" by simp
  from idempotency_run.more [OF claimed completes [OF this, where now = 5 and response = "PStr ''paid''"]] show ?thesis
    by (simp add: completed_world_def completed_store_def no_records_def)
qed




theorem completed_key_replays:
  assumes "cache = None \<or> cache = Some []" "idempotency_run (no_records cache) s"
    and "((t, k), v) \<in> set (iw_done s)" "plain_tenant t"
  shows "\<exists>st. claim_or_get_execution now new_id t k capability request correlation (iw_store s) =
     (COMPLETED_BEFORE, Some v, st)"
proof -
  from assms(1) have "idempotency_inv (no_records cache)" using inv_no_records by blast
  from replay_answer [OF inv_idempotency_run [OF assms(2) this] assms(3, 4)] show ?thesis .
qed

theorem completed_key_replays_witness:
  "\<exists>st. claim_or_get_execution 99 ''i2'' ''acme'' ''k1'' ''cap'' ''r2'' ''c2'' completed_store =
     (COMPLETED_BEFORE, Some (PStr ''paid''), st)"
  using completed_key_replays [OF _ completed_world_run, of "''acme''" "''k1''" "PStr ''paid''"]
  by (simp add: completed_world_def plain_tenant_def)

section \<open>Divergences\<close>

text \<open>
  Closed computations that show where the code departs from what its documentation says; the
  manifest's findings name them.
\<close>

text \<open>A failure recorded after the completion makes the key claimable again.\<close>

theorem late_failure_forgets_result:
  "fst (claim_or_get_execution 7 ''i2'' ''acme'' ''k1'' ''cap'' ''r2'' ''c2''
     (record_failed 6 ''acme'' ''k1'' '''' completed_store)) = CLAIMED"
  by code_simp

text \<open>Two pairs of a tenant and a key with the same cache entry: another tenant's response is answered.\<close>

theorem cache_keys_collide:
  "fst (snd (claim_or_get_execution 6 ''i2'' ''acme:eu'' ''k1'' ''cap'' ''r2'' ''c2''
     (record_completed 5 ''acme'' ''eu:k1'' (PStr ''secret'') \<lparr>is_rows = [], is_cache = Some []\<rparr>))) = Some (PStr ''secret'')"
  by code_simp

end
