(* ===== verification/Auth_Store.thy ===== *)
theory Auth_Store
  imports Security_Models Workflow_Models Bytes Effects
begin

text \<open>
  The tables of the authentication manager (\<open>engines/security/models.py\<close>): principals, role
  grants, password resets and OAuth links, with their unique keys and transactions.  Surrogate keys
  are left out; NULL is not equal to NULL in a unique key.
\<close>

section \<open>Errors\<close>

datatype auth_error =
    AuthenticationFailed
  | InvalidToken string
  | InvalidSignature
  | TokenExpired
  | SigningKey string
  | BootstrapValidation string
  | BootstrapClosed
  | RegistrationValidation string
  | PasswordPolicy
  | PrincipalAlreadyExists string string
  | PasswordResetRefused
  | OAuthStateInvalid
  | OAuthLinkConflict string
  | AuthStorageFailed
  | LengthOverflow
  | UnknownPrincipalType string

section \<open>Rows\<close>

record principal_record =
  pc_tenant :: string
  pc_principal :: string
  pc_type :: string
  pc_enabled :: bool
  pc_credential :: "string option"
  pc_roles :: "string list"
  pc_attributes :: "(string, pyval) dict"
  pc_email :: "string option"
  pc_machine :: "string option"

record reset_record =
  rt_tenant :: string
  rt_principal :: string
  rt_type :: string
  rt_hash :: string
  rt_expires :: instant
  rt_used :: "instant option"

record oauth_link =
  ol_tenant :: string
  ol_principal :: string
  ol_type :: string
  ol_provider :: string
  ol_subject :: string
  ol_linked :: instant

record auth_store =
  au_principals :: "principal_record list"
  au_grants :: "(string \<times> string) list"
  au_resets :: "reset_record list"
  au_links :: "oauth_link list"

type_synonym 'a auth_eff = "(auth_store, auth_error, 'a) eff"

definition principal_key :: "principal_record \<Rightarrow> string \<times> string \<times> string" where
  "principal_key r = (pc_tenant r, pc_principal r, pc_type r)"

definition link_owner :: "oauth_link \<Rightarrow> string \<times> string \<times> string" where
  "link_owner l = (ol_tenant l, ol_principal l, ol_type l)"

definition link_identity :: "oauth_link \<Rightarrow> string \<times> string" where
  "link_identity l = (ol_provider l, ol_subject l)"

section \<open>Transactions\<close>

text \<open>
  A transaction that raises leaves the store as it was.  Errors of the store itself, among them a
  violated unique key, surface as one error.
\<close>

definition transaction :: "(auth_store \<Rightarrow> auth_error + 'a \<times> auth_store) \<Rightarrow> 'a auth_eff" where
  "transaction action st = (case action st of Inl e \<Rightarrow> (Inl e, st) | Inr (x, st') \<Rightarrow> (Inr x, st'))"

text \<open>\<open>scalar_one_or_none\<close>: more than one row is an error of the store.\<close>

definition one_or_none :: "'r list \<Rightarrow> auth_error + 'r option" where
  "one_or_none rows =
     (case rows of [] \<Rightarrow> Inr None | [r] \<Rightarrow> Inr (Some r) | _ \<Rightarrow> Inl AuthStorageFailed)"

definition no_clash :: "'k option \<Rightarrow> 'k option list \<Rightarrow> bool" where
  "no_clash k ks \<longleftrightarrow> k = None \<or> k \<notin> set ks"

definition insert_principal :: "principal_record \<Rightarrow> auth_store \<Rightarrow> auth_error + auth_store" where
  "insert_principal r st =
     (if principal_key r \<notin> set (map principal_key (au_principals st)) \<and>
         no_clash (pc_email r) (map pc_email (au_principals st)) \<and>
         no_clash (pc_machine r) (map pc_machine (au_principals st))
      then Inr (st\<lparr>au_principals := au_principals st @ [r]\<rparr>) else Inl AuthStorageFailed)"

definition insert_grant :: "string \<times> string \<Rightarrow> auth_store \<Rightarrow> auth_error + auth_store" where
  "insert_grant g st =
     (if g \<in> set (au_grants st) then Inl AuthStorageFailed else Inr (st\<lparr>au_grants := au_grants st @ [g]\<rparr>))"

definition insert_reset :: "reset_record \<Rightarrow> auth_store \<Rightarrow> auth_error + auth_store" where
  "insert_reset r st =
     (if rt_hash r \<in> set (map rt_hash (au_resets st)) then Inl AuthStorageFailed
      else Inr (st\<lparr>au_resets := au_resets st @ [r]\<rparr>))"

definition insert_link :: "oauth_link \<Rightarrow> auth_store \<Rightarrow> auth_error + auth_store" where
  "insert_link l st =
     (if link_identity l \<in> set (map link_identity (au_links st)) \<or>
         (link_owner l, ol_provider l) \<in> set (map (\<lambda>l. (link_owner l, ol_provider l)) (au_links st))
      then Inl AuthStorageFailed else Inr (st\<lparr>au_links := au_links st @ [l]\<rparr>))"

definition principals_at :: "string \<times> string \<times> string \<Rightarrow> auth_store \<Rightarrow> principal_record list" where
  "principals_at k st = filter (\<lambda>r. principal_key r = k) (au_principals st)"

definition update_principal ::
  "string \<times> string \<times> string \<Rightarrow> (principal_record \<Rightarrow> principal_record) \<Rightarrow> auth_store \<Rightarrow> auth_store" where
  "update_principal k f st =
     st\<lparr>au_principals := map (\<lambda>r. if principal_key r = k then f r else r) (au_principals st)\<rparr>"

section \<open>Invariant of the tables\<close>

text \<open>What the unique keys guarantee of the rows.\<close>

definition unique_set :: "'k option list \<Rightarrow> bool" where
  "unique_set ks \<longleftrightarrow> distinct (filter (\<lambda>k. k \<noteq> None) ks)"

definition auth_store_ok :: "auth_store \<Rightarrow> bool" where
  "auth_store_ok st \<longleftrightarrow>
     distinct (map principal_key (au_principals st)) \<and> unique_set (map pc_email (au_principals st)) \<and>
     unique_set (map pc_machine (au_principals st)) \<and> distinct (au_grants st) \<and>
     distinct (map rt_hash (au_resets st)) \<and> distinct (map link_identity (au_links st)) \<and>
     distinct (map (\<lambda>l. (link_owner l, ol_provider l)) (au_links st))"

definition empty_auth_store :: auth_store where
  "empty_auth_store = \<lparr>au_principals = [], au_grants = [], au_resets = [], au_links = []\<rparr>"

lemma transaction_cases:
  assumes "transaction action st = (r, st')"
  obtains (raised) e where "r = Inl e" "st' = st" "action st = Inl e"
    | (committed) x where "r = Inr x" "action st = Inr (x, st')"
  using assms by (auto simp: transaction_def split: sum.splits)

lemma one_or_none_simps [simp]:
  "one_or_none rows = Inr None \<longleftrightarrow> rows = []"
  "one_or_none rows = Inr (Some r) \<longleftrightarrow> rows = [r]"
  "one_or_none [] = Inr None" "one_or_none [r] = Inr (Some r)"
  by (auto simp: one_or_none_def split: list.splits)

lemma unique_set_snoc: "unique_set (ks @ [k]) \<longleftrightarrow> unique_set ks \<and> no_clash k ks"
  by (auto simp: unique_set_def no_clash_def)

lemma filter_unique:
  "distinct (map f xs) \<Longrightarrow> x \<in> set xs \<Longrightarrow> filter (\<lambda>y. f y = f x) xs = [x]"
proof (induction xs)
  case Nil
  then show ?case by simp
next
  case (Cons y ys)
  show ?case
  proof (cases "f y = f x")
    case True
    then have "y = x" using Cons.prems by (auto simp: rev_image_eqI)
    then have "\<forall>z \<in> set ys. f z \<noteq> f x" using Cons.prems by (force simp: rev_image_eqI)
    then show ?thesis using \<open>y = x\<close> by (simp add: filter_empty_conv)
  next
    case False
    then show ?thesis using Cons by auto
  qed
qed

lemma one_principal:
  "auth_store_ok st \<Longrightarrow> one_or_none (principals_at k st) \<noteq> Inl e"
proof (cases "principals_at k st")
  case (Cons r rs)
  assume "auth_store_ok st"
  moreover have r: "r \<in> set (au_principals st)" "principal_key r = k"
    using Cons by (auto simp: principals_at_def filter_eq_Cons_iff)
  ultimately have "principals_at k st = [r]"
    using filter_unique [of principal_key "au_principals st" r] by (simp add: auth_store_ok_def principals_at_def)
  then show ?thesis by simp
qed simp

lemma ok_insert_principal: "auth_store_ok st \<Longrightarrow> insert_principal r st = Inr st' \<Longrightarrow> auth_store_ok st'"
  by (auto simp: insert_principal_def auth_store_ok_def unique_set_snoc split: if_splits)

lemma ok_insert_grant: "auth_store_ok st \<Longrightarrow> insert_grant g st = Inr st' \<Longrightarrow> auth_store_ok st'"
  by (auto simp: insert_grant_def auth_store_ok_def split: if_splits)

lemma ok_insert_reset: "auth_store_ok st \<Longrightarrow> insert_reset r st = Inr st' \<Longrightarrow> auth_store_ok st'"
  by (auto simp: insert_reset_def auth_store_ok_def split: if_splits)

lemma ok_insert_link: "auth_store_ok st \<Longrightarrow> insert_link l st = Inr st' \<Longrightarrow> auth_store_ok st'"
  by (auto simp: insert_link_def auth_store_ok_def split: if_splits)

lemma ok_update_principal:
  assumes "auth_store_ok st" and keep: "\<And>r. principal_key (f r) = principal_key r \<and> pc_email (f r) = pc_email r \<and>
    pc_machine (f r) = pc_machine r"
  shows "auth_store_ok (update_principal k f st)"
proof -
  let ?g = "\<lambda>r. if principal_key r = k then f r else r"
  have "principal_key \<circ> ?g = principal_key" "pc_email \<circ> ?g = pc_email" "pc_machine \<circ> ?g = pc_machine"
    using keep by auto
  then show ?thesis using assms(1) by (simp add: auth_store_ok_def update_principal_def)
qed

end
