(* ===== verification/Authentication.thy ===== *)
theory Authentication
  imports Auth_Store "HOL-Library.Char_ord" "HOL-Library.List_Lexorder"
begin

text \<open>
  The authentication manager (\<open>engines/security/auth.py\<close>) over the signature facade
  (\<open>crypto.py\<close>).  The primitives (Ed25519, SHA-256, Argon2id) and \<open>datetime.isoformat\<close> are
  arguments; the time, random values and salts an operation reads are arguments of the operation.
\<close>

section \<open>Primitives\<close>

text \<open>A \<open>datetime\<close> with its offset to UTC, or without one.\<close>

datatype py_datetime = Aware instant int | Naive instant

definition utc :: "instant \<Rightarrow> py_datetime" where
  "utc t = Aware t 0"

record crypto_ops =
  cy_sign :: "byte list \<Rightarrow> byte list \<Rightarrow> byte list"
  cy_verify :: "byte list \<Rightarrow> byte list \<Rightarrow> byte list \<Rightarrow> bool"
  cy_public :: "byte list \<Rightarrow> byte list"
  cy_sha256 :: "byte list \<Rightarrow> string"
  cy_hash :: "nat \<Rightarrow> string \<Rightarrow> string"
  cy_check :: "string \<Rightarrow> string \<Rightarrow> bool"
  cy_isoformat :: "py_datetime \<Rightarrow> string"

record cryptographic_signature =
  cg_algorithm :: string
  cg_signature :: "byte list"
  cg_public :: "byte list"

definition sign_data :: "crypto_ops \<Rightarrow> byte list \<Rightarrow> byte list \<Rightarrow> byte list \<Rightarrow> cryptographic_signature" where
  "sign_data cy data private public =
     \<lparr>cg_algorithm = ''ed25519'', cg_signature = cy_sign cy data private, cg_public = public\<rparr>"

definition verify_signature :: "crypto_ops \<Rightarrow> byte list \<Rightarrow> cryptographic_signature \<Rightarrow> bool" where
  "verify_signature cy data sg \<longleftrightarrow> cg_algorithm sg = ''ed25519'' \<and> cy_verify cy data (cg_signature sg) (cg_public sg)"

definition verify_signature_strict :: "crypto_ops \<Rightarrow> byte list \<Rightarrow> cryptographic_signature \<Rightarrow> auth_error + unit" where
  "verify_signature_strict cy data sg = (if verify_signature cy data sg then Inr () else Inl InvalidSignature)"

section \<open>The manager and its key\<close>

record auth_manager =
  am_crypto :: crypto_ops
  am_private :: "byte list"
  am_public :: "byte list"

definition SIGNING_KEY_LENGTH_BYTES :: nat where "SIGNING_KEY_LENGTH_BYTES = 32"
definition HEX_KEY_LENGTH_CHARS :: nat where "HEX_KEY_LENGTH_CHARS = 64"
definition TOKEN_TTL :: int where "TOKEN_TTL = 15 * 60"
definition MIN_PASSWORD_LENGTH :: nat where "MIN_PASSWORD_LENGTH = 8"
definition RESET_TOKEN_TTL :: int where "RESET_TOKEN_TTL = 30 * 60"
definition OAUTH_STATE_TTL :: int where "OAUTH_STATE_TTL = 10 * 60"
definition OAUTH_STATE_DOMAIN_PREFIX :: "byte list" where "OAUTH_STATE_DOMAIN_PREFIX = utf8 ''oauth-state:''"
definition REFRESH_TOKEN_TTL :: int where "REFRESH_TOKEN_TTL = 24 * 60 * 60"
definition REFRESH_TOKEN_DOMAIN_PREFIX :: "byte list" where "REFRESH_TOKEN_DOMAIN_PREFIX = utf8 ''refresh-token:''"
definition BOOTSTRAP_LOCK_TENANT_ID :: string where "BOOTSTRAP_LOCK_TENANT_ID = ''__system__''"
definition BOOTSTRAP_LOCK_PRINCIPAL_ID :: string where "BOOTSTRAP_LOCK_PRINCIPAL_ID = ''__bootstrap_lock__''"
definition BOOTSTRAP_MIN_PASSWORD_LENGTH :: nat where "BOOTSTRAP_MIN_PASSWORD_LENGTH = 8"

definition auth_manager_with :: "crypto_ops \<Rightarrow> byte list \<Rightarrow> auth_error + auth_manager" where
  "auth_manager_with cy key =
     (if length key \<noteq> SIGNING_KEY_LENGTH_BYTES then Inl (SigningKey ''Authentication signing key must be exactly 32 bytes.'')
      else Inr \<lparr>am_crypto = cy, am_private = key, am_public = cy_public cy key\<rparr>)"

definition decode_signing_key :: "string \<Rightarrow> auth_error + byte list" where
  "decode_signing_key raw =
     (let stripped = strip raw
      in if stripped = [] then Inl (SigningKey ''KORTEX_AUTH_SIGNING_PRIVATE_KEY is missing or empty.'')
         else (case (if length stripped = HEX_KEY_LENGTH_CHARS then fromhex stripped else b64decode stripped) of
                 None \<Rightarrow> Inl (SigningKey ''KORTEX_AUTH_SIGNING_PRIVATE_KEY is not valid.'')
               | Some decoded \<Rightarrow>
                   if length decoded \<noteq> SIGNING_KEY_LENGTH_BYTES
                   then Inl (SigningKey ''KORTEX_AUTH_SIGNING_PRIVATE_KEY must decode to exactly 32 bytes.'')
                   else Inr decoded))"

section \<open>Principals\<close>

definition parse_principal_type :: "string \<Rightarrow> principal_type option" where
  "parse_principal_type s = find (\<lambda>t. principal_type_value t = s) [PT_USER, PT_SERVICE_PRINCIPAL, PT_AGENT]"

definition security_principal_of :: "principal_record \<Rightarrow> auth_error + security_principal" where
  "security_principal_of r =
     (case parse_principal_type (pc_type r) of
        None \<Rightarrow> Inl (UnknownPrincipalType (pc_type r))
      | Some t \<Rightarrow> Inr \<lparr>sp_principal_id = pc_principal r, sp_principal_type = t, sp_tenant_id = pc_tenant r,
                      sp_roles = pc_roles r, sp_attributes = pc_attributes r\<rparr>)"

definition load_principal :: "string \<Rightarrow> string \<Rightarrow> string \<Rightarrow> principal_record option auth_eff" where
  "load_principal tenant principal_id type =
     transaction (\<lambda>st. bind_res (one_or_none (principals_at (tenant, principal_id, type) st)) (\<lambda>r. Inr (r, st)))"

definition CREDENTIAL_FIELD_BY_TYPE :: "(string, string) dict" where
  "CREDENTIAL_FIELD_BY_TYPE =
     [(''USER'', ''password''), (''SERVICE_PRINCIPAL'', ''credential''), (''AGENT'', ''credential'')]"

definition nonempty_str :: "pyval option \<Rightarrow> string option" where
  "nonempty_str v = (case v of Some (PStr s) \<Rightarrow> if s = [] then None else Some s | _ \<Rightarrow> None)"

text \<open>The four strings that credentials must hold: type, tenant, identifier and secret.\<close>

definition credential_parts :: "pyval \<Rightarrow> (string \<times> string \<times> string \<times> string) option" where
  "credential_parts credentials =
     (case credentials of
        PDict d \<Rightarrow>
          (case (nonempty_str (dict_get d ''tenant_id''), nonempty_str (dict_get d ''principal_id''),
                 nonempty_str (dict_get d ''principal_type'')) of
             (Some tenant, Some principal_id, Some type) \<Rightarrow>
               (case dict_get CREDENTIAL_FIELD_BY_TYPE type of
                  None \<Rightarrow> None
                | Some field \<Rightarrow>
                    map_option (\<lambda>presented. (tenant, principal_id, type, presented)) (nonempty_str (dict_get d field)))
           | _ \<Rightarrow> None)
      | _ \<Rightarrow> None)"

definition usable_hash :: "principal_record option \<Rightarrow> string option" where
  "usable_hash snapshot =
     (case snapshot of
        Some r \<Rightarrow> if pc_enabled r then (case pc_credential r of Some h \<Rightarrow> if h = [] then None else Some h | None \<Rightarrow> None)
                  else None
      | None \<Rightarrow> None)"

definition authenticate :: "auth_manager \<Rightarrow> pyval \<Rightarrow> security_principal auth_eff" where
  "authenticate m credentials =
     (case credential_parts credentials of
        None \<Rightarrow> raise_error AuthenticationFailed
      | Some (tenant, principal_id, type, presented) \<Rightarrow>
          bind_eff (load_principal tenant principal_id type) (\<lambda>snapshot.
            case (snapshot, usable_hash snapshot) of
              (Some r, Some h) \<Rightarrow>
                if cy_check (am_crypto m) h presented then lift_res (security_principal_of r)
                else raise_error AuthenticationFailed
            | _ \<Rightarrow> raise_error AuthenticationFailed))"

definition new_principal ::
  "string \<Rightarrow> string \<Rightarrow> string \<Rightarrow> string option \<Rightarrow> string list \<Rightarrow> (string, pyval) dict \<Rightarrow> string option \<Rightarrow> principal_record" where
  "new_principal tenant principal_id type hash roles attributes email =
     \<lparr>pc_tenant = tenant, pc_principal = principal_id, pc_type = type, pc_enabled = True, pc_credential = hash,
      pc_roles = roles, pc_attributes = attributes, pc_email = email, pc_machine = None\<rparr>"

definition provision_principal ::
  "auth_manager \<Rightarrow> nat \<Rightarrow> string \<Rightarrow> string \<Rightarrow> principal_type \<Rightarrow> string \<Rightarrow> string list option \<Rightarrow> (string, pyval) dict option \<Rightarrow>
   bool auth_eff" where
  "provision_principal m salt tenant principal_id type credential roles attributes =
     transaction (\<lambda>st.
       bind_res (one_or_none (principals_at (tenant, principal_id, principal_type_value type) st)) (\<lambda>existing.
         case existing of
           Some _ \<Rightarrow> Inr (False, st)
         | None \<Rightarrow>
             bind_res (insert_principal (new_principal tenant principal_id (principal_type_value type)
                 (Some (cy_hash (am_crypto m) salt credential)) (case roles of None \<Rightarrow> [] | Some rs \<Rightarrow> rs)
                 (case attributes of None \<Rightarrow> [] | Some d \<Rightarrow> d) None) st) (\<lambda>st'. Inr (True, st'))))"

section \<open>First-run bootstrap\<close>

definition is_bootstrap_required :: "bool auth_eff" where
  "is_bootstrap_required = transaction (\<lambda>st. Inr (au_principals st = [], st))"

definition bootstrap_lock :: principal_record where
  "bootstrap_lock =
     (new_principal BOOTSTRAP_LOCK_TENANT_ID BOOTSTRAP_LOCK_PRINCIPAL_ID (principal_type_value PT_SERVICE_PRINCIPAL) None [] [] None)
       \<lparr>pc_enabled := False\<rparr>"

text \<open>What the bootstrap writes: the lock, the administrator and the grants of its first role.\<close>

definition bootstrap_rows ::
  "auth_manager \<Rightarrow> nat \<Rightarrow> string \<Rightarrow> string \<Rightarrow> string \<Rightarrow> string list \<Rightarrow> string list \<Rightarrow> auth_store \<Rightarrow> auth_error + auth_store" where
  "bootstrap_rows m salt tenant principal_id password roles permissions st =
     bind_res (insert_principal bootstrap_lock st) (\<lambda>st1.
     bind_res (insert_principal (new_principal tenant principal_id (principal_type_value PT_USER)
         (Some (cy_hash (am_crypto m) salt password)) roles [(''clearance_level'', PStr ''RESTRICTED'')] None) st1) (\<lambda>st2.
     fold_res (\<lambda>s permission. insert_grant (hd roles, permission) s) st2 (sort (remdups permissions))))"

definition bootstrap_valid :: "string \<Rightarrow> string \<Rightarrow> string \<Rightarrow> string list \<Rightarrow> auth_error + unit" where
  "bootstrap_valid tenant principal_id password roles =
     (if strip tenant = [] then Inl (BootstrapValidation ''A tenant ID is required.'')
      else if strip principal_id = [] then Inl (BootstrapValidation ''A username is required.'')
      else if length password < BOOTSTRAP_MIN_PASSWORD_LENGTH
      then Inl (BootstrapValidation ''Password must be at least 8 characters.'')
      else if roles = [] then Inl (BootstrapValidation ''At least one role is required for the bootstrap administrator.'')
      else Inr ())"

definition bootstrap_first_admin ::
  "auth_manager \<Rightarrow> nat \<Rightarrow> string \<Rightarrow> string \<Rightarrow> string \<Rightarrow> string list \<Rightarrow> string list \<Rightarrow> unit auth_eff" where
  "bootstrap_first_admin m salt tenant principal_id password roles permissions =
     seq_eff (lift_res (bootstrap_valid tenant principal_id password roles))
       (transaction (\<lambda>st.
          if au_principals st \<noteq> [] then Inl BootstrapClosed
          else bind_res (bootstrap_rows m salt tenant principal_id password roles permissions st) (\<lambda>st'. Inr ((), st'))))"

section \<open>Tokens\<close>

record token_payload =
  tk_id :: string
  tk_principal :: string
  tk_type :: principal_type
  tk_tenant :: string
  tk_issued :: py_datetime
  tk_expires :: py_datetime
  tk_signature :: "byte list option"

definition token_parts :: "crypto_ops \<Rightarrow> token_payload \<Rightarrow> string list" where
  "token_parts cy t =
     [tk_id t, tk_principal t, principal_type_value (tk_type t), tk_tenant t,
      cy_isoformat cy (tk_issued t), cy_isoformat cy (tk_expires t)]"

definition fits :: "byte list option \<Rightarrow> auth_error + byte list" where
  "fits payload = (case payload of None \<Rightarrow> Inl LengthOverflow | Some bs \<Rightarrow> Inr bs)"

definition build_signing_payload :: "crypto_ops \<Rightarrow> token_payload \<Rightarrow> auth_error + byte list" where
  "build_signing_payload cy t = fits (encode_parts [] (token_parts cy t))"

definition build_refresh_signing_payload :: "crypto_ops \<Rightarrow> token_payload \<Rightarrow> auth_error + byte list" where
  "build_refresh_signing_payload cy t = fits (encode_parts REFRESH_TOKEN_DOMAIN_PREFIX (token_parts cy t))"

definition token_claims :: "security_principal \<Rightarrow> byte list \<Rightarrow> instant \<Rightarrow> int \<Rightarrow> token_payload" where
  "token_claims p random now ttl =
     \<lparr>tk_id = tohex random, tk_principal = sp_principal_id p, tk_type = sp_principal_type p, tk_tenant = sp_tenant_id p,
      tk_issued = utc now, tk_expires = utc (now + ttl), tk_signature = None\<rparr>"

definition signed_token :: "auth_manager \<Rightarrow> token_payload \<Rightarrow> byte list \<Rightarrow> token_payload" where
  "signed_token m t payload =
     t\<lparr>tk_signature := Some (cg_signature (sign_data (am_crypto m) payload (am_private m) (am_public m)))\<rparr>"

definition issue_token :: "auth_manager \<Rightarrow> instant \<Rightarrow> byte list \<Rightarrow> security_principal \<Rightarrow> auth_error + token_payload" where
  "issue_token m now random p =
     (let t = token_claims p random now TOKEN_TTL
      in bind_res (build_signing_payload (am_crypto m) t) (\<lambda>payload. Inr (signed_token m t payload)))"

definition issue_refresh_token :: "auth_manager \<Rightarrow> instant \<Rightarrow> byte list \<Rightarrow> security_principal \<Rightarrow> auth_error + token_payload" where
  "issue_refresh_token m now random p =
     (let t = token_claims p random now REFRESH_TOKEN_TTL
      in bind_res (build_refresh_signing_payload (am_crypto m) t) (\<lambda>payload. Inr (signed_token m t payload)))"

text \<open>
  The comparison of a current time with an unaware one raises, which counts as invalid.
\<close>

definition temporally_invalid :: "instant \<Rightarrow> py_datetime \<Rightarrow> py_datetime \<Rightarrow> bool" where
  "temporally_invalid now issued expires =
     (case expires of
        Naive _ \<Rightarrow> True
      | Aware e _ \<Rightarrow> if e < now then True else (case issued of Naive _ \<Rightarrow> True | Aware i _ \<Rightarrow> now < i))"

definition signature_over :: "auth_manager \<Rightarrow> byte list \<Rightarrow> cryptographic_signature" where
  "signature_over m sg = \<lparr>cg_algorithm = ''ed25519'', cg_signature = sg, cg_public = am_public m\<rparr>"

definition check_claims :: "auth_manager \<Rightarrow> instant \<Rightarrow> string \<Rightarrow> token_payload \<Rightarrow> byte list \<Rightarrow> byte list \<Rightarrow> security_principal auth_eff" where
  "check_claims m now what t sg payload =
     seq_eff (lift_res (verify_signature_strict (am_crypto m) payload (signature_over m sg)))
       (bind_eff (load_principal (tk_tenant t) (tk_principal t) (principal_type_value (tk_type t))) (\<lambda>snapshot.
          case snapshot of
            None \<Rightarrow> raise_error (InvalidToken what)
          | Some r \<Rightarrow>
              if \<not> pc_enabled r then raise_error (InvalidToken what)
              else if temporally_invalid now (tk_issued t) (tk_expires t) then raise_error TokenExpired
              else lift_res (security_principal_of r)))"

definition verify_token :: "auth_manager \<Rightarrow> instant \<Rightarrow> token_payload \<Rightarrow> security_principal auth_eff" where
  "verify_token m now t =
     (case tk_signature t of
        None \<Rightarrow> raise_error (InvalidToken ''Token has no signature.'')
      | Some sg \<Rightarrow> bind_eff (lift_res (build_signing_payload (am_crypto m) t))
          (check_claims m now ''Token principal is no longer valid.'' t sg))"

definition verify_refresh_token :: "auth_manager \<Rightarrow> instant \<Rightarrow> token_payload \<Rightarrow> security_principal auth_eff" where
  "verify_refresh_token m now t =
     (case tk_signature t of
        None \<Rightarrow> raise_error (InvalidToken ''Refresh token has no signature.'')
      | Some sg \<Rightarrow> bind_eff (lift_res (build_refresh_signing_payload (am_crypto m) t))
          (check_claims m now ''Refresh token principal is no longer valid.'' t sg))"

end
