(* ===== verification/Auth_Accounts.thy ===== *)
theory Auth_Accounts
  imports Authentication
begin

text \<open>
  The account operations of the authentication manager (\<open>engines/security/auth.py\<close>): registration,
  e-mail, password change and reset, OAuth states and identity links.
\<close>

section \<open>Registration\<close>

definition plain_char :: "char \<Rightarrow> bool" where
  "plain_char c \<longleftrightarrow> c \<noteq> CHR ''@'' \<and> \<not> is_space c"

definition email_body :: "string \<Rightarrow> bool" where
  "email_body s \<longleftrightarrow>
     takeWhile plain_char s \<noteq> [] \<and>
     (case dropWhile plain_char s of
        [] \<Rightarrow> False
      | c # domain \<Rightarrow> c = CHR ''@'' \<and> list_all plain_char domain \<and> domain \<noteq> [] \<and> CHR ''.'' \<in> set (butlast (tl domain)))"

text \<open>The pattern of the code, whose \<open>$\<close> also matches before a final line feed.\<close>

definition EMAIL_PATTERN :: "string \<Rightarrow> bool" where
  "EMAIL_PATTERN s \<longleftrightarrow> email_body s \<or> s \<noteq> [] \<and> last s = char_of (10 :: nat) \<and> email_body (butlast s)"

definition registration_valid :: "string \<Rightarrow> string \<Rightarrow> string \<Rightarrow> string list \<Rightarrow> string option \<Rightarrow> auth_error + unit" where
  "registration_valid tenant principal_id password roles email =
     (if strip tenant = [] then Inl (RegistrationValidation ''A tenant ID is required.'')
      else if strip principal_id = [] then Inl (RegistrationValidation ''A username is required.'')
      else if roles = [] then Inl (RegistrationValidation ''At least one role is required.'')
      else if (case email of None \<Rightarrow> False | Some e \<Rightarrow> \<not> EMAIL_PATTERN e)
      then Inl (RegistrationValidation ''The email address is not valid.'')
      else if length password < MIN_PASSWORD_LENGTH then Inl PasswordPolicy
      else Inr ())"

definition register_principal ::
  "auth_manager \<Rightarrow> nat \<Rightarrow> string \<Rightarrow> string \<Rightarrow> string \<Rightarrow> string list \<Rightarrow> string option \<Rightarrow> unit auth_eff" where
  "register_principal m salt tenant principal_id password roles email =
     seq_eff (lift_res (registration_valid tenant principal_id password roles email))
       (transaction (\<lambda>st.
          bind_res (one_or_none (principals_at (tenant, principal_id, principal_type_value PT_USER) st)) (\<lambda>existing.
            if existing \<noteq> None then Inl (PrincipalAlreadyExists tenant principal_id)
            else bind_res (insert_principal (new_principal tenant principal_id (principal_type_value PT_USER)
                (Some (cy_hash (am_crypto m) salt password)) roles [] email) st) (\<lambda>st'. Inr ((), st')))))"

text \<open>An address is unique over all tenants.\<close>

definition store_email :: "string \<times> string \<times> string \<Rightarrow> string \<Rightarrow> auth_store \<Rightarrow> auth_error + auth_store" where
  "store_email k email st =
     (if \<exists>r \<in> set (au_principals st). principal_key r \<noteq> k \<and> pc_email r = Some email then Inl AuthStorageFailed
      else Inr (update_principal k (\<lambda>r. r\<lparr>pc_email := Some email\<rparr>) st))"

definition set_email :: "string \<Rightarrow> string \<Rightarrow> string \<Rightarrow> string \<Rightarrow> unit auth_eff" where
  "set_email tenant principal_id type email =
     (if \<not> EMAIL_PATTERN email then raise_error (RegistrationValidation ''The email address is not valid.'')
      else transaction (\<lambda>st.
        bind_res (one_or_none (principals_at (tenant, principal_id, type) st)) (\<lambda>existing.
          if existing = None then Inl AuthenticationFailed
          else bind_res (store_email (tenant, principal_id, type) email st) (\<lambda>st'. Inr ((), st')))))"

section \<open>Passwords\<close>

text \<open>The write of a new hash, in a transaction of its own.\<close>

definition store_credential :: "string \<times> string \<times> string \<Rightarrow> string \<Rightarrow> unit auth_eff" where
  "store_credential k hash =
     transaction (\<lambda>st.
       bind_res (one_or_none (principals_at k st)) (\<lambda>existing.
         if existing = None then Inl AuthenticationFailed
         else Inr ((), update_principal k (\<lambda>r. r\<lparr>pc_credential := Some hash\<rparr>) st)))"

definition change_password ::
  "auth_manager \<Rightarrow> nat \<Rightarrow> string \<Rightarrow> string \<Rightarrow> string \<Rightarrow> string \<Rightarrow> string \<Rightarrow> unit auth_eff" where
  "change_password m salt tenant principal_id type current_password new_password =
     (if length new_password < MIN_PASSWORD_LENGTH then raise_error PasswordPolicy
      else bind_eff (load_principal tenant principal_id type) (\<lambda>snapshot.
        case usable_hash snapshot of
          None \<Rightarrow> raise_error AuthenticationFailed
        | Some h \<Rightarrow>
            if \<not> cy_check (am_crypto m) h current_password then raise_error AuthenticationFailed
            else store_credential (tenant, principal_id, type) (cy_hash (am_crypto m) salt new_password)))"

definition token_hash :: "auth_manager \<Rightarrow> string \<Rightarrow> string" where
  "token_hash m token = cy_sha256 (am_crypto m) (utf8 token)"

definition find_by_email :: "string \<Rightarrow> principal_record option auth_eff" where
  "find_by_email email =
     transaction (\<lambda>st.
       bind_res (one_or_none (filter (\<lambda>r. pc_email r = Some email \<and> pc_enabled r) (au_principals st))) (\<lambda>r. Inr (r, st)))"

definition store_reset :: "auth_manager \<Rightarrow> instant \<Rightarrow> string \<Rightarrow> principal_record \<Rightarrow> unit auth_eff" where
  "store_reset m now raw_token r =
     transaction (\<lambda>st.
       bind_res (insert_reset
         \<lparr>rt_tenant = pc_tenant r, rt_principal = pc_principal r, rt_type = pc_type r, rt_hash = token_hash m raw_token,
          rt_expires = now + RESET_TOKEN_TTL, rt_used = None\<rparr> st) (\<lambda>st'. Inr ((), st')))"

definition request_password_reset :: "auth_manager \<Rightarrow> instant \<Rightarrow> string \<Rightarrow> string \<Rightarrow> string option auth_eff" where
  "request_password_reset m now raw_token email =
     bind_eff (find_by_email email) (\<lambda>snapshot.
       case snapshot of
         None \<Rightarrow> ret None
       | Some r \<Rightarrow> seq_eff (store_reset m now raw_token r) (ret (Some raw_token)))"

definition redeem_reset :: "string \<Rightarrow> string \<Rightarrow> instant \<Rightarrow> auth_store \<Rightarrow> auth_error + unit \<times> auth_store" where
  "redeem_reset hash new_hash now st =
     bind_res (one_or_none (filter (\<lambda>r. rt_hash r = hash) (au_resets st))) (\<lambda>found.
       case found of
         None \<Rightarrow> Inl PasswordResetRefused
       | Some reset \<Rightarrow>
           if rt_used reset \<noteq> None \<or> rt_expires reset < now then Inl PasswordResetRefused
           else bind_res (one_or_none (principals_at (rt_tenant reset, rt_principal reset, rt_type reset) st)) (\<lambda>owner.
             case owner of
               None \<Rightarrow> Inl PasswordResetRefused
             | Some r \<Rightarrow>
                 if \<not> pc_enabled r then Inl PasswordResetRefused
                 else Inr ((), (update_principal (principal_key r) (\<lambda>r. r\<lparr>pc_credential := Some new_hash\<rparr>) st)
                   \<lparr>au_resets := map (\<lambda>r. if rt_hash r = hash then r\<lparr>rt_used := Some now\<rparr> else r) (au_resets st)\<rparr>)))"

definition reset_password :: "auth_manager \<Rightarrow> nat \<Rightarrow> instant \<Rightarrow> string \<Rightarrow> string \<Rightarrow> unit auth_eff" where
  "reset_password m salt now token new_password =
     (if token = [] then raise_error PasswordResetRefused
      else if length new_password < MIN_PASSWORD_LENGTH then raise_error PasswordPolicy
      else transaction (redeem_reset (token_hash m token) (cy_hash (am_crypto m) salt new_password) now))"

section \<open>OAuth states\<close>

record oauth_state =
  os_nonce :: string
  os_provider :: string
  os_intent :: string
  os_tenant :: "string option"
  os_principal :: "string option"
  os_type :: "string option"
  os_profile :: "string option"
  os_issued :: py_datetime
  os_expires :: py_datetime
  os_signature :: "byte list option"

definition or_empty :: "string option \<Rightarrow> string" where
  "or_empty s = (case s of None \<Rightarrow> [] | Some s \<Rightarrow> s)"

definition oauth_state_parts :: "crypto_ops \<Rightarrow> oauth_state \<Rightarrow> string list" where
  "oauth_state_parts cy s =
     [os_nonce s, os_provider s, os_intent s, or_empty (os_tenant s), or_empty (os_principal s), or_empty (os_type s),
      or_empty (os_profile s), cy_isoformat cy (os_issued s), cy_isoformat cy (os_expires s)]"

definition build_oauth_state_signing_payload :: "crypto_ops \<Rightarrow> oauth_state \<Rightarrow> auth_error + byte list" where
  "build_oauth_state_signing_payload cy s = fits (encode_parts OAUTH_STATE_DOMAIN_PREFIX (oauth_state_parts cy s))"

definition issue_oauth_state ::
  "auth_manager \<Rightarrow> instant \<Rightarrow> string \<Rightarrow> string \<Rightarrow> string \<Rightarrow> string option \<Rightarrow> string option \<Rightarrow> string option \<Rightarrow> string option \<Rightarrow>
   auth_error + oauth_state" where
  "issue_oauth_state m now nonce provider intent tenant principal_id type profile =
     (let s = \<lparr>os_nonce = nonce, os_provider = provider, os_intent = intent, os_tenant = tenant, os_principal = principal_id,
               os_type = type, os_profile = profile, os_issued = utc now, os_expires = utc (now + OAUTH_STATE_TTL),
               os_signature = None\<rparr>
      in bind_res (build_oauth_state_signing_payload (am_crypto m) s) (\<lambda>payload.
           Inr (s\<lparr>os_signature := Some (cg_signature (sign_data (am_crypto m) payload (am_private m) (am_public m)))\<rparr>)))"

definition verify_oauth_state :: "auth_manager \<Rightarrow> instant \<Rightarrow> oauth_state \<Rightarrow> auth_error + oauth_state" where
  "verify_oauth_state m now s =
     (case os_signature s of
        None \<Rightarrow> Inl OAuthStateInvalid
      | Some sg \<Rightarrow>
          bind_res (build_oauth_state_signing_payload (am_crypto m) s) (\<lambda>payload.
            if verify_signature_strict (am_crypto m) payload (signature_over m sg) \<noteq> Inr () then Inl OAuthStateInvalid
            else if temporally_invalid now (os_issued s) (os_expires s) then Inl OAuthStateInvalid
            else Inr s))"

section \<open>OAuth links\<close>

definition links_of_identity :: "string \<Rightarrow> string \<Rightarrow> auth_store \<Rightarrow> oauth_link list" where
  "links_of_identity provider subject st = filter (\<lambda>l. link_identity l = (provider, subject)) (au_links st)"

definition links_of_owner :: "string \<times> string \<times> string \<Rightarrow> string \<Rightarrow> auth_store \<Rightarrow> oauth_link list" where
  "links_of_owner k provider st = filter (\<lambda>l. link_owner l = k \<and> ol_provider l = provider) (au_links st)"

definition find_linked :: "string \<Rightarrow> string \<Rightarrow> principal_record option auth_eff" where
  "find_linked provider subject =
     transaction (\<lambda>st.
       bind_res (one_or_none (links_of_identity provider subject st)) (\<lambda>link.
         case link of
           None \<Rightarrow> Inr (None, st)
         | Some l \<Rightarrow>
             bind_res (one_or_none (principals_at (link_owner l) st)) (\<lambda>owner.
               Inr ((case owner of Some r \<Rightarrow> if pc_enabled r then Some r else None | None \<Rightarrow> None), st))))"

definition resolve_oauth_link :: "string \<Rightarrow> string \<Rightarrow> security_principal option auth_eff" where
  "resolve_oauth_link provider subject =
     bind_eff (find_linked provider subject) (\<lambda>snapshot.
       case snapshot of
         None \<Rightarrow> ret None
       | Some r \<Rightarrow> bind_eff (lift_res (security_principal_of r)) (\<lambda>p. ret (Some p)))"

definition link_rows ::
  "instant \<Rightarrow> string \<times> string \<times> string \<Rightarrow> string \<Rightarrow> string \<Rightarrow> auth_store \<Rightarrow> auth_error + unit \<times> auth_store" where
  "link_rows now k provider subject st =
     bind_res (one_or_none (links_of_identity provider subject st)) (\<lambda>conflict.
       case conflict of
         Some l \<Rightarrow> if link_owner l \<noteq> k then Inl (OAuthLinkConflict provider) else Inr ((), st)
       | None \<Rightarrow>
           bind_res (one_or_none (links_of_owner k provider st)) (\<lambda>own.
             bind_res (insert_link
                 \<lparr>ol_tenant = fst k, ol_principal = fst (snd k), ol_type = snd (snd k), ol_provider = provider,
                  ol_subject = subject, ol_linked = now\<rparr>
                 (st\<lparr>au_links := (case own of None \<Rightarrow> au_links st | Some l \<Rightarrow> remove1 l (au_links st))\<rparr>))
               (\<lambda>st'. Inr ((), st'))))"

definition link_oauth_identity :: "instant \<Rightarrow> string \<Rightarrow> string \<Rightarrow> string \<Rightarrow> string \<Rightarrow> string \<Rightarrow> unit auth_eff" where
  "link_oauth_identity now tenant principal_id type provider subject =
     transaction (link_rows now (tenant, principal_id, type) provider subject)"

definition unlink_oauth_identity :: "string \<Rightarrow> string \<Rightarrow> string \<Rightarrow> string \<Rightarrow> bool auth_eff" where
  "unlink_oauth_identity tenant principal_id type provider =
     transaction (\<lambda>st.
       bind_res (one_or_none (links_of_owner (tenant, principal_id, type) provider st)) (\<lambda>own.
         case own of
           None \<Rightarrow> Inr (False, st)
         | Some l \<Rightarrow> Inr (True, st\<lparr>au_links := remove1 l (au_links st)\<rparr>)))"

definition list_oauth_links :: "string \<Rightarrow> string \<Rightarrow> string \<Rightarrow> string list auth_eff" where
  "list_oauth_links tenant principal_id type =
     transaction (\<lambda>st.
       Inr (map ol_provider (filter (\<lambda>l. link_owner l = (tenant, principal_id, type)) (au_links st)), st))"

end
