(* ===== verification/Token_Correct.thy ===== *)
theory Token_Correct
  imports Auth_Accounts
begin

text \<open>
  What an accepted token proves: the payloads of the three kinds of signed values determine them and
  never coincide, so a signature made for one value is accepted for no other.
\<close>

section \<open>Payloads\<close>

datatype signed_value = Access token_payload | Refresh token_payload | State oauth_state

fun payload_of :: "crypto_ops \<Rightarrow> signed_value \<Rightarrow> auth_error + byte list" where
  "payload_of cy (Access t) = build_signing_payload cy t"
| "payload_of cy (Refresh t) = build_refresh_signing_payload cy t"
| "payload_of cy (State s) = build_oauth_state_signing_payload cy s"

text \<open>
  A signature that verifies under the manager's key was made by the manager: it is over the payload
  of a value that it signed.
\<close>

definition only_signed :: "auth_manager \<Rightarrow> signed_value list \<Rightarrow> bool" where
  "only_signed m log \<longleftrightarrow>
     (\<forall>payload sg. cy_verify (am_crypto m) payload sg (am_public m) \<longrightarrow>
        (\<exists>x \<in> set log. payload_of (am_crypto m) x = Inr payload))"

text \<open>The length of an identifier that would read as a domain prefix is above one billion.\<close>

definition short_id :: "string \<Rightarrow> bool" where
  "short_id s \<longleftrightarrow> length (utf8 s) < 10 ^ 9"

definition without_signature :: "token_payload \<Rightarrow> token_payload" where
  "without_signature t = t\<lparr>tk_signature := None\<rparr>"

definition state_claims :: "oauth_state \<Rightarrow> oauth_state" where
  "state_claims s =
     s\<lparr>os_tenant := Some (or_empty (os_tenant s)), os_principal := Some (or_empty (os_principal s)),
       os_type := Some (or_empty (os_type s)), os_profile := Some (or_empty (os_profile s)), os_signature := None\<rparr>"

lemma fits_Inr [simp]: "fits x = Inr bs \<longleftrightarrow> x = Some bs"
  by (simp add: fits_def split: option.split)

lemma principal_type_value_inject [simp]: "principal_type_value a = principal_type_value b \<longleftrightarrow> a = b"
  by (cases a; cases b) simp_all

lemma token_parts_inject:
  assumes "inj (cy_isoformat cy)" "token_parts cy t = token_parts cy u"
  shows "without_signature t = without_signature u"
proof -
  have "tk_issued t = tk_issued u" "tk_expires t = tk_expires u"
    using assms by (simp_all add: token_parts_def inj_eq)
  then show ?thesis
    using assms(2) by (cases t; cases u) (simp add: token_parts_def without_signature_def)
qed

lemma oauth_state_parts_inject:
  assumes "inj (cy_isoformat cy)" "oauth_state_parts cy s = oauth_state_parts cy u"
  shows "state_claims s = state_claims u"
proof -
  have "os_issued s = os_issued u" "os_expires s = os_expires u"
    using assms by (simp_all add: oauth_state_parts_def inj_eq)
  then show ?thesis
    using assms(2) by (cases s; cases u) (simp add: oauth_state_parts_def state_claims_def)
qed

lemma prefixed_start: "encode_parts p xs = Some bs \<Longrightarrow> take (length p) bs = p"
  using encode_parts_prefix by fastforce

lemma first_length:
  assumes "encode_parts [] (x # xs) = Some bs" shows "of_bytes4 (take 4 bs) = length (utf8 x)"
proof -
  have "encode_parts (to_bytes4 (length (utf8 x)) @ utf8 x) xs = Some bs" "length (utf8 x) < 2 ^ 32"
    using assms by (simp_all add: Let_def split: if_splits)
  with encode_parts_prefix show ?thesis by fastforce
qed

lemma prefix_lengths:
  "of_bytes4 (take 4 (REFRESH_TOKEN_DOMAIN_PREFIX @ x)) = 1919247986"
  "of_bytes4 (take 4 (OAUTH_STATE_DOMAIN_PREFIX @ x)) = 1868658036"
  by (simp_all add: REFRESH_TOKEN_DOMAIN_PREFIX_def OAUTH_STATE_DOMAIN_PREFIX_def utf8_def utf8_char_def of_bytes4_def)

text \<open>No two kinds share a payload, and a payload determines its value.\<close>

lemma payload_first:
  assumes "payload_of cy x = Inr bs"
  shows "case x of Access t \<Rightarrow> of_bytes4 (take 4 bs) = length (utf8 (tk_id t))
     | Refresh t \<Rightarrow> of_bytes4 (take 4 bs) = 1919247986 | State s \<Rightarrow> of_bytes4 (take 4 bs) = 1868658036"
proof (cases x)
  case (Access t)
  with assms show ?thesis by (simp add: build_signing_payload_def token_parts_def first_length del: encode_parts.simps)
next
  case (Refresh t)
  with assms show ?thesis
    using encode_parts_prefix prefix_lengths by (fastforce simp: build_refresh_signing_payload_def)
next
  case (State s)
  with assms show ?thesis
    using encode_parts_prefix prefix_lengths by (fastforce simp: build_oauth_state_signing_payload_def)
qed

definition short_value :: "signed_value \<Rightarrow> bool" where
  "short_value x \<longleftrightarrow> (case x of Access t \<Rightarrow> short_id (tk_id t) | _ \<Rightarrow> True)"

theorem payload_determines:
  assumes iso: "inj (cy_isoformat cy)" and x: "payload_of cy x = Inr bs" and y: "payload_of cy y = Inr bs"
    and short: "short_value x" "short_value y"
  shows "case (x, y) of
     (Access t, Access u) \<Rightarrow> without_signature t = without_signature u
   | (Refresh t, Refresh u) \<Rightarrow> without_signature t = without_signature u
   | (State s, State u) \<Rightarrow> state_claims s = state_claims u
   | _ \<Rightarrow> False"
proof -
  note parts = build_signing_payload_def build_refresh_signing_payload_def build_oauth_state_signing_payload_def
  note first = payload_first [OF x] payload_first [OF y]
  show ?thesis
  proof (cases x)
    case (Access t)
    then obtain u where y': "y = Access u" using first short by (cases y) (auto simp: short_value_def short_id_def)
    with x y Access have "token_parts cy t = token_parts cy u" by (auto simp: parts intro: encode_parts_inject)
    from token_parts_inject [OF iso this] show ?thesis by (simp add: Access y')
  next
    case (Refresh t)
    then obtain u where y': "y = Refresh u" using first short by (cases y) (auto simp: short_value_def short_id_def)
    with x y Refresh have "token_parts cy t = token_parts cy u" by (auto simp: parts intro: encode_parts_inject)
    from token_parts_inject [OF iso this] show ?thesis by (simp add: Refresh y')
  next
    case (State s)
    then obtain u where y': "y = State u" using first short by (cases y) (auto simp: short_value_def short_id_def)
    with x y State have "oauth_state_parts cy s = oauth_state_parts cy u" by (auto simp: parts intro: encode_parts_inject)
    from oauth_state_parts_inject [OF iso this] show ?thesis by (simp add: State y')
  qed
qed

section \<open>Verification\<close>

lemma bind_eff_Inr:
  "bind_eff m f s = (Inr x, s') \<longleftrightarrow> (\<exists>y t. m s = (Inr y, t) \<and> f y t = (Inr x, s'))"
  by (auto simp: bind_eff_def split: prod.splits sum.splits)

lemma lift_res_Inr: "lift_res r s = (Inr x, s') \<longleftrightarrow> r = Inr x \<and> s' = s"
  by (auto simp: lift_res_def)

lemma load_principal_result:
  "load_principal tenant pid type st =
     (bind_res (one_or_none (principals_at (tenant, pid, type) st)) Inr, st)"
  by (cases "one_or_none (principals_at (tenant, pid, type) st)") (simp_all add: load_principal_def transaction_def)

lemma load_principal_Inr:
  "load_principal tenant pid type st = (Inr x, st') \<longleftrightarrow>
     st' = st \<and> one_or_none (principals_at (tenant, pid, type) st) = Inr x"
  by (auto simp: load_principal_result)

lemma principals_at_one:
  "principals_at k st = [r] \<Longrightarrow> r \<in> set (au_principals st) \<and> principal_key r = k"
  by (auto simp: principals_at_def filter_eq_Cons_iff)

lemma check_claims_Inr:
  assumes "check_claims m now what t sg payload st = (Inr p, st')"
  shows "st' = st \<and> cy_verify (am_crypto m) payload sg (am_public m) \<and> \<not> temporally_invalid now (tk_issued t) (tk_expires t) \<and>
     (\<exists>r \<in> set (au_principals st). principal_key r = (tk_tenant t, tk_principal t, principal_type_value (tk_type t)) \<and>
        pc_enabled r \<and> security_principal_of r = Inr p)"
proof -
  from assms obtain r where "verify_signature_strict (am_crypto m) payload (signature_over m sg) = Inr ()"
    and r: "principals_at (tk_tenant t, tk_principal t, principal_type_value (tk_type t)) st = [r]"
    and "pc_enabled r" "\<not> temporally_invalid now (tk_issued t) (tk_expires t)" "security_principal_of r = Inr p" "st' = st"
    by (auto simp: check_claims_def seq_eff_def bind_eff_Inr lift_res_Inr load_principal_Inr raise_error_def
        split: option.splits if_splits)
  then show ?thesis using principals_at_one [OF r]
    by (auto simp: verify_signature_strict_def verify_signature_def signature_over_def split: if_splits)
qed

lemma verify_token_Inr:
  assumes "verify_token m now t st = (Inr p, st')"
  obtains sg payload where "build_signing_payload (am_crypto m) t = Inr payload"
    "check_claims m now ''Token principal is no longer valid.'' t sg payload st = (Inr p, st')"
  using assms by (auto simp: verify_token_def bind_eff_Inr lift_res_Inr raise_error_def split: option.splits)

lemma verify_refresh_token_Inr:
  assumes "verify_refresh_token m now t st = (Inr p, st')"
  obtains sg payload where "build_refresh_signing_payload (am_crypto m) t = Inr payload"
    "check_claims m now ''Refresh token principal is no longer valid.'' t sg payload st = (Inr p, st')"
  using assms by (auto simp: verify_refresh_token_def bind_eff_Inr lift_res_Inr raise_error_def split: option.splits)

lemma token_issued:
  assumes log: "only_signed m log" "\<forall>x \<in> set log. short_value x" and iso: "inj (cy_isoformat (am_crypto m))"
    and "verify_token m now t st = (Inr p, st')" "short_id (tk_id t)"
  shows "\<exists>u. Access u \<in> set log \<and> without_signature u = without_signature t"
proof -
  from assms(4) obtain sg payload where payload: "build_signing_payload (am_crypto m) t = Inr payload"
    and "check_claims m now ''Token principal is no longer valid.'' t sg payload st = (Inr p, st')"
    by (rule verify_token_Inr)
  from check_claims_Inr [OF this(2)] log(1) obtain x where x: "x \<in> set log" "payload_of (am_crypto m) x = Inr payload"
    by (auto simp: only_signed_def)
  have "short_value (Access t)" "short_value x" using assms(5) log(2) x(1) by (simp_all add: short_value_def)
  with payload_determines [OF iso _ x(2), of "Access t"] payload x(1) show ?thesis
    by (cases x) auto
qed

lemma refresh_token_issued:
  assumes log: "only_signed m log" "\<forall>x \<in> set log. short_value x" and iso: "inj (cy_isoformat (am_crypto m))"
    and "verify_refresh_token m now t st = (Inr p, st')"
  shows "\<exists>u. Refresh u \<in> set log \<and> without_signature u = without_signature t"
proof -
  from assms(4) obtain sg payload where payload: "build_refresh_signing_payload (am_crypto m) t = Inr payload"
    and "check_claims m now ''Refresh token principal is no longer valid.'' t sg payload st = (Inr p, st')"
    by (rule verify_refresh_token_Inr)
  from check_claims_Inr [OF this(2)] log(1) obtain x where x: "x \<in> set log" "payload_of (am_crypto m) x = Inr payload"
    by (auto simp: only_signed_def)
  have "short_value (Refresh t)" "short_value x" using log(2) x(1) by (simp_all add: short_value_def)
  with payload_determines [OF iso _ x(2), of "Refresh t"] payload x(1) show ?thesis
    by (cases x) auto
qed

lemma oauth_state_issued:
  assumes log: "only_signed m log" "\<forall>x \<in> set log. short_value x" and iso: "inj (cy_isoformat (am_crypto m))"
    and "verify_oauth_state m now s = Inr s'"
  shows "s' = s \<and> (\<exists>u. State u \<in> set log \<and> state_claims u = state_claims s) \<and>
     \<not> temporally_invalid now (os_issued s) (os_expires s)"
proof -
  obtain sg where sg: "os_signature s = Some sg"
    using assms(4) by (cases "os_signature s") (simp_all add: verify_oauth_state_def)
  obtain payload where payload: "build_oauth_state_signing_payload (am_crypto m) s = Inr payload"
    using assms(4) sg by (cases "build_oauth_state_signing_payload (am_crypto m) s") (simp_all add: verify_oauth_state_def)
  have ok: "cy_verify (am_crypto m) payload sg (am_public m)" "\<not> temporally_invalid now (os_issued s) (os_expires s)" "s' = s"
    using assms(4) sg payload
    by (simp_all add: verify_oauth_state_def verify_signature_strict_def verify_signature_def signature_over_def split: if_splits)
  from ok(1) log(1) obtain x where x: "x \<in> set log" "payload_of (am_crypto m) x = Inr payload"
    by (auto simp: only_signed_def)
  have "short_value (State s)" "short_value x" using log(2) x(1) by (simp_all add: short_value_def)
  with payload_determines [OF iso _ x(2), of "State s"] payload
  have "case x of State u \<Rightarrow> state_claims s = state_claims u | _ \<Rightarrow> False" by simp
  then obtain u where "x = State u" "state_claims s = state_claims u" by (cases x) simp_all
  with x(1) ok(2, 3) show ?thesis by metis
qed

section \<open>Round trip\<close>

text \<open>A genuine signature verifies.\<close>

definition signs :: "auth_manager \<Rightarrow> bool" where
  "signs m \<longleftrightarrow> (\<forall>data. cy_verify (am_crypto m) data (cy_sign (am_crypto m) data (am_private m)) (am_public m))"

lemma temporally_invalid_utc [simp]: "temporally_invalid now (utc a) (utc b) \<longleftrightarrow> b < now \<or> now < a"
  by (simp add: temporally_invalid_def utc_def)

lemma payload_unsigned [simp]:
  "build_signing_payload cy (signed_token m t bs) = build_signing_payload cy t"
  "build_refresh_signing_payload cy (signed_token m t bs) = build_refresh_signing_payload cy t"
  by (simp_all add: build_signing_payload_def build_refresh_signing_payload_def token_parts_def signed_token_def)

lemma signature_of_signed [simp]: "tk_signature (signed_token m t bs) = Some (cy_sign (am_crypto m) bs (am_private m))"
  by (simp add: signed_token_def sign_data_def)

lemma check_claims_signed:
  assumes "signs m" "auth_store_ok st" "r \<in> set (au_principals st)" "pc_enabled r"
    "principal_key r = (sp_tenant_id p, sp_principal_id p, principal_type_value (sp_principal_type p))"
  shows "check_claims m now what (signed_token m (token_claims p random issued ttl) payload)
      (cy_sign (am_crypto m) payload (am_private m)) payload st =
     ((if now < issued \<or> issued + ttl < now then Inl TokenExpired else security_principal_of r), st)"
proof -
  have "principals_at (principal_key r) st = [r]"
    using assms(2, 3) filter_unique [of principal_key "au_principals st" r] by (simp add: auth_store_ok_def principals_at_def)
  then have "load_principal (sp_tenant_id p) (sp_principal_id p) (principal_type_value (sp_principal_type p)) st = (Inr (Some r), st)"
    using assms(5) by (simp add: load_principal_result)
  moreover have "verify_signature_strict (am_crypto m) payload
      (signature_over m (cy_sign (am_crypto m) payload (am_private m))) = Inr ()"
    using assms(1) by (simp add: verify_signature_strict_def verify_signature_def signature_over_def signs_def)
  ultimately show ?thesis using assms(4)
    by (auto simp: check_claims_def seq_eff_def bind_eff_def lift_res_def raise_error_def signed_token_def token_claims_def)
qed

lemma verify_issued:
  assumes "issue_token m issued random p = Inr t" "signs m" "auth_store_ok st" "r \<in> set (au_principals st)" "pc_enabled r"
    "principal_key r = (sp_tenant_id p, sp_principal_id p, principal_type_value (sp_principal_type p))"
  shows "verify_token m now t st =
     ((if now < issued \<or> issued + TOKEN_TTL < now then Inl TokenExpired else security_principal_of r), st)"
proof -
  obtain payload where "build_signing_payload (am_crypto m) (token_claims p random issued TOKEN_TTL) = Inr payload"
    "t = signed_token m (token_claims p random issued TOKEN_TTL) payload"
    using assms(1) by (auto simp: issue_token_def Let_def bind_res_Inr_iff)
  with check_claims_signed [OF assms(2-6)] show ?thesis
    by (simp add: verify_token_def bind_eff_def lift_res_def)
qed

lemma verify_refresh_issued:
  assumes "issue_refresh_token m issued random p = Inr t" "signs m" "auth_store_ok st" "r \<in> set (au_principals st)" "pc_enabled r"
    "principal_key r = (sp_tenant_id p, sp_principal_id p, principal_type_value (sp_principal_type p))"
  shows "verify_refresh_token m now t st =
     ((if now < issued \<or> issued + REFRESH_TOKEN_TTL < now then Inl TokenExpired else security_principal_of r), st)"
proof -
  obtain payload where "build_refresh_signing_payload (am_crypto m) (token_claims p random issued REFRESH_TOKEN_TTL) = Inr payload"
    "t = signed_token m (token_claims p random issued REFRESH_TOKEN_TTL) payload"
    using assms(1) by (auto simp: issue_refresh_token_def Let_def bind_res_Inr_iff)
  with check_claims_signed [OF assms(2-6)] show ?thesis
    by (simp add: verify_refresh_token_def bind_eff_def lift_res_def)
qed

end
