(* ===== verification/Auth_Correct.thy ===== *)
theory Auth_Correct
  imports Token_Correct
begin

text \<open>
  Concurrent operations on the authentication tables: the step relation of their transactions, what
  every step keeps and what can only grow, and the consequences for the bootstrap and for password
  resets; who authenticates, and OAuth links.
\<close>

section \<open>What grows\<close>

definition used_hashes :: "auth_store \<Rightarrow> string set" where
  "used_hashes st = rt_hash ` {r \<in> set (au_resets st). rt_used r \<noteq> None}"

definition auth_below :: "auth_store \<Rightarrow> auth_store \<Rightarrow> bool" where
  "auth_below s t \<longleftrightarrow>
     (auth_store_ok s \<longrightarrow> auth_store_ok t) \<and> principal_key ` set (au_principals s) \<subseteq> principal_key ` set (au_principals t) \<and>
     used_hashes s \<subseteq> used_hashes t"

interpretation grows: effect_order auth_below
proof
  show "auth_below s s" for s by (simp add: auth_below_def)
  show "auth_below s u" if "auth_below s t" "auth_below t u" for s t u
    using that unfolding auth_below_def by (meson subset_trans)
qed

lemma climbs_transaction [intro]:
  "(\<And>st x st'. action st = Inr (x, st') \<Longrightarrow> auth_below st st') \<Longrightarrow> grows.climbs (transaction action)"
  by (auto simp: grows.climbs_def transaction_def grows.refl_below split: sum.split)

lemma below_insert_principal: "insert_principal r st = Inr st' \<Longrightarrow> auth_below st st'"
  using ok_insert_principal [of st r st']
  by (auto simp: auth_below_def insert_principal_def used_hashes_def split: if_splits)

lemma below_insert_grant: "insert_grant g st = Inr st' \<Longrightarrow> auth_below st st'"
  using ok_insert_grant [of st g st']
  by (auto simp: auth_below_def insert_grant_def used_hashes_def split: if_splits)

lemma below_insert_reset: "insert_reset r st = Inr st' \<Longrightarrow> auth_below st st'"
  using ok_insert_reset [of st r st']
  by (auto simp: auth_below_def insert_reset_def used_hashes_def split: if_splits)

lemma below_insert_link: "insert_link l st = Inr st' \<Longrightarrow> auth_below st st'"
  using ok_insert_link [of st l st']
  by (auto simp: auth_below_def insert_link_def used_hashes_def split: if_splits)

lemma keys_update_principal:
  assumes "\<And>r. principal_key (f r) = principal_key r"
  shows "principal_key ` set (au_principals (update_principal k f st)) = principal_key ` set (au_principals st)"
proof -
  have "map principal_key (au_principals (update_principal k f st)) = map principal_key (au_principals st)"
    using assms by (simp add: update_principal_def)
  then show ?thesis by (metis list.set_map)
qed

lemma below_update_principal:
  assumes "\<And>r. principal_key (f r) = principal_key r \<and> pc_email (f r) = pc_email r \<and> pc_machine (f r) = pc_machine r"
  shows "auth_below st (update_principal k f st)"
proof -
  have "au_resets (update_principal k f st) = au_resets st" by (simp add: update_principal_def)
  then show ?thesis
    using assms ok_update_principal [of st f k] keys_update_principal [of f k st] by (simp add: auth_below_def used_hashes_def)
qed

lemma below_grants: "fold_res (\<lambda>s p. insert_grant (role, p) s) st ps = Inr st' \<Longrightarrow> auth_below st st'"
proof (induction ps arbitrary: st)
  case Nil
  then show ?case by (simp add: grows.refl_below)
next
  case (Cons p ps)
  then obtain st1 where "insert_grant (role, p) st = Inr st1" "fold_res (\<lambda>s p. insert_grant (role, p) s) st1 ps = Inr st'"
    by (auto simp: bind_res_Inr_iff)
  with Cons.IH below_insert_grant grows.trans_below show ?case by metis
qed

lemma below_bootstrap: "bootstrap_rows m salt t p pw rs ps st = Inr st' \<Longrightarrow> auth_below st st'"
proof -
  assume "bootstrap_rows m salt t p pw rs ps st = Inr st'"
  then obtain st1 st2 u where "insert_principal bootstrap_lock st = Inr st1" "insert_principal u st1 = Inr st2"
    "fold_res (\<lambda>s p. insert_grant (hd rs, p) s) st2 (sort (remdups ps)) = Inr st'"
    by (auto simp: bootstrap_rows_def bind_res_Inr_iff)
  then have "auth_below st st1" "auth_below st1 st2" "auth_below st2 st'"
    by (simp_all add: below_insert_principal below_grants)
  then show ?thesis using grows.trans_below by blast
qed

text \<open>An address that only its own row has may be written to it.\<close>

lemma unique_set_map_iff:
  "unique_set (map f xs) \<longleftrightarrow> distinct (map f (filter (\<lambda>x. f x \<noteq> None) xs))"
  by (simp add: unique_set_def filter_map comp_def)

lemma unique_set_update:
  assumes keys: "distinct (map key xs)" and set: "unique_set (map f xs)" and new: "\<forall>x \<in> set xs. key x \<noteq> k \<longrightarrow> f x \<noteq> Some v"
    and g: "\<And>x. f (g x) = Some v"
  shows "unique_set (map (\<lambda>x. f (if key x = k then g x else x)) xs)"
  using keys set new
proof (induction xs)
  case Nil
  then show ?case by (simp add: unique_set_def)
next
  case (Cons x xs)
  show ?case
  proof (cases "key x = k")
    case True
    then have others: "\<forall>y \<in> set xs. key y \<noteq> k" using Cons.prems(1) by (metis distinct.simps(2) image_eqI list.set_map list.simps(9))
    then have "map (\<lambda>x. f (if key x = k then g x else x)) xs = map f xs" by simp
    with True g have all: "map (\<lambda>x. f (if key x = k then g x else x)) (x # xs) = Some v # map f xs" by simp
    have "Some v \<notin> f ` set xs" using Cons.prems(3) others by auto
    moreover have "unique_set (map f xs)" using Cons.prems(2) by (simp add: unique_set_def split: if_splits)
    ultimately show ?thesis unfolding all by (simp add: unique_set_def)
  next
    case False
    have IH: "unique_set (map (\<lambda>x. f (if key x = k then g x else x)) xs)"
      using Cons by (simp add: unique_set_def split: if_splits)
    have "f x \<notin> (\<lambda>y. f (if key y = k then g y else y)) ` set xs" if "f x \<noteq> None"
    proof
      assume "f x \<in> (\<lambda>y. f (if key y = k then g y else y)) ` set xs"
      then obtain y where y: "y \<in> set xs" "f x = f (if key y = k then g y else y)" by auto
      have "f x \<noteq> Some v" using Cons.prems(3) False by simp
      with y g have "f x = f y" by (simp split: if_splits)
      with y(1) have "f x \<in> f ` set xs" by auto
      with that Cons.prems(2) show False by (auto simp: unique_set_def)
    qed
    with IH False show ?thesis by (auto simp: unique_set_def)
  qed
qed

lemma below_store_email:
  assumes "store_email k email st = Inr st'" shows "auth_below st st'"
proof -
  let ?f = "\<lambda>r. r\<lparr>pc_email := Some email\<rparr>"
  have st': "st' = update_principal k ?f st" and new: "\<forall>r \<in> set (au_principals st). principal_key r \<noteq> k \<longrightarrow> pc_email r \<noteq> Some email"
    using assms by (auto simp: store_email_def split: if_splits)
  have keep: "principal_key (?f r) = principal_key r" "pc_machine (?f r) = pc_machine r" for r
    by (simp_all add: principal_key_def)
  have "auth_store_ok st'" if ok: "auth_store_ok st"
  proof -
    have "unique_set (map (\<lambda>r. pc_email (if principal_key r = k then ?f r else r)) (au_principals st))"
      by (rule unique_set_update [where v = email]) (use ok new in \<open>simp_all add: auth_store_ok_def\<close>)
    moreover have "principal_key \<circ> (\<lambda>r. if principal_key r = k then ?f r else r) = principal_key"
      "pc_machine \<circ> (\<lambda>r. if principal_key r = k then ?f r else r) = pc_machine" using keep by auto
    ultimately show ?thesis using ok by (simp add: st' update_principal_def auth_store_ok_def comp_def)
  qed
  moreover have "used_hashes st' = used_hashes st" by (simp add: st' used_hashes_def update_principal_def)
  ultimately show ?thesis using keys_update_principal [of ?f k st] keep by (simp add: auth_below_def st')
qed

section \<open>Operations\<close>

lemma climbs_provision: "grows.climbs (provision_principal m salt t p ty c rs ats)"
  unfolding provision_principal_def
  by (rule climbs_transaction) (auto simp: bind_res_Inr_iff grows.refl_below below_insert_principal split: option.splits)

lemma climbs_register_principal: "grows.climbs (register_principal m salt t p pw rs email)"
  unfolding register_principal_def
  by (intro grows.climbs_seq grows.climbs_lift climbs_transaction)
    (auto simp: bind_res_Inr_iff below_insert_principal split: if_splits)

lemma climbs_set_email: "grows.climbs (set_email t p ty email)"
  unfolding set_email_def
  by (intro grows.climbs_if grows.climbs_raise climbs_transaction)
    (auto simp: bind_res_Inr_iff below_store_email split: if_splits)

lemma climbs_store_credential: "grows.climbs (store_credential k h)"
  unfolding store_credential_def
  by (rule climbs_transaction)
    (auto simp: bind_res_Inr_iff principal_key_def intro: below_update_principal split: if_splits)

lemma climbs_store_reset: "grows.climbs (store_reset m now raw r)"
  unfolding store_reset_def by (rule climbs_transaction) (auto simp: bind_res_Inr_iff below_insert_reset)

lemma redeem_result:
  assumes "redeem_reset h nh now st = Inr (x, st')"
  obtains reset r where "filter (\<lambda>r. rt_hash r = h) (au_resets st) = [reset]" "rt_used reset = None" "now \<le> rt_expires reset"
    "st' = (update_principal (principal_key r) (\<lambda>r. r\<lparr>pc_credential := Some nh\<rparr>) st)
       \<lparr>au_resets := map (\<lambda>r. if rt_hash r = h then r\<lparr>rt_used := Some now\<rparr> else r) (au_resets st)\<rparr>"
proof -
  from assms obtain found where found: "one_or_none (filter (\<lambda>r. rt_hash r = h) (au_resets st)) = Inr found"
    by (auto simp: redeem_reset_def bind_res_Inr_iff)
  with assms obtain reset where reset: "found = Some reset" by (cases found) (auto simp: redeem_reset_def)
  have fresh: "rt_used reset = None" "now \<le> rt_expires reset"
    using assms found reset by (auto simp: redeem_reset_def split: if_splits)
  with assms found reset obtain owner where owner: "one_or_none (principals_at (rt_tenant reset, rt_principal reset, rt_type reset) st) = Inr owner"
    by (auto simp: redeem_reset_def bind_res_Inr_iff)
  with assms found reset fresh obtain r where "owner = Some r" by (cases owner) (auto simp: redeem_reset_def)
  with assms found reset fresh owner that [of reset r] show ?thesis by (simp add: redeem_reset_def split: if_splits)
qed

lemma ok_resets:
  "auth_store_ok u \<Longrightarrow> map rt_hash rs = map rt_hash (au_resets u) \<Longrightarrow> auth_store_ok (u\<lparr>au_resets := rs\<rparr>)"
  by (simp add: auth_store_ok_def)

lemma below_redeem:
  assumes "redeem_reset h nh now st = Inr (x, st')" shows "auth_below st st' \<and> h \<in> used_hashes st'"
proof -
  from assms obtain reset r where reset: "filter (\<lambda>r. rt_hash r = h) (au_resets st) = [reset]" "rt_used reset = None"
    and st': "st' = (update_principal (principal_key r) (\<lambda>r. r\<lparr>pc_credential := Some nh\<rparr>) st)
       \<lparr>au_resets := map (\<lambda>r. if rt_hash r = h then r\<lparr>rt_used := Some now\<rparr> else r) (au_resets st)\<rparr>" by (rule redeem_result)
  let ?u = "update_principal (principal_key r) (\<lambda>r. r\<lparr>pc_credential := Some nh\<rparr>) st"
  let ?rs = "map (\<lambda>r. if rt_hash r = h then r\<lparr>rt_used := Some now\<rparr> else r) (au_resets st)"
  have below: "auth_below st ?u" by (rule below_update_principal) (simp add: principal_key_def)
  have "au_resets ?u = au_resets st" by (simp add: update_principal_def)
  then have "map rt_hash ?rs = map rt_hash (au_resets ?u)" by simp
  with below ok_resets have ok: "auth_store_ok st \<longrightarrow> auth_store_ok st'" unfolding st' auth_below_def by blast
  have keys: "principal_key ` set (au_principals st) \<subseteq> principal_key ` set (au_principals st')"
    using below by (simp add: auth_below_def st')
  have marked: "rt_hash q \<in> used_hashes st'" if "q \<in> set (au_resets st)" "rt_used q \<noteq> None \<or> rt_hash q = h" for q
  proof -
    let ?q = "if rt_hash q = h then q\<lparr>rt_used := Some now\<rparr> else q"
    have "?q \<in> set (au_resets st')" using that(1) by (auto simp: st')
    moreover have "rt_used ?q \<noteq> None" "rt_hash ?q = rt_hash q" using that(2) by auto
    ultimately have "rt_hash ?q \<in> used_hashes st'" unfolding used_hashes_def by (intro imageI) simp
    then show ?thesis by (simp only: \<open>rt_hash ?q = rt_hash q\<close>)
  qed
  have "used_hashes st \<subseteq> used_hashes st'"
  proof
    fix x assume "x \<in> used_hashes st"
    then obtain q where q: "q \<in> set (au_resets st)" "rt_used q \<noteq> None" "x = rt_hash q" unfolding used_hashes_def by blast
    show "x \<in> used_hashes st'" unfolding q(3) by (rule marked [OF q(1)]) (simp add: q(2))
  qed
  moreover have "reset \<in> set (au_resets st)" "rt_hash reset = h" using reset(1) by (auto simp: filter_eq_Cons_iff)
  then have "h \<in> used_hashes st'" using marked by blast
  ultimately show ?thesis using ok keys by (simp add: auth_below_def)
qed

lemma climbs_reset: "grows.climbs (reset_password m salt now token pw)"
  unfolding reset_password_def
  by (intro grows.climbs_if grows.climbs_raise climbs_transaction) (simp add: below_redeem)

lemma below_remove_link: "auth_below st (st\<lparr>au_links := remove1 l (au_links st)\<rparr>)"
  by (simp add: auth_below_def auth_store_ok_def used_hashes_def distinct_map inj_on_def notin_set_remove1)

lemma link_rows_cases:
  assumes "link_rows now k provider subject st = Inr (x, st')"
  obtains (same) l where "links_of_identity provider subject st = [l]" "link_owner l = k" "st' = st"
    | (fresh) own l where "links_of_identity provider subject st = []" "link_owner l = k" "link_identity l = (provider, subject)"
      "insert_link l (st\<lparr>au_links := (case own of None \<Rightarrow> au_links st | Some l \<Rightarrow> remove1 l (au_links st))\<rparr>) = Inr st'"
proof -
  from assms obtain conflict where conflict: "one_or_none (links_of_identity provider subject st) = Inr conflict"
    by (auto simp: link_rows_def bind_res_Inr_iff)
  show thesis
  proof (cases conflict)
    case (Some l)
    with assms conflict same [of l] show thesis by (simp add: link_rows_def split: if_splits)
  next
    case None
    with assms conflict obtain own where own: "one_or_none (links_of_owner k provider st) = Inr own"
      by (auto simp: link_rows_def bind_res_Inr_iff)
    let ?l = "\<lparr>ol_tenant = fst k, ol_principal = fst (snd k), ol_type = snd (snd k), ol_provider = provider,
        ol_subject = subject, ol_linked = now\<rparr>"
    have "insert_link ?l (st\<lparr>au_links := (case own of None \<Rightarrow> au_links st | Some l \<Rightarrow> remove1 l (au_links st))\<rparr>) = Inr st'"
      using assms conflict None own by (auto simp: link_rows_def bind_res_Inr_iff)
    with None conflict fresh [of ?l own] show thesis by (simp add: link_owner_def link_identity_def)
  qed
qed

lemma below_link: "link_rows now k provider subject st = Inr (x, st') \<Longrightarrow> auth_below st st'"
proof -
  assume "link_rows now k provider subject st = Inr (x, st')"
  then show ?thesis
  proof (cases rule: link_rows_cases)
    case (same l)
    then show ?thesis by (simp add: grows.refl_below)
  next
    case (fresh own l)
    have "auth_below st (st\<lparr>au_links := (case own of None \<Rightarrow> au_links st | Some l \<Rightarrow> remove1 l (au_links st))\<rparr>)"
      by (cases own) (simp_all add: below_remove_link grows.refl_below)
    with below_insert_link [OF fresh(4)] grows.trans_below show ?thesis by blast
  qed
qed

lemma climbs_link: "grows.climbs (link_oauth_identity now t p ty provider subject)"
  unfolding link_oauth_identity_def by (rule climbs_transaction) (rule below_link)

lemma climbs_unlink: "grows.climbs (unlink_oauth_identity t p ty provider)"
  unfolding unlink_oauth_identity_def
  by (rule climbs_transaction)
    (auto simp: bind_res_Inr_iff grows.refl_below below_remove_link split: option.splits)

section \<open>Runs\<close>

text \<open>
  One step per writing transaction: the reads that precede a bootstrap, a change of password or a
  request for a reset can have happened at any time before.
\<close>

inductive auth_step :: "auth_manager \<Rightarrow> auth_store \<Rightarrow> auth_store \<Rightarrow> bool" for m where
  provisions: "auth_step m st (snd (provision_principal m salt t p ty c rs ats st))"
| bootstraps: "bootstrap_rows m salt t p pw rs ps st = Inr st' \<Longrightarrow> auth_step m st st'"
| registers: "auth_step m st (snd (register_principal m salt t p pw rs email st))"
| sets_email: "auth_step m st (snd (set_email t p ty email st))"
| changes: "auth_step m st (snd (store_credential k h st))"
| requests: "auth_step m st (snd (store_reset m now raw r st))"
| redeems: "auth_step m st (snd (reset_password m salt now token pw st))"
| links: "auth_step m st (snd (link_oauth_identity now t p ty provider subject st))"
| unlinks: "auth_step m st (snd (unlink_oauth_identity t p ty provider st))"

inductive auth_run :: "auth_manager \<Rightarrow> auth_store \<Rightarrow> auth_store \<Rightarrow> bool" for m where
  rest: "auth_run m s s"
| onward: "auth_run m s t \<Longrightarrow> auth_step m t u \<Longrightarrow> auth_run m s u"

lemma auth_step_below: "auth_step m s t \<Longrightarrow> auth_below s t"
  by (induction rule: auth_step.induct)
    (use climbs_provision climbs_register_principal climbs_set_email climbs_store_credential climbs_store_reset climbs_reset
      climbs_link climbs_unlink below_bootstrap in \<open>simp_all add: grows.climbs_def\<close>)

lemma auth_run_below: "auth_run m s t \<Longrightarrow> auth_below s t"
  by (induction rule: auth_run.induct) (blast intro: grows.refl_below grows.trans_below auth_step_below)+

lemma ok_empty [simp]: "auth_store_ok empty_auth_store"
  by (simp add: auth_store_ok_def empty_auth_store_def unique_set_def)

lemma auth_run_ok: "auth_run m empty_auth_store st \<Longrightarrow> auth_store_ok st"
  using auth_run_below by (fastforce simp: auth_below_def)

section \<open>Bootstrap\<close>

definition lock_key :: "string \<times> string \<times> string" where
  "lock_key = principal_key bootstrap_lock"

lemma bootstrap_locks: "bootstrap_rows m salt t p pw rs ps st = Inr st' \<Longrightarrow> lock_key \<in> principal_key ` set (au_principals st')"
proof -
  assume "bootstrap_rows m salt t p pw rs ps st = Inr st'"
  then obtain st1 st2 u where "insert_principal bootstrap_lock st = Inr st1" "insert_principal u st1 = Inr st2"
    "fold_res (\<lambda>s p. insert_grant (hd rs, p) s) st2 (sort (remdups ps)) = Inr st'"
    by (auto simp: bootstrap_rows_def bind_res_Inr_iff)
  then have "auth_below st1 st2" "auth_below st2 st'" by (simp_all add: below_insert_principal below_grants)
  then have "auth_below st1 st'" by (rule grows.trans_below)
  moreover have "lock_key \<in> principal_key ` set (au_principals st1)"
    using \<open>insert_principal bootstrap_lock st = Inr st1\<close> by (auto simp: insert_principal_def lock_key_def split: if_splits)
  ultimately show ?thesis by (auto simp: auth_below_def)
qed

lemma locked_rows: "lock_key \<in> principal_key ` set (au_principals st) \<Longrightarrow> bootstrap_rows m salt t p pw rs ps st = Inl AuthStorageFailed"
  by (simp add: bootstrap_rows_def insert_principal_def lock_key_def)

lemma bootstrap_once:
  assumes "bootstrap_rows m salt t p pw rs ps st = Inr st1" "auth_run m st1 st2"
  shows "lock_key \<in> principal_key ` set (au_principals st2)"
  using bootstrap_locks [OF assms(1)] auth_run_below [OF assms(2)] by (auto simp: auth_below_def)

section \<open>Password resets\<close>

lemma used_refused:
  assumes ok: "auth_store_ok st" and used: "h \<in> used_hashes st"
  shows "redeem_reset h nh now st = Inl PasswordResetRefused"
proof -
  obtain r where r: "r \<in> set (au_resets st)" "rt_hash r = h" "rt_used r \<noteq> None" using used by (auto simp: used_hashes_def)
  have "filter (\<lambda>q. rt_hash q = h) (au_resets st) = [r]"
    using filter_unique [of rt_hash "au_resets st" r] ok r by (simp add: auth_store_ok_def)
  then show ?thesis using r(3) by (simp add: redeem_reset_def)
qed

section \<open>Authentication\<close>

definition credentials_match :: "auth_manager \<Rightarrow> auth_store \<Rightarrow> pyval \<Rightarrow> principal_record \<Rightarrow> bool" where
  "credentials_match m st credentials r \<longleftrightarrow>
     (\<exists>presented h. credential_parts credentials = Some (pc_tenant r, pc_principal r, pc_type r, presented) \<and>
        r \<in> set (au_principals st) \<and> pc_enabled r \<and> pc_credential r = Some h \<and> h \<noteq> [] \<and> cy_check (am_crypto m) h presented)"

lemma credential_type:
  "credential_parts credentials = Some (t, p, ty, presented) \<Longrightarrow> \<exists>pt. ty = principal_type_value pt"
proof -
  assume "credential_parts credentials = Some (t, p, ty, presented)"
  then have "dict_get CREDENTIAL_FIELD_BY_TYPE ty \<noteq> None"
    by (auto simp: credential_parts_def split: pyval.splits option.splits)
  then have "ty \<in> {''USER'', ''SERVICE_PRINCIPAL'', ''AGENT''}"
    by (auto simp: CREDENTIAL_FIELD_BY_TYPE_def split: if_splits)
  then show ?thesis by (metis insertE principal_type_value.simps singletonD)
qed

lemma parse_principal_type_value [simp]: "parse_principal_type (principal_type_value t) = Some t"
  by (cases t) (simp_all add: parse_principal_type_def)

lemma authenticate_result:
  assumes ok: "auth_store_ok st"
  shows "authenticate m credentials st =
     ((case find (credentials_match m st credentials) (au_principals st) of
         None \<Rightarrow> Inl AuthenticationFailed
       | Some r \<Rightarrow> security_principal_of r), st)"
proof (cases "credential_parts credentials")
  case None
  then have "find (credentials_match m st credentials) (au_principals st) = None"
    by (simp add: find_None_iff credentials_match_def)
  with None show ?thesis by (simp add: authenticate_def raise_error_def)
next
  case (Some x)
  then obtain t p ty presented where parts: "credential_parts credentials = Some (t, p, ty, presented)" by (cases x) auto
  have match: "credentials_match m st credentials r \<longleftrightarrow>
      principal_key r = (t, p, ty) \<and> r \<in> set (au_principals st) \<and> (\<exists>h. usable_hash (Some r) = Some h \<and> cy_check (am_crypto m) h presented)" for r
    by (auto simp: credentials_match_def parts principal_key_def usable_hash_def split: option.splits if_splits)
  obtain found where found: "one_or_none (principals_at (t, p, ty) st) = Inr found"
    using one_principal [OF ok] by (metis sum.exhaust)
  show ?thesis
  proof (cases found)
    case None
    then have "\<forall>r \<in> set (au_principals st). principal_key r \<noteq> (t, p, ty)"
      using found by (simp add: principals_at_def filter_empty_conv)
    then have "find (credentials_match m st credentials) (au_principals st) = None" by (simp add: find_None_iff match)
    with None found parts show ?thesis
      by (simp add: authenticate_def bind_eff_def load_principal_result raise_error_def)
  next
    case (Some r)
    then have r: "principals_at (t, p, ty) st = [r]" using found by simp
    have only: "q = r" if "q \<in> set (au_principals st)" "principal_key q = (t, p, ty)" for q
    proof -
      have "q \<in> set (principals_at (t, p, ty) st)" using that by (simp add: principals_at_def)
      then show ?thesis by (simp add: r)
    qed
    note in_r = principals_at_one [OF r]
    have "find (credentials_match m st credentials) (au_principals st) = (if credentials_match m st credentials r then Some r else None)"
    proof (cases "credentials_match m st credentials r")
      case True
      then obtain q where q: "find (credentials_match m st credentials) (au_principals st) = Some q"
        using in_r by (metis find_None_iff not_None_eq)
      then have "q \<in> set (au_principals st)" "credentials_match m st credentials q" by (auto simp: find_Some_iff)
      then have "q = r" using only match by blast
      with q True show ?thesis by simp
    next
      case False
      then have "\<not> credentials_match m st credentials q" for q using only [of q] match by blast
      with False show ?thesis by (simp add: find_None_iff)
    qed
    with r Some found parts match [of r] in_r show ?thesis
      by (auto simp: authenticate_def bind_eff_def load_principal_result raise_error_def lift_res_def split: option.split)
  qed
qed

section \<open>Links\<close>

lemma linked_resolves:
  assumes "link_oauth_identity now t p ty provider subject st = (Inr (), st')" "auth_store_ok st"
  shows "links_of_identity provider subject st' \<noteq> [] \<and>
     (\<forall>l \<in> set (links_of_identity provider subject st'). link_owner l = (t, p, ty))"
proof -
  from assms(1) have "link_rows now (t, p, ty) provider subject st = Inr ((), st')"
    by (simp add: link_oauth_identity_def transaction_def split: sum.splits prod.splits)
  then show ?thesis
  proof (cases rule: link_rows_cases)
    case (same l)
    then show ?thesis by simp
  next
    case (fresh own l)
    have "q \<notin> set (links_of_identity provider subject st)" for q using fresh(1) by simp
    then have "links_of_identity provider subject st' = [l]"
      using fresh(3, 4) set_remove1_subset
      by (fastforce simp: insert_link_def links_of_identity_def filter_empty_conv split: if_splits option.splits)
    with fresh(2) show ?thesis by simp
  qed
qed

end
