(* ===== verification/Auth_Properties.thy ===== *)
theory Auth_Properties
  imports Auth_Correct
begin

text \<open>
  What the authentication manager promises, at the level of its operations, and where it departs
  from what it means to do.
\<close>

section \<open>Concrete primitives\<close>

text \<open>
  Signatures that verify are those the given predicate accepts; hashes are visible; times print with
  their offset.
\<close>

fun demo_isoformat :: "py_datetime \<Rightarrow> string" where
  "demo_isoformat (Aware t d) = CHR ''A'' # show_int t @ CHR ''.'' # show_int d"
| "demo_isoformat (Naive t) = CHR ''N'' # show_int t"

definition demo_crypto :: "(byte list \<Rightarrow> bool) \<Rightarrow> crypto_ops" where
  "demo_crypto accepted =
     \<lparr>cy_sign = (\<lambda>data key. key), cy_verify = (\<lambda>data sg key. accepted data \<and> sg = key), cy_public = (\<lambda>key. key),
      cy_sha256 = tohex, cy_hash = (\<lambda>salt p. CHR ''h'' # p), cy_check = (\<lambda>h p. h = CHR ''h'' # p),
      cy_isoformat = demo_isoformat\<rparr>"

definition demo_manager :: "(byte list \<Rightarrow> bool) \<Rightarrow> auth_manager" where
  "demo_manager accepted = \<lparr>am_crypto = demo_crypto accepted, am_private = [7], am_public = [7]\<rparr>"

abbreviation honest :: auth_manager where
  "honest \<equiv> demo_manager (\<lambda>_. True)"

definition demo_admin :: principal_record where
  "demo_admin = new_principal ''acme'' ''ann'' ''USER'' (Some ''hsecret-1'') [''admin''] [] (Some ''a@b.c'')"

definition demo_admin_principal :: security_principal where
  "demo_admin_principal = \<lparr>sp_principal_id = ''ann'', sp_principal_type = PT_USER, sp_tenant_id = ''acme'',
     sp_roles = [''admin''], sp_attributes = []\<rparr>"

definition demo_accounts :: auth_store where
  "demo_accounts = empty_auth_store\<lparr>au_principals := [demo_admin]\<rparr>"

lemma show_int_inject [simp]: "show_int a = show_int b \<longleftrightarrow> a = b"
  by (metis py_int_show option.inject)

lemma inj_demo_isoformat: "inj demo_isoformat"
proof (rule injI)
  fix x y assume same: "demo_isoformat x = demo_isoformat y"
  have dot: "CHR ''.'' \<notin> set (show_int i)" for i using show_int_chars by blast
  have "i = j \<and> k = l" if "show_int i @ CHR ''.'' # show_int k = show_int j @ CHR ''.'' # show_int l" for i j k l
  proof -
    from that have "split_on CHR ''.'' (show_int i @ CHR ''.'' # show_int k) = split_on CHR ''.'' (show_int j @ CHR ''.'' # show_int l)"
      by (rule arg_cong)
    then show ?thesis by (simp add: split_on_first [OF dot] split_on_none [OF dot])
  qed
  with same show "x = y" by (cases x; cases y) auto
qed

lemma signs_honest: "signs honest"
  by (simp add: signs_def demo_manager_def demo_crypto_def)

lemma demo_accounts_ok: "auth_store_ok demo_accounts"
  by (simp add: demo_accounts_def empty_auth_store_def auth_store_ok_def unique_set_def)

lemma demo_admin_facts:
  "demo_admin \<in> set (au_principals demo_accounts)" "pc_enabled demo_admin"
  "security_principal_of demo_admin = Inr demo_admin_principal"
  "principal_key demo_admin = (sp_tenant_id demo_admin_principal, sp_principal_id demo_admin_principal,
     principal_type_value (sp_principal_type demo_admin_principal))"
  by (simp_all add: demo_accounts_def demo_admin_def new_principal_def demo_admin_principal_def principal_key_def
      security_principal_of_def parse_principal_type_def)

section \<open>Tokens\<close>

lemma demo_tokens:
  "issue_token (demo_manager f) 0 [1] demo_admin_principal =
     Inr (signed_token (demo_manager f) (token_claims demo_admin_principal [1] 0 TOKEN_TTL)
       (the (encode_parts [] (token_parts (demo_crypto f) (token_claims demo_admin_principal [1] 0 TOKEN_TTL)))))"
  "build_signing_payload (demo_crypto f) (token_claims demo_admin_principal [1] 0 TOKEN_TTL) =
     Inr (the (encode_parts [] (token_parts (demo_crypto (\<lambda>_. True)) (token_claims demo_admin_principal [1] 0 TOKEN_TTL))))"
  "\<exists>u. issue_refresh_token honest 0 [1] demo_admin_principal = Inr u"
proof -
  let ?parts = "[tohex [1], ''ann'', ''USER'', ''acme'', demo_isoformat (utc 0), demo_isoformat (utc (0 + TOKEN_TTL))]"
  have parts: "token_parts (demo_crypto g) (token_claims demo_admin_principal [1] 0 TOKEN_TTL) = ?parts" for g
    by (simp add: token_parts_def token_claims_def demo_admin_principal_def demo_crypto_def)
  obtain bs where "encode_parts [] ?parts = Some bs"
    by (simp add: tohex_def hex_char_def utc_def TOKEN_TTL_def show_int_def show_nat.simps digit_char_def utf8_def
        utf8_char_def Let_def)
  then show "issue_token (demo_manager f) 0 [1] demo_admin_principal =
     Inr (signed_token (demo_manager f) (token_claims demo_admin_principal [1] 0 TOKEN_TTL)
       (the (encode_parts [] (token_parts (demo_crypto f) (token_claims demo_admin_principal [1] 0 TOKEN_TTL)))))"
    "build_signing_payload (demo_crypto f) (token_claims demo_admin_principal [1] 0 TOKEN_TTL) =
     Inr (the (encode_parts [] (token_parts (demo_crypto (\<lambda>_. True)) (token_claims demo_admin_principal [1] 0 TOKEN_TTL))))"
    by (simp_all add: issue_token_def build_signing_payload_def parts demo_manager_def fits_def)
  let ?refresh = "[tohex [1], ''ann'', ''USER'', ''acme'', demo_isoformat (utc 0), demo_isoformat (utc (0 + REFRESH_TOKEN_TTL))]"
  have "token_parts (demo_crypto (\<lambda>_. True)) (token_claims demo_admin_principal [1] 0 REFRESH_TOKEN_TTL) = ?refresh"
    by (simp add: token_parts_def token_claims_def demo_admin_principal_def demo_crypto_def)
  moreover obtain cs where "encode_parts REFRESH_TOKEN_DOMAIN_PREFIX ?refresh = Some cs"
    by (simp add: tohex_def hex_char_def utc_def REFRESH_TOKEN_TTL_def show_int_def show_nat.simps digit_char_def utf8_def
        utf8_char_def Let_def)
  ultimately show "\<exists>u. issue_refresh_token honest 0 [1] demo_admin_principal = Inr u"
    by (simp add: issue_refresh_token_def build_refresh_signing_payload_def demo_manager_def fits_def)
qed

definition demo_payload :: "byte list" where
  "demo_payload = the (encode_parts [] (token_parts (demo_crypto (\<lambda>_. True)) (token_claims demo_admin_principal [1] 0 TOKEN_TTL)))"

definition strict :: auth_manager where
  "strict = demo_manager (\<lambda>data. data = demo_payload)"

definition demo_token :: token_payload where
  "demo_token = signed_token strict (token_claims demo_admin_principal [1] 0 TOKEN_TTL) demo_payload"

lemma demo_token_built: "build_signing_payload (am_crypto strict) demo_token = Inr demo_payload"
  by (simp add: strict_def demo_manager_def demo_token_def demo_tokens(2) demo_payload_def)

lemma demo_token_short: "short_id (tk_id demo_token)"
  by (simp add: demo_token_def signed_token_def token_claims_def short_id_def tohex_def hex_char_def utf8_def utf8_char_def
      Let_def)

lemma demo_token_log:
  "only_signed strict [Access demo_token]" "\<forall>x \<in> set [Access demo_token]. short_value x" "inj (cy_isoformat (am_crypto strict))"
proof -
  have crypto: "am_crypto strict = demo_crypto (\<lambda>data. data = demo_payload)" by (simp add: strict_def demo_manager_def)
  show "only_signed strict [Access demo_token]"
    using demo_token_built by (simp add: only_signed_def crypto) (simp add: demo_crypto_def)
  show "\<forall>x \<in> set [Access demo_token]. short_value x" using demo_token_short by (simp add: short_value_def)
  show "inj (cy_isoformat (am_crypto strict))" using inj_demo_isoformat by (simp add: crypto demo_crypto_def)
qed

lemma demo_token_accepted:
  assumes "au_principals st = [demo_admin]"
  shows "verify_token strict 5 demo_token st = (Inr demo_admin_principal, st)"
proof -
  have crypto: "am_crypto strict = demo_crypto (\<lambda>data. data = demo_payload)" by (simp add: strict_def demo_manager_def)
  have "load_principal (tk_tenant demo_token) (tk_principal demo_token) (principal_type_value (tk_type demo_token)) st =
      (Inr (Some demo_admin), st)"
    by (simp add: load_principal_result demo_token_def signed_token_def token_claims_def demo_admin_principal_def
        assms principals_at_def principal_key_def demo_admin_def new_principal_def)
  moreover have "tk_signature demo_token = Some [7]" "am_public strict = [7]"
    by (simp_all add: demo_token_def crypto demo_crypto_def) (simp_all add: strict_def demo_manager_def)
  moreover have "\<not> temporally_invalid 5 (tk_issued demo_token) (tk_expires demo_token)"
    by (simp add: demo_token_def signed_token_def token_claims_def TOKEN_TTL_def)
  ultimately show ?thesis
    using demo_token_built demo_admin_facts
    by (simp add: verify_token_def check_claims_def seq_eff_def bind_eff_def lift_res_def verify_signature_strict_def
        verify_signature_def signature_over_def crypto demo_crypto_def)
qed

text \<open>
  C27. When signatures cannot be forged, a token that is accepted carries the claims of an
  access token the manager has issued (not those of a refresh token or an OAuth state), is
  within its time, and yields the stored roles of a principal that exists and is enabled.
\<close>

theorem accepted_token_was_issued:
  assumes "only_signed m log" "\<forall>x \<in> set log. short_value x" "inj (cy_isoformat (am_crypto m))"
    and "verify_token m now t st = (Inr p, st')" "short_id (tk_id t)"
  shows "(\<exists>u. Access u \<in> set log \<and> without_signature u = without_signature t) \<and>
     \<not> temporally_invalid now (tk_issued t) (tk_expires t) \<and> st' = st \<and>
     (\<exists>r \<in> set (au_principals st). principal_key r = (tk_tenant t, tk_principal t, principal_type_value (tk_type t)) \<and>
        pc_enabled r \<and> security_principal_of r = Inr p)"
proof -
  obtain sg payload where "check_claims m now ''Token principal is no longer valid.'' t sg payload st = (Inr p, st')"
    using assms(4) by (rule verify_token_Inr)
  from check_claims_Inr [OF this] token_issued [OF assms] show ?thesis by blast
qed

theorem accepted_token_was_issued_witness:
  "verify_token strict 5 demo_token demo_accounts = (Inr demo_admin_principal, demo_accounts) \<and>
     (\<exists>u. Access u \<in> set [Access demo_token] \<and> without_signature u = without_signature demo_token)"
proof -
  have accepted: "verify_token strict 5 demo_token demo_accounts = (Inr demo_admin_principal, demo_accounts)"
    by (rule demo_token_accepted) (simp add: demo_accounts_def)
  from accepted_token_was_issued [OF demo_token_log accepted demo_token_short] show ?thesis using accepted by simp
qed

text \<open>
  C28. An issued access or refresh token verifies to the current row of its principal from its
  issue until exactly 15 minutes or 24 hours later, and is reported expired at every other time.
\<close>

theorem issued_tokens_verify:
  assumes "issue_token m issued random p = Inr t" "issue_refresh_token m issued random' p = Inr u" "signs m"
    and "auth_store_ok st" "r \<in> set (au_principals st)" "pc_enabled r"
    and "principal_key r = (sp_tenant_id p, sp_principal_id p, principal_type_value (sp_principal_type p))"
  shows "verify_token m now t st =
       ((if now < issued \<or> issued + TOKEN_TTL < now then Inl TokenExpired else security_principal_of r), st) \<and>
     verify_refresh_token m now u st =
       ((if now < issued \<or> issued + REFRESH_TOKEN_TTL < now then Inl TokenExpired else security_principal_of r), st)"
  using verify_issued [OF assms(1, 3-7)] verify_refresh_issued [OF assms(2-7)] by simp

theorem issued_tokens_verify_witness:
  "\<exists>t u. issue_token honest 0 [1] demo_admin_principal = Inr t \<and> issue_refresh_token honest 0 [1] demo_admin_principal = Inr u \<and>
     verify_token honest 900 t demo_accounts = (Inr demo_admin_principal, demo_accounts) \<and>
     verify_token honest 901 t demo_accounts = (Inl TokenExpired, demo_accounts) \<and>
     verify_refresh_token honest 901 u demo_accounts = (Inr demo_admin_principal, demo_accounts)"
proof -
  obtain t u where issued: "issue_token honest 0 [1] demo_admin_principal = Inr t"
      "issue_refresh_token honest 0 [1] demo_admin_principal = Inr u"
    using demo_tokens(1, 3) by blast
  from issued_tokens_verify [OF this signs_honest demo_accounts_ok demo_admin_facts(1, 2, 4), of 900]
    issued_tokens_verify [OF this signs_honest demo_accounts_ok demo_admin_facts(1, 2, 4), of 901] issued
  show ?thesis by (simp add: demo_admin_facts TOKEN_TTL_def REFRESH_TOKEN_TTL_def)
qed

section \<open>Accounts\<close>

text \<open>
  C29. After the rows of a bootstrap are committed every later bootstrap fails and changes
  nothing, whatever operations follow, also one that counted the principals before.
\<close>

theorem bootstrap_at_most_once:
  assumes "bootstrap_rows m salt tenant user password roles permissions st = Inr st1" "auth_run m st1 st2"
  shows "bootstrap_rows m salt' tenant' user' password' roles' permissions' st2 = Inl AuthStorageFailed \<and>
     is_bootstrap_required st2 = (Inr False, st2) \<and>
     (\<exists>e. bootstrap_first_admin m salt' tenant' user' password' roles' permissions' st2 = (Inl e, st2))"
proof -
  have locked: "lock_key \<in> principal_key ` set (au_principals st2)" by (rule bootstrap_once [OF assms])
  then have some: "au_principals st2 \<noteq> []" by auto
  then show ?thesis
    by (auto simp: locked_rows [OF locked] is_bootstrap_required_def transaction_def bootstrap_first_admin_def seq_eff_def
        bind_eff_def lift_res_def split: sum.split)
qed

definition demo_booted :: auth_store where
  "demo_booted = empty_auth_store\<lparr>au_principals := [bootstrap_lock,
     new_principal ''acme'' ''ann'' ''USER'' (Some ''hsecret-1'') [''admin''] [(''clearance_level'', PStr ''RESTRICTED'')] None]\<rparr>"

lemma demo_bootstrap: "bootstrap_rows honest 0 ''acme'' ''ann'' ''secret-1'' [''admin''] [] empty_auth_store = Inr demo_booted"
  by (simp add: bootstrap_rows_def insert_principal_def empty_auth_store_def demo_booted_def no_clash_def bootstrap_lock_def
      new_principal_def principal_key_def BOOTSTRAP_LOCK_TENANT_ID_def demo_manager_def demo_crypto_def)

theorem bootstrap_at_most_once_witness:
  "bootstrap_rows honest 1 ''evil'' ''eve'' ''secret-2'' [''admin''] [] demo_booted = Inl AuthStorageFailed \<and>
     is_bootstrap_required demo_booted = (Inr False, demo_booted)"
  using bootstrap_at_most_once [OF demo_bootstrap auth_run.rest] by simp

text \<open>
  C30. A password reset token that was redeemed is refused ever after, whatever operations
  follow.
\<close>

theorem reset_token_single_use:
  assumes "auth_run m empty_auth_store st" "reset_password m salt now token password st = (Inr (), st1)"
    and "auth_run m st1 st2" "MIN_PASSWORD_LENGTH \<le> length password'"
  shows "reset_password m salt' now' token password' st2 = (Inl PasswordResetRefused, st2)"
proof -
  have ok: "auth_store_ok st" by (rule auth_run_ok [OF assms(1)])
  from assms(2) have token: "token \<noteq> []"
    and "transaction (redeem_reset (token_hash m token) (cy_hash (am_crypto m) salt password) now) st = (Inr (), st1)"
    by (auto simp: reset_password_def raise_error_def split: if_splits)
  then have "redeem_reset (token_hash m token) (cy_hash (am_crypto m) salt password) now st = Inr ((), st1)"
    by (auto elim: transaction_cases)
  from below_redeem [OF this] have below: "auth_below st st1" and used: "token_hash m token \<in> used_hashes st1" by simp_all
  have "auth_below st1 st2" by (rule auth_run_below [OF assms(3)])
  with below used ok have "auth_store_ok st2" "token_hash m token \<in> used_hashes st2" by (auto simp: auth_below_def)
  from used_refused [OF this] token assms(4) show ?thesis by (simp add: reset_password_def transaction_def)
qed

definition demo_reset :: "instant option \<Rightarrow> reset_record" where
  "demo_reset used = \<lparr>rt_tenant = ''acme'', rt_principal = ''ann'', rt_type = ''USER'', rt_hash = tohex (utf8 ''t''),
     rt_expires = 1800, rt_used = used\<rparr>"

lemma demo_registered: "auth_run honest empty_auth_store (demo_accounts\<lparr>au_resets := [demo_reset None]\<rparr>)"
proof -
  have "registration_valid ''acme'' ''ann'' ''secret-1'' [''admin''] (Some ''a@b.c'') = Inr ()" by code_simp
  then have "snd (register_principal honest 0 ''acme'' ''ann'' ''secret-1'' [''admin''] (Some ''a@b.c'') empty_auth_store) = demo_accounts"
    by (simp add: register_principal_def seq_eff_def bind_eff_def lift_res_def transaction_def principals_at_def
        empty_auth_store_def insert_principal_def no_clash_def demo_accounts_def demo_admin_def new_principal_def demo_manager_def
        demo_crypto_def)
  with auth_run.onward [OF auth_run.rest auth_step.registers [of honest empty_auth_store 0 "''acme''" "''ann''" "''secret-1''"
      "[''admin'']" "Some ''a@b.c''"]]
  have registered: "auth_run honest empty_auth_store demo_accounts" by (simp only:)
  have stored: "snd (store_reset honest 0 ''t'' demo_admin demo_accounts) = demo_accounts\<lparr>au_resets := [demo_reset None]\<rparr>"
    by (simp add: store_reset_def transaction_def insert_reset_def demo_accounts_def empty_auth_store_def token_hash_def
        demo_manager_def demo_crypto_def demo_admin_def new_principal_def demo_reset_def RESET_TOKEN_TTL_def)
  from auth_run.onward [OF registered auth_step.requests [of honest demo_accounts 0 "''t''" demo_admin]]
  show ?thesis unfolding stored .
qed

theorem reset_token_single_use_witness:
  "\<exists>st1. reset_password honest 0 9 ''t'' ''secret-2'' (demo_accounts\<lparr>au_resets := [demo_reset None]\<rparr>) = (Inr (), st1) \<and>
     reset_password honest 0 10 ''t'' ''secret-3'' st1 = (Inl PasswordResetRefused, st1)"
proof -
  let ?st1 = "(update_principal (principal_key demo_admin) (\<lambda>r. r\<lparr>pc_credential := Some ''hsecret-2''\<rparr>) demo_accounts)
      \<lparr>au_resets := [demo_reset (Some 9)]\<rparr>"
  have done_once: "reset_password honest 0 9 ''t'' ''secret-2'' (demo_accounts\<lparr>au_resets := [demo_reset None]\<rparr>) = (Inr (), ?st1)"
    by (simp add: reset_password_def MIN_PASSWORD_LENGTH_def transaction_def redeem_reset_def token_hash_def demo_manager_def
        demo_crypto_def demo_reset_def principals_at_def demo_accounts_def empty_auth_store_def demo_admin_def new_principal_def
        principal_key_def update_principal_def)
  from reset_token_single_use [OF demo_registered this auth_run.rest, of "''secret-3''" 0 10] done_once
  show ?thesis by (auto simp: MIN_PASSWORD_LENGTH_def)
qed



section \<open>Divergences\<close>

text \<open>The pattern accepts an address that ends in a line feed.\<close>

theorem email_with_line_feed: "EMAIL_PATTERN (''a@b.c'' @ [char_of (10 :: nat)])"
  by code_simp

end
