(* ===== verification/Audit_Trail.thy ===== *)
theory Audit_Trail
  imports Access_Control Py_Text
begin

text \<open>
  The audit manager (\<open>engines/security/audit.py\<close>) with the security events it publishes
  (\<open>events.py\<close>).  \<open>at_up\<close> is false while the data store fails, \<open>at_bus\<close> while no event engine takes
  events.  Identifiers and times that the models generate are arguments.
\<close>

section \<open>Entries and events\<close>

record universal_audit_entry =
  ue_audit_id :: string
  ue_timestamp :: instant
  ue_action :: string
  ue_actor_id :: string
  ue_actor_type :: string
  ue_tenant_id :: string
  ue_resource_id :: "string option"
  ue_previous_hash :: "string option"
  ue_new_hash :: "string option"
  ue_client_ip :: "string option"
  ue_context :: "(string, pyval) dict"

datatype security_event =
    SecurityAuditEvent universal_audit_entry
  | SecurityAuthSuccessEvent string string string
  | SecurityAuthFailureEvent string string string
  | SecurityAccessGrantedEvent string string string string
  | SecurityAccessDeniedEvent string string string string string

record audit_log =
  at_rows :: "universal_audit_entry list"
  at_events :: "security_event list"
  at_up :: bool
  at_bus :: bool

datatype audit_error = AuditRefused string | AuditStorageFailed

definition MAX_QUERY_LIMIT :: int where "MAX_QUERY_LIMIT = 1000"

definition empty_text :: "string \<Rightarrow> bool" where
  "empty_text s \<longleftrightarrow> strip s = []"

text \<open>The kinds of actor of an audit entry.\<close>

definition actor_type_for_principal_type :: "principal_type \<Rightarrow> string" where
  "actor_type_for_principal_type t =
     dict_get_or ''SYSTEM_ENGINE''
       [(''USER'', ''HUMAN''), (''AGENT'', ''AI_AGENT''), (''SERVICE_PRINCIPAL'', ''CONNECTOR'')] (principal_type_value t)"

section \<open>Writing\<close>

text \<open>What a failing event engine does is only logged.\<close>

definition publish_security_event :: "security_event \<Rightarrow> audit_log \<Rightarrow> audit_log" where
  "publish_security_event e at = (if at_bus at then at\<lparr>at_events := at_events at @ [e]\<rparr> else at)"

definition record_audit_entry :: "universal_audit_entry \<Rightarrow> audit_log \<Rightarrow> (audit_error + universal_audit_entry) \<times> audit_log" where
  "record_audit_entry e at =
     (if empty_text (ue_tenant_id e) then (Inl (AuditRefused ''Audit entry must specify a non-empty tenant_id.''), at)
      else if empty_text (ue_action e) then (Inl (AuditRefused ''Audit entry must specify a non-empty action.''), at)
      else if empty_text (ue_actor_id e) then (Inl (AuditRefused ''Audit entry must specify a non-empty actor_id.''), at)
      else if \<not> at_up at \<or> ue_audit_id e \<in> ue_audit_id ` set (at_rows at) then (Inl AuditStorageFailed, at)
      else (Inr e, publish_security_event (SecurityAuditEvent e) (at\<lparr>at_rows := at_rows at @ [e]\<rparr>)))"

text \<open>The entry is built first, which refuses empty strings as well.\<close>

definition record_event :: "universal_audit_entry \<Rightarrow> audit_log \<Rightarrow> (audit_error + universal_audit_entry) \<times> audit_log" where
  "record_event e at =
     (if ue_action e = [] \<or> ue_actor_id e = [] \<or> ue_tenant_id e = []
      then (Inl (AuditRefused ''String should have at least 1 character''), at) else record_audit_entry e at)"

definition plain_entry :: "string \<Rightarrow> instant \<Rightarrow> string \<Rightarrow> string \<Rightarrow> string \<Rightarrow> string \<Rightarrow> (string, pyval) dict \<Rightarrow> universal_audit_entry" where
  "plain_entry audit_id now action actor actor_type tenant context =
     \<lparr>ue_audit_id = audit_id, ue_timestamp = now, ue_action = action, ue_actor_id = actor, ue_actor_type = actor_type,
      ue_tenant_id = tenant, ue_resource_id = None, ue_previous_hash = None, ue_new_hash = None, ue_client_ip = None,
      ue_context = context\<rparr>"

section \<open>Reading\<close>

definition matches :: "string option \<Rightarrow> string \<Rightarrow> bool" where
  "matches wanted s \<longleftrightarrow> wanted = None \<or> wanted = Some [] \<or> wanted = Some s"

text \<open>Newest first; entries of the same time in the order in which they were written.\<close>

definition get_audit_entries ::
  "string \<Rightarrow> int \<Rightarrow> int \<Rightarrow> string option \<Rightarrow> string option \<Rightarrow> audit_log \<Rightarrow> audit_error + universal_audit_entry list" where
  "get_audit_entries tenant limit offset action actor at =
     (if empty_text tenant then Inl (AuditRefused ''tenant_id must be provided to query audit entries.'')
      else if \<not> at_up at then Inl AuditStorageFailed
      else Inr (take (nat (max 1 (min limit MAX_QUERY_LIMIT))) (drop (nat (max 0 offset))
             (sort_key (\<lambda>e. - ue_timestamp e)
               (filter (\<lambda>e. ue_tenant_id e = tenant \<and> matches action (ue_action e) \<and> matches actor (ue_actor_id e))
                 (at_rows at))))))"

definition get_audit_entry :: "string \<Rightarrow> string \<Rightarrow> audit_log \<Rightarrow> audit_error + universal_audit_entry option" where
  "get_audit_entry audit_id tenant at =
     (if empty_text audit_id \<or> empty_text tenant
      then Inl (AuditRefused ''audit_id and tenant_id must be non-empty strings.'')
      else if \<not> at_up at then Inl AuditStorageFailed
      else Inr (find (\<lambda>e. ue_audit_id e = audit_id \<and> ue_tenant_id e = tenant) (at_rows at)))"

section \<open>The log only grows\<close>

definition grown :: "audit_log \<Rightarrow> audit_log \<Rightarrow> universal_audit_entry list \<Rightarrow> bool" where
  "grown at at' es \<longleftrightarrow> at_rows at' = at_rows at @ es \<and> at_up at' = at_up at \<and> at_bus at' = at_bus at"

lemma grown_publish [simp]: "grown at (publish_security_event e at) []"
  by (simp add: grown_def publish_security_event_def)

lemma publish_fields [simp]:
  "at_rows (publish_security_event e at) = at_rows at" "at_up (publish_security_event e at) = at_up at"
  "at_bus (publish_security_event e at) = at_bus at"
  by (simp_all add: publish_security_event_def)

lemma strip_Nil [simp]: "strip [] = []"
  by (simp add: strip_def)

lemma record_event_result:
  "record_event e at = (case fst (record_event e at) of Inl err \<Rightarrow> (Inl err, at)
     | Inr _ \<Rightarrow> (Inr e, publish_security_event (SecurityAuditEvent e) (at\<lparr>at_rows := at_rows at @ [e]\<rparr>)))"
  by (simp add: record_event_def record_audit_entry_def)

lemma record_event_rows:
  "at_rows (snd (record_event e at)) = at_rows at @ (case fst (record_event e at) of Inl _ \<Rightarrow> [] | Inr _ \<Rightarrow> [e])"
  by (simp add: record_event_def record_audit_entry_def)

lemma record_event_flags [simp]:
  "at_up (snd (record_event e at)) = at_up at" "at_bus (snd (record_event e at)) = at_bus at"
  by (simp_all add: record_event_def record_audit_entry_def)

lemma record_event_Inr:
  "isl (fst (record_event e at)) \<longleftrightarrow> empty_text (ue_tenant_id e) \<or> empty_text (ue_action e) \<or> empty_text (ue_actor_id e) \<or>
     \<not> at_up at \<or> ue_audit_id e \<in> ue_audit_id ` set (at_rows at)"
  by (auto simp: record_event_def record_audit_entry_def empty_text_def)

text \<open>A query answers with entries of the tenant only, at most a thousand, newest first.\<close>

lemma audit_query_sound:
  assumes "get_audit_entries tenant limit offset action actor at = Inr es"
  shows "set es \<subseteq> {e \<in> set (at_rows at). ue_tenant_id e = tenant}" "length es \<le> 1000"
    "sorted_wrt (\<lambda>a b. ue_timestamp b \<le> ue_timestamp a) es"
proof -
  let ?rows = "sort_key (\<lambda>e. - ue_timestamp e)
    (filter (\<lambda>e. ue_tenant_id e = tenant \<and> matches action (ue_action e) \<and> matches actor (ue_actor_id e)) (at_rows at))"
  from assms have es: "es = take (nat (max 1 (min limit MAX_QUERY_LIMIT))) (drop (nat (max 0 offset)) ?rows)"
    by (simp add: get_audit_entries_def split: if_splits)
  show "set es \<subseteq> {e \<in> set (at_rows at). ue_tenant_id e = tenant}"
    unfolding es using set_take_subset set_drop_subset by fastforce
  show "length es \<le> 1000" unfolding es by (simp add: MAX_QUERY_LIMIT_def)
  have "sorted (map (\<lambda>e. - ue_timestamp e) ?rows)" by simp
  then have "sorted_wrt (\<lambda>a b. ue_timestamp b \<le> ue_timestamp a) ?rows" by (simp add: sorted_map)
  then show "sorted_wrt (\<lambda>a b. ue_timestamp b \<le> ue_timestamp a) es"
    unfolding es by (intro sorted_wrt_take sorted_wrt_drop)
qed

end
