(* ===== verification/Dispatch.thy ===== *)
theory Dispatch
  imports Registry Audit_Trail Idempotency Authentication
begin

text \<open>
  The dispatcher of the kernel (\<open>core/dispatch.py\<close>): a request is authenticated, authorized, checked
  against the idempotency store and given to the handler of its capability.  The handler is an
  effect on the whole state of the kernel, so that it may dispatch in turn.  Validation by Pydantic
  models and the hash of a result are arguments.
\<close>

section \<open>Requests and surroundings\<close>

record capability_request =
  cr_request_id :: string
  cr_correlation_id :: string
  cr_idempotency_key :: "string option"
  cr_capability_name :: string
  cr_session_token :: "token_payload option"
  cr_parameters :: "(string, pyval) dict"
  cr_context :: "(string, pyval) dict"

record capability_context =
  cx_request_id :: string
  cx_correlation_id :: string
  cx_capability_name :: string
  cx_principal :: "security_principal option"
  cx_tenant_id :: string
  cx_session_token :: "token_payload option"

datatype call_arg = ArgValue pyval | ArgContext capability_context | ArgPrincipal "security_principal option"

text \<open>The annotation of a handler's parameter, over the Pydantic models it can name.\<close>

datatype 'm annotation = ModelClass 'm | NoneClass | OtherAnnotation | ListOf "'m annotation list" | UnionOf "'m annotation list"

datatype invocation_error =
    HandlerLookup registry_error
  | HandlerEntryMissing string
  | NoHandler string
  | ReservedParameter "string list"
  | ParameterInvalid string
  | HandlerRaised string string

datatype dispatch_error =
    UnknownCapability registry_error
  | TokenRequired string
  | SecurityEngineMissing
  | TokenRejected auth_error
  | PolicyStoreFailed
  | AuthorizationRefused string
  | ConcurrentExecution string
  | ClaimInterrupted string
  | InvocationFailed invocation_error

record ('o, 'c, 'w) kernel_state =
  ks_registry :: "'o registry"
  ks_auth :: auth_store
  ks_cache :: 'c
  ks_idempotency :: "idempotency_store option"
  ks_audit :: audit_log
  ks_world :: 'w

text \<open>
  \<open>dp_security\<close> is the security engine's authentication manager with whether the engine is ready;
  \<open>dp_signature\<close> is \<^const>\<open>None\<close> for a handler whose annotations do not resolve.
\<close>

record ('o, 'm, 'c, 'w) capability_dispatcher =
  dp_security :: "(auth_manager \<times> bool) option"
  dp_cache_ops :: "'c cache_ops option"
  dp_signature :: "'o \<Rightarrow> (string \<times> 'm annotation option) list option"
  dp_validate :: "'m \<Rightarrow> (string, pyval) dict \<Rightarrow> string + pyval"
  dp_call :: "'o \<Rightarrow> (string, call_arg) dict \<Rightarrow> (('o, 'c, 'w) kernel_state, string \<times> string, pyval) eff"
  dp_hash :: "pyval \<Rightarrow> string option"
  dp_message :: "invocation_error \<Rightarrow> string"
  dp_floats :: float_ops

text \<open>
  What one dispatch reads from outside: times, fresh identifiers, whether the policy store answers,
  and a cancellation during the claim (after its commit or before) with its message.
\<close>

record dispatch_moment =
  dm_now :: instant
  dm_done :: instant
  dm_duration :: f64
  dm_record_id :: string
  dm_audit_id :: "nat \<Rightarrow> string"
  dm_policy_up :: bool
  dm_interrupt :: "(bool \<times> string) option"

section \<open>Parameters\<close>

fun map_res :: "('a \<Rightarrow> 'e + 'b) \<Rightarrow> 'a list \<Rightarrow> 'e + 'b list" where
  "map_res f [] = Inr []"
| "map_res f (x # xs) = bind_res (f x) (\<lambda>y. bind_res (map_res f xs) (\<lambda>ys. Inr (y # ys)))"

definition RESERVED_PARAMETER_KEYS :: "string list" where
  "RESERVED_PARAMETER_KEYS = [''execution_context'', ''principal'']"

text \<open>The model an annotation denotes, and whether as a list of it.\<close>

fun resolve_model_target :: "'m annotation \<Rightarrow> ('m \<times> bool) option" where
  "resolve_model_target (ModelClass m) = Some (m, False)"
| "resolve_model_target (ListOf (ModelClass m # _)) = Some (m, True)"
| "resolve_model_target (UnionOf (NoneClass # as)) = resolve_model_target (UnionOf as)"
| "resolve_model_target (UnionOf (a # as)) =
     (case resolve_model_target a of Some r \<Rightarrow> Some r | None \<Rightarrow> resolve_model_target (UnionOf as))"
| "resolve_model_target _ = None"

definition coerce_item :: "('m \<Rightarrow> (string, pyval) dict \<Rightarrow> string + pyval) \<Rightarrow> 'm \<Rightarrow> pyval \<Rightarrow> string + pyval" where
  "coerce_item validate m v = (case v of PDict d \<Rightarrow> validate m d | _ \<Rightarrow> Inr v)"

definition coerce_value :: "('m \<Rightarrow> (string, pyval) dict \<Rightarrow> string + pyval) \<Rightarrow> 'm \<times> bool \<Rightarrow> call_arg \<Rightarrow> string + call_arg" where
  "coerce_value validate target v =
     (case (target, v) of
        ((m, True), ArgValue (PList items)) \<Rightarrow>
          bind_res (map_res (coerce_item validate m) items) (\<lambda>vs. Inr (ArgValue (PList vs)))
      | ((m, False), ArgValue w) \<Rightarrow> bind_res (coerce_item validate m w) (\<lambda>u. Inr (ArgValue u))
      | _ \<Rightarrow> Inr v)"

fun coerce_each ::
  "('m \<Rightarrow> (string, pyval) dict \<Rightarrow> string + pyval) \<Rightarrow> (string \<times> 'm annotation option) list \<Rightarrow> (string, call_arg) dict \<Rightarrow>
   string + (string, call_arg) dict" where
  "coerce_each validate [] kwargs = Inr kwargs"
| "coerce_each validate ((name, note) # params) kwargs =
     (case (dict_get kwargs name, Option.bind note resolve_model_target) of
        (Some v, Some target) \<Rightarrow>
          if name = ''principal'' then coerce_each validate params kwargs
          else bind_res (coerce_value validate target v) (\<lambda>w. coerce_each validate params (dict_set name w kwargs))
      | _ \<Rightarrow> coerce_each validate params kwargs)"

definition coerce_model_parameters ::
  "('o, 'm, 'c, 'w) capability_dispatcher \<Rightarrow> 'o \<Rightarrow> (string, call_arg) dict \<Rightarrow> string + (string, call_arg) dict" where
  "coerce_model_parameters dp h kwargs =
     (case dp_signature dp h of None \<Rightarrow> Inr kwargs | Some params \<Rightarrow> coerce_each (dp_validate dp) params kwargs)"

section \<open>Authentication\<close>

text \<open>The class name of an error that \<open>verify_token\<close> raises.\<close>

definition auth_error_class :: "auth_error \<Rightarrow> string" where
  "auth_error_class e =
     (case e of
        InvalidToken _ \<Rightarrow> ''InvalidTokenError''
      | TokenExpired \<Rightarrow> ''TokenExpiredError''
      | InvalidSignature \<Rightarrow> ''InvalidSignatureError''
      | LengthOverflow \<Rightarrow> ''OverflowError''
      | UnknownPrincipalType _ \<Rightarrow> ''ValueError''
      | AuthStorageFailed \<Rightarrow> ''SecurityEngineError''
      | _ \<Rightarrow> ''AuthenticationError'')"

text \<open>An entry and then an event; an entry that fails leaves the event out.\<close>

definition audit_then ::
  "universal_audit_entry \<Rightarrow> security_event \<Rightarrow> ('o, 'c, 'w) kernel_state \<Rightarrow> ('o, 'c, 'w) kernel_state" where
  "audit_then entry event s =
     (case record_event entry (ks_audit s) of
        (Inl _, at) \<Rightarrow> s\<lparr>ks_audit := at\<rparr>
      | (Inr _, at) \<Rightarrow> s\<lparr>ks_audit := publish_security_event event at\<rparr>)"

definition audit_authentication_success ::
  "dispatch_moment \<Rightarrow> security_principal \<Rightarrow> ('o, 'c, 'w) kernel_state \<Rightarrow> ('o, 'c, 'w) kernel_state" where
  "audit_authentication_success m p =
     audit_then
       (plain_entry (dm_audit_id m 0) (dm_now m) ''kortex.kernel.dispatch.authenticate'' (sp_principal_id p)
          (actor_type_for_principal_type (sp_principal_type p)) (sp_tenant_id p) [(''result'', PStr ''success'')])
       (SecurityAuthSuccessEvent (sp_tenant_id p) (sp_principal_id p) (principal_type_value (sp_principal_type p)))"

definition audit_authentication_failure ::
  "dispatch_moment \<Rightarrow> token_payload \<Rightarrow> auth_error \<Rightarrow> ('o, 'c, 'w) kernel_state \<Rightarrow> ('o, 'c, 'w) kernel_state" where
  "audit_authentication_failure m t e =
     audit_then
       (plain_entry (dm_audit_id m 0) (dm_now m) ''kortex.kernel.dispatch.authenticate'' (tk_principal t)
          (actor_type_for_principal_type (tk_type t)) (tk_tenant t)
          [(''result'', PStr ''failure''), (''reason'', PStr (auth_error_class e))])
       (SecurityAuthFailureEvent (tk_tenant t) (tk_principal t) (auth_error_class e))"

definition authenticate_caller ::
  "('o, 'm, 'c, 'w) capability_dispatcher \<Rightarrow> dispatch_moment \<Rightarrow> capability_request \<Rightarrow> capability_descriptor \<Rightarrow>
   (('o, 'c, 'w) kernel_state, dispatch_error, security_principal option) eff" where
  "authenticate_caller dp m req d s =
     (if \<not> cd_requires_authentication d then (Inr None, s)
      else (case cr_session_token req of
              None \<Rightarrow> (Inl (TokenRequired (cr_capability_name req)), s)
            | Some t \<Rightarrow>
                (case dp_security dp of
                   None \<Rightarrow> (Inl SecurityEngineMissing, s)
                 | Some (manager, _) \<Rightarrow>
                     (case verify_token manager (dm_now m) t (ks_auth s) of
                        (Inl e, st) \<Rightarrow> (Inl (TokenRejected e), audit_authentication_failure m t e (s\<lparr>ks_auth := st\<rparr>))
                      | (Inr p, st) \<Rightarrow> (Inr (Some p), audit_authentication_success m p (s\<lparr>ks_auth := st\<rparr>))))))"

section \<open>Authorization\<close>

text \<open>\<open>SecurityEngine.authorize\<close>: the decision, its audit entry, and its event whatever became of the entry.\<close>

definition access_event :: "security_principal \<Rightarrow> string \<Rightarrow> access_decision \<Rightarrow> security_event" where
  "access_event p capability a =
     (if is_allowed a
      then SecurityAccessGrantedEvent (sp_tenant_id p) (sp_principal_id p) capability (decision_code a)
      else SecurityAccessDeniedEvent (sp_tenant_id p) (sp_principal_id p) capability (reason a) (decision_code a))"

definition security_authorize ::
  "('o, 'm, 'c, 'w) capability_dispatcher \<Rightarrow> dispatch_moment \<Rightarrow> security_principal \<Rightarrow> permission_requirement \<Rightarrow> (string, pyval) dict \<Rightarrow>
   (('o, 'c, 'w) kernel_state, dispatch_error, access_decision) eff" where
  "security_authorize dp m p r ctx s =
     (case authorize (dp_cache_ops dp) (dm_now m) (if dm_policy_up m then Some (au_grants (ks_auth s)) else None) p r
             (Some ctx) (ks_cache s) of
        (None, c) \<Rightarrow> (Inl PolicyStoreFailed, s\<lparr>ks_cache := c\<rparr>)
      | (Some a, c) \<Rightarrow>
          (Inr a, s\<lparr>ks_cache := c,
             ks_audit := publish_security_event (access_event p (pr_capability_name r) a)
               (snd (record_event
                  (plain_entry (dm_audit_id m 1) (dm_now m) (pr_capability_name r) (sp_principal_id p)
                     (actor_type_for_principal_type (sp_principal_type p)) (sp_tenant_id p)
                     [(''decision_code'', PStr (decision_code a)), (''is_allowed'', PBool (is_allowed a))])
                  (ks_audit s)))\<rparr>))"

definition authorize_caller ::
  "('o, 'm, 'c, 'w) capability_dispatcher \<Rightarrow> dispatch_moment \<Rightarrow> capability_request \<Rightarrow> capability_descriptor \<Rightarrow> security_principal option \<Rightarrow>
   (('o, 'c, 'w) kernel_state, dispatch_error, unit) eff" where
  "authorize_caller dp m req d caller =
     (case caller of
        None \<Rightarrow> ret ()
      | Some p \<Rightarrow> bind_eff (security_authorize dp m p (requirement_of d) (cr_context req))
          (\<lambda>a. if is_allowed a then ret () else raise_error (AuthorizationRefused (reason a))))"

section \<open>The handler\<close>

definition tenant_of :: "('o, 'm, 'c, 'w) capability_dispatcher \<Rightarrow> capability_request \<Rightarrow> security_principal option \<Rightarrow> string" where
  "tenant_of dp req caller =
     (case caller of
        Some p \<Rightarrow> sp_tenant_id p
      | None \<Rightarrow> py_str (dp_floats dp) (dict_get_or (PStr ''default'') (cr_context req) ''resource_tenant_id''))"

definition context_of :: "('o, 'm, 'c, 'w) capability_dispatcher \<Rightarrow> capability_request \<Rightarrow> security_principal option \<Rightarrow> capability_context" where
  "context_of dp req caller =
     \<lparr>cx_request_id = cr_request_id req, cx_correlation_id = cr_correlation_id req, cx_capability_name = cr_capability_name req,
      cx_principal = caller, cx_tenant_id = tenant_of dp req caller, cx_session_token = cr_session_token req\<rparr>"

definition offending_keys :: "capability_request \<Rightarrow> string list" where
  "offending_keys req = filter (dict_has (cr_parameters req)) RESERVED_PARAMETER_KEYS"

definition injected_arguments :: "capability_request \<Rightarrow> capability_descriptor \<Rightarrow> capability_context \<Rightarrow> (string, call_arg) dict" where
  "injected_arguments req d cx =
     (let kwargs = map (\<lambda>(k, v). (k, ArgValue v)) (cr_parameters req);
          kwargs1 = (if cd_requires_execution_context d then dict_set ''execution_context'' (ArgContext cx) kwargs else kwargs)
      in if cd_legacy_principal_bridge d then dict_set ''principal'' (ArgPrincipal (cx_principal cx)) kwargs1 else kwargs1)"

definition invoke_handler ::
  "('o, 'm, 'c, 'w) capability_dispatcher \<Rightarrow> capability_request \<Rightarrow> capability_descriptor \<Rightarrow> capability_context \<Rightarrow>
   (('o, 'c, 'w) kernel_state, invocation_error, pyval) eff" where
  "invoke_handler dp req d cx s =
     (case resolve_handler (cr_capability_name req) (ks_registry s) of
        Inl e \<Rightarrow> (Inl (HandlerLookup e), s)
      | Inr None \<Rightarrow> (Inl (HandlerEntryMissing (cr_capability_name req)), s)
      | Inr (Some None) \<Rightarrow> (Inl (NoHandler (cr_capability_name req)), s)
      | Inr (Some (Some h)) \<Rightarrow>
          if offending_keys req \<noteq> [] then (Inl (ReservedParameter (offending_keys req)), s)
          else (case coerce_model_parameters dp h (injected_arguments req d cx) of
                  Inl msg \<Rightarrow> (Inl (ParameterInvalid msg), s)
                | Inr kwargs \<Rightarrow>
                    (case dp_call dp h kwargs s of
                       (Inl (cls, msg), s') \<Rightarrow> (Inl (HandlerRaised cls msg), s')
                     | (Inr v, s') \<Rightarrow> (Inr v, s'))))"

definition invocation_error_class :: "invocation_error \<Rightarrow> string" where
  "invocation_error_class e =
     (case e of
        HandlerLookup _ \<Rightarrow> ''CapabilityNotFoundError''
      | HandlerEntryMissing _ \<Rightarrow> ''KeyError''
      | NoHandler _ \<Rightarrow> ''RuntimeError''
      | ReservedParameter _ \<Rightarrow> ''ReservedParameterError''
      | ParameterInvalid _ \<Rightarrow> ''ValidationError''
      | HandlerRaised cls _ \<Rightarrow> cls)"

text \<open>The parameters of the request go into the audit log as the sanitizer leaves them.\<close>

definition execution_details :: "capability_request \<Rightarrow> f64 \<Rightarrow> (string \<times> string) option \<Rightarrow> (string, pyval) dict" where
  "execution_details req duration err =
     [(''request_id'', PStr (cr_request_id req)), (''correlation_id'', PStr (cr_correlation_id req)),
      (''idempotency_key'', case cr_idempotency_key req of None \<Rightarrow> PNone | Some k \<Rightarrow> PStr k),
      (''capability_name'', PStr (cr_capability_name req)),
      (''status'', PStr (if err = None then ''SUCCESS'' else ''FAILURE'')), (''duration_ms'', PFloat duration),
      (''parameters'', sanitize_for_persistence (PDict (cr_parameters req)))] @
     (case err of None \<Rightarrow> []
      | Some (cls, msg) \<Rightarrow> [(''error_type'', PStr cls), (''error_message'', PStr (take 500 msg))])"

definition execution_entry ::
  "('o, 'm, 'c, 'w) capability_dispatcher \<Rightarrow> dispatch_moment \<Rightarrow> capability_request \<Rightarrow> capability_context \<Rightarrow> invocation_error + pyval \<Rightarrow> universal_audit_entry" where
  "execution_entry dp m req cx outcome =
     \<lparr>ue_audit_id = dm_audit_id m 2, ue_timestamp = dm_done m, ue_action = ''kortex.kernel.dispatch.execute'',
      ue_actor_id = (case cx_principal cx of None \<Rightarrow> ''ANONYMOUS'' | Some p \<Rightarrow> sp_principal_id p),
      ue_actor_type = (case cx_principal cx of None \<Rightarrow> ''SYSTEM_ENGINE''
                       | Some p \<Rightarrow> actor_type_for_principal_type (sp_principal_type p)),
      ue_tenant_id = cx_tenant_id cx, ue_resource_id = Some (cr_capability_name req), ue_previous_hash = None,
      ue_new_hash = (case outcome of Inr v \<Rightarrow> if v = PNone then None else dp_hash dp (sanitize_for_persistence v) | Inl _ \<Rightarrow> None),
      ue_client_ip = None,
      ue_context = execution_details req (dm_duration m)
        (case outcome of Inr _ \<Rightarrow> None | Inl e \<Rightarrow> Some (invocation_error_class e, dp_message dp e))\<rparr>"

definition has_security :: "('o, 'm, 'c, 'w) capability_dispatcher \<Rightarrow> capability_descriptor \<Rightarrow> bool" where
  "has_security dp d \<longleftrightarrow>
     (case dp_security dp of None \<Rightarrow> False | Some (_, ready) \<Rightarrow> cd_requires_authentication d \<or> ready)"

definition audit_execution ::
  "('o, 'm, 'c, 'w) capability_dispatcher \<Rightarrow> dispatch_moment \<Rightarrow> capability_request \<Rightarrow> capability_descriptor \<Rightarrow> capability_context \<Rightarrow>
   invocation_error + pyval \<Rightarrow> ('o, 'c, 'w) kernel_state \<Rightarrow> ('o, 'c, 'w) kernel_state" where
  "audit_execution dp m req d cx outcome s =
     (if has_security dp d then s\<lparr>ks_audit := snd (record_event (execution_entry dp m req cx outcome) (ks_audit s))\<rparr> else s)"

section \<open>The dispatch\<close>

text \<open>An empty key is no key.\<close>

definition effective_key :: "capability_request \<Rightarrow> string option" where
  "effective_key req = (case cr_idempotency_key req of Some k \<Rightarrow> if k = [] then None else Some k | None \<Rightarrow> None)"

definition with_store ::
  "capability_request \<Rightarrow> (string \<Rightarrow> idempotency_store \<Rightarrow> idempotency_store) \<Rightarrow> ('o, 'c, 'w) kernel_state \<Rightarrow> ('o, 'c, 'w) kernel_state" where
  "with_store req f s =
     (case (effective_key req, ks_idempotency s) of
        (Some k, Some st) \<Rightarrow> s\<lparr>ks_idempotency := Some (f k st)\<rparr>
      | _ \<Rightarrow> s)"

definition execute_capability ::
  "('o, 'm, 'c, 'w) capability_dispatcher \<Rightarrow> dispatch_moment \<Rightarrow> capability_request \<Rightarrow> capability_descriptor \<Rightarrow> capability_context \<Rightarrow>
   (('o, 'c, 'w) kernel_state, dispatch_error, pyval) eff" where
  "execute_capability dp m req d cx s =
     (case invoke_handler dp req d cx s of
        (Inr v, s1) \<Rightarrow>
          (Inr v, audit_execution dp m req d cx (Inr v)
             (with_store req (\<lambda>k. record_completed (dm_done m) (cx_tenant_id cx) k v) s1))
      | (Inl e, s1) \<Rightarrow>
          (Inl (InvocationFailed e), audit_execution dp m req d cx (Inl e)
             (with_store req (\<lambda>k. record_failed (dm_done m) (cx_tenant_id cx) k (dp_message dp e)) s1)))"

text \<open>
  A cancelled claim releases the row, if it holds it.
\<close>

definition claim_for ::
  "dispatch_moment \<Rightarrow> capability_request \<Rightarrow> string \<Rightarrow> string \<Rightarrow> idempotency_store \<Rightarrow> claim_result \<times> pyval option \<times> idempotency_store" where
  "claim_for m req tenant k st =
     claim_or_get_execution (dm_now m) (dm_record_id m) tenant k (cr_capability_name req) (cr_request_id req)
       (cr_correlation_id req) st"

definition interrupted_claim ::
  "dispatch_moment \<Rightarrow> capability_request \<Rightarrow> string \<Rightarrow> string \<Rightarrow> bool \<Rightarrow> string \<Rightarrow> idempotency_store \<Rightarrow> idempotency_store" where
  "interrupted_claim m req tenant k committed msg st =
     snd (release_claim_if_owned (dm_done m) tenant k (cr_request_id req) msg
       (if committed then snd (snd (claim_for m req tenant k st)) else st))"

definition idempotent_execution ::
  "('o, 'm, 'c, 'w) capability_dispatcher \<Rightarrow> dispatch_moment \<Rightarrow> capability_request \<Rightarrow> capability_descriptor \<Rightarrow> capability_context \<Rightarrow>
   (('o, 'c, 'w) kernel_state, dispatch_error, pyval) eff" where
  "idempotent_execution dp m req d cx s =
     (case (effective_key req, ks_idempotency s) of
        (Some k, Some st) \<Rightarrow>
          (case dm_interrupt m of
             Some (committed, msg) \<Rightarrow>
               (Inl (ClaimInterrupted msg),
                s\<lparr>ks_idempotency := Some (interrupted_claim m req (cx_tenant_id cx) k committed msg st)\<rparr>)
           | None \<Rightarrow>
               (case claim_for m req (cx_tenant_id cx) k st of
                  (COMPLETED_BEFORE, response, st') \<Rightarrow>
                    (Inr (case response of None \<Rightarrow> PNone | Some v \<Rightarrow> v), s\<lparr>ks_idempotency := Some st'\<rparr>)
                | (IN_PROGRESS, _, st') \<Rightarrow> (Inl (ConcurrentExecution k), s\<lparr>ks_idempotency := Some st'\<rparr>)
                | (CLAIMED, _, st') \<Rightarrow> execute_capability dp m req d cx (s\<lparr>ks_idempotency := Some st'\<rparr>)))
      | _ \<Rightarrow> execute_capability dp m req d cx s)"

definition dispatch ::
  "('o, 'm, 'c, 'w) capability_dispatcher \<Rightarrow> dispatch_moment \<Rightarrow> capability_request \<Rightarrow> (('o, 'c, 'w) kernel_state, dispatch_error, pyval) eff" where
  "dispatch dp m req s =
     (case get_capability (cr_capability_name req) (ks_registry s) of
        Inl e \<Rightarrow> (Inl (UnknownCapability e), s)
      | Inr d \<Rightarrow>
          bind_eff (authenticate_caller dp m req d) (\<lambda>caller.
          seq_eff (authorize_caller dp m req d caller)
            (idempotent_execution dp m req d (context_of dp req caller))) s)"

end
