(* ===== verification/Registry_Correct.thy ===== *)
theory Registry_Correct
  imports Registry
begin

text \<open>
  What the registry keeps: its descriptors agree with its handlers, only the fixed list of
  capabilities does without authentication, and a capability changes hands through its owner only.
\<close>

section \<open>Events\<close>

datatype 'o registry_event =
    Resource_Registered instant string registry_category "'o option" string string string "(string, pyval) dict" bool
  | Capability_Registered instant "'o capability_spec"
  | Capability_Unregistered string string

fun registry_step :: "('o \<Rightarrow> parameters option) \<Rightarrow> 'o registry \<Rightarrow> 'o registry_event \<Rightarrow> 'o registry" where
  "registry_step inspect rg (Resource_Registered now name cat target description version provider attributes overwrite) =
     snd (register_resource now name cat target description version provider attributes overwrite rg)"
| "registry_step inspect rg (Capability_Registered now spec) = snd (register_capability inspect now spec rg)"
| "registry_step inspect rg (Capability_Unregistered name owner) = snd (unregister_capability name owner rg)"

section \<open>The invariant\<close>

definition accepts :: "parameters \<Rightarrow> string \<Rightarrow> bool" where
  "accepts params key \<longleftrightarrow> key \<in> fst ` set params \<or> True \<in> snd ` set params"

definition injectable :: "('o \<Rightarrow> parameters option) \<Rightarrow> capability_descriptor \<Rightarrow> 'o \<Rightarrow> bool" where
  "injectable inspect d h \<longleftrightarrow>
     (cd_requires_execution_context d \<longrightarrow> (\<exists>params. inspect h = Some params \<and> accepts params ''execution_context'')) \<and>
     (cd_legacy_principal_bridge d \<longrightarrow> (\<exists>params. inspect h = Some params \<and> accepts params ''principal''))"

definition capability_ok :: "('o \<Rightarrow> parameters option) \<Rightarrow> string \<Rightarrow> capability_descriptor \<Rightarrow> 'o option option \<Rightarrow> bool" where
  "capability_ok inspect name d handler \<longleftrightarrow>
     cd_name d = name \<and> (cd_requires_authentication d \<or> name \<in> set BOOTSTRAP_EXEMPT_CAPABILITIES) \<and>
     handler \<noteq> None \<and> (\<forall>h. handler = Some (Some h) \<longrightarrow> injectable inspect d h)"

definition registry_ok :: "('o \<Rightarrow> parameters option) \<Rightarrow> 'o registry \<Rightarrow> bool" where
  "registry_ok inspect rg \<longleftrightarrow>
     (\<forall>name d. dict_get (rg_capabilities rg) name = Some d \<longrightarrow>
        capability_ok inspect name d (dict_get (rg_handlers rg) name)) \<and>
     (\<forall>name. dict_get (rg_capabilities rg) name = None \<longrightarrow> dict_get (rg_handlers rg) name = None)"

section \<open>Operations\<close>

lemma register_resource_frame [simp]:
  "rg_capabilities (snd (register_resource now name cat target description version provider attributes overwrite rg)) =
     rg_capabilities rg"
  "rg_handlers (snd (register_resource now name cat target description version provider attributes overwrite rg)) =
     rg_handlers rg"
  by (simp_all add: register_resource_def Let_def)

text \<open>What a registration that passes the checks writes.\<close>

lemma register_capability_tables:
  "(\<exists>e. check_registration inspect spec rg = Inl e \<and> snd (register_capability inspect now spec rg) = rg) \<or>
   (\<exists>d update. check_registration inspect spec rg = Inr (d, update) \<and>
      rg_capabilities (snd (register_capability inspect now spec rg)) = dict_set (cp_name spec) d (rg_capabilities rg) \<and>
      rg_handlers (snd (register_capability inspect now spec rg)) = dict_set (cp_name spec) (cp_handler spec) (rg_handlers rg))"
proof (cases "check_registration inspect spec rg")
  case (Inl e)
  then show ?thesis by (simp add: register_capability_def)
next
  case (Inr p)
  obtain d update where p: "p = (d, update)" by (cases p)
  let ?rg = "rg\<lparr>rg_capabilities := dict_set (cp_name spec) d (rg_capabilities rg),
     rg_handlers := dict_set (cp_name spec) (cp_handler spec) (rg_handlers rg)\<rparr>"
  let ?reg = "register_resource now (cp_name spec) RC_CAPABILITY (cp_handler spec) (cp_description spec) ''0.1.0''
     (cp_provider spec) [] update ?rg"
  have "snd (register_capability inspect now spec rg) = snd ?reg"
    by (simp add: register_capability_def Inr p Let_def split: prod.splits sum.splits)
  then show ?thesis using Inr p by simp
qed

lemma is_update_Inr:
  "is_update spec existing = Inr update \<Longrightarrow>
     existing = None \<or> (\<exists>d. existing = Some d \<and> cd_owner_id d = cp_owner_id spec \<and> cp_owner_id spec \<noteq> None)"
  by (auto simp: is_update_def split: option.splits if_splits)

lemma validate_binding_Inr:
  assumes "validate_execution_context_binding name signature c p = Inr ()"
  shows "c \<longrightarrow> (\<exists>params. signature = Some params \<and> accepts params ''execution_context'')"
    "p \<longrightarrow> (\<exists>params. signature = Some params \<and> accepts params ''principal'')"
  using assms by (auto simp: validate_execution_context_binding_def Let_def accepts_def split: option.splits if_splits)

lemma descriptor_of_fields [simp]:
  "cd_name (descriptor_of spec c p) = cp_name spec" "cd_owner_id (descriptor_of spec c p) = cp_owner_id spec"
  "cd_requires_authentication (descriptor_of spec c p) = cp_requires_authentication spec"
  "cd_requires_execution_context (descriptor_of spec c p) = c" "cd_legacy_principal_bridge (descriptor_of spec c p) = p"
  by (simp_all add: descriptor_of_def)

lemma check_registration_Inr:
  assumes "check_registration inspect spec rg = Inr (d, update)"
  shows "capability_ok inspect (cp_name spec) d (Some (cp_handler spec))" "cd_owner_id d = cp_owner_id spec"
    "is_update spec (dict_get (rg_capabilities rg) (cp_name spec)) = Inr update"
proof -
  from assms obtain u where u: "is_update spec (dict_get (rg_capabilities rg) (cp_name spec)) = Inr u"
    and auth: "cp_requires_authentication spec \<or> cp_name spec \<in> set BOOTSTRAP_EXEMPT_CAPABILITIES"
    by (auto simp: check_registration_def bind_res_Inr_iff split: if_splits)
  from u auth assms have rest: "(case cp_handler spec of
       None \<Rightarrow> Inr (descriptor_of spec (cp_requires_execution_context spec) (cp_legacy_principal_bridge spec), u)
     | Some h \<Rightarrow>
         (let needs_context = wants ''execution_context'' (cp_requires_execution_context spec) (inspect h);
              needs_principal = wants ''principal'' (cp_legacy_principal_bridge spec) (inspect h)
          in bind_res (if needs_context \<or> needs_principal
               then validate_execution_context_binding (cp_name spec) (inspect h) needs_context needs_principal
               else Inr ()) (\<lambda>_. Inr (descriptor_of spec needs_context needs_principal, u)))) = Inr (d, update)"
    by (elim disjE) (simp_all add: check_registration_def)
  have "u = update \<and> cd_owner_id d = cp_owner_id spec \<and> capability_ok inspect (cp_name spec) d (Some (cp_handler spec))"
  proof (cases "cp_handler spec")
    case None
    with rest auth show ?thesis by (auto simp: capability_ok_def)
  next
    case (Some h)
    let ?c = "wants ''execution_context'' (cp_requires_execution_context spec) (inspect h)"
    let ?p = "wants ''principal'' (cp_legacy_principal_bridge spec) (inspect h)"
    from rest Some have d: "d = descriptor_of spec ?c ?p" "u = update"
      and valid: "?c \<or> ?p \<Longrightarrow> validate_execution_context_binding (cp_name spec) (inspect h) ?c ?p = Inr ()"
      by (auto simp: Let_def bind_res_Inr_iff split: if_splits)
    have "injectable inspect d h"
    proof (cases "?c \<or> ?p")
      case True
      from validate_binding_Inr [OF valid [OF True]] show ?thesis by (simp add: injectable_def d)
    next
      case False
      then show ?thesis by (simp add: injectable_def d)
    qed
    with auth Some d show ?thesis by (simp add: capability_ok_def)
  qed
  with u show "capability_ok inspect (cp_name spec) d (Some (cp_handler spec))" "cd_owner_id d = cp_owner_id spec"
    "is_update spec (dict_get (rg_capabilities rg) (cp_name spec)) = Inr update" by simp_all
qed

lemma unregister_capability_tables:
  "(snd (unregister_capability name owner rg) = rg) \<or>
   (\<exists>d. dict_get (rg_capabilities rg) name = Some d \<and> cd_owner_id d = Some owner \<and>
      rg_capabilities (snd (unregister_capability name owner rg)) = dict_pop name (rg_capabilities rg) \<and>
      rg_handlers (snd (unregister_capability name owner rg)) = dict_pop name (rg_handlers rg))"
  by (simp add: unregister_capability_def split: option.splits)

section \<open>Every registry\<close>

lemma registry_ok_step: "registry_ok inspect rg \<Longrightarrow> registry_ok inspect (registry_step inspect rg e)"
proof (cases e)
  case (Resource_Registered now name cat target description version provider attributes overwrite)
  assume "registry_ok inspect rg"
  then show ?thesis by (simp add: Resource_Registered registry_ok_def)
next
  case (Capability_Registered now spec)
  assume inv: "registry_ok inspect rg"
  from register_capability_tables [of inspect spec rg now] show ?thesis
  proof (elim disjE exE conjE)
    fix d update
    assume "check_registration inspect spec rg = Inr (d, update)"
      and caps: "rg_capabilities (snd (register_capability inspect now spec rg)) = dict_set (cp_name spec) d (rg_capabilities rg)"
      and hs: "rg_handlers (snd (register_capability inspect now spec rg)) = dict_set (cp_name spec) (cp_handler spec) (rg_handlers rg)"
    from check_registration_Inr(1) [OF this(1)] inv show ?thesis
      unfolding Capability_Registered registry_step.simps registry_ok_def caps hs by simp
  qed (use inv Capability_Registered in simp)
next
  case (Capability_Unregistered name owner)
  assume inv: "registry_ok inspect rg"
  from unregister_capability_tables [of name owner rg] inv show ?thesis
    unfolding Capability_Unregistered registry_step.simps by (elim disjE exE conjE) (simp_all add: registry_ok_def)
qed

interpretation rgm: invariant_machine "registry_step inspect" "registry_ok inspect" for inspect
  by unfold_locales (rule registry_ok_step)

lemma registry_ok_empty: "registry_ok inspect empty_registry"
  by (simp add: registry_ok_def empty_registry_def)

lemma registry_ok_run: "registry_ok inspect (run (registry_step inspect) empty_registry es)"
  by (rule rgm.inv_run [OF registry_ok_empty])

lemma resolve_never_misses:
  assumes "registry_ok inspect rg"
  shows "resolve_handler name rg \<noteq> Inr None"
  using assms by (auto simp: resolve_handler_def registry_ok_def capability_ok_def dict_has_def)

section \<open>Owners\<close>

definition acts_as :: "string option \<Rightarrow> 'o registry_event \<Rightarrow> bool" where
  "acts_as owner e \<longleftrightarrow>
     (case e of Capability_Registered _ spec \<Rightarrow> cp_owner_id spec = owner | Capability_Unregistered _ o' \<Rightarrow> owner = Some o'
      | _ \<Rightarrow> False)"

lemma owned_step:
  assumes "dict_get (rg_capabilities rg) name = Some d" "owner = cd_owner_id d" "owner = None \<or> \<not> acts_as owner e"
  shows "dict_get (rg_capabilities (registry_step inspect rg e)) name = Some d \<and>
    dict_get (rg_handlers (registry_step inspect rg e)) name = dict_get (rg_handlers rg) name"
proof (cases e)
  case (Resource_Registered now n cat target description version provider attributes overwrite)
  with assms show ?thesis by simp
next
  case (Capability_Registered now spec)
  from register_capability_tables [of inspect spec rg now] show ?thesis
  proof (elim disjE exE conjE)
    fix d' update
    assume checked: "check_registration inspect spec rg = Inr (d', update)"
      and tables: "rg_capabilities (snd (register_capability inspect now spec rg)) = dict_set (cp_name spec) d' (rg_capabilities rg)"
        "rg_handlers (snd (register_capability inspect now spec rg)) = dict_set (cp_name spec) (cp_handler spec) (rg_handlers rg)"
    have "cp_name spec \<noteq> name"
      using is_update_Inr [OF check_registration_Inr(3) [OF checked]] assms
      by (auto simp: acts_as_def Capability_Registered)
    then show ?thesis using assms(1) by (simp add: Capability_Registered tables)
  qed (use assms Capability_Registered in simp)
next
  case (Capability_Unregistered n o')
  from unregister_capability_tables [of n o' rg] show ?thesis
    using assms by (auto simp: Capability_Unregistered acts_as_def)
qed

lemma owned_run:
  assumes "dict_get (rg_capabilities rg) name = Some d" "cd_owner_id d = None \<or> (\<forall>e \<in> set es. \<not> acts_as (cd_owner_id d) e)"
  shows "dict_get (rg_capabilities (run (registry_step inspect) rg es)) name = Some d \<and>
    dict_get (rg_handlers (run (registry_step inspect) rg es)) name = dict_get (rg_handlers rg) name"
  using assms
proof (induction es arbitrary: rg)
  case Nil
  then show ?case by simp
next
  case (Cons e es)
  from owned_step [OF Cons.prems(1) refl, of e inspect] Cons.prems(2)
  have first: "dict_get (rg_capabilities (registry_step inspect rg e)) name = Some d"
    "dict_get (rg_handlers (registry_step inspect rg e)) name = dict_get (rg_handlers rg) name" by auto
  from Cons.IH [OF first(1)] Cons.prems(2) first(2) show ?case by auto
qed

section \<open>Names\<close>

text \<open>The three parts of a name spell it, after the common prefix.\<close>

lemma risk_table_reads_idempotent:
  "list_all (\<lambda>(name, read_only, idempotent). read_only \<longrightarrow> idempotent) CAPABILITY_RISK_CLASSIFICATION"
  by (simp add: CAPABILITY_RISK_CLASSIFICATION_def CAPABILITY_RISK_CLASSIFICATION_A_def CAPABILITY_RISK_CLASSIFICATION_B_def)

lemma exempt_distinct: "distinct BOOTSTRAP_EXEMPT_CAPABILITIES"
  by (simp add: BOOTSTRAP_EXEMPT_CAPABILITIES_def)

end
