(* ===== verification/Dispatch_Correct.thy ===== *)
theory Dispatch_Correct
  imports Dispatch Registry_Correct Idempotency_Correct Access_Correct Token_Correct
begin

text \<open>
  The dispatcher: what a dispatch changes before it reaches a handler, when it reaches one and with
  which identity, what the audit log says of it, and how the idempotency store answers a repetition.
\<close>

section \<open>Frames\<close>

lemma audit_then_frame [simp]:
  "ks_world (audit_then entry event s) = ks_world s" "ks_registry (audit_then entry event s) = ks_registry s"
  "ks_auth (audit_then entry event s) = ks_auth s" "ks_cache (audit_then entry event s) = ks_cache s"
  "ks_idempotency (audit_then entry event s) = ks_idempotency s"
  by (simp_all add: audit_then_def split: prod.split sum.split)

lemma audit_execution_frame [simp]:
  "ks_world (audit_execution dp m req d cx outcome s) = ks_world s"
  "ks_registry (audit_execution dp m req d cx outcome s) = ks_registry s"
  "ks_auth (audit_execution dp m req d cx outcome s) = ks_auth s"
  "ks_idempotency (audit_execution dp m req d cx outcome s) = ks_idempotency s"
  by (simp_all add: audit_execution_def)

lemma with_store_frame [simp]:
  "ks_world (with_store req f s) = ks_world s" "ks_audit (with_store req f s) = ks_audit s"
  "ks_registry (with_store req f s) = ks_registry s"
  by (simp_all add: with_store_def split: option.split)

lemma load_principal_frame: "snd (load_principal t p ty st) = st"
  by (simp add: load_principal_def transaction_def split: sum.split prod.split)
    (auto simp: bind_res_Inr_iff)

lemma check_claims_frame: "snd (check_claims manager now what t sg payload st) = st"
proof -
  obtain r where "load_principal (tk_tenant t) (tk_principal t) (principal_type_value (tk_type t)) st = (r, st)"
    using load_principal_frame by (metis prod.collapse)
  then show ?thesis
    by (simp add: check_claims_def seq_eff_def bind_eff_def lift_res_def raise_error_def split: sum.split option.split)
qed

lemma verify_token_frame [simp]: "snd (verify_token manager now t st) = st"
  using check_claims_frame
  by (simp add: verify_token_def bind_eff_def lift_res_def raise_error_def split: option.split sum.split)

section \<open>Admission\<close>

text \<open>The requirement of authentication and the decision, as the dispatch of a request makes them.\<close>

definition token_of :: "('o, 'm, 'c, 'w) capability_dispatcher \<Rightarrow> dispatch_moment \<Rightarrow> capability_request \<Rightarrow> auth_store \<Rightarrow> security_principal \<Rightarrow> bool" where
  "token_of dp m req st p \<longleftrightarrow>
     (\<exists>manager ready t. dp_security dp = Some (manager, ready) \<and> cr_session_token req = Some t \<and>
        verify_token manager (dm_now m) t st = (Inr p, st))"

definition permitted ::
  "('o, 'm, 'c, 'w) capability_dispatcher \<Rightarrow> dispatch_moment \<Rightarrow> capability_request \<Rightarrow> capability_descriptor \<Rightarrow>
   ('o, 'c, 'w) kernel_state \<Rightarrow> security_principal \<Rightarrow> bool" where
  "permitted dp m req d s p \<longleftrightarrow>
     (\<exists>a. fst (authorize (dp_cache_ops dp) (dm_now m) (if dm_policy_up m then Some (au_grants (ks_auth s)) else None) p
        (requirement_of d) (Some (cr_context req)) (ks_cache s)) = Some a \<and> is_allowed a)"

definition admitted ::
  "('o, 'm, 'c, 'w) capability_dispatcher \<Rightarrow> dispatch_moment \<Rightarrow> capability_request \<Rightarrow> capability_descriptor \<Rightarrow>
   ('o, 'c, 'w) kernel_state \<Rightarrow> security_principal option \<Rightarrow> bool" where
  "admitted dp m req d s caller \<longleftrightarrow>
     (case caller of
        None \<Rightarrow> \<not> cd_requires_authentication d
      | Some p \<Rightarrow> cd_requires_authentication d \<and> token_of dp m req (ks_auth s) p \<and> permitted dp m req d s p)"

text \<open>States that differ in the permission cache and the audit log only.\<close>

definition same_but_log :: "('o, 'c, 'w) kernel_state \<Rightarrow> ('o, 'c, 'w) kernel_state \<Rightarrow> bool" where
  "same_but_log s t \<longleftrightarrow>
     ks_world t = ks_world s \<and> ks_registry t = ks_registry s \<and> ks_auth t = ks_auth s \<and>
     ks_idempotency t = ks_idempotency s"

text \<open>The errors that come before the idempotency gate.\<close>

definition refusal :: "dispatch_error \<Rightarrow> bool" where
  "refusal e \<longleftrightarrow> (case e of ConcurrentExecution _ \<Rightarrow> False | ClaimInterrupted _ \<Rightarrow> False | InvocationFailed _ \<Rightarrow> False | _ \<Rightarrow> True)"

lemma authenticate_caller_result:
  assumes "authenticate_caller dp m req d s = (r, s0)"
  shows "same_but_log s s0 \<and> ks_cache s0 = ks_cache s \<and> (\<forall>e. r = Inl e \<longrightarrow> refusal e)"
  using assms
  by (auto simp: authenticate_caller_def same_but_log_def refusal_def audit_authentication_success_def audit_authentication_failure_def
      split: if_splits option.splits prod.splits sum.splits dest: arg_cong [where f = snd])

lemma authenticate_caller_Inr:
  assumes "authenticate_caller dp m req d s = (Inr caller, s0)"
  shows "case caller of None \<Rightarrow> \<not> cd_requires_authentication d
     | Some p \<Rightarrow> cd_requires_authentication d \<and> token_of dp m req (ks_auth s) p"
proof (cases "cd_requires_authentication d")
  case False
  with assms show ?thesis by (simp add: authenticate_caller_def)
next
  case True
  with assms obtain t manager ready where t: "cr_session_token req = Some t" "dp_security dp = Some (manager, ready)"
    by (auto simp: authenticate_caller_def split: option.splits)
  obtain v st where v: "verify_token manager (dm_now m) t (ks_auth s) = (v, st)" by fastforce
  then have "st = ks_auth s" using verify_token_frame by (metis snd_conv)
  with assms True t v show ?thesis
    by (auto simp: authenticate_caller_def token_of_def split: sum.splits)
qed

lemma authorize_caller_result:
  assumes "authorize_caller dp m req d caller s = (r, s0)"
  shows "same_but_log s s0 \<and> (\<forall>e. r = Inl e \<longrightarrow> refusal e)"
  using assms
  by (auto simp: refusal_def authorize_caller_def security_authorize_def bind_eff_def ret_def raise_error_def same_but_log_def
      split: option.splits prod.splits sum.splits if_splits)

lemma authorize_caller_Inr:
  assumes "authorize_caller dp m req d (Some p) s = (Inr (), s0)"
  shows "permitted dp m req d s p"
  using assms
  by (auto simp: authorize_caller_def security_authorize_def bind_eff_def ret_def raise_error_def permitted_def
      split: option.splits prod.splits sum.splits if_splits)

lemma permitted_cong:
  "ks_auth t = ks_auth s \<Longrightarrow> ks_cache t = ks_cache s \<Longrightarrow> permitted dp m req d t p = permitted dp m req d s p"
  by (simp add: permitted_def)

lemma same_but_log_trans: "same_but_log s t \<Longrightarrow> same_but_log t u \<Longrightarrow> same_but_log s u"
  by (simp add: same_but_log_def)

text \<open>A dispatch ends before the handler, or its caller is admitted.\<close>

lemma dispatch_cases:
  assumes "dispatch dp m req s = (r, s')"
  obtains (refused) e where "r = Inl e" "same_but_log s s'" "refusal e"
  | (admitted) d caller s1 where "get_capability (cr_capability_name req) (ks_registry s) = Inr d"
      "admitted dp m req d s caller" "same_but_log s s1"
      "idempotent_execution dp m req d (context_of dp req caller) s1 = (r, s')"
proof (cases "get_capability (cr_capability_name req) (ks_registry s)")
  case (Inl e)
  with assms have "r = Inl (UnknownCapability e)" "same_but_log s s'" by (auto simp: dispatch_def same_but_log_def)
  then show ?thesis by (rule refused) (simp add: refusal_def)
next
  case (Inr d)
  obtain ra s0 where a: "authenticate_caller dp m req d s = (ra, s0)" by fastforce
  from authenticate_caller_result [OF a] have s0: "same_but_log s s0" "ks_cache s0 = ks_cache s"
    and ra: "\<And>e. ra = Inl e \<Longrightarrow> refusal e" by simp_all
  show ?thesis
  proof (cases ra)
    case (Inl e)
    with assms Inr a have "r = Inl e" "s' = s0" by (simp_all add: dispatch_def bind_eff_def)
    with s0 ra Inl show ?thesis using refused by blast
  next
    case caller: (Inr caller)
    obtain rb s1 where b: "authorize_caller dp m req d caller s0 = (rb, s1)" by fastforce
    have s1: "same_but_log s s1" and rb: "\<And>e. rb = Inl e \<Longrightarrow> refusal e"
      using authorize_caller_result [OF b] same_but_log_trans [OF s0(1)] by blast+
    show ?thesis
    proof (cases rb)
      case (Inl e)
      with assms Inr a caller b have "r = Inl e" "s' = s1" by (simp_all add: dispatch_def bind_eff_def seq_eff_def)
      with s1 rb Inl show ?thesis using refused by blast
    next
      case (Inr u)
      have "permitted dp m req d s p" if "caller = Some p" for p
        using authorize_caller_Inr [of dp m req d p s0 s1] b that Inr permitted_cong [of s0 s dp m req d p] s0
        by (simp add: same_but_log_def)
      with authenticate_caller_Inr [of dp m req d s caller s0] a caller have "admitted dp m req d s caller"
        by (auto simp: admitted_def split: option.splits)
      moreover from assms a b caller Inr \<open>get_capability _ _ = Inr d\<close>
      have "idempotent_execution dp m req d (context_of dp req caller) s1 = (r, s')"
        by (simp add: dispatch_def bind_eff_def seq_eff_def)
      ultimately show ?thesis using \<open>get_capability _ _ = Inr d\<close> s1 admitted by blast
    qed
  qed
qed

section \<open>The audit log of a decision\<close>

definition log_ready :: "dispatch_moment \<Rightarrow> audit_log \<Rightarrow> bool" where
  "log_ready m at \<longleftrightarrow> at_up at \<and> distinct (map (dm_audit_id m) [0, 1, 2]) \<and>
     dm_audit_id m ` {0, 1, 2} \<inter> ue_audit_id ` set (at_rows at) = {}"

lemma audit_then_rows:
  assumes "\<not> empty_text (ue_tenant_id e)" "\<not> empty_text (ue_action e)" "\<not> empty_text (ue_actor_id e)"
    "at_up (ks_audit s)" "ue_audit_id e \<notin> ue_audit_id ` set (at_rows (ks_audit s))"
  shows "at_rows (ks_audit (audit_then e event s)) = at_rows (ks_audit s) @ [e] \<and> at_up (ks_audit (audit_then e event s))"
proof -
  obtain y at where y: "record_event e (ks_audit s) = (y, at)" by fastforce
  with assms obtain x where "y = Inr x"
    using record_event_Inr [of e "ks_audit s"] by (cases y) auto
  with y record_event_rows [of e "ks_audit s"] record_event_flags(1) [of e "ks_audit s"] assms(4) show ?thesis
    by (simp add: audit_then_def)
qed

lemma nonempty_authenticate [simp]: "\<not> empty_text ''kortex.kernel.dispatch.authenticate''"
  by (simp add: empty_text_def strip_def is_space_def)

lemma decision_recorded:
  assumes "dispatch dp m req s = (Inl (AuthorizationRefused why), s')" "log_ready m (ks_audit s)"
    and "\<not> empty_text (cr_capability_name req)" "registry_ok inspect (ks_registry s)"
    and named: "\<And>p. token_of dp m req (ks_auth s) p \<Longrightarrow> \<not> empty_text (sp_principal_id p) \<and> \<not> empty_text (sp_tenant_id p)"
  shows "\<exists>p e0 e1. token_of dp m req (ks_auth s) p \<and> at_rows (ks_audit s') = at_rows (ks_audit s) @ [e0, e1] \<and>
    ue_action e1 = cr_capability_name req \<and> ue_actor_id e1 = sp_principal_id p \<and> ue_tenant_id e1 = sp_tenant_id p \<and>
    dict_get (ue_context e1) ''is_allowed'' = Some (PBool False)"
proof -
  have late: "fst (idempotent_execution dp m req d cx s2) \<noteq> Inl (AuthorizationRefused why)" for d cx s2
    by (auto simp: idempotent_execution_def execute_capability_def split: option.splits prod.splits sum.splits claim_result.splits)
  from assms(1) obtain d where d: "get_capability (cr_capability_name req) (ks_registry s) = Inr d"
    by (auto simp: dispatch_def split: sum.splits)
  then have name: "cd_name d = cr_capability_name req"
    using assms(4) by (auto simp: get_capability_def registry_ok_def capability_ok_def split: option.splits)
  obtain ra s0 where a: "authenticate_caller dp m req d s = (ra, s0)" by fastforce
  have early: "ra \<noteq> Inl (AuthorizationRefused why)"
    using a by (auto simp: authenticate_caller_def split: if_splits option.splits prod.splits sum.splits)
  from assms(1) d a early obtain caller where caller: "ra = Inr caller"
    by (cases ra) (simp_all add: dispatch_def bind_eff_def)
  obtain rb s1 where b: "authorize_caller dp m req d caller s0 = (rb, s1)" by fastforce
  have "rb = Inl (AuthorizationRefused why) \<and> s' = s1"
    using assms(1) d a caller b late [of d "context_of dp req caller" s1]
    by (cases rb) (auto simp: dispatch_def bind_eff_def seq_eff_def)
  with b obtain p where p: "caller = Some p" and rb: "rb = Inl (AuthorizationRefused why)" "s' = s1"
    by (cases caller) (auto simp: authorize_caller_def ret_def)
  from authenticate_caller_Inr [OF a [unfolded caller]] p have token: "cd_requires_authentication d" "token_of dp m req (ks_auth s) p"
    by simp_all
  let ?e0 = "plain_entry (dm_audit_id m 0) (dm_now m) ''kortex.kernel.dispatch.authenticate'' (sp_principal_id p)
    (actor_type_for_principal_type (sp_principal_type p)) (sp_tenant_id p) [(''result'', PStr ''success'')]"
  from a caller p token have "s0 = audit_authentication_success m p s"
    by (auto simp: authenticate_caller_def token_of_def split: option.splits prod.splits sum.splits)
  then have s0: "at_rows (ks_audit s0) = at_rows (ks_audit s) @ [?e0] \<and> at_up (ks_audit s0)"
    unfolding audit_authentication_success_def
    using audit_then_rows [of ?e0 s] named [OF token(2)] assms(2)
    by (simp add: plain_entry_def log_ready_def)
  from b p rb obtain ac c where decided: "\<not> is_allowed ac"
    and s1: "s1 = s0\<lparr>ks_cache := c, ks_audit := publish_security_event (access_event p (cd_name d) ac)
       (snd (record_event (plain_entry (dm_audit_id m 1) (dm_now m) (cd_name d) (sp_principal_id p)
          (actor_type_for_principal_type (sp_principal_type p)) (sp_tenant_id p)
          [(''decision_code'', PStr (decision_code ac)), (''is_allowed'', PBool (is_allowed ac))]) (ks_audit s0)))\<rparr>"
    by (auto simp: authorize_caller_def security_authorize_def bind_eff_def ret_def raise_error_def requirement_of_def
        split: option.splits prod.splits sum.splits if_splits)
  let ?e1 = "plain_entry (dm_audit_id m 1) (dm_now m) (cd_name d) (sp_principal_id p)
    (actor_type_for_principal_type (sp_principal_type p)) (sp_tenant_id p)
    [(''decision_code'', PStr (decision_code ac)), (''is_allowed'', PBool (is_allowed ac))]"
  have "\<not> isl (fst (record_event ?e1 (ks_audit s0)))"
    unfolding record_event_Inr using s0 named [OF token(2)] assms(2, 3) name
    by (auto simp: plain_entry_def log_ready_def)
  then obtain x where "fst (record_event ?e1 (ks_audit s0)) = Inr x"
    by (cases "fst (record_event ?e1 (ks_audit s0))") auto
  then have "at_rows (ks_audit s1) = at_rows (ks_audit s) @ [?e0, ?e1]"
    using s0 by (simp add: s1 record_event_rows)
  then show ?thesis using token(2) name rb(2) decided
    by (intro exI [of _ p] exI [of _ ?e0] exI [of _ ?e1]) (simp add: plain_entry_def)
qed

section \<open>Identity\<close>

text \<open>Every identity among the arguments of a handler is that of the dispatch.\<close>

definition carries_identity :: "capability_descriptor \<Rightarrow> capability_context \<Rightarrow> (string, call_arg) dict \<Rightarrow> bool" where
  "carries_identity d cx kwargs \<longleftrightarrow>
     (\<forall>k cx'. dict_get kwargs k = Some (ArgContext cx') \<longrightarrow> k = ''execution_context'' \<and> cx' = cx) \<and>
     (\<forall>k p. dict_get kwargs k = Some (ArgPrincipal p) \<longrightarrow> k = ''principal'' \<and> p = cx_principal cx) \<and>
     (cd_requires_execution_context d \<longrightarrow> dict_get kwargs ''execution_context'' = Some (ArgContext cx)) \<and>
     (cd_legacy_principal_bridge d \<longrightarrow> dict_get kwargs ''principal'' = Some (ArgPrincipal (cx_principal cx)))"

lemma map_of_values: "map_of (map (\<lambda>(k, v). (k, f v)) xs) k = map_option f (map_of xs k)"
  by (induction xs) auto

lemma injected_identity: "carries_identity d cx (injected_arguments req d cx)"
  by (simp add: carries_identity_def injected_arguments_def Let_def map_of_values)

lemma coerce_value_identity:
  assumes "coerce_value validate target v = Inr w"
  shows "(\<exists>x. v = ArgValue x) \<and> (\<exists>y. w = ArgValue y) \<or> (\<forall>x. v \<noteq> ArgValue x) \<and> w = v"
  using assms
  by (cases target; cases "snd target"; cases v)
    (auto simp: coerce_value_def bind_res_Inr_iff split: pyval.splits)

lemma carries_identity_set:
  assumes "carries_identity d cx kwargs" "dict_get kwargs k = Some v"
    "(\<exists>x. v = ArgValue x) \<and> (\<exists>y. w = ArgValue y) \<or> (\<forall>x. v \<noteq> ArgValue x) \<and> w = v"
  shows "carries_identity d cx (dict_set k w kwargs)"
  using assms(3)
proof
  assume "(\<forall>x. v \<noteq> ArgValue x) \<and> w = v"
  then have "dict_get (dict_set k w kwargs) = dict_get kwargs" by (intro ext) (simp add: assms(2))
  with assms(1) show ?thesis unfolding carries_identity_def by simp
next
  assume "(\<exists>x. v = ArgValue x) \<and> (\<exists>y. w = ArgValue y)"
  then obtain x y where xy: "v = ArgValue x" "w = ArgValue y" by blast
  have "dict_get (dict_set k w kwargs) k' = Some z \<longleftrightarrow> dict_get kwargs k' = Some z" if "\<And>u. z \<noteq> ArgValue u" for k' z
    using that [of x] that [of y] assms(2) xy by auto
  with assms(1) show ?thesis unfolding carries_identity_def by simp
qed

lemma coerce_each_identity:
  assumes "coerce_each validate params kwargs = Inr kwargs'" "carries_identity d cx kwargs"
  shows "carries_identity d cx kwargs'"
  using assms
proof (induction validate params kwargs rule: coerce_each.induct)
  case (1 validate kwargs)
  then show ?case by simp
next
  case (2 validate name ann params kwargs)
  show ?case
  proof (cases "dict_get kwargs name = None \<or> Option.bind ann resolve_model_target = None \<or> name = ''principal''")
    case True
    with 2 show ?thesis by (auto split: option.splits)
  next
    case False
    then obtain v target where v: "dict_get kwargs name = Some v" "Option.bind ann resolve_model_target = Some target"
      and other: "name \<noteq> ''principal''" by auto
    with "2.prems"(1) obtain w where w: "coerce_value validate target v = Inr w"
      and rest: "coerce_each validate params (dict_set name w kwargs) = Inr kwargs'"
      by (auto simp: bind_res_Inr_iff)
    from carries_identity_set [OF "2.prems"(2) v(1) coerce_value_identity [OF w]]
    have "carries_identity d cx (dict_set name w kwargs)" .
    from "2.IH"(4) [OF _ refl refl other rest this] v show ?thesis by simp
  qed
qed

section \<open>The handler\<close>

definition registered_handler :: "capability_request \<Rightarrow> ('o, 'c, 'w) kernel_state \<Rightarrow> 'o \<Rightarrow> bool" where
  "registered_handler req s h \<longleftrightarrow> dict_get (rg_handlers (ks_registry s)) (cr_capability_name req) = Some (Some h)"

text \<open>A state is reached by the handler's call alone.\<close>

lemma invoke_handler_cases:
  assumes "invoke_handler dp req d cx s = (r, s')"
  obtains (none) e where "r = Inl e" "s' = s" "\<And>c msg. e \<noteq> HandlerRaised c msg"
  | (called) h kwargs where "registered_handler req s h" "offending_keys req = []" "carries_identity d cx kwargs"
      "s' = snd (dp_call dp h kwargs s)" "r = (case fst (dp_call dp h kwargs s) of Inl (c, msg) \<Rightarrow> Inl (HandlerRaised c msg) | Inr v \<Rightarrow> Inr v)"
proof -
  consider (lookup) e where "resolve_handler (cr_capability_name req) (ks_registry s) = Inl e"
    | (entry) "resolve_handler (cr_capability_name req) (ks_registry s) = Inr None"
    | (bare) "resolve_handler (cr_capability_name req) (ks_registry s) = Inr (Some None)"
    | (some) h where "resolve_handler (cr_capability_name req) (ks_registry s) = Inr (Some (Some h))"
    by (metis (no_types) not_Some_eq sum.exhaust)
  then show ?thesis
  proof cases
    case some
    then have reg: "registered_handler req s h"
      by (simp add: resolve_handler_def registered_handler_def split: if_splits)
    consider (reserved) "offending_keys req \<noteq> []"
      | (invalid) msg where "offending_keys req = []" "coerce_model_parameters dp h (injected_arguments req d cx) = Inl msg"
      | (valid) kwargs where "offending_keys req = []" "coerce_model_parameters dp h (injected_arguments req d cx) = Inr kwargs"
      by (metis sum.exhaust)
    then show ?thesis
    proof cases
      case valid
      from valid(2) injected_identity have "carries_identity d cx kwargs"
        by (auto simp: coerce_model_parameters_def intro: coerce_each_identity split: option.splits)
      moreover obtain x s1 where x: "dp_call dp h kwargs s = (x, s1)" by fastforce
      ultimately show ?thesis using assms some valid called [OF reg valid(1)]
        by (cases x) (auto simp: invoke_handler_def)
    qed (use assms some none in \<open>auto simp: invoke_handler_def\<close>)
  qed (use assms none in \<open>auto simp: invoke_handler_def\<close>)
qed

lemma execute_capability_world:
  assumes "execute_capability dp m req d cx s = (r, s')" "ks_world s' \<noteq> ks_world s"
  shows "\<exists>h kwargs. registered_handler req s h \<and> offending_keys req = [] \<and> carries_identity d cx kwargs \<and>
    ks_world s' = ks_world (snd (dp_call dp h kwargs s))"
proof -
  obtain x s1 where x: "invoke_handler dp req d cx s = (x, s1)" by fastforce
  with assms(1) have world: "ks_world s' = ks_world s1"
    by (auto simp: execute_capability_def split: sum.splits)
  from x show ?thesis
  proof (cases rule: invoke_handler_cases)
    case none
    with assms(2) world show ?thesis by simp
  next
    case called
    with world show ?thesis by blast
  qed
qed

lemma idempotent_execution_cases:
  assumes "idempotent_execution dp m req d cx s = (r, s')"
  obtains (stopped) st where "s' = s\<lparr>ks_idempotency := st\<rparr>"
  | (executed) st where "execute_capability dp m req d cx (s\<lparr>ks_idempotency := st\<rparr>) = (r, s')"
proof (cases "effective_key req = None \<or> ks_idempotency s = None")
  case True
  with assms have "execute_capability dp m req d cx (s\<lparr>ks_idempotency := ks_idempotency s\<rparr>) = (r, s')"
    by (auto simp: idempotent_execution_def split: option.splits)
  then show ?thesis by (rule executed)
next
  case False
  then obtain k st where k: "effective_key req = Some k" "ks_idempotency s = Some st" by auto
  obtain c v st' where c: "claim_for m req (cx_tenant_id cx) k st = (c, v, st')" by (metis prod_cases3)
  show ?thesis
  proof (cases "dm_interrupt m")
    case None
    with assms k c show ?thesis
      by (cases c) (auto simp: idempotent_execution_def intro: stopped executed)
  next
    case (Some i)
    with assms k show ?thesis by (auto simp: idempotent_execution_def intro: stopped split: prod.splits)
  qed
qed

text \<open>The world changes through the registered handler of an admitted request only.\<close>

lemma world_changes:
  assumes "dispatch dp m req s = (r, s')" "ks_world s' \<noteq> ks_world s"
  shows "\<exists>d caller h kwargs s1. get_capability (cr_capability_name req) (ks_registry s) = Inr d \<and>
     admitted dp m req d s caller \<and> registered_handler req s h \<and> offending_keys req = [] \<and>
     carries_identity d (context_of dp req caller) kwargs \<and> ks_world s1 = ks_world s \<and>
     ks_world s' = ks_world (snd (dp_call dp h kwargs s1))"
  using assms(1)
proof (cases rule: dispatch_cases)
  case (refused e)
  with assms(2) show ?thesis by (simp add: same_but_log_def)
next
  case (admitted d caller s1)
  from admitted(4) show ?thesis
  proof (cases rule: idempotent_execution_cases)
    case (stopped st)
    with assms(2) admitted(3) show ?thesis by (simp add: same_but_log_def)
  next
    case (executed st)
    let ?s = "s1\<lparr>ks_idempotency := st\<rparr>"
    have "ks_world s' \<noteq> ks_world ?s" using assms(2) admitted(3) by (simp add: same_but_log_def)
    from execute_capability_world [OF executed this] obtain h kwargs where "registered_handler req ?s h"
      "offending_keys req = []" "carries_identity d (context_of dp req caller) kwargs"
      "ks_world s' = ks_world (snd (dp_call dp h kwargs ?s))" by blast
    moreover have "registered_handler req s h" "ks_world ?s = ks_world s"
      using calculation(1) admitted(3) by (simp_all add: registered_handler_def same_but_log_def)
    ultimately show ?thesis using admitted(1, 2) by blast
  qed
qed

section \<open>Idempotency\<close>

lemma execute_capability_store:
  assumes "execute_capability dp m req d cx s = (r, s')" "effective_key req = Some k" "ks_idempotency s = Some st"
    and still: "\<And>h kwargs u. ks_idempotency (snd (dp_call dp h kwargs u)) = ks_idempotency u"
  shows "ks_idempotency s' = Some (case r of
     Inr v \<Rightarrow> record_completed (dm_done m) (cx_tenant_id cx) k v st
   | Inl e \<Rightarrow> (case e of InvocationFailed x \<Rightarrow> record_failed (dm_done m) (cx_tenant_id cx) k (dp_message dp x) st | _ \<Rightarrow> st)) \<and>
   (\<forall>e. r = Inl e \<longrightarrow> (\<exists>x. e = InvocationFailed x))"
proof -
  obtain x s1 where x: "invoke_handler dp req d cx s = (x, s1)" by fastforce
  then have "ks_idempotency s1 = Some st"
    by (cases rule: invoke_handler_cases) (simp_all add: assms(3) still)
  with x assms(1, 2) show ?thesis
    by (cases x) (auto simp: execute_capability_def with_store_def)
qed

lemma run_one: "idempotency_step s t \<Longrightarrow> idempotency_run s t"
  by (rule idempotency_run.more [OF idempotency_run.start])

text \<open>What a dispatch does to the store is a run of the claims' step relation.\<close>

lemma idempotent_execution_run:
  assumes exec: "idempotent_execution dp m req d cx s = (r, s')"
    and key: "effective_key req = Some k" "ks_idempotency s = Some (iw_store w)"
    and allowed: "claim_allowed (dm_now m) (dm_record_id m) (cx_tenant_id cx) k (cr_request_id req)
      (get_record (cx_tenant_id cx) k (iw_store w)) w"
    and still: "\<And>h kwargs u. ks_idempotency (snd (dp_call dp h kwargs u)) = ks_idempotency u"
  shows "\<exists>w'. idempotency_run w w' \<and> ks_idempotency s' = Some (iw_store w') \<and> iw_workers w' = iw_workers w \<and>
    (\<forall>v. r = Inr v \<longrightarrow> ((cx_tenant_id cx, k), sanitize_for_persistence v) \<in> set (iw_done w') \<or>
       fst (claim_for m req (cx_tenant_id cx) k (iw_store w)) = COMPLETED_BEFORE)"
proof -
  let ?t = "cx_tenant_id cx"
  obtain c v st where c: "claim_for m req ?t k (iw_store w) = (c, v, st)" by (metis prod_cases3)
  note reading = c [unfolded claim_for_def claim_or_get_execution_def]
  show ?thesis
  proof (cases "dm_interrupt m")
    case (Some i)
    obtain committed msg where i: "i = (committed, msg)" by (cases i)
    let ?w1 = "if committed then w\<lparr>iw_store := st\<rparr> else w"
    have first: "idempotency_run w ?w1"
      using run_one [OF loses_claim [OF allowed reading]] by (simp add: idempotency_run.start)
    have "plain_tenant ?t" "cr_request_id req \<notin> mw_request ` set (iw_workers ?w1)"
      using allowed by (simp_all add: claim_allowed_def)
    from idempotency_run.more [OF first releases [OF this, where now = "dm_done m" and key = k and err = msg]]
    have run: "idempotency_run w (?w1\<lparr>iw_store := interrupted_claim m req ?t k committed msg (iw_store w)\<rparr>)"
      by (cases committed) (simp_all add: interrupted_claim_def c)
    from exec key Some i have "ks_idempotency s' = Some (interrupted_claim m req ?t k committed msg (iw_store w))"
      and "\<exists>e. r = Inl e"
      by (auto simp: idempotent_execution_def)
    with run show ?thesis by (intro exI conjI) (assumption, auto)
  next
    case None
    let ?w1 = "w\<lparr>iw_store := st, iw_workers := (if c = CLAIMED
       then iw_workers w @ [\<lparr>mw_key = (?t, k), mw_request = cr_request_id req\<rparr>] else iw_workers w)\<rparr>"
    have first: "idempotency_step w ?w1" by (rule claims [OF allowed reading])
    show ?thesis
    proof (cases "c = CLAIMED")
      case False
      with exec key None c have "ks_idempotency s' = Some st" "r = Inl (ConcurrentExecution k) \<or> c = COMPLETED_BEFORE"
        by (cases c; auto simp: idempotent_execution_def)+
      with run_one [OF first] False c show ?thesis by (intro exI conjI) (assumption, auto)
    next
      case True
      from exec key None c True have ran: "execute_capability dp m req d cx (s\<lparr>ks_idempotency := Some st\<rparr>) = (r, s')"
        by (simp add: idempotent_execution_def)
      from execute_capability_store [OF this key(1) _ still] have store: "ks_idempotency s' = Some (case r of
           Inr v \<Rightarrow> record_completed (dm_done m) ?t k v st
         | Inl e \<Rightarrow> (case e of InvocationFailed x \<Rightarrow> record_failed (dm_done m) ?t k (dp_message dp x) st | _ \<Rightarrow> st))"
        and failed: "\<And>e. r = Inl e \<Longrightarrow> \<exists>x. e = InvocationFailed x" by auto
      have workers: "iw_workers ?w1 = iw_workers w @ \<lparr>mw_key = (?t, k), mw_request = cr_request_id req\<rparr> # []"
        by (simp add: True)
      show ?thesis
      proof (cases r)
        case (Inl e)
        with failed obtain x where x: "e = InvocationFailed x" by blast
        from idempotency_run.more [OF run_one [OF first] fails [OF workers, where now = "dm_done m" and err = "dp_message dp x"]] store Inl x
        show ?thesis by (intro exI conjI) (assumption, simp_all)
      next
        case (Inr u)
        from idempotency_run.more [OF run_one [OF first] completes [OF workers, where now = "dm_done m" and response = u]] store Inr
        show ?thesis by (intro exI conjI) (assumption, simp_all)
      qed
    qed
  qed
qed

end
