(* ===== verification/Projection.thy ===== *)
theory Projection
  imports Dispatch
begin

text \<open>
  The capabilities a tenant may see (\<open>core/projection.py\<close>): those of the registry that the security
  engine would authorize for the principal's own tenant.  The permission cache is threaded through.
\<close>

datatype caller_identity = FromContext capability_context | FromPrincipal security_principal | NoIdentity

definition extract_principal :: "caller_identity \<Rightarrow> security_principal option" where
  "extract_principal who =
     (case who of FromContext cx \<Rightarrow> cx_principal cx | FromPrincipal p \<Rightarrow> Some p | NoIdentity \<Rightarrow> None)"

text \<open>\<open>pj_available\<close>: a security engine that is ready was found.\<close>

record 'c projection =
  pj_available :: bool
  pj_cache_ops :: "'c cache_ops option"

definition is_authorized ::
  "'c projection \<Rightarrow> instant \<Rightarrow> grants option \<Rightarrow> capability_descriptor \<Rightarrow> security_principal option \<Rightarrow> 'c \<Rightarrow> bool \<times> 'c" where
  "is_authorized pj now rows d who c =
     (if \<not> cd_requires_authentication d then (True, c)
      else (case who of
              None \<Rightarrow> (False, c)
            | Some p \<Rightarrow>
                if \<not> pj_available pj then (False, c)
                else (case authorize (pj_cache_ops pj) now rows p (requirement_of d)
                          (Some [(''resource_tenant_id'', PStr (sp_tenant_id p))]) c of
                        (None, c') \<Rightarrow> (False, c')
                      | (Some a, c') \<Rightarrow> (is_allowed a, c'))))"

fun project_each ::
  "'c projection \<Rightarrow> instant \<Rightarrow> grants option \<Rightarrow> security_principal option \<Rightarrow> capability_descriptor list \<Rightarrow> 'c \<Rightarrow>
   capability_descriptor list \<times> 'c" where
  "project_each pj now rows who [] c = ([], c)"
| "project_each pj now rows who (d # ds) c =
     (case is_authorized pj now rows d who c of
        (visible, c') \<Rightarrow>
          (case project_each pj now rows who ds c' of
             (rest, c'') \<Rightarrow> (if visible then d # rest else rest, c'')))"

definition project_capabilities ::
  "'c projection \<Rightarrow> instant \<Rightarrow> grants option \<Rightarrow> caller_identity \<Rightarrow> capability_filter \<Rightarrow> 'o registry \<Rightarrow> 'c \<Rightarrow>
   capability_descriptor list \<times> 'c" where
  "project_capabilities pj now rows who q rg = project_each pj now rows (extract_principal who) (search_capabilities q rg)"

text \<open>A capability that is not visible is reported like one that does not exist.\<close>

definition get_projected_capability ::
  "'c projection \<Rightarrow> instant \<Rightarrow> grants option \<Rightarrow> string \<Rightarrow> caller_identity \<Rightarrow> 'o registry \<Rightarrow> 'c \<Rightarrow>
   (registry_error + capability_descriptor) \<times> 'c" where
  "get_projected_capability pj now rows name who rg c =
     (case get_capability name rg of
        Inl _ \<Rightarrow> (Inl (CapabilityNotFound name), c)
      | Inr d \<Rightarrow>
          (case is_authorized pj now rows d (extract_principal who) c of
             (visible, c') \<Rightarrow> (if visible then Inr d else Inl (CapabilityNotFound name), c')))"

section \<open>Without a cache\<close>

definition visible_to :: "grants \<Rightarrow> security_principal option \<Rightarrow> capability_descriptor \<Rightarrow> bool" where
  "visible_to rows who d \<longleftrightarrow>
     cd_requires_authentication d \<longrightarrow>
       (\<exists>p. who = Some p \<and> (\<exists>a. fst (authorize (None :: unit cache_ops option) 0 (Some rows) p (requirement_of d)
          (Some [(''resource_tenant_id'', PStr (sp_tenant_id p))]) ()) = Some a \<and> is_allowed a))"

end
