(* ===== verification/Dispatch_Properties.thy ===== *)
theory Dispatch_Properties
  imports Dispatch_Correct Projection Auth_Properties Kernel_Properties
begin

text \<open>
  What the registry and the dispatcher promise together with the authentication manager, the
  authorization engine and the idempotency store, and where they do not.
\<close>

section \<open>Decisions without a cache\<close>

definition holds_grants :: "grants \<Rightarrow> security_principal \<Rightarrow> capability_descriptor \<Rightarrow> bool" where
  "holds_grants rows p d \<longleftrightarrow>
     (\<forall>x \<in> set (pr_required_permissions (requirement_of d)). \<exists>role \<in> set (sp_roles p). (role, x) \<in> set rows) \<and>
     classification_rank (pr_security_classification (requirement_of d)) \<le>
       clearance_rank (dict_get (sp_attributes p) ''clearance_level'')"

lemma attributes_allow_own:
  "dict_get ctx ''resource_tenant_id'' = Some (PStr (sp_tenant_id p)) \<Longrightarrow>
     attributes_allow p r (Some ctx) \<longleftrightarrow>
       classification_rank (pr_security_classification r) \<le> clearance_rank (dict_get (sp_attributes p) ''clearance_level'')"
  by (simp add: attributes_allow_def)

lemma authorize_own_tenant:
  assumes "dict_get ctx ''resource_tenant_id'' = Some (PStr (sp_tenant_id p))"
  shows "\<exists>a. authorize None now (Some rows) p (requirement_of d) (Some ctx) c = (Some a, c) \<and>
     (is_allowed a \<longleftrightarrow> holds_grants rows p d)"
  using authorize_no_cache [of now rows p "requirement_of d" "Some ctx" c]
  by (simp add: attributes_allow_own [OF assms] holds_grants_def)



section \<open>A kernel\<close>

definition demo_spec :: "string capability_spec" where
  "demo_spec = \<lparr>cp_name = ''kortex.finance.invoice.create'', cp_description = [], cp_provider = ''finance'',
     cp_handler = Some ''create_invoice'', cp_required_permissions = Some [''invoice:write''],
     cp_requires_authentication = True, cp_security_classification = ''PUBLIC'', cp_requires_execution_context = True,
     cp_legacy_principal_bridge = False, cp_is_read_only = None, cp_is_idempotent = None, cp_owner_id = Some ''finance''\<rparr>"

definition demo_inspect :: "string \<Rightarrow> parameters option" where
  "demo_inspect h = Some [(''execution_context'', False), (''amount'', False)]"

definition demo_registry :: "string registry" where
  "demo_registry = run (registry_step demo_inspect) empty_registry [Capability_Registered 0 demo_spec]"

text \<open>The handler counts its calls.\<close>

definition demo_dispatcher :: "(string, unit, unit, nat) capability_dispatcher" where
  "demo_dispatcher = \<lparr>dp_security = Some (strict, True), dp_cache_ops = None, dp_signature = (\<lambda>_. None),
     dp_validate = (\<lambda>_ d. Inr (PModel d)), dp_call = (\<lambda>h kwargs s. (Inr (PStr ''paid''), s\<lparr>ks_world := Suc (ks_world s)\<rparr>)),
     dp_hash = (\<lambda>_. None), dp_message = (\<lambda>_. []), dp_floats = int_float_ops\<rparr>"

definition demo_moment :: dispatch_moment where
  "demo_moment = \<lparr>dm_now = 5, dm_done = 6, dm_duration = 0, dm_record_id = ''i1'', dm_audit_id = (\<lambda>n. replicate (Suc n) CHR ''a''),
     dm_policy_up = True, dm_interrupt = None\<rparr>"

definition demo_request :: capability_request where
  "demo_request = \<lparr>cr_request_id = ''r1'', cr_correlation_id = ''c1'', cr_idempotency_key = Some ''k1'',
     cr_capability_name = ''kortex.finance.invoice.create'', cr_session_token = Some demo_token,
     cr_parameters = [(''amount'', PInt 3)], cr_context = [(''resource_tenant_id'', PStr ''acme'')]\<rparr>"

definition demo_kernel :: "(string \<times> string) list \<Rightarrow> idempotency_store option \<Rightarrow> (string, unit, nat) kernel_state" where
  "demo_kernel rows st = \<lparr>ks_registry = demo_registry, ks_auth = demo_accounts\<lparr>au_grants := rows\<rparr>, ks_cache = (),
     ks_idempotency = st, ks_audit = \<lparr>at_rows = [], at_events = [], at_up = True, at_bus = True\<rparr>, ks_world = 0\<rparr>"

definition demo_descriptor :: capability_descriptor where
  "demo_descriptor = descriptor_of demo_spec True False"

lemma demo_capability:
  "rg_capabilities demo_registry = [(''kortex.finance.invoice.create'', demo_descriptor)]"
  "rg_handlers demo_registry = [(''kortex.finance.invoice.create'', Some ''create_invoice'')]"
proof -
  have "check_registration demo_inspect demo_spec empty_registry = Inr (demo_descriptor, False)"
    by (simp add: check_registration_def is_update_def empty_registry_def demo_inspect_def demo_spec_def wants_def
        validate_execution_context_binding_def demo_descriptor_def Let_def)
  with register_capability_tables [of demo_inspect demo_spec empty_registry 0]
  show "rg_capabilities demo_registry = [(''kortex.finance.invoice.create'', demo_descriptor)]"
    "rg_handlers demo_registry = [(''kortex.finance.invoice.create'', Some ''create_invoice'')]"
    by (simp_all add: demo_registry_def) (simp_all add: empty_registry_def demo_spec_def)
qed

lemma demo_descriptor_fields [simp]:
  "cd_requires_authentication demo_descriptor" "cd_requires_execution_context demo_descriptor"
  "\<not> cd_legacy_principal_bridge demo_descriptor" "cd_name demo_descriptor = ''kortex.finance.invoice.create''"
  "cd_owner_id demo_descriptor = Some ''finance''"
  "requirement_of demo_descriptor = \<lparr>pr_capability_name = ''kortex.finance.invoice.create'',
     pr_required_permissions = [''invoice:write''], pr_security_classification = CL_PUBLIC\<rparr>"
  by (simp_all add: demo_descriptor_def demo_spec_def requirement_of_def descriptor_of_def safe_classification_def
      parse_classification_def)

definition demo_grants_of_admin :: "(string \<times> string) list" where
  "demo_grants_of_admin = [(''admin'', ''invoice:write'')]"

lemma demo_verify: "verify_token strict 5 demo_token (demo_accounts\<lparr>au_grants := rows\<rparr>) =
    (Inr demo_admin_principal, demo_accounts\<lparr>au_grants := rows\<rparr>)"
  by (rule demo_token_accepted) (simp add: demo_accounts_def)

text \<open>The administrator is authenticated; the grants decide.\<close>

lemma demo_authenticated:
  "\<exists>s1. authenticate_caller demo_dispatcher demo_moment demo_request demo_descriptor (demo_kernel rows st) =
     (Inr (Some demo_admin_principal), s1) \<and> ks_auth s1 = demo_accounts\<lparr>au_grants := rows\<rparr> \<and>
     ks_idempotency s1 = st \<and> ks_world s1 = 0 \<and> ks_registry s1 = demo_registry"
  by (simp add: authenticate_caller_def demo_request_def demo_dispatcher_def demo_moment_def demo_kernel_def demo_verify
      audit_authentication_success_def)







lemma demo_registry_ok: "registry_ok demo_inspect (ks_registry (demo_kernel rows st))"
  using registry_ok_run [of demo_inspect "[Capability_Registered 0 demo_spec]"]
  by (simp only: demo_kernel_def demo_registry_def kernel_state.select_convs)

lemma demo_own_tenant:
  "dict_get (cr_context demo_request) ''resource_tenant_id'' = Some (PStr (sp_tenant_id demo_admin_principal))"
  by (simp add: demo_request_def demo_admin_principal_def)

section \<open>The registry\<close>

text \<open>
  C17. After any sequence of registrations and removals every capability without authentication
  is one of the exempt list, every descriptor has its entry among the handlers, and a handler
  that is to be given an identity accepts it.
\<close>

theorem registry_sound:
  "registry_ok inspect (run (registry_step inspect) empty_registry es) \<and>
     resolve_handler name (run (registry_step inspect) empty_registry es) \<noteq> Inr None"
  using registry_ok_run resolve_never_misses by blast



section \<open>Who acts\<close>






theorem refusals_are_recorded:
  assumes "dispatch dp m req s = (Inl (AuthorizationRefused why), s')" "log_ready m (ks_audit s)"
    and "\<not> empty_text (cr_capability_name req)" "registry_ok inspect (ks_registry s)"
    and "\<forall>p. token_of dp m req (ks_auth s) p \<longrightarrow> \<not> empty_text (sp_principal_id p) \<and> \<not> empty_text (sp_tenant_id p)"
  shows "\<exists>p e0 e1. token_of dp m req (ks_auth s) p \<and> at_rows (ks_audit s') = at_rows (ks_audit s) @ [e0, e1] \<and>
    ue_action e1 = cr_capability_name req \<and> ue_actor_id e1 = sp_principal_id p \<and> ue_tenant_id e1 = sp_tenant_id p \<and>
    dict_get (ue_context e1) ''is_allowed'' = Some (PBool False)"
  using decision_recorded [OF assms(1-4)] assms(5) by blast

theorem refusals_are_recorded_witness:
  "\<exists>why s' e0 e1. dispatch demo_dispatcher demo_moment demo_request (demo_kernel [] None) = (Inl (AuthorizationRefused why), s') \<and>
     at_rows (ks_audit s') = [e0, e1] \<and> ue_actor_id e1 = ''ann'' \<and>
     dict_get (ue_context e1) ''is_allowed'' = Some (PBool False)"
proof -
  let ?k = "demo_kernel [] None"
  obtain s1 where s1: "authenticate_caller demo_dispatcher demo_moment demo_request demo_descriptor ?k =
      (Inr (Some demo_admin_principal), s1)" "ks_auth s1 = demo_accounts\<lparr>au_grants := []\<rparr>"
    using demo_authenticated [of "[]" None] by blast
  obtain a where a: "authorize None (dm_now demo_moment) (Some []) demo_admin_principal
      (requirement_of demo_descriptor) (Some (cr_context demo_request)) (ks_cache s1) = (Some a, ks_cache s1)" "\<not> is_allowed a"
    using authorize_own_tenant [OF demo_own_tenant, of "dm_now demo_moment" "[]" demo_descriptor "ks_cache s1"]
    by (auto simp: holds_grants_def)
  then obtain s2 where "authorize_caller demo_dispatcher demo_moment demo_request demo_descriptor (Some demo_admin_principal) s1 =
      (Inl (AuthorizationRefused (reason a)), s2)"
    by (simp add: authorize_caller_def security_authorize_def bind_eff_def raise_error_def demo_dispatcher_def demo_moment_def s1(2)
        del: demo_descriptor_fields)
  with s1(1) have refused: "dispatch demo_dispatcher demo_moment demo_request ?k = (Inl (AuthorizationRefused (reason a)), s2)"
    by (simp add: dispatch_def bind_eff_def seq_eff_def get_capability_def demo_kernel_def demo_capability demo_request_def)
  have ready: "log_ready demo_moment (ks_audit ?k)"
    by (simp add: log_ready_def demo_moment_def demo_kernel_def numeral_2_eq_2)
  have named: "\<not> empty_text (cr_capability_name demo_request)" "\<not> empty_text (sp_principal_id demo_admin_principal)"
      "\<not> empty_text (sp_tenant_id demo_admin_principal)"
    by (simp_all add: demo_request_def demo_admin_principal_def empty_text_def strip_def is_space_def)
  have only: "p = demo_admin_principal" if "token_of demo_dispatcher demo_moment demo_request (ks_auth ?k) p" for p
    using that by (simp add: token_of_def demo_dispatcher_def demo_moment_def demo_request_def demo_kernel_def demo_verify)
  have "\<forall>p. token_of demo_dispatcher demo_moment demo_request (ks_auth ?k) p \<longrightarrow>
      \<not> empty_text (sp_principal_id p) \<and> \<not> empty_text (sp_tenant_id p)"
    using only named(2, 3) by metis
  from refusals_are_recorded [OF refused ready named(1) demo_registry_ok this] show ?thesis
  proof (elim exE conjE)
    fix p e0 e1
    assume "token_of demo_dispatcher demo_moment demo_request (ks_auth ?k) p"
      and rows: "at_rows (ks_audit s2) = at_rows (ks_audit ?k) @ [e0, e1]" "ue_actor_id e1 = sp_principal_id p"
        "dict_get (ue_context e1) ''is_allowed'' = Some (PBool False)"
    from only [OF this(1)] rows(2) have "ue_actor_id e1 = ''ann''" by (simp add: demo_admin_principal_def)
    with refused rows(1, 3) show ?thesis
      by (intro exI [of _ "reason a"] exI [of _ s2] exI [of _ e0] exI [of _ e1]) (simp add: demo_kernel_def)
  qed
qed

section \<open>Repetitions\<close>





section \<open>Discovery\<close>





section \<open>Divergences\<close>

text \<open>
  A capability that needs no authentication takes the tenant from the context of the request, and a
  key completed by one capability answers every other: without any verified token the response that
  a tenant's invoice was given comes back.
\<close>

definition open_spec :: "string capability_spec" where
  "open_spec = demo_spec\<lparr>cp_name := ''kortex.security.oauth.get_config'', cp_requires_authentication := False,
     cp_required_permissions := None, cp_requires_execution_context := False\<rparr>"

definition open_registry :: "string registry" where
  "open_registry = empty_registry\<lparr>
     rg_capabilities := [(''kortex.security.oauth.get_config'', descriptor_of open_spec False False)],
     rg_handlers := [(''kortex.security.oauth.get_config'', Some ''get_config'')]\<rparr>"

definition stranger_request :: capability_request where
  "stranger_request = demo_request\<lparr>cr_capability_name := ''kortex.security.oauth.get_config'', cr_session_token := None\<rparr>"

theorem stranger_reads_response:
  "fst (dispatch demo_dispatcher demo_moment stranger_request
     (demo_kernel demo_grants_of_admin (Some completed_store)\<lparr>ks_registry := open_registry\<rparr>)) = Inr (PStr ''paid'')"
proof -
  let ?s = "demo_kernel demo_grants_of_admin (Some completed_store)\<lparr>ks_registry := open_registry\<rparr>"
  have d: "get_capability (cr_capability_name stranger_request) (ks_registry ?s) = Inr (descriptor_of open_spec False False)"
    by (simp add: get_capability_def open_registry_def stranger_request_def)
  have "authenticate_caller demo_dispatcher demo_moment stranger_request (descriptor_of open_spec False False) ?s = (Inr None, ?s)"
    by (simp add: authenticate_caller_def open_spec_def)
  then have "dispatch demo_dispatcher demo_moment stranger_request ?s =
      idempotent_execution demo_dispatcher demo_moment stranger_request (descriptor_of open_spec False False)
        (context_of demo_dispatcher stranger_request None) ?s"
    unfolding dispatch_def d by (simp add: bind_eff_def seq_eff_def authorize_caller_def ret_def)
  moreover have "cx_tenant_id (context_of demo_dispatcher stranger_request None) = ''acme''"
    by (simp add: context_of_def tenant_of_def stranger_request_def demo_request_def dict_get_or_def demo_dispatcher_def)
  moreover have "effective_key stranger_request = Some ''k1''"
    by (simp add: effective_key_def stranger_request_def demo_request_def)
  moreover have "ks_idempotency ?s = Some completed_store" "dm_interrupt demo_moment = None"
    by (simp_all add: demo_kernel_def demo_moment_def)
  moreover have "\<exists>st. claim_for demo_moment stranger_request ''acme'' ''k1'' completed_store =
      (COMPLETED_BEFORE, Some (PStr ''paid''), st)"
    using replay_answer [of completed_world "''acme''" "''k1''" "PStr ''paid''" 5 "''i1''"]
      inv_idempotency_run [OF completed_world_run] inv_no_records
    by (simp add: claim_for_def completed_world_def plain_tenant_def demo_moment_def)
  ultimately show ?thesis by (auto simp: idempotent_execution_def)
qed

text \<open>
  The sanitizer compares whole names, so the parameters of a password change reach the audit log as
  they are.
\<close>

theorem new_password_is_logged:
  "dict_get (execution_details (demo_request\<lparr>cr_parameters := [(''new_password'', PStr ''hunter22'')]\<rparr>) 0 None) ''parameters'' =
     Some (PDict [(''new_password'', PStr ''hunter22'')])"
  by (simp add: execution_details_def) code_simp

end
