(* ===== verification/Boot.thy ===== *)
theory Boot
  imports Py_Value Py_Text Effects Security_Models
begin

text \<open>
  The boot engine (\<open>engines/boot/engine.py\<close>) with the states of \<open>core/base_engine.py\<close>: the order in
  which engines start, by Kahn's algorithm, the boot sequence, the shutdown and the health report.
  What an engine does when it is initialized, started, stopped or asked is an effect on a world.
\<close>

section \<open>Engines\<close>

datatype engine_lifecycle = UNINITIALIZED | INITIALIZING | ENGINE_READY | ENGINE_RUNNING | STOPPING | STOPPED | ENGINE_FAILED

datatype boot_error =
    UnregisteredDependency string string
  | CyclicDependency "string list"
  | InitializationFailed string string
  | StartFailed string string
  | EngineStateError engine_lifecycle

definition ensure_state :: "engine_lifecycle list \<Rightarrow> engine_lifecycle \<Rightarrow> boot_error + unit" where
  "ensure_state expected st = (if st \<in> set expected then Inr () else Inl (EngineStateError st))"

record 'w engine_ops =
  eo_dependencies :: "string \<Rightarrow> string list"
  eo_initialize :: "string \<Rightarrow> ('w, string, unit) eff"
  eo_start :: "string \<Rightarrow> ('w, string, unit) eff"
  eo_stop :: "string \<Rightarrow> ('w, string, unit) eff"
  eo_health :: "string \<Rightarrow> ('w, string, (string, pyval) dict) eff"
  eo_state :: "string \<Rightarrow> 'w \<Rightarrow> engine_lifecycle"

section \<open>The order\<close>

type_synonym adjacency = "(string, string list) dict"
type_synonym engine_degrees = "(string, int) dict"

definition dependency_pairs :: "(string \<times> string list) list \<Rightarrow> (string \<times> string) list" where
  "dependency_pairs engines = concat (map (\<lambda>(n, deps). map (\<lambda>d. (n, d)) deps) engines)"

definition link_dependency ::
  "string set \<Rightarrow> adjacency \<times> engine_degrees \<Rightarrow> string \<times> string \<Rightarrow> boot_error + adjacency \<times> engine_degrees" where
  "link_dependency names s p =
     (case (s, p) of ((adj, deg), (n, d)) \<Rightarrow>
        if d \<notin> names then Inl (UnregisteredDependency n d)
        else Inr (dict_append d n adj, dict_set n (dict_get_or 0 deg n + 1) deg))"

text \<open>A neighbour whose last open dependency was the node is queued.\<close>

fun visit_neighbours :: "string list \<Rightarrow> engine_degrees \<times> string list \<Rightarrow> engine_degrees \<times> string list" where
  "visit_neighbours [] s = s"
| "visit_neighbours (n # ns) (deg, queue) =
     (let d = dict_get_or 0 deg n - 1
      in visit_neighbours ns (dict_set n d deg, if d = 0 then queue @ [n] else queue))"

definition open_count :: "engine_degrees \<Rightarrow> nat" where
  "open_count deg = length (filter (\<lambda>(_, d). 0 < d) deg)"

lemma open_count_set:
  "open_count (dict_set n (dict_get_or 0 deg n - 1) deg) + (if dict_get_or 0 deg n = 1 then 1 else 0) = open_count deg"
  by (induction deg) (auto simp: open_count_def dict_get_or_def split: if_splits)

lemma visit_measure:
  "visit_neighbours ns (deg, queue) = (deg', queue') \<Longrightarrow> length queue' + open_count deg' = length queue + open_count deg"
proof (induction ns arbitrary: deg queue)
  case Nil
  then show ?case by simp
next
  case (Cons n ns)
  from Cons.prems have "visit_neighbours ns (dict_set n (dict_get_or 0 deg n - 1) deg,
      if dict_get_or 0 deg n - 1 = 0 then queue @ [n] else queue) = (deg', queue')" by (simp add: Let_def)
  from Cons.IH [OF this] open_count_set [of n deg] show ?case by (simp split: if_splits)
qed

function sort_queue :: "adjacency \<Rightarrow> string list \<Rightarrow> engine_degrees \<Rightarrow> string list \<Rightarrow> string list \<times> engine_degrees" where
  "sort_queue adj [] deg order = (order, deg)"
| "sort_queue adj (node # queue) deg order =
     (case visit_neighbours (dict_get_or [] adj node) (deg, queue) of
        (deg', queue') \<Rightarrow> sort_queue adj queue' deg' (order @ [node]))"
  by pat_completeness auto

termination
  by (relation "measure (\<lambda>(adj, queue, deg, order). length queue + open_count deg)", simp, drule sym, simp, drule visit_measure, simp)

definition resolve_dependency_order :: "(string \<times> string list) list \<Rightarrow> boot_error + string list" where
  "resolve_dependency_order engines =
     bind_res (fold_res (link_dependency (fst ` set engines)) ([], dict_fromkeys 0 (map fst engines)) (dependency_pairs engines))
       (\<lambda>(adj, deg).
          case sort_queue adj (map fst (filter (\<lambda>(_, d). d = 0) deg)) deg [] of
            (order, deg') \<Rightarrow>
              if length order \<noteq> length engines then Inl (CyclicDependency (map fst (filter (\<lambda>(_, d). 0 < d) deg')))
              else Inr order)"

section \<open>Boot and shutdown\<close>

text \<open>The state is the boot order that was resolved last and the world.\<close>

definition boot_phase ::
  "(string \<Rightarrow> string \<Rightarrow> boot_error) \<Rightarrow> (string \<Rightarrow> ('w, string, unit) eff) \<Rightarrow> string \<Rightarrow> (string list \<times> 'w, boot_error, unit) eff" where
  "boot_phase err act name s =
     (case act name (snd s) of
        (Inl msg, w) \<Rightarrow> (Inl (err name msg), (fst s, w))
      | (Inr _, w) \<Rightarrow> (Inr (), (fst s, w)))"

definition boot_system :: "'w engine_ops \<Rightarrow> string list \<Rightarrow> (string list \<times> 'w, boot_error, unit) eff" where
  "boot_system ops names s =
     (case resolve_dependency_order (map (\<lambda>n. (n, eo_dependencies ops n)) names) of
        Inl e \<Rightarrow> (Inl e, s)
      | Inr order \<Rightarrow>
          seq_eff (each (boot_phase InitializationFailed (eo_initialize ops)) order)
            (each (boot_phase StartFailed (eo_start ops)) order) (order, snd s))"

fun stop_each :: "'w engine_ops \<Rightarrow> string list \<Rightarrow> string list \<Rightarrow> 'w \<Rightarrow> 'w" where
  "stop_each ops names [] w = w"
| "stop_each ops names (n # ns) w =
     stop_each ops names ns
       (if n \<in> set names \<and> eo_state ops n w \<notin> {STOPPED, STOPPING} then snd (eo_stop ops n w) else w)"

definition shutdown_system :: "'w engine_ops \<Rightarrow> string list \<Rightarrow> string list \<times> 'w \<Rightarrow> string list \<times> 'w" where
  "shutdown_system ops names s =
     (fst s, stop_each ops names (if fst s \<noteq> [] then rev (fst s) else names) (snd s))"

section \<open>Health\<close>

definition report_is_healthy :: "float_ops \<Rightarrow> (string, pyval) dict \<Rightarrow> bool" where
  "report_is_healthy ops report =
     (case dict_get report ''healthy'' of
        Some v \<Rightarrow> truthy v
      | None \<Rightarrow> py_lower (py_str ops (dict_get_or (PStr []) report ''status'')) = ''healthy'')"

fun health_reports ::
  "float_ops \<Rightarrow> 'w engine_ops \<Rightarrow> string list \<Rightarrow> (string, (string, pyval) dict) dict \<Rightarrow> bool \<Rightarrow> 'w \<Rightarrow>
   (string, (string, pyval) dict) dict \<times> bool \<times> 'w" where
  "health_reports fo ops [] reports healthy w = (reports, healthy, w)"
| "health_reports fo ops (n # ns) reports healthy w =
     (case eo_health ops n w of
        (Inr report, w') \<Rightarrow>
          health_reports fo ops ns (dict_set n report reports) (healthy \<and> report_is_healthy fo report) w'
      | (Inl msg, w') \<Rightarrow>
          health_reports fo ops ns
            (dict_set n [(''engine'', PStr n), (''status'', PStr ''unhealthy''), (''error'', PStr msg)] reports) False w')"

definition run_system_health_checks ::
  "float_ops \<Rightarrow> 'w engine_ops \<Rightarrow> string list \<Rightarrow> 'w \<Rightarrow> (string \<times> (string, (string, pyval) dict) dict) \<times> 'w" where
  "run_system_health_checks fo ops names w =
     (case health_reports fo ops names [] True w of
        (reports, healthy, w') \<Rightarrow> ((if healthy then ''healthy'' else ''degraded'', reports), w'))"

end
