(* ===== verification/Boot_Correct.thy ===== *)
theory Boot_Correct
  imports Boot
begin

text \<open>
  The boot order: it lists every engine once, each one after what it depends on, and it exists exactly
  if every dependency is registered and none is circular.
\<close>

section \<open>Counting\<close>

definition deps_of :: "(string \<times> string list) list \<Rightarrow> string \<Rightarrow> string list" where
  "deps_of engines n = dict_get_or [] engines n"

lemma deps_of_Cons: "deps_of ((m, ds) # es) n = (if n = m then ds else deps_of es n)"
  by (simp add: deps_of_def dict_get_or_def)

lemma deps_of_mem: "dict_ok engines \<Longrightarrow> (n, ds) \<in> set engines \<Longrightarrow> deps_of engines n = ds"
  by (simp add: deps_of_def dict_get_or_def dict_ok_map_of)

lemma mem_deps_of: "dict_ok engines \<Longrightarrow> n \<in> fst ` set engines \<Longrightarrow> (n, deps_of engines n) \<in> set engines"
  using deps_of_mem by fastforce

lemma dependency_pairs_Cons: "dependency_pairs ((m, ds) # es) = map (\<lambda>d. (m, d)) ds @ dependency_pairs es"
  by (simp add: dependency_pairs_def)

lemma dependency_pairs_iff: "(n, d) \<in> set (dependency_pairs engines) \<longleftrightarrow> (\<exists>ds. (n, ds) \<in> set engines \<and> d \<in> set ds)"
  by (auto simp: dependency_pairs_def)

lemma dependency_pairs_mem:
  "dict_ok engines \<Longrightarrow> (n, d) \<in> set (dependency_pairs engines) \<longleftrightarrow> n \<in> fst ` set engines \<and> d \<in> set (deps_of engines n)"
  unfolding dependency_pairs_iff using deps_of_mem mem_deps_of by (metis fst_conv image_eqI)

lemma count_replicate [simp]: "count_list (replicate k m) n = (if n = m then k else 0)"
  by (induction k) auto

lemma map_fst_pairs: "map fst (filter (\<lambda>p. snd p = v) (map (\<lambda>d. (m, d)) ds)) = replicate (count_list ds v) m"
  by (induction ds) auto

lemma count_neighbours:
  "dict_ok engines \<Longrightarrow>
     count_list (map fst (filter (\<lambda>p. snd p = v) (dependency_pairs engines))) n =
       (if n \<in> fst ` set engines then count_list (deps_of engines n) v else 0)"
proof (induction engines)
  case Nil
  then show ?case by (simp add: dependency_pairs_def)
next
  case (Cons e es)
  obtain m ds where e: "e = (m, ds)" by (cases e)
  from Cons.prems have "dict_ok es" "m \<notin> fst ` set es" by (auto simp: dict_ok_def e)
  with Cons.IH show ?case
    by (simp add: e dependency_pairs_Cons map_fst_pairs deps_of_Cons del: map_map filter_map)
qed

lemma count_fst_pairs:
  "dict_ok engines \<Longrightarrow>
     count_list (map fst (dependency_pairs engines)) n = (if n \<in> fst ` set engines then length (deps_of engines n) else 0)"
proof (induction engines)
  case Nil
  then show ?case by (simp add: dependency_pairs_def)
next
  case (Cons e es)
  obtain m ds where e: "e = (m, ds)" by (cases e)
  have "map (fst \<circ> (\<lambda>d. (m, d))) ds = replicate (length ds) m" by (induction ds) auto
  moreover from Cons.prems have "dict_ok es" "m \<notin> fst ` set es" by (auto simp: dict_ok_def e)
  ultimately show ?case using Cons.IH by (simp add: e dependency_pairs_Cons deps_of_Cons)
qed

section \<open>Building the graph\<close>

lemma dict_get_or_set: "dict_get_or v (dict_set k w d) k' = (if k' = k then w else dict_get_or v d k')"
  by (simp add: dict_get_or_def)

lemma link_dependency_eq:
  "link_dependency names (adj, deg) (n, d) =
     (if d \<notin> names then Inl (UnregisteredDependency n d)
      else Inr (dict_append d n adj, dict_set n (dict_get_or 0 deg n + 1) deg))"
  by (simp add: link_dependency_def)

lemma link_dependencies:
  assumes "fold_res (link_dependency names) (adj, deg) pairs = Inr (adj', deg')"
  shows "snd ` set pairs \<subseteq> names \<and>
     (\<forall>d. dict_get_or [] adj' d = dict_get_or [] adj d @ map fst (filter (\<lambda>p. snd p = d) pairs)) \<and>
     (\<forall>n. dict_get_or 0 deg' n = dict_get_or 0 deg n + int (count_list (map fst pairs) n))"
  using assms
proof (induction pairs arbitrary: adj deg)
  case Nil
  then show ?case by simp
next
  case (Cons p pairs)
  obtain n d where p: "p = (n, d)" by (cases p)
  from Cons.prems have d: "d \<in> names"
    and rest: "fold_res (link_dependency names) (dict_append d n adj, dict_set n (dict_get_or 0 deg n + 1) deg) pairs = Inr (adj', deg')"
    by (auto simp: p link_dependency_eq bind_res_Inr_iff split: if_splits)
  from Cons.IH [OF rest] d show ?case
    by (auto simp: p dict_get_or_append dict_get_or_set)
qed

lemma link_keys:
  assumes "fold_res (link_dependency names) (adj, deg) pairs = Inr (adj', deg')" "fst ` set pairs \<subseteq> fst ` set deg"
  shows "map fst deg' = map fst deg"
  using assms
proof (induction pairs arbitrary: adj deg)
  case Nil
  then show ?case by simp
next
  case (Cons p pairs)
  obtain n d where p: "p = (n, d)" by (cases p)
  let ?deg = "dict_set n (dict_get_or 0 deg n + 1) deg"
  from Cons.prems(1) have rest: "fold_res (link_dependency names) (dict_append d n adj, ?deg) pairs = Inr (adj', deg')"
    by (auto simp: p link_dependency_eq bind_res_Inr_iff split: if_splits)
  have keys: "map fst ?deg = map fst deg" using Cons.prems(2) by (simp add: p dict_set_keys dict_has_iff)
  then have "fst ` set ?deg = fst ` set deg" by (metis set_map)
  with Cons.IH [OF rest] Cons.prems(2) keys show ?case by simp
qed

lemma link_dependency_Inl:
  "fold_res (link_dependency names) s pairs = Inl e \<Longrightarrow> \<not> snd ` set pairs \<subseteq> names"
proof (induction pairs arbitrary: s)
  case Nil
  then show ?case by simp
next
  case (Cons p pairs)
  then show ?case
    by (cases s; cases p) (auto simp: link_dependency_eq bind_res_Inl_iff split: if_splits)
qed

section \<open>One round\<close>

lemma visit_neighbours_result:
  assumes "visit_neighbours ns (deg, queue) = (deg', queue')" "\<forall>n \<in> set ns. int (count_list ns n) \<le> dict_get_or 0 deg n"
  shows "(\<forall>n. dict_get_or 0 deg' n = dict_get_or 0 deg n - int (count_list ns n)) \<and>
     (\<exists>zs. queue' = queue @ zs \<and> distinct zs \<and> set zs = {n \<in> set ns. dict_get_or 0 deg n = int (count_list ns n)})"
  using assms
proof (induction ns arbitrary: deg queue)
  case Nil
  then show ?case by simp
next
  case (Cons m ns)
  let ?d = "dict_get_or 0 deg m - 1" and ?deg = "dict_set m (dict_get_or 0 deg m - 1) deg"
  let ?queue = "if ?d = 0 then queue @ [m] else queue"
  have get: "dict_get_or 0 ?deg n = (if n = m then ?d else dict_get_or 0 deg n)" for n
    by (simp add: dict_get_or_def)
  from Cons.prems(1) have "visit_neighbours ns (?deg, ?queue) = (deg', queue')" by (simp add: Let_def)
  moreover have "\<forall>n \<in> set ns. int (count_list ns n) \<le> dict_get_or 0 ?deg n"
    using Cons.prems(2) unfolding get by (auto split: if_splits)
  ultimately obtain zs where degs: "\<forall>n. dict_get_or 0 deg' n = dict_get_or 0 ?deg n - int (count_list ns n)"
    and zs: "queue' = ?queue @ zs" "distinct zs" "set zs = {n \<in> set ns. dict_get_or 0 ?deg n = int (count_list ns n)}"
    using Cons.IH by blast
  have first: "\<forall>n. dict_get_or 0 deg' n = dict_get_or 0 deg n - int (count_list (m # ns) n)"
    using degs unfolding get by auto
  show ?case
  proof (cases "?d = 0")
    case True
    with Cons.prems(2) have "m \<notin> set ns" by (simp add: count_list_0_iff [symmetric])
    with zs True have "queue' = queue @ (m # zs)" "distinct (m # zs)"
      "set (m # zs) = {n \<in> set (m # ns). dict_get_or 0 deg n = int (count_list (m # ns) n)}"
      unfolding get by (auto simp: count_list_0_iff)
    with first show ?thesis by blast
  next
    case False
    have "set zs = {n \<in> set (m # ns). dict_get_or 0 deg n = int (count_list (m # ns) n)}"
      using False zs(3) unfolding get by (auto simp: count_list_0_iff)
    with first zs False show ?thesis by auto
  qed
qed

section \<open>The invariant\<close>

text \<open>A constant of its own, so that quantifiers over names stay as they are.\<close>

definition engine_names :: "(string \<times> string list) list \<Rightarrow> string set" where
  "engine_names engines = fst ` set engines"

lemma card_engine_names: "dict_ok engines \<Longrightarrow> card (engine_names engines) = length engines"
  using distinct_card [of "map fst engines"] by (simp add: dict_ok_def engine_names_def)

definition follows :: "(string \<times> string list) list \<Rightarrow> string list \<Rightarrow> bool" where
  "follows engines order \<longleftrightarrow> (\<forall>xs n ys. order = xs @ n # ys \<longrightarrow> set (deps_of engines n) \<subseteq> set xs)"

definition sort_inv :: "(string \<times> string list) list \<Rightarrow> string list \<Rightarrow> engine_degrees \<Rightarrow> string list \<Rightarrow> bool" where
  "sort_inv engines queue deg order \<longleftrightarrow>
     distinct (order @ queue) \<and> set (order @ queue) \<subseteq> engine_names engines \<and>
     (\<forall>n \<in> engine_names engines. dict_get_or 0 deg n = int (length (filter (\<lambda>d. d \<notin> set order) (deps_of engines n)))) \<and>
     (\<forall>n \<in> engine_names engines. n \<in> set (order @ queue) \<longleftrightarrow> set (deps_of engines n) \<subseteq> set order) \<and>
     follows engines order"

definition graph_of :: "(string \<times> string list) list \<Rightarrow> adjacency \<Rightarrow> bool" where
  "graph_of engines adj \<longleftrightarrow>
     (\<forall>v n. count_list (dict_get_or [] adj v) n = (if n \<in> engine_names engines then count_list (deps_of engines n) v else 0))"

lemma graph_of_mem: "graph_of engines adj \<Longrightarrow> n \<in> set (dict_get_or [] adj v) \<longleftrightarrow> n \<in> engine_names engines \<and> v \<in> set (deps_of engines n)"
  unfolding graph_of_def
  by (metis count_list_0_iff)

lemma follows_snoc:
  assumes "follows engines order" "set (deps_of engines n) \<subseteq> set order"
  shows "follows engines (order @ [n])"
  unfolding follows_def
proof (intro allI impI)
  fix xs m ys
  assume eq: "order @ [n] = xs @ m # ys"
  show "set (deps_of engines m) \<subseteq> set xs"
  proof (cases ys rule: rev_cases)
    case Nil
    with eq assms(2) show ?thesis by simp
  next
    case (snoc zs z)
    with eq have "order = xs @ m # zs" by simp
    with assms(1) show ?thesis by (simp add: follows_def)
  qed
qed

lemma filter_two:
  "length (filter (\<lambda>d. d \<notin> set order) ds) =
     length (filter (\<lambda>d. d \<notin> set (order @ [v])) ds) + (if v \<in> set order then 0 else count_list ds v)"
  by (induction ds) auto

lemma sort_inv_step:
  assumes inv: "sort_inv engines (node # queue) deg order" and graph: "graph_of engines adj"
    and visit: "visit_neighbours (dict_get_or [] adj node) (deg, queue) = (deg', queue')"
  shows "sort_inv engines queue' deg' (order @ [node])"
proof -
  let ?ns = "dict_get_or [] adj node" and ?names = "engine_names engines"
  from inv have node: "node \<notin> set order" "node \<in> ?names" "set (deps_of engines node) \<subseteq> set order"
    by (auto simp: sort_inv_def)
  have count: "count_list ?ns n = count_list (deps_of engines n) node" if "n \<in> ?names" for n
    using graph that by (simp add: graph_of_def)
  have deg: "dict_get_or 0 deg n = int (length (filter (\<lambda>d. d \<notin> set (order @ [node])) (deps_of engines n))) + int (count_list ?ns n)"
    if "n \<in> ?names" for n
    using inv that node(1) count [OF that] filter_two [of order "deps_of engines n" node] by (simp add: sort_inv_def)
  have "\<forall>n \<in> set ?ns. int (count_list ?ns n) \<le> dict_get_or 0 deg n"
    using deg graph_of_mem [OF graph] by simp
  from visit_neighbours_result [OF visit this] obtain zs where
    degs: "\<forall>n. dict_get_or 0 deg' n = dict_get_or 0 deg n - int (count_list ?ns n)"
    and zs: "queue' = queue @ zs" "distinct zs" "set zs = {n \<in> set ?ns. dict_get_or 0 deg n = int (count_list ?ns n)}"
    by blast
  have in_zs: "n \<in> set zs \<longleftrightarrow> n \<in> ?names \<and> node \<in> set (deps_of engines n) \<and> set (deps_of engines n) \<subseteq> set (order @ [node])" for n
  proof (cases "n \<in> ?names")
    case True
    with deg [OF True] zs(3) graph_of_mem [OF graph, of n node] show ?thesis
      by (auto simp: filter_empty_conv subset_iff)
  next
    case False
    with zs(3) graph_of_mem [OF graph, of n node] show ?thesis by simp
  qed
  have old: "n \<in> set (order @ node # queue) \<longleftrightarrow> set (deps_of engines n) \<subseteq> set order" if "n \<in> ?names" for n
    using inv that by (simp add: sort_inv_def)
  have fresh: "set zs \<inter> set (order @ node # queue) = {}"
    using in_zs old node(1) by blast
  have "distinct ((order @ [node]) @ queue')" using inv zs(1, 2) fresh by (auto simp: sort_inv_def)
  moreover have "set ((order @ [node]) @ queue') \<subseteq> ?names" using inv zs(1) in_zs by (auto simp: sort_inv_def)
  moreover have "\<forall>n \<in> ?names. dict_get_or 0 deg' n =
      int (length (filter (\<lambda>d. d \<notin> set (order @ [node])) (deps_of engines n)))"
    using degs deg by simp
  moreover have "n \<in> set ((order @ [node]) @ queue') \<longleftrightarrow> set (deps_of engines n) \<subseteq> set (order @ [node])" if "n \<in> ?names" for n
  proof -
    have "n \<in> set ((order @ [node]) @ queue') \<longleftrightarrow> n \<in> set (order @ node # queue) \<or> n \<in> set zs" by (auto simp: zs(1))
    also have "\<dots> \<longleftrightarrow> set (deps_of engines n) \<subseteq> set (order @ [node])"
      using old [OF that] in_zs [of n] that by auto
    finally show ?thesis .
  qed
  moreover have "follows engines (order @ [node])" using inv node(3) by (intro follows_snoc) (simp_all add: sort_inv_def)
  ultimately show ?thesis by (simp add: sort_inv_def)
qed

lemma sort_queue_inv:
  assumes "graph_of engines adj" "sort_inv engines queue deg order" "sort_queue adj queue deg order = (order', deg')"
  shows "sort_inv engines [] deg' order'"
  using assms
proof (induction adj queue deg order rule: sort_queue.induct)
  case (1 adj deg order)
  then show ?case by simp
next
  case (2 adj node queue deg order)
  obtain d q where v: "visit_neighbours (dict_get_or [] adj node) (deg, queue) = (d, q)"
    by (cases "visit_neighbours (dict_get_or [] adj node) (deg, queue)")
  from 2(4) v have rest: "sort_queue adj q d (order @ [node]) = (order', deg')" by simp
  show ?case by (rule 2(1) [OF v [symmetric] 2(2) sort_inv_step [OF 2(3, 2) v] rest])
qed

section \<open>The order\<close>

definition depends :: "(string \<times> string list) list \<Rightarrow> (string \<times> string) set" where
  "depends engines = {(d, n). n \<in> engine_names engines \<and> d \<in> set (deps_of engines n)}"

definition registered :: "(string \<times> string list) list \<Rightarrow> bool" where
  "registered engines \<longleftrightarrow> (\<forall>n \<in> engine_names engines. set (deps_of engines n) \<subseteq> engine_names engines)"

lemma dependency_pairs_registered:
  assumes "dict_ok engines"
  shows "snd ` set (dependency_pairs engines) \<subseteq> engine_names engines \<longleftrightarrow> registered engines"
proof -
  have "snd ` set (dependency_pairs engines) = (\<Union>n \<in> engine_names engines. set (deps_of engines n))"
  proof (rule set_eqI)
    fix d
    have "d \<in> snd ` set (dependency_pairs engines) \<longleftrightarrow> (\<exists>n. (n, d) \<in> set (dependency_pairs engines))" by force
    also have "\<dots> \<longleftrightarrow> d \<in> (\<Union>n \<in> engine_names engines. set (deps_of engines n))"
      unfolding dependency_pairs_mem [OF assms] engine_names_def by blast
    finally show "d \<in> snd ` set (dependency_pairs engines) \<longleftrightarrow> d \<in> (\<Union>n \<in> engine_names engines. set (deps_of engines n))" .
  qed
  then show ?thesis unfolding registered_def by blast
qed

lemma complete_order_acyclic:
  assumes "follows engines order" "distinct order" "set order = engine_names engines"
  shows "acyclic (depends engines)"
proof -
  let ?pos = "\<lambda>n. length (takeWhile (\<lambda>m. m \<noteq> n) order)"
  have "?pos d < ?pos n" if "(d, n) \<in> depends engines" for d n
  proof -
    from that assms(3) obtain xs ys where split: "order = xs @ n # ys"
      by (metis (mono_tags, lifting) Product_Type.Collect_case_prodD depends_def split_list snd_conv)
    with assms(1) that have d: "d \<in> set xs" by (auto simp: follows_def depends_def)
    have fresh: "n \<notin> set xs" using assms(2) split by auto
    have whole: "takeWhile (\<lambda>m. m \<noteq> v) zs = zs" if "v \<notin> set zs" for v and zs :: "string list"
      using that by (induction zs) auto
    from fresh have "?pos n = length xs" by (simp add: split takeWhile_tail whole)
    moreover from d obtain us vs where xs: "xs = us @ d # vs" "d \<notin> set us" by (meson split_list_first)
    then have "?pos d = length us" by (simp add: split takeWhile_tail whole)
    ultimately show ?thesis by (simp add: xs)
  qed
  then have "depends engines \<subseteq> measure ?pos" by auto
  then show ?thesis by (rule wf_acyclic [OF wf_subset [OF wf_measure]])
qed

lemma acyclic_order_complete:
  assumes inv: "sort_inv engines [] deg order" and "acyclic (depends engines)" "registered engines" "dict_ok engines"
  shows "length order = length engines"
proof -
  let ?names = "engine_names engines"
  have "finite (depends engines)"
  proof (rule finite_subset)
    show "depends engines \<subseteq> (\<Union>n \<in> ?names. set (deps_of engines n)) \<times> ?names" by (auto simp: depends_def)
  qed (simp add: engine_names_def)
  with assms(2) have wf: "wf (depends engines)" by (rule finite_acyclic_wf [rotated])
  have "n \<in> ?names \<longrightarrow> n \<in> set order" for n
    using wf
  proof (induction n rule: wf_induct_rule)
    case (less n)
    show ?case
    proof
      assume n: "n \<in> ?names"
      have "set (deps_of engines n) \<subseteq> set order"
      proof
        fix d assume "d \<in> set (deps_of engines n)"
        with n assms(3) less show "d \<in> set order" by (auto simp: depends_def registered_def)
      qed
      with inv n show "n \<in> set order" by (simp add: sort_inv_def)
    qed
  qed
  with inv have "set order = ?names" "distinct order" by (auto simp: sort_inv_def)
  moreover note card_engine_names [OF assms(4)]
  ultimately show ?thesis using distinct_card [of order] by simp
qed

lemma initial_inv:
  assumes "dict_ok engines" "fold_res (link_dependency (fst ` set engines)) ([], dict_fromkeys 0 (map fst engines))
      (dependency_pairs engines) = Inr (adj, deg)"
  shows "graph_of engines adj" "sort_inv engines (map fst (filter (\<lambda>(_, d). d = 0) deg)) deg []"
proof -
  let ?names = "engine_names engines" and ?zero = "dict_fromkeys (0::int) (map fst engines)"
  from link_dependencies [OF assms(2)] have adj: "\<And>d. dict_get_or [] adj d = map fst (filter (\<lambda>p. snd p = d) (dependency_pairs engines))"
    and deg: "\<And>n. dict_get_or 0 deg n = dict_get_or 0 ?zero n + int (count_list (map fst (dependency_pairs engines)) n)"
    by (simp_all add: dict_get_or_def)
  show "graph_of engines adj" unfolding graph_of_def adj count_neighbours [OF assms(1)] engine_names_def by simp
  have zero: "map fst ?zero = map fst engines"
    using assms(1) by (simp add: dict_fromkeys_distinct dict_ok_def comp_def)
  have degs: "dict_get_or 0 deg n = int (length (deps_of engines n))" if "n \<in> ?names" for n
    using that deg [of n] count_fst_pairs [OF assms(1), of n] by (simp add: dict_get_or_def engine_names_def)
  have "fst ` set (dependency_pairs engines) \<subseteq> fst ` set ?zero"
    using dependency_pairs_mem [OF assms(1)] arg_cong [OF zero, of set] by auto
  from link_keys [OF assms(2) this] zero have keys: "map fst deg = map fst engines" by simp
  then have ok: "dict_ok deg" using assms(1) by (simp add: dict_ok_def)
  have mem: "n \<in> set (map fst (filter (\<lambda>(_, d). d = 0) deg)) \<longleftrightarrow> n \<in> ?names \<and> deps_of engines n = []" for n
  proof -
    have names: "fst ` set deg = ?names" using arg_cong [OF keys, of set] by (simp add: engine_names_def)
    have value_of: "(n, d) \<in> set deg \<longleftrightarrow> n \<in> ?names \<and> d = dict_get_or 0 deg n" for d
      unfolding dict_ok_map_of [OF ok] dict_get_or_def names [symmetric]
      by (auto split: option.split simp: map_of_eq_None_iff dest: map_of_SomeD intro: rev_image_eqI)
    have "n \<in> set (map fst (filter (\<lambda>(_, d). d = 0) deg)) \<longleftrightarrow> (n, 0) \<in> set deg" by force
    then show ?thesis using value_of degs by auto
  qed
  have "distinct (map fst (filter (\<lambda>(_, d). d = 0) deg))" using ok by (simp add: dict_ok_def distinct_map_filter)
  with mem degs show "sort_inv engines (map fst (filter (\<lambda>(_, d). d = 0) deg)) deg []"
    by (auto simp: sort_inv_def follows_def)
qed

theorem resolve_cases:
  assumes "dict_ok engines"
  shows "(\<exists>order. resolve_dependency_order engines = Inr order \<and> distinct order \<and> set order = engine_names engines \<and>
       follows engines order \<and> registered engines \<and> acyclic (depends engines)) \<or>
     (\<exists>e. resolve_dependency_order engines = Inl e \<and> \<not> (registered engines \<and> acyclic (depends engines)))"
proof (cases "fold_res (link_dependency (fst ` set engines)) ([], dict_fromkeys 0 (map fst engines)) (dependency_pairs engines)")
  case (Inl e)
  then show ?thesis
    using link_dependency_Inl [OF Inl] dependency_pairs_registered [OF assms]
    by (simp add: resolve_dependency_order_def engine_names_def)
next
  case (Inr s)
  obtain adj deg where s: "s = (adj, deg)" by (cases s)
  note built = Inr [unfolded s]
  have reg: "registered engines"
    using link_dependencies [OF built] dependency_pairs_registered [OF assms] by (simp add: engine_names_def)
  let ?queue = "map fst (filter (\<lambda>(_, d). d = 0) deg)"
  obtain order deg' where sorted: "sort_queue adj ?queue deg [] = (order, deg')" by fastforce
  from sort_queue_inv [OF initial_inv [OF assms built] sorted] have inv: "sort_inv engines [] deg' order" .
  show ?thesis
  proof (cases "length order = length engines")
    case True
    from card_engine_names [OF assms] inv True have "set order = engine_names engines"
      by (intro card_subset_eq) (auto simp: sort_inv_def distinct_card engine_names_def)
    with inv True reg built sorted complete_order_acyclic [of engines order] show ?thesis
      by (auto simp: resolve_dependency_order_def sort_inv_def)
  next
    case False
    with acyclic_order_complete [OF inv _ reg assms] built sorted show ?thesis
      by (auto simp: resolve_dependency_order_def)
  qed
qed

end
