(* ===== verification/Kernel_Lifecycle.thy ===== *)
theory Kernel_Lifecycle
  imports Boot_Correct Registry
begin

text \<open>
  The kernel object (\<open>core/kernel.py\<close>) and its container (\<open>core/container.py\<close>): registration of
  engines, boot and shutdown.  A boot runs as one step.  What engines, the database and the event bus
  do is an effect on a world; the container and the registry are a part of it (\<open>kernel_services\<close>).
\<close>

section \<open>The container\<close>

record ('v, 'f) service_container =
  ct_instances :: "(string, 'v) dict"
  ct_factories :: "(string, 'f) dict"
  ct_types :: "(string, 'v) dict"

datatype container_error = ServiceExists string | ServiceNotFound string | TypeNotFound string | FactoryFailed string

definition has_service :: "string \<Rightarrow> ('v, 'f) service_container \<Rightarrow> bool" where
  "has_service key ct \<longleftrightarrow> dict_has (ct_instances ct) key \<or> dict_has (ct_factories ct) key"

definition register_instance :: "string \<Rightarrow> 'v \<Rightarrow> (('v, 'f) service_container, container_error, unit) eff" where
  "register_instance key x ct =
     (if has_service key ct then (Inl (ServiceExists key), ct)
      else (Inr (), ct\<lparr>ct_instances := dict_set key x (ct_instances ct)\<rparr>))"

definition register_type :: "string \<Rightarrow> 'v \<Rightarrow> ('v, 'f) service_container \<Rightarrow> ('v, 'f) service_container" where
  "register_type cls x ct = ct\<lparr>ct_types := dict_set cls x (ct_types ct)\<rparr>"

definition register_factory :: "string \<Rightarrow> 'f \<Rightarrow> (('v, 'f) service_container, container_error, unit) eff" where
  "register_factory key f ct =
     (if has_service key ct then (Inl (ServiceExists key), ct)
      else (Inr (), ct\<lparr>ct_factories := dict_set key f (ct_factories ct)\<rparr>))"

text \<open>A factory is called with the container; what it makes is kept.\<close>

definition resolve_service ::
  "('f \<Rightarrow> (('v, 'f) service_container, string, 'v) eff) \<Rightarrow> string \<Rightarrow> (('v, 'f) service_container, container_error, 'v) eff" where
  "resolve_service build key ct =
     (case dict_get (ct_instances ct) key of
        Some x \<Rightarrow> (Inr x, ct)
      | None \<Rightarrow>
          (case dict_get (ct_factories ct) key of
             None \<Rightarrow> (Inl (ServiceNotFound key), ct)
           | Some f \<Rightarrow>
               (case build f ct of
                  (Inl msg, ct') \<Rightarrow> (Inl (FactoryFailed msg), ct')
                | (Inr x, ct') \<Rightarrow> (Inr x, ct'\<lparr>ct_instances := dict_set key x (ct_instances ct')\<rparr>))))"

definition resolve_type :: "string \<Rightarrow> ('v, 'f) service_container \<Rightarrow> container_error + 'v" where
  "resolve_type cls ct = (case dict_get (ct_types ct) cls of None \<Rightarrow> Inl (TypeNotFound cls) | Some x \<Rightarrow> Inr x)"

definition has_type :: "string \<Rightarrow> ('v, 'f) service_container \<Rightarrow> bool" where
  "has_type cls ct \<longleftrightarrow> dict_has (ct_types ct) cls"

definition clear_container :: "('v, 'f) service_container \<Rightarrow> ('v, 'f) service_container" where
  "clear_container ct = \<lparr>ct_instances = [], ct_factories = [], ct_types = []\<rparr>"

section \<open>The kernel\<close>

datatype kernel_phase = KERNEL_CREATED | KERNEL_BOOTING | KERNEL_RUNNING | KERNEL_SHUTTING_DOWN | KERNEL_STOPPED | KERNEL_FAILED

datatype kernel_error =
    KernelStateError kernel_phase
  | EngineExists string
  | EngineNotFound string
  | EngineBinding string
  | DatabaseFailed string
  | BootFailed boot_error
  | PublishFailed string

record 'x kernel =
  kn_state :: kernel_phase
  kn_engines :: "string list"
  kn_order :: "string list"
  kn_world :: 'x

record 'x kernel_ops =
  ko_engines :: "'x engine_ops"
  ko_bind :: "string \<Rightarrow> ('x, string, unit) eff"
  ko_connect :: "('x, string, unit) eff"
  ko_create_tables :: "('x, string, unit) eff"
  ko_disconnect :: "('x, string, unit) eff"
  ko_publish :: "string \<Rightarrow> ('x, string, unit) eff"

definition on_world :: "(string \<Rightarrow> kernel_error) \<Rightarrow> ('x, string, 'a) eff \<Rightarrow> ('x kernel, kernel_error, 'a) eff" where
  "on_world err act k =
     (case act (kn_world k) of
        (Inl msg, w) \<Rightarrow> (Inl (err msg), k\<lparr>kn_world := w\<rparr>)
      | (Inr x, w) \<Rightarrow> (Inr x, k\<lparr>kn_world := w\<rparr>))"

definition set_phase :: "kernel_phase \<Rightarrow> ('x kernel, kernel_error, unit) eff" where
  "set_phase st = modify (\<lambda>k. k\<lparr>kn_state := st\<rparr>)"

definition register_engine :: "'x kernel_ops \<Rightarrow> string \<Rightarrow> ('x kernel, kernel_error, unit) eff" where
  "register_engine ops name k =
     (if kn_state k \<noteq> KERNEL_CREATED then (Inl (KernelStateError (kn_state k)), k)
      else if name \<in> set (kn_engines k) then (Inl (EngineExists name), k)
      else on_world EngineBinding (ko_bind ops name) (k\<lparr>kn_engines := kn_engines k @ [name]\<rparr>))"

definition get_engine :: "string \<Rightarrow> 'x kernel \<Rightarrow> kernel_error + string" where
  "get_engine name k = (if name \<in> set (kn_engines k) then Inr name else Inl (EngineNotFound name))"

definition boot_engines :: "'x kernel_ops \<Rightarrow> ('x kernel, kernel_error, unit) eff" where
  "boot_engines ops k =
     (case boot_system (ko_engines ops) (kn_engines k) (kn_order k, kn_world k) of
        (Inl e, (order, w)) \<Rightarrow> (Inl (BootFailed e), k\<lparr>kn_order := order, kn_world := w\<rparr>)
      | (Inr _, (order, w)) \<Rightarrow> (Inr (), k\<lparr>kn_order := order, kn_world := w\<rparr>))"

definition boot_kernel :: "'x kernel_ops \<Rightarrow> ('x kernel, kernel_error, unit) eff" where
  "boot_kernel ops k =
     (if kn_state k \<noteq> KERNEL_CREATED then (Inl (KernelStateError (kn_state k)), k)
      else (case seq_eff (on_world DatabaseFailed (ko_connect ops))
                 (seq_eff (on_world DatabaseFailed (ko_create_tables ops))
                 (seq_eff (boot_engines ops)
                 (seq_eff (set_phase KERNEL_RUNNING) (on_world PublishFailed (ko_publish ops ''system.started'')))))
                 (k\<lparr>kn_state := KERNEL_BOOTING\<rparr>) of
              (Inl e, k') \<Rightarrow> (Inl e, k'\<lparr>kn_state := KERNEL_FAILED\<rparr>)
            | (Inr u, k') \<Rightarrow> (Inr u, k')))"

definition stop_engines :: "'x kernel_ops \<Rightarrow> 'x kernel \<Rightarrow> 'x kernel" where
  "stop_engines ops k =
     (case shutdown_system (ko_engines ops) (kn_engines k) (kn_order k, kn_world k) of
        (order, w) \<Rightarrow> k\<lparr>kn_order := order, kn_world := w\<rparr>)"

definition shutdown_kernel :: "'x kernel_ops \<Rightarrow> ('x kernel, kernel_error, unit) eff" where
  "shutdown_kernel ops k =
     (if kn_state k \<notin> {KERNEL_RUNNING, KERNEL_BOOTING, KERNEL_FAILED} then (Inr (), k)
      else seq_eff (set_phase KERNEL_SHUTTING_DOWN)
            (seq_eff (swallow (on_world PublishFailed (ko_publish ops ''system.stopping'')))
            (seq_eff (modify (stop_engines ops))
            (seq_eff (on_world DatabaseFailed (ko_disconnect ops)) (set_phase KERNEL_STOPPED)))) k)"

text \<open>Capabilities are registered before the boot has completed.\<close>

definition kernel_register_capability :: "('x, string, 'a) eff \<Rightarrow> ('x kernel, kernel_error, 'a) eff" where
  "kernel_register_capability act k =
     (if kn_state k \<notin> {KERNEL_CREATED, KERNEL_BOOTING} then (Inl (KernelStateError (kn_state k)), k)
      else on_world EngineBinding act k)"

section \<open>The container and the registry of a kernel\<close>

record ('v, 'f, 'w) kernel_services =
  kv_container :: "('v, 'f) service_container"
  kv_registry :: "'v registry"
  kv_world :: 'w

text \<open>The message of an error is an argument.\<close>

definition bind_engine ::
  "(registry_error \<Rightarrow> string) \<Rightarrow> (container_error \<Rightarrow> string) \<Rightarrow> instant \<Rightarrow> (string \<Rightarrow> 'v) \<Rightarrow> (string \<Rightarrow> string) \<Rightarrow> (string \<Rightarrow> string) \<Rightarrow>
   string \<Rightarrow> (('v, 'f, 'w) kernel_services, string, unit) eff" where
  "bind_engine rg_message ct_message now engine_of class_of title name s =
     (case register_in RC_ENGINE now name (Some (engine_of name)) (''KORTEX '' @ title name @ '' Engine'') (kv_registry s) of
        (Inl e, rg) \<Rightarrow> (Inl (rg_message e), s\<lparr>kv_registry := rg\<rparr>)
      | (Inr _, rg) \<Rightarrow>
          (case register_instance (''engine.'' @ name) (engine_of name) (kv_container s) of
             (Inl e, ct) \<Rightarrow> (Inl (ct_message e), s\<lparr>kv_registry := rg, kv_container := ct\<rparr>)
           | (Inr _, ct) \<Rightarrow>
               (Inr (), s\<lparr>kv_registry := rg, kv_container := register_type (class_of name) (engine_of name) ct\<rparr>)))"

end
