(* ===== verification/Kernel_Correct.thy ===== *)
theory Kernel_Correct
  imports Kernel_Lifecycle "HOL-Library.Sublist"
begin

text \<open>
  What any sequence of kernel operations makes of the calls of the engines: a log that the world
  carries along records them.
\<close>

section \<open>The log of calls\<close>

datatype lifecycle_call = Initialize_Call | Start_Call | Stop_Call

type_synonym lifecycle_log = "(lifecycle_call \<times> string) list"

definition logged ::
  "lifecycle_call \<Rightarrow> (string \<Rightarrow> ('x, string, unit) eff) \<Rightarrow> string \<Rightarrow> ('x \<times> lifecycle_log, string, unit) eff" where
  "logged c act name s = (case act name (fst s) of (r, x) \<Rightarrow> (r, x, snd s @ [(c, name)]))"

definition unlogged :: "('x, string, 'a) eff \<Rightarrow> ('x \<times> lifecycle_log, string, 'a) eff" where
  "unlogged act s = (case act (fst s) of (r, x) \<Rightarrow> (r, x, snd s))"

definition logged_engines :: "'x engine_ops \<Rightarrow> ('x \<times> lifecycle_log) engine_ops" where
  "logged_engines ops =
     \<lparr>eo_dependencies = eo_dependencies ops, eo_initialize = logged Initialize_Call (eo_initialize ops),
      eo_start = logged Start_Call (eo_start ops), eo_stop = logged Stop_Call (eo_stop ops),
      eo_health = (\<lambda>n. unlogged (eo_health ops n)), eo_state = (\<lambda>n s. eo_state ops n (fst s))\<rparr>"

definition logged_kernel :: "'x kernel_ops \<Rightarrow> ('x \<times> lifecycle_log) kernel_ops" where
  "logged_kernel ops =
     \<lparr>ko_engines = logged_engines (ko_engines ops), ko_bind = (\<lambda>n. unlogged (ko_bind ops n)),
      ko_connect = unlogged (ko_connect ops), ko_create_tables = unlogged (ko_create_tables ops),
      ko_disconnect = unlogged (ko_disconnect ops), ko_publish = (\<lambda>topic. unlogged (ko_publish ops topic))\<rparr>"

text \<open>Between the operations of the kernel the world may change.\<close>

datatype 'x kernel_event = Engine_Registered string | Kernel_Booted | Kernel_Shut_Down | World_Changed "'x \<Rightarrow> 'x"

fun kernel_step :: "'x kernel_ops \<Rightarrow> ('x \<times> lifecycle_log) kernel \<Rightarrow> 'x kernel_event \<Rightarrow> ('x \<times> lifecycle_log) kernel" where
  "kernel_step ops k (Engine_Registered name) = snd (register_engine (logged_kernel ops) name k)"
| "kernel_step ops k Kernel_Booted = snd (boot_kernel (logged_kernel ops) k)"
| "kernel_step ops k Kernel_Shut_Down = snd (shutdown_kernel (logged_kernel ops) k)"
| "kernel_step ops k (World_Changed f) = k\<lparr>kn_world := (f (fst (kn_world k)), snd (kn_world k))\<rparr>"

definition new_kernel :: "'x \<Rightarrow> ('x \<times> lifecycle_log) kernel" where
  "new_kernel x = \<lparr>kn_state = KERNEL_CREATED, kn_engines = [], kn_order = [], kn_world = (x, [])\<rparr>"

definition call_log :: "('x \<times> lifecycle_log) kernel \<Rightarrow> lifecycle_log" where
  "call_log k = snd (kn_world k)"

section \<open>One phase\<close>

lemma each_phase:
  assumes "each (boot_phase err (logged c act)) ns (order, x, log) = (res, s')"
  shows "\<exists>x' done_ns. s' = (order, x', log @ map (Pair c) done_ns) \<and> prefix done_ns ns \<and> (res = Inr () \<longrightarrow> done_ns = ns)"
  using assms
proof (induction ns arbitrary: x log)
  case Nil
  then show ?case by (auto simp: ret_def)
next
  case (Cons n ns)
  obtain r y where a: "act n x = (r, y)" by (cases "act n x")
  have phase: "boot_phase err (logged c act) n (order, x, log) =
      (case r of Inl msg \<Rightarrow> Inl (err n msg) | Inr _ \<Rightarrow> Inr (), order, y, log @ [(c, n)])"
    by (simp add: boot_phase_def logged_def a split: sum.split)
  show ?case
  proof (cases r)
    case (Inl msg)
    with Cons.prems phase have "s' = (order, y, log @ map (Pair c) [n])" "res = Inl (err n msg)"
      by (auto simp: seq_eff_def bind_eff_def)
    then show ?thesis by (intro exI [of _ y] exI [of _ "[n]"]) simp
  next
    case (Inr u)
    with Cons.prems phase have "each (boot_phase err (logged c act)) ns (order, y, log @ [(c, n)]) = (res, s')"
      by (simp add: seq_eff_def bind_eff_def)
    from Cons.IH [OF this] obtain x' done_ns where "s' = (order, x', (log @ [(c, n)]) @ map (Pair c) done_ns)"
      "prefix done_ns ns" "res = Inr () \<longrightarrow> done_ns = ns" by blast
    then show ?thesis by (intro exI [of _ x'] exI [of _ "n # done_ns"]) simp
  qed
qed

lemma boot_system_log:
  assumes "boot_system (logged_engines ops) names (o0, x, log) = (res, order, x', log')"
  shows "(\<exists>e. resolve_dependency_order (map (\<lambda>n. (n, eo_dependencies ops n)) names) = Inl e) \<and> order = o0 \<and> log' = log \<and> res \<noteq> Inr () \<or>
     resolve_dependency_order (map (\<lambda>n. (n, eo_dependencies ops n)) names) = Inr order \<and>
     (\<exists>inits starts. log' = log @ map (Pair Initialize_Call) inits @ map (Pair Start_Call) starts \<and>
        prefix inits order \<and> prefix starts order \<and> (starts \<noteq> [] \<longrightarrow> inits = order) \<and> (res = Inr () \<longrightarrow> inits = order \<and> starts = order))"
proof (cases "resolve_dependency_order (map (\<lambda>n. (n, eo_dependencies ops n)) names)")
  case (Inl e)
  with assms show ?thesis by (auto simp: boot_system_def logged_engines_def)
next
  case resolved: (Inr o1)
  note Inr = resolved
  let ?init = "each (boot_phase InitializationFailed (logged Initialize_Call (eo_initialize ops))) o1"
  let ?start = "each (boot_phase StartFailed (logged Start_Call (eo_start ops))) o1"
  from Inr assms have both: "seq_eff ?init ?start (o1, x, log) = (res, order, x', log')"
    by (simp add: boot_system_def logged_engines_def)
  obtain r1 s1 where first: "?init (o1, x, log) = (r1, s1)" by (cases "?init (o1, x, log)")
  from each_phase [OF first] obtain x1 inits where s1: "s1 = (o1, x1, log @ map (Pair Initialize_Call) inits)"
    and inits: "prefix inits o1" "r1 = Inr () \<longrightarrow> inits = o1" by blast
  show ?thesis
  proof (cases r1)
    case (Inl e)
    with both first s1 have "order = o1" "log' = log @ map (Pair Initialize_Call) inits @ map (Pair Start_Call) []" "res = Inl e"
      by (auto simp: seq_eff_def bind_eff_def)
    with inits(1) resolved show ?thesis by (intro disjI2 conjI exI [of _ inits] exI [of _ "[]"]) simp_all
  next
    case (Inr u)
    with both first have "?start s1 = (res, order, x', log')" by (simp add: seq_eff_def bind_eff_def)
    from each_phase [OF this [unfolded s1]] obtain starts where
      "order = o1" "log' = (log @ map (Pair Initialize_Call) inits) @ map (Pair Start_Call) starts"
      "prefix starts o1" "res = Inr () \<longrightarrow> starts = o1" by blast
    moreover have "inits = o1" using inits(2) Inr by simp
    ultimately show ?thesis using resolved by auto
  qed
qed

lemma stop_each_log:
  "\<exists>x' stops. stop_each (logged_engines ops) names ns (x, log) = (x', log @ map (Pair Stop_Call) stops) \<and> subseq stops ns"
proof (induction ns arbitrary: x log)
  case Nil
  then show ?case by simp
next
  case (Cons n ns)
  show ?case
  proof (cases "n \<in> set names \<and> eo_state ops n x \<notin> {STOPPED, STOPPING}")
    case True
    obtain r y where s: "eo_stop ops n x = (r, y)" by (cases "eo_stop ops n x")
    from Cons.IH [of y "log @ [(Stop_Call, n)]"] obtain x' stops where
      "stop_each (logged_engines ops) names ns (y, log @ [(Stop_Call, n)]) = (x', (log @ [(Stop_Call, n)]) @ map (Pair Stop_Call) stops)"
      "subseq stops ns" by blast
    with True s show ?thesis
      by (intro exI [of _ x'] exI [of _ "n # stops"]) (simp add: logged_engines_def logged_def)
  next
    case False
    from Cons.IH [of x log] obtain x' stops where
      "stop_each (logged_engines ops) names ns (x, log) = (x', log @ map (Pair Stop_Call) stops)" "subseq stops ns" by blast
    with False show ?thesis
      by (intro exI [of _ x'] exI [of _ stops]) (auto simp: logged_engines_def)
  qed
qed

section \<open>The invariant\<close>

definition declared_engines :: "'x kernel_ops \<Rightarrow> ('x \<times> lifecycle_log) kernel \<Rightarrow> (string \<times> string list) list" where
  "declared_engines ops k = map (\<lambda>n. (n, eo_dependencies (ko_engines ops) n)) (kn_engines k)"

definition ordered_by :: "'x kernel_ops \<Rightarrow> ('x \<times> lifecycle_log) kernel \<Rightarrow> bool" where
  "ordered_by ops k \<longleftrightarrow>
     distinct (kn_order k) \<and> set (kn_order k) = set (kn_engines k) \<and> follows (declared_engines ops k) (kn_order k)"

definition log_shape :: "('x \<times> lifecycle_log) kernel \<Rightarrow> string list \<Rightarrow> string list \<Rightarrow> string list \<Rightarrow> bool" where
  "log_shape k inits starts stops \<longleftrightarrow>
     call_log k = map (Pair Initialize_Call) inits @ map (Pair Start_Call) starts @ map (Pair Stop_Call) stops \<and>
     prefix inits (kn_order k) \<and> prefix starts (kn_order k) \<and> (starts \<noteq> [] \<longrightarrow> inits = kn_order k) \<and>
     subseq stops (if kn_order k = [] then kn_engines k else rev (kn_order k)) \<and>
     (stops \<noteq> [] \<longrightarrow> kn_state k \<in> {KERNEL_SHUTTING_DOWN, KERNEL_STOPPED}) \<and>
     (kn_state k = KERNEL_RUNNING \<longrightarrow> starts = kn_order k \<and> inits = kn_order k \<and> set (kn_order k) = set (kn_engines k))"

definition calls_ok :: "'x kernel_ops \<Rightarrow> ('x \<times> lifecycle_log) kernel \<Rightarrow> bool" where
  "calls_ok ops k \<longleftrightarrow>
     distinct (kn_engines k) \<and> (kn_state k = KERNEL_CREATED \<longrightarrow> call_log k = [] \<and> kn_order k = []) \<and>
     (kn_order k \<noteq> [] \<longrightarrow> ordered_by ops k) \<and> (\<exists>inits starts stops. log_shape k inits starts stops)"

lemma on_world_unlogged:
  "\<exists>x. snd (on_world err (unlogged act) k) = k\<lparr>kn_world := (x, snd (kn_world k))\<rparr>"
  by (cases "act (fst (kn_world k))"; cases "fst (act (fst (kn_world k)))") (auto simp: on_world_def unlogged_def)

lemma calls_ok_world: "calls_ok ops (k\<lparr>kn_world := (x, snd (kn_world k))\<rparr>) \<longleftrightarrow> calls_ok ops k"
  by (simp add: calls_ok_def log_shape_def ordered_by_def declared_engines_def call_log_def)

lemma declared_engines_update [simp]:
  "declared_engines ops (k\<lparr>kn_state := st\<rparr>) = declared_engines ops k"
  "declared_engines ops (k\<lparr>kn_order := order\<rparr>) = declared_engines ops k"
  "declared_engines ops (k\<lparr>kn_world := w\<rparr>) = declared_engines ops k"
  by (simp_all add: declared_engines_def)

lemma calls_ok_intro:
  assumes "calls_ok ops k" "st \<noteq> KERNEL_CREATED"
    "\<And>inits starts stops. log_shape k inits starts stops \<Longrightarrow> log_shape (k\<lparr>kn_state := st\<rparr>) inits starts stops"
  shows "calls_ok ops (k\<lparr>kn_state := st\<rparr>)"
  using assms unfolding calls_ok_def by (auto simp: ordered_by_def) blast+

lemma calls_ok_phase:
  "calls_ok ops k \<Longrightarrow> kn_state k \<notin> {KERNEL_SHUTTING_DOWN, KERNEL_STOPPED} \<Longrightarrow>
     st \<in> {KERNEL_BOOTING, KERNEL_FAILED, KERNEL_SHUTTING_DOWN, KERNEL_STOPPED} \<Longrightarrow> calls_ok ops (k\<lparr>kn_state := st\<rparr>)"
  by (rule calls_ok_intro) (auto simp: log_shape_def call_log_def)

lemma calls_ok_stopped:
  "calls_ok ops k \<Longrightarrow> kn_state k = KERNEL_SHUTTING_DOWN \<Longrightarrow> calls_ok ops (k\<lparr>kn_state := KERNEL_STOPPED\<rparr>)"
  by (rule calls_ok_intro) (auto simp: log_shape_def call_log_def)

lemma declared_names: "fst ` set (declared_engines ops k) = set (kn_engines k)"
  by (simp add: declared_engines_def image_image)

lemma declared_ok: "distinct (kn_engines k) \<Longrightarrow> dict_ok (declared_engines ops k)"
  by (simp add: declared_engines_def dict_ok_def comp_def)

lemma boot_engines_ok:
  assumes ok: "calls_ok ops k" and st: "kn_state k = KERNEL_BOOTING" and fresh: "call_log k = []" "kn_order k = []"
    and boot: "boot_engines (logged_kernel ops) k = (res, k')"
  shows "calls_ok ops k' \<and> kn_state k' = KERNEL_BOOTING \<and> (res = Inr () \<longrightarrow> calls_ok ops (k'\<lparr>kn_state := KERNEL_RUNNING\<rparr>))"
proof -
  obtain x where world: "kn_world k = (x, [])" using fresh by (cases "kn_world k") (auto simp: call_log_def)
  obtain r order x' log where run: "boot_system (logged_engines (ko_engines ops)) (kn_engines k) ([], x, []) = (r, order, x', log)"
    by (cases "boot_system (logged_engines (ko_engines ops)) (kn_engines k) ([], x, [])") auto
  have k': "k' = k\<lparr>kn_order := order, kn_world := (x', log)\<rparr>" and res: "res = Inr () \<longleftrightarrow> r = Inr ()"
    using boot run by (auto simp: boot_engines_def world fresh logged_kernel_def split: sum.splits)
  have pairs: "map (\<lambda>n. (n, eo_dependencies (ko_engines ops) n)) (kn_engines k) = declared_engines ops k"
    by (simp add: declared_engines_def)
  have d: "distinct (kn_engines k)" using ok by (simp add: calls_ok_def)
  from boot_system_log [OF run, unfolded pairs] show ?thesis
  proof
    assume "(\<exists>e. resolve_dependency_order (declared_engines ops k) = Inl e) \<and> order = [] \<and> log = [] \<and> r \<noteq> Inr ()"
    then show ?thesis using d st res
      by (auto simp: k' calls_ok_def log_shape_def call_log_def intro!: exI [of _ "[]"])
  next
    assume "resolve_dependency_order (declared_engines ops k) = Inr order \<and>
       (\<exists>inits starts. log = [] @ map (Pair Initialize_Call) inits @ map (Pair Start_Call) starts \<and>
          prefix inits order \<and> prefix starts order \<and> (starts \<noteq> [] \<longrightarrow> inits = order) \<and> (r = Inr () \<longrightarrow> inits = order \<and> starts = order))"
    then obtain inits starts where resolved: "resolve_dependency_order (declared_engines ops k) = Inr order"
      and log: "log = map (Pair Initialize_Call) inits @ map (Pair Start_Call) starts"
        "prefix inits order" "prefix starts order" "starts \<noteq> [] \<longrightarrow> inits = order" "r = Inr () \<longrightarrow> inits = order \<and> starts = order"
      by auto
    from resolve_cases [OF declared_ok [OF d, of ops]] resolved
    have order: "distinct order" "set order = set (kn_engines k)" "follows (declared_engines ops k) order"
      unfolding engine_names_def declared_names by auto
    have shape: "log_shape k' inits starts []" "r = Inr () \<Longrightarrow> log_shape (k'\<lparr>kn_state := KERNEL_RUNNING\<rparr>) inits starts []"
      using log order st by (auto simp: k' log_shape_def call_log_def)
    then show ?thesis using d st order res unfolding calls_ok_def
      by (auto simp: k' ordered_by_def)
  qed
qed

lemma on_world_cases:
  obtains r x where "on_world err (unlogged act) k = (r, k\<lparr>kn_world := (x, snd (kn_world k))\<rparr>)"
proof -
  from on_world_unlogged [of err act k] obtain x where
    "snd (on_world err (unlogged act) k) = k\<lparr>kn_world := (x, snd (kn_world k))\<rparr>" by blast
  then show ?thesis by (intro that [of "fst (on_world err (unlogged act) k)" x]) (simp add: prod_eq_iff)
qed

definition before_boot :: "'x kernel_ops \<Rightarrow> ('x \<times> lifecycle_log) kernel \<Rightarrow> bool" where
  "before_boot ops k \<longleftrightarrow> calls_ok ops k \<and> kn_state k = KERNEL_BOOTING \<and> call_log k = [] \<and> kn_order k = []"

lemma before_boot_world: "before_boot ops (k\<lparr>kn_world := (x, snd (kn_world k))\<rparr>) \<longleftrightarrow> before_boot ops k"
  by (simp add: before_boot_def calls_ok_world call_log_def)

text \<open>After a failure at any point the state is set to FAILED.\<close>

definition boot_outcome_ok :: "'x kernel_ops \<Rightarrow> (kernel_error + unit) \<times> ('x \<times> lifecycle_log) kernel \<Rightarrow> bool" where
  "boot_outcome_ok ops out \<longleftrightarrow>
     (case fst out of
        Inl _ \<Rightarrow> calls_ok ops (snd out) \<and> kn_state (snd out) \<in> {KERNEL_BOOTING, KERNEL_RUNNING}
      | Inr _ \<Rightarrow> calls_ok ops (snd out) \<and> kn_state (snd out) = KERNEL_RUNNING)"

lemma seq_eff_returned: "m k = (Inr u, k') \<Longrightarrow> seq_eff m f k = f k'"
  by (simp add: seq_eff_def bind_eff_def)

lemma outcome_seq_world:
  assumes "before_boot ops k" "\<And>k'. before_boot ops k' \<Longrightarrow> boot_outcome_ok ops (m k')"
  shows "boot_outcome_ok ops (seq_eff (on_world err (unlogged act)) m k)"
proof -
  obtain r x where a: "on_world err (unlogged act) k = (r, k\<lparr>kn_world := (x, snd (kn_world k))\<rparr>)"
    by (rule on_world_cases)
  note same = before_boot_world [of ops x k]
  show ?thesis
  proof (cases r)
    case (Inl e)
    with a assms(1) same show ?thesis
      by (simp add: seq_eff_def bind_eff_def boot_outcome_ok_def before_boot_def calls_ok_world)
  next
    case (Inr u)
    with a assms same show ?thesis by (simp add: seq_eff_def bind_eff_def)
  qed
qed

lemma boot_rest_ok:
  assumes "before_boot ops k"
  shows "boot_outcome_ok ops
     (seq_eff (boot_engines (logged_kernel ops))
        (seq_eff (set_phase KERNEL_RUNNING) (on_world PublishFailed (ko_publish (logged_kernel ops) topic))) k)"
proof -
  obtain res k' where b: "boot_engines (logged_kernel ops) k = (res, k')" by (cases "boot_engines (logged_kernel ops) k")
  from assms have k': "calls_ok ops k' \<and> kn_state k' = KERNEL_BOOTING"
    "res = Inr () \<Longrightarrow> calls_ok ops (k'\<lparr>kn_state := KERNEL_RUNNING\<rparr>)"
    using boot_engines_ok [OF _ _ _ _ b] by (auto simp: before_boot_def)
  show ?thesis
  proof (cases res)
    case (Inl e)
    with b k' show ?thesis by (simp add: seq_eff_def bind_eff_def boot_outcome_ok_def)
  next
    case (Inr u)
    let ?k = "k'\<lparr>kn_state := KERNEL_RUNNING\<rparr>"
    obtain r x where p: "on_world PublishFailed (unlogged (ko_publish ops topic)) ?k = (r, ?k\<lparr>kn_world := (x, snd (kn_world ?k))\<rparr>)"
      by (rule on_world_cases)
    have running: "seq_eff (set_phase KERNEL_RUNNING) (on_world PublishFailed (ko_publish (logged_kernel ops) topic)) k' =
        (r, ?k\<lparr>kn_world := (x, snd (kn_world ?k))\<rparr>)"
      using p by (simp add: seq_eff_def bind_eff_def set_phase_def modify_def logged_kernel_def)
    have "calls_ok ops (?k\<lparr>kn_world := (x, snd (kn_world ?k))\<rparr>)" using k'(2) Inr unfolding calls_ok_world by simp
    moreover have "seq_eff (boot_engines (logged_kernel ops))
        (seq_eff (set_phase KERNEL_RUNNING) (on_world PublishFailed (ko_publish (logged_kernel ops) topic))) k =
        (r, ?k\<lparr>kn_world := (x, snd (kn_world ?k))\<rparr>)"
      using b Inr running by (subst seq_eff_returned [where k = k]) simp_all
    ultimately show ?thesis by (simp only: boot_outcome_ok_def) (simp split: sum.split)
  qed
qed

lemma boot_kernel_ok:
  assumes "calls_ok ops k"
  shows "calls_ok ops (snd (boot_kernel (logged_kernel ops) k))"
proof (cases "kn_state k = KERNEL_CREATED")
  case False
  with assms show ?thesis by (simp add: boot_kernel_def)
next
  case True
  let ?k = "k\<lparr>kn_state := KERNEL_BOOTING\<rparr>"
  have start: "before_boot ops ?k"
    using assms True calls_ok_phase [OF assms, of KERNEL_BOOTING] by (simp add: before_boot_def calls_ok_def call_log_def)
  let ?m = "seq_eff (on_world DatabaseFailed (unlogged (ko_connect ops)))
    (seq_eff (on_world DatabaseFailed (unlogged (ko_create_tables ops)))
    (seq_eff (boot_engines (logged_kernel ops))
    (seq_eff (set_phase KERNEL_RUNNING) (on_world PublishFailed (ko_publish (logged_kernel ops) ''system.started'')))))"
  have out: "boot_outcome_ok ops (?m ?k)"
    by (intro outcome_seq_world [OF start] outcome_seq_world boot_rest_ok)
  have eq: "boot_kernel (logged_kernel ops) k =
      (case ?m ?k of (Inl e, k') \<Rightarrow> (Inl e, k'\<lparr>kn_state := KERNEL_FAILED\<rparr>) | (Inr u, k') \<Rightarrow> (Inr u, k'))"
    using True by (simp add: boot_kernel_def) (simp add: logged_kernel_def)
  obtain r k' where m: "?m ?k = (r, k')" by (cases "?m ?k")
  show ?thesis
  proof (cases r)
    case (Inl e)
    with out m have "calls_ok ops k'" "kn_state k' \<in> {KERNEL_BOOTING, KERNEL_RUNNING}" by (auto simp: boot_outcome_ok_def)
    then have "calls_ok ops (k'\<lparr>kn_state := KERNEL_FAILED\<rparr>)" by (intro calls_ok_phase) auto
    then show ?thesis unfolding eq m by (simp add: Inl)
  next
    case (Inr u)
    with out m show ?thesis unfolding eq m by (simp add: boot_outcome_ok_def)
  qed
qed

lemma stop_engines_ok:
  assumes "calls_ok ops k" "kn_state k = KERNEL_SHUTTING_DOWN" "Stop_Call \<notin> fst ` set (call_log k)"
  shows "calls_ok ops (stop_engines (logged_kernel ops) k) \<and> kn_state (stop_engines (logged_kernel ops) k) = KERNEL_SHUTTING_DOWN"
proof -
  let ?ns = "if kn_order k \<noteq> [] then rev (kn_order k) else kn_engines k"
  obtain x log where world: "kn_world k = (x, log)" by (cases "kn_world k")
  from stop_each_log [of "ko_engines ops" "kn_engines k" ?ns x log] obtain x' stops where
    s: "stop_each (logged_engines (ko_engines ops)) (kn_engines k) ?ns (x, log) = (x', log @ map (Pair Stop_Call) stops)" "subseq stops ?ns"
    by blast
  have k': "stop_engines (logged_kernel ops) k = k\<lparr>kn_order := kn_order k, kn_world := (x', log @ map (Pair Stop_Call) stops)\<rparr>"
    using s(1) by (auto simp: stop_engines_def shutdown_system_def logged_kernel_def world split: if_splits)
  from assms(1) obtain inits starts stops0 where shape: "log_shape k inits starts stops0" by (auto simp: calls_ok_def)
  with assms(3) have "stops0 = []" by (cases stops0) (auto simp: log_shape_def)
  with shape s(2) assms(2) have "log_shape (stop_engines (logged_kernel ops) k) inits starts stops"
    by (auto simp: k' log_shape_def call_log_def world split: if_splits)
  with assms show ?thesis by (auto simp: k' calls_ok_def ordered_by_def)
qed

lemma shutdown_kernel_ok:
  assumes "calls_ok ops k"
  shows "calls_ok ops (snd (shutdown_kernel (logged_kernel ops) k))"
proof (cases "kn_state k \<in> {KERNEL_RUNNING, KERNEL_BOOTING, KERNEL_FAILED}")
  case False
  then show ?thesis using assms by (simp add: shutdown_kernel_def)
next
  case True
  let ?k1 = "k\<lparr>kn_state := KERNEL_SHUTTING_DOWN\<rparr>"
  have k1: "calls_ok ops ?k1" using assms True by (intro calls_ok_phase) auto
  have unstopped: "Stop_Call \<notin> fst ` set (call_log k)"
    using assms True by (auto simp: calls_ok_def log_shape_def)
  obtain r x where p: "on_world PublishFailed (unlogged (ko_publish ops ''system.stopping'')) ?k1 =
      (r, ?k1\<lparr>kn_world := (x, snd (kn_world ?k1))\<rparr>)" by (rule on_world_cases)
  let ?k2 = "?k1\<lparr>kn_world := (x, snd (kn_world ?k1))\<rparr>"
  let ?k3 = "stop_engines (logged_kernel ops) ?k2"
  have "calls_ok ops ?k2" "Stop_Call \<notin> fst ` set (call_log ?k2)" "kn_state ?k2 = KERNEL_SHUTTING_DOWN"
    using k1 unstopped unfolding calls_ok_world by (auto simp: call_log_def)
  from stop_engines_ok [OF this(1, 3, 2)] have k3: "calls_ok ops ?k3" "kn_state ?k3 = KERNEL_SHUTTING_DOWN" by blast+
  obtain r' x' where d: "on_world DatabaseFailed (unlogged (ko_disconnect ops)) ?k3 = (r', ?k3\<lparr>kn_world := (x', snd (kn_world ?k3))\<rparr>)"
    by (rule on_world_cases)
  let ?k4 = "?k3\<lparr>kn_world := (x', snd (kn_world ?k3))\<rparr>"
  have k4: "calls_ok ops ?k4" "kn_state ?k4 = KERNEL_SHUTTING_DOWN" using k3 unfolding calls_ok_world by auto
  have "snd (shutdown_kernel (logged_kernel ops) k) =
      snd (seq_eff (on_world DatabaseFailed (unlogged (ko_disconnect ops))) (set_phase KERNEL_STOPPED) ?k3)"
    using True p by (simp add: shutdown_kernel_def seq_eff_def bind_eff_def set_phase_def modify_def swallow_def logged_kernel_def)
  also have "\<dots> = (case r' of Inl _ \<Rightarrow> ?k4 | Inr _ \<Rightarrow> ?k4\<lparr>kn_state := KERNEL_STOPPED\<rparr>)"
    using d by (simp add: seq_eff_def bind_eff_def set_phase_def modify_def split: sum.split)
  finally show ?thesis using k4 calls_ok_stopped [OF k4] by (simp split: sum.split)
qed

lemma register_engine_ok:
  assumes "calls_ok ops k"
  shows "calls_ok ops (snd (register_engine (logged_kernel ops) name k))"
proof (cases "kn_state k = KERNEL_CREATED \<and> name \<notin> set (kn_engines k)")
  case False
  then show ?thesis using assms by (auto simp: register_engine_def)
next
  case True
  let ?k = "k\<lparr>kn_engines := kn_engines k @ [name]\<rparr>"
  from on_world_unlogged [of EngineBinding "ko_bind ops name" ?k] obtain x where
    "snd (register_engine (logged_kernel ops) name k) = ?k\<lparr>kn_world := (x, snd (kn_world ?k))\<rparr>"
    using True by (auto simp: register_engine_def logged_kernel_def)
  moreover have "calls_ok ops ?k" using assms True by (auto simp: calls_ok_def log_shape_def call_log_def)
  ultimately show ?thesis by (simp only: calls_ok_world)
qed

lemma calls_ok_step: "calls_ok ops k \<Longrightarrow> calls_ok ops (kernel_step ops k e)"
  by (cases e) (simp_all add: register_engine_ok boot_kernel_ok shutdown_kernel_ok calls_ok_world)

interpretation kcm: invariant_machine "kernel_step ops" "calls_ok ops" for ops
  by unfold_locales (rule calls_ok_step)

lemma calls_ok_new: "calls_ok ops (new_kernel x)"
  by (auto simp: calls_ok_def log_shape_def new_kernel_def call_log_def)

section \<open>Calls\<close>

lemma follows_before:
  assumes "follows es order" "distinct order" "order = xs @ n # ys" "d \<in> set (deps_of es n)"
  shows "d \<in> set xs"
  using assms by (auto simp: follows_def)

lemma deps_of_declared: "n \<in> set (kn_engines k) \<Longrightarrow> deps_of (declared_engines ops k) n = eo_dependencies (ko_engines ops) n"
  using map_of_map_restrict [of "eo_dependencies (ko_engines ops)" "kn_engines k"]
  by (simp add: deps_of_def declared_engines_def dict_get_or_def)

lemma calls_of_kind:
  assumes "call_log k = xs @ (c, n) # ys" "log_shape k inits starts stops"
    "zs = (case c of Initialize_Call \<Rightarrow> inits | Start_Call \<Rightarrow> starts | Stop_Call \<Rightarrow> stops)"
  shows "\<exists>us vs. zs = us @ n # vs \<and> (\<forall>m. (c, m) \<in> set xs \<longleftrightarrow> m \<in> set us)"
proof -
  let ?f = "map snd \<circ> filter (\<lambda>p. fst p = c)"
  have "?f (call_log k) = zs"
    using assms(2, 3) by (cases c) (auto simp: log_shape_def filter_map comp_def)
  then have "zs = ?f xs @ n # ?f ys" using assms(1) by simp
  moreover have "(c, m) \<in> set xs \<longleftrightarrow> m \<in> set (?f xs)" for m by force
  ultimately show ?thesis by blast
qed

lemma subseq_last_mem: "subseq [a, b] xs \<Longrightarrow> b \<in> set xs"
  by (induction xs) (auto simp: subseq_singleton_left split: if_splits)

lemma subseq_two_distinct: "distinct xs \<Longrightarrow> subseq [a, b] xs \<Longrightarrow> subseq [b, a] xs \<Longrightarrow> a = b"
  by (induction xs) (auto simp: subseq_singleton_left split: if_splits dest: subseq_last_mem)

lemma subseq_pair: "a \<in> set us \<Longrightarrow> subseq [a, b] (us @ b # vs)"
  by (induction us) auto

lemma stopped_first:
  assumes "distinct order" "order = as @ n # bs" "d \<in> set as" "subseq (us @ n # vs) (rev order)"
  shows "d \<notin> set us"
proof
  assume "d \<in> set us"
  then have "subseq [d, n] (rev order)" 
    using subseq_order.trans [OF subseq_pair assms(4)] by blast
  moreover have "subseq [n, d] (rev order)"
    using assms(2, 3) by (auto dest!: split_list intro: subseq_pair [of n "rev bs @ n # rev zs" for zs, simplified])
  ultimately have "d = n" using assms(1) by (metis distinct_rev subseq_two_distinct)
  with assms show False by auto
qed

lemma subseq_keeps_distinct: "subseq xs ys \<Longrightarrow> distinct ys \<Longrightarrow> distinct xs"
  by (induction rule: list_emb.induct) (auto dest: list_emb_set)

lemma log_prefix:
  assumes "xs @ z # ys = us @ vs" "z \<notin> set us"
  shows "set us \<subseteq> set xs"
  using assms by (auto simp: append_eq_append_conv2) (auto simp: Cons_eq_append_conv)

text \<open>An entry of the log, after what it had to wait for.\<close>

definition waits_for :: "'x kernel_ops \<Rightarrow> ('x \<times> lifecycle_log) kernel \<Rightarrow> lifecycle_log \<Rightarrow> lifecycle_call \<Rightarrow> string \<Rightarrow> bool" where
  "waits_for ops k before c n \<longleftrightarrow>
     (case c of
        Initialize_Call \<Rightarrow> \<forall>d \<in> set (eo_dependencies (ko_engines ops) n). (Initialize_Call, d) \<in> set before
      | Start_Call \<Rightarrow>
          (\<forall>d \<in> set (eo_dependencies (ko_engines ops) n). (Start_Call, d) \<in> set before) \<and>
          (\<forall>m \<in> set (kn_engines k). (Initialize_Call, m) \<in> set before)
      | Stop_Call \<Rightarrow>
          (\<exists>m. (Initialize_Call, m) \<in> set before) \<longrightarrow>
            (\<forall>d \<in> set (eo_dependencies (ko_engines ops) n). (Stop_Call, d) \<notin> set before))"

lemma ordered_position:
  assumes "ordered_by ops k" "kn_order k = us @ n # vs"
  shows "n \<in> set (kn_engines k)" "set (eo_dependencies (ko_engines ops) n) \<subseteq> set us"
proof -
  show n: "n \<in> set (kn_engines k)" using assms by (auto simp: ordered_by_def)
  show "set (eo_dependencies (ko_engines ops) n) \<subseteq> set us"
    using assms deps_of_declared [OF n, of ops] unfolding ordered_by_def follows_def by metis
qed

lemma ordered_calls:
  assumes ok: "calls_ok ops k" and log: "call_log k = xs @ (c, n) # ys"
  shows "(c, n) \<notin> set xs \<and> n \<in> set (kn_engines k) \<and> waits_for ops k xs c n"
proof -
  from ok obtain inits starts stops where shape: "log_shape k inits starts stops" by (auto simp: calls_ok_def)
  have all: "distinct (kn_order k)" "distinct (kn_engines k)"
    using ok by (auto simp: calls_ok_def ordered_by_def)
  have "distinct (if kn_order k = [] then kn_engines k else rev (kn_order k))" using all by simp
  with shape have "distinct stops" unfolding log_shape_def by (blast intro: subseq_keeps_distinct)
  moreover have "distinct inits" "distinct starts" using shape all(1) by (auto simp: log_shape_def prefix_def)
  ultimately have dist: "distinct inits" "distinct starts" "distinct stops" by blast+
  let ?zs = "case c of Initialize_Call \<Rightarrow> inits | Start_Call \<Rightarrow> starts | Stop_Call \<Rightarrow> stops"
  from calls_of_kind [OF log shape refl] obtain us vs where
    zs: "?zs = us @ n # vs" and before: "\<And>m. (c, m) \<in> set xs \<longleftrightarrow> m \<in> set us" by blast
  have "distinct ?zs" using dist by (simp split: lifecycle_call.split)
  with zs before have new: "(c, n) \<notin> set xs" by auto
  show ?thesis
  proof (cases "kn_order k = []")
    case True
    with shape zs have c: "c = Stop_Call" "inits = []" "n \<in> set (kn_engines k)"
      by (cases c; auto simp: log_shape_def dest!: list_emb_set [where x = n])+
    have "(Initialize_Call, m) \<notin> set (call_log k)" for m
      using shape c(2) by (auto simp: log_shape_def)
    with new c show ?thesis by (auto simp: waits_for_def log)
  next
    case False
    with ok have order: "ordered_by ops k" by (simp add: calls_ok_def)
    show ?thesis
    proof (cases c)
      case Initialize_Call
      with zs shape obtain ws where "kn_order k = us @ n # ws" by (auto simp: log_shape_def prefix_def)
      from ordered_position [OF order this] new before Initialize_Call show ?thesis by (auto simp: waits_for_def)
    next
      case Start_Call
      with zs shape obtain ws where split: "kn_order k = us @ n # ws" and inits: "inits = kn_order k"
        by (auto simp: log_shape_def prefix_def)
      have "set (map (Pair Initialize_Call) inits) \<subseteq> set xs"
        by (rule log_prefix [where z = "(c, n)" and ys = ys]) (use log shape Start_Call in \<open>auto simp: log_shape_def\<close>)
      with inits order have "(Initialize_Call, m) \<in> set xs" if "m \<in> set (kn_engines k)" for m
        using that by (auto simp: ordered_by_def)
      with ordered_position [OF order split] new before Start_Call show ?thesis by (auto simp: waits_for_def)
    next
      case Stop_Call
      with zs shape False have sub: "subseq (us @ n # vs) (rev (kn_order k))" by (simp add: log_shape_def)
      then have "n \<in> set (kn_order k)" by (auto dest: list_emb_set [where x = n])
      then obtain as bs where split: "kn_order k = as @ n # bs" by (auto dest: split_list)
      from stopped_first [OF _ split _ sub] order ordered_position [OF order split] new before Stop_Call
      show ?thesis by (auto simp: waits_for_def ordered_by_def)
    qed
  qed
qed

lemma running_all_started:
  "calls_ok ops k \<Longrightarrow> kn_state k = KERNEL_RUNNING \<Longrightarrow> n \<in> set (kn_engines k) \<Longrightarrow> (Start_Call, n) \<in> set (call_log k)"
  by (auto simp: calls_ok_def log_shape_def)

end
