(* ===== verification/Secrets.thy ===== *)
theory Secrets
  imports Bytes Py_Text Prelude
begin

text \<open>
  The secret vault (\<open>engines/security/secrets.py\<close>): the master key, the authenticated envelope with its
  associated data, and the rows.  AES-GCM and SHA-256 are arguments; encryption takes the randomness
  of its nonce.
\<close>

section \<open>Primitives and errors\<close>

record aead_ops =
  ae_encrypt :: "nat \<Rightarrow> byte list \<Rightarrow> byte list \<Rightarrow> byte list \<Rightarrow> byte list \<times> byte list \<times> byte list"
  ae_decrypt :: "byte list \<Rightarrow> byte list \<Rightarrow> byte list \<Rightarrow> byte list \<Rightarrow> byte list \<Rightarrow> byte list option"
  ae_sha256 :: "byte list \<Rightarrow> byte list"

datatype secret_error =
    MasterKeyError string
  | SecretDecryptionError string
  | SecretNotFoundError string
  | SecretStoreError
  | SecretOverflow
  | SecretNotText

definition ENVELOPE_VERSION :: byte where "ENVELOPE_VERSION = 1"
definition ALGORITHM_ID_AES_256_GCM :: byte where "ALGORITHM_ID_AES_256_GCM = 1"
definition MASTER_KEY_LENGTH_BYTES :: nat where "MASTER_KEY_LENGTH_BYTES = 32"
definition KEY_ID_LENGTH_BYTES :: nat where "KEY_ID_LENGTH_BYTES = 16"
definition NONCE_LENGTH_BYTES :: nat where "NONCE_LENGTH_BYTES = 12"
definition TAG_LENGTH_BYTES :: nat where "TAG_LENGTH_BYTES = 16"
definition ENVELOPE_HEADER_LENGTH :: nat where
  "ENVELOPE_HEADER_LENGTH = 2 + KEY_ID_LENGTH_BYTES + NONCE_LENGTH_BYTES + TAG_LENGTH_BYTES"
definition HEX_MASTER_KEY_CHARS :: nat where "HEX_MASTER_KEY_CHARS = 64"
definition ALGORITHM_LABEL :: string where "ALGORITHM_LABEL = ''aes-256-gcm''"

record secret_vault =
  sv_crypto :: aead_ops
  sv_master_key :: "byte list"
  sv_key_id :: "byte list"

definition secret_vault_with :: "aead_ops \<Rightarrow> byte list \<Rightarrow> secret_error + secret_vault" where
  "secret_vault_with ae key =
     (if length key \<noteq> MASTER_KEY_LENGTH_BYTES
      then Inl (MasterKeyError ''SecretStore master key must be exactly 32 bytes.'')
      else Inr \<lparr>sv_crypto = ae, sv_master_key = key, sv_key_id = take KEY_ID_LENGTH_BYTES (ae_sha256 ae key)\<rparr>)"

definition decode_master_key :: "string \<Rightarrow> secret_error + byte list" where
  "decode_master_key raw =
     (let stripped = strip raw
      in if stripped = [] then Inl (MasterKeyError ''KORTEX_MASTER_KEY is missing or empty.'')
         else (case (if length stripped = HEX_MASTER_KEY_CHARS then fromhex stripped else b64decode stripped) of
                 None \<Rightarrow>
                   Inl (MasterKeyError
                     (if length stripped = HEX_MASTER_KEY_CHARS
                      then ''KORTEX_MASTER_KEY is 64 characters but is not valid hexadecimal.''
                      else ''KORTEX_MASTER_KEY is not a valid 64-character hex string or Base64 string.''))
               | Some decoded \<Rightarrow>
                   if length decoded \<noteq> MASTER_KEY_LENGTH_BYTES
                   then Inl (MasterKeyError ''KORTEX_MASTER_KEY must decode to exactly 32 bytes.'')
                   else Inr decoded))"

section \<open>The envelope\<close>

definition build_aad :: "string \<Rightarrow> string \<Rightarrow> byte \<Rightarrow> byte \<Rightarrow> byte list \<Rightarrow> secret_error + byte list" where
  "build_aad tenant handle version algorithm_id key_id =
     (case encode_parts [] [tenant, handle] of
        None \<Rightarrow> Inl SecretOverflow
      | Some bs \<Rightarrow> Inr (bs @ [version, algorithm_id] @ key_id))"

definition pack_envelope :: "secret_vault \<Rightarrow> byte list \<Rightarrow> byte list \<Rightarrow> byte list \<Rightarrow> byte list" where
  "pack_envelope v nonce ciphertext tag =
     [ENVELOPE_VERSION, ALGORITHM_ID_AES_256_GCM] @ sv_key_id v @ nonce @ tag @ ciphertext"

definition unpack_envelope ::
  "secret_vault \<Rightarrow> byte list \<Rightarrow> secret_error + byte \<times> byte \<times> byte list \<times> byte list \<times> byte list \<times> byte list" where
  "unpack_envelope v blob =
     (if length blob < ENVELOPE_HEADER_LENGTH
      then Inl (SecretDecryptionError ''Encrypted envelope is truncated or malformed.'')
      else (let version = blob ! 0; algorithm_id = blob ! 1;
                key_id = take KEY_ID_LENGTH_BYTES (drop 2 blob);
                nonce_start = 2 + KEY_ID_LENGTH_BYTES;
                nonce = take NONCE_LENGTH_BYTES (drop nonce_start blob);
                tag_start = nonce_start + NONCE_LENGTH_BYTES;
                tag = take TAG_LENGTH_BYTES (drop tag_start blob);
                ciphertext = drop (tag_start + TAG_LENGTH_BYTES) blob
            in if version \<noteq> ENVELOPE_VERSION
               then Inl (SecretDecryptionError ''Unsupported envelope version.'')
               else if algorithm_id \<noteq> ALGORITHM_ID_AES_256_GCM
               then Inl (SecretDecryptionError ''Unsupported envelope algorithm_id.'')
               else if key_id \<noteq> sv_key_id v
               then Inl (SecretDecryptionError ''Envelope key identity does not match the configured master key.'')
               else Inr (version, algorithm_id, key_id, nonce, tag, ciphertext)))"

definition encrypt_secret :: "secret_vault \<Rightarrow> nat \<Rightarrow> string \<Rightarrow> string \<Rightarrow> string \<Rightarrow> secret_error + byte list" where
  "encrypt_secret v random tenant handle plaintext =
     bind_res (build_aad tenant handle ENVELOPE_VERSION ALGORITHM_ID_AES_256_GCM (sv_key_id v)) (\<lambda>aad.
       case ae_encrypt (sv_crypto v) random (utf8 plaintext) (sv_master_key v) aad of
         (nonce, ciphertext, tag) \<Rightarrow> Inr (pack_envelope v nonce ciphertext tag))"

definition decrypt_secret :: "secret_vault \<Rightarrow> string \<Rightarrow> string \<Rightarrow> byte list \<Rightarrow> secret_error + string" where
  "decrypt_secret v tenant handle blob =
     bind_res (unpack_envelope v blob) (\<lambda>(version, algorithm_id, key_id, nonce, tag, ciphertext).
     bind_res (build_aad tenant handle version algorithm_id key_id) (\<lambda>aad.
       case ae_decrypt (sv_crypto v) nonce ciphertext tag (sv_master_key v) aad of
         None \<Rightarrow> Inl (SecretDecryptionError ''Secret decryption failed: ciphertext, tag, or associated metadata mismatch.'')
       | Some bs \<Rightarrow> (case utf8_decode bs of None \<Rightarrow> Inl SecretNotText | Some s \<Rightarrow> Inr s)))"

section \<open>Rows\<close>

text \<open>\<open>None\<close> for the table is a failing data store.\<close>

record secret_record =
  se_tenant :: string
  se_handle :: string
  se_payload :: "byte list"
  se_algorithm :: string
  se_created :: int
  se_updated :: int

definition secret_at :: "string \<Rightarrow> string \<Rightarrow> secret_record \<Rightarrow> bool" where
  "secret_at tenant handle r \<longleftrightarrow> se_tenant r = tenant \<and> se_handle r = handle"

definition find_secret :: "string \<Rightarrow> string \<Rightarrow> secret_record list \<Rightarrow> secret_error + secret_record option" where
  "find_secret tenant handle rows =
     (case filter (secret_at tenant handle) rows of [] \<Rightarrow> Inr None | [r] \<Rightarrow> Inr (Some r) | _ \<Rightarrow> Inl SecretStoreError)"

definition get_secret :: "secret_vault \<Rightarrow> string \<Rightarrow> string \<Rightarrow> secret_record list option \<Rightarrow> secret_error + string" where
  "get_secret v handle tenant table =
     (case table of
        None \<Rightarrow> Inl SecretStoreError
      | Some rows \<Rightarrow>
          bind_res (find_secret tenant handle rows) (\<lambda>found.
            case found of None \<Rightarrow> Inl (SecretNotFoundError handle) | Some r \<Rightarrow> decrypt_secret v tenant handle (se_payload r)))"

definition put_secret ::
  "secret_vault \<Rightarrow> nat \<Rightarrow> int \<Rightarrow> string \<Rightarrow> string \<Rightarrow> string \<Rightarrow> secret_record list option \<Rightarrow>
   secret_error + secret_record \<times> secret_record list" where
  "put_secret v random now handle tenant plaintext table =
     bind_res (encrypt_secret v random tenant handle plaintext) (\<lambda>payload.
       case table of
         None \<Rightarrow> Inl SecretStoreError
       | Some rows \<Rightarrow>
           bind_res (find_secret tenant handle rows) (\<lambda>found.
             case found of
               Some r \<Rightarrow>
                 (let r' = r\<lparr>se_payload := payload, se_updated := now\<rparr>
                  in Inr (r', map (\<lambda>x. if secret_at tenant handle x then r' else x) rows))
             | None \<Rightarrow>
                 (let r' = \<lparr>se_tenant = tenant, se_handle = handle, se_payload = payload, se_algorithm = ALGORITHM_LABEL,
                            se_created = now, se_updated = now\<rparr>
                  in Inr (r', rows @ [r']))))"

definition delete_secret :: "string \<Rightarrow> string \<Rightarrow> secret_record list option \<Rightarrow> secret_error + bool \<times> secret_record list" where
  "delete_secret handle tenant table =
     (case table of
        None \<Rightarrow> Inl SecretStoreError
      | Some rows \<Rightarrow>
          bind_res (find_secret tenant handle rows) (\<lambda>found.
            case found of
              None \<Rightarrow> Inr (False, rows)
            | Some _ \<Rightarrow> Inr (True, filter (\<lambda>x. \<not> secret_at tenant handle x) rows)))"

section \<open>Facts\<close>

text \<open>What the primitives are expected to do.\<close>

definition aead_sound :: "aead_ops \<Rightarrow> bool" where
  "aead_sound ae \<longleftrightarrow>
     (\<forall>random m key aad nonce c tag. ae_encrypt ae random m key aad = (nonce, c, tag) \<longrightarrow>
        length nonce = NONCE_LENGTH_BYTES \<and> length tag = TAG_LENGTH_BYTES \<and> ae_decrypt ae nonce c tag key aad = Some m) \<and>
     (\<forall>bs. length (ae_sha256 ae bs) = 32)"

definition vault_of :: "secret_vault \<Rightarrow> bool" where
  "vault_of v \<longleftrightarrow> secret_vault_with (sv_crypto v) (sv_master_key v) = Inr v"

lemma key_id_length: "vault_of v \<Longrightarrow> aead_sound (sv_crypto v) \<Longrightarrow> length (sv_key_id v) = KEY_ID_LENGTH_BYTES"
  by (cases v) (auto simp: vault_of_def secret_vault_with_def aead_sound_def KEY_ID_LENGTH_BYTES_def split: if_splits)

lemma unpack_pack:
  assumes "length (sv_key_id v) = KEY_ID_LENGTH_BYTES" "length nonce = NONCE_LENGTH_BYTES" "length tag = TAG_LENGTH_BYTES"
  shows "unpack_envelope v (pack_envelope v nonce c tag) =
     Inr (ENVELOPE_VERSION, ALGORITHM_ID_AES_256_GCM, sv_key_id v, nonce, tag, c)"
  using assms
  by (simp add: unpack_envelope_def pack_envelope_def ENVELOPE_HEADER_LENGTH_def Let_def NONCE_LENGTH_BYTES_def
      TAG_LENGTH_BYTES_def KEY_ID_LENGTH_BYTES_def)

lemma unpack_Inr:
  "unpack_envelope v blob = Inr (version, algorithm_id, key_id, nonce, tag, c) \<Longrightarrow>
     version = ENVELOPE_VERSION \<and> algorithm_id = ALGORITHM_ID_AES_256_GCM \<and> key_id = sv_key_id v"
  by (auto simp: unpack_envelope_def Let_def split: if_splits)

lemma decrypt_encrypt:
  assumes "vault_of v" "aead_sound (sv_crypto v)" "encrypt_secret v random tenant handle plaintext = Inr blob"
  shows "decrypt_secret v tenant handle blob = Inr plaintext"
proof -
  from assms(3) obtain aad where aad: "build_aad tenant handle ENVELOPE_VERSION ALGORITHM_ID_AES_256_GCM (sv_key_id v) = Inr aad"
    by (auto simp: encrypt_secret_def bind_res_Inr_iff)
  obtain nonce c tag where sealed: "ae_encrypt (sv_crypto v) random (utf8 plaintext) (sv_master_key v) aad = (nonce, c, tag)"
    by (metis prod_cases3)
  with aad assms(3) have blob: "blob = pack_envelope v nonce c tag" by (simp add: encrypt_secret_def)
  from assms(2) sealed have "length nonce = NONCE_LENGTH_BYTES" "length tag = TAG_LENGTH_BYTES"
    and opened: "ae_decrypt (sv_crypto v) nonce c tag (sv_master_key v) aad = Some (utf8 plaintext)"
    unfolding aead_sound_def by blast+
  from unpack_pack [OF key_id_length [OF assms(1, 2)] this(1, 2)] opened aad
  show ?thesis by (simp add: decrypt_secret_def blob)
qed

lemma build_aad_inject:
  assumes "build_aad t h a b k = Inr x" "build_aad t' h' a b k = Inr x"
  shows "t = t' \<and> h = h'"
proof -
  from assms obtain bs bs' where "encode_parts [] [t, h] = Some bs" "x = bs @ [a, b] @ k"
    "encode_parts [] [t', h'] = Some bs'" "x = bs' @ [a, b] @ k"
    by (auto simp: build_aad_def split: option.splits)
  with encode_parts_inject [of "[]" "[t, h]" bs "[t', h']"] show ?thesis by simp
qed

text \<open>
  Ciphertexts that open were sealed by the vault: the log holds the tenant, handle and plaintext of
  every sealing.
\<close>

definition only_sealed :: "secret_vault \<Rightarrow> (string \<times> string \<times> string) list \<Rightarrow> bool" where
  "only_sealed v log \<longleftrightarrow>
     (\<forall>nonce c tag aad m. ae_decrypt (sv_crypto v) nonce c tag (sv_master_key v) aad = Some m \<longrightarrow>
        (\<exists>(t, h, s) \<in> set log. build_aad t h ENVELOPE_VERSION ALGORITHM_ID_AES_256_GCM (sv_key_id v) = Inr aad \<and> m = utf8 s))"

lemma decrypted_was_sealed:
  assumes "only_sealed v log" "decrypt_secret v tenant handle blob = Inr s"
  shows "(tenant, handle, s) \<in> set log"
proof -
  obtain version algorithm_id key_id nonce tag c where u: "unpack_envelope v blob = Inr (version, algorithm_id, key_id, nonce, tag, c)"
    using assms(2) by (auto simp: decrypt_secret_def bind_res_Inr_iff)
  note header = unpack_Inr [OF u]
  obtain aad where aad: "build_aad tenant handle ENVELOPE_VERSION ALGORITHM_ID_AES_256_GCM (sv_key_id v) = Inr aad"
    using assms(2) u header by (auto simp: decrypt_secret_def bind_res_Inr_iff)
  obtain bs where bs: "ae_decrypt (sv_crypto v) nonce c tag (sv_master_key v) aad = Some bs" "utf8_decode bs = Some s"
    using assms(2) u header aad by (auto simp: decrypt_secret_def bind_res_Inr_iff split: option.splits)
  with assms(1) obtain t h s' where log: "(t, h, s') \<in> set log"
    "build_aad t h ENVELOPE_VERSION ALGORITHM_ID_AES_256_GCM (sv_key_id v) = Inr aad" "bs = utf8 s'"
    unfolding only_sealed_def by fast
  with bs(2) build_aad_inject [OF aad log(2)] show ?thesis by simp
qed

definition vault_rows_ok :: "secret_record list \<Rightarrow> bool" where
  "vault_rows_ok rows \<longleftrightarrow> distinct (map (\<lambda>r. (se_tenant r, se_handle r)) rows)"

lemma find_secret_ok:
  assumes "vault_rows_ok rows"
  shows "find_secret t h rows = Inr (find (secret_at t h) rows)"
  using assms
proof (induction rows)
  case Nil
  then show ?case by (simp add: find_secret_def)
next
  case (Cons r rows)
  show ?case
  proof (cases "secret_at t h r")
    case True
    then have key: "(se_tenant r, se_handle r) = (t, h)" by (simp add: secret_at_def)
    have "filter (secret_at t h) rows = []"
    proof (rule filter_False, rule ballI, rule notI)
      fix x assume "x \<in> set rows" "secret_at t h x"
      then have "(t, h) \<in> (\<lambda>r. (se_tenant r, se_handle r)) ` set rows"
        by (auto simp: secret_at_def intro: rev_image_eqI)
      with Cons.prems key show False by (simp add: vault_rows_ok_def)
    qed
    with True show ?thesis by (simp add: find_secret_def)
  next
    case False
    with Cons show ?thesis by (simp add: find_secret_def vault_rows_ok_def)
  qed
qed

lemma find_append_one: "find P (xs @ [y]) = (case find P xs of None \<Rightarrow> if P y then Some y else None | Some x \<Rightarrow> Some x)"
  by (induction xs) auto

lemma find_put:
  assumes "vault_rows_ok rows" "put_secret v random now handle tenant plaintext (Some rows) = Inr (r, rows')"
    "encrypt_secret v random tenant handle plaintext = Inr payload"
  shows "vault_rows_ok rows' \<and> se_payload r = payload \<and>
     (\<forall>t h. find (secret_at t h) rows' = (if (t, h) = (tenant, handle) then Some r else find (secret_at t h) rows))"
proof (cases "find (secret_at tenant handle) rows")
  case None
  with assms find_secret_ok [OF assms(1)] have r: "rows' = rows @ [r]" "se_tenant r = tenant" "se_handle r = handle" "se_payload r = payload"
    by (auto simp: put_secret_def Let_def)
  from None have absent: "\<forall>x \<in> set rows. \<not> secret_at tenant handle x" by (simp add: find_None_iff)
  then have "(tenant, handle) \<notin> (\<lambda>r. (se_tenant r, se_handle r)) ` set rows" by (auto simp: secret_at_def)
  moreover have "find (secret_at t h) (rows @ [r]) = (if (t, h) = (tenant, handle) then Some r else find (secret_at t h) rows)" for t h
    using None r by (auto simp: find_append_one secret_at_def split: option.split)
  ultimately show ?thesis using assms(1) r by (simp add: vault_rows_ok_def)
next
  case (Some old)
  then have at: "secret_at tenant handle old" by (metis find_Some_iff)
  let ?r = "old\<lparr>se_payload := payload, se_updated := now\<rparr>"
  let ?f = "\<lambda>x. if secret_at tenant handle x then ?r else x"
  from Some assms find_secret_ok [OF assms(1)] have r: "r = ?r" "rows' = map ?f rows"
    by (auto simp: put_secret_def Let_def)
  have key: "(se_tenant (?f x), se_handle (?f x)) = (se_tenant x, se_handle x)" for x
    using at by (auto simp: secret_at_def)
  then have "map (\<lambda>r. (se_tenant r, se_handle r)) rows' = map (\<lambda>r. (se_tenant r, se_handle r)) rows"
    unfolding r(2) map_map comp_def by simp
  then have "vault_rows_ok rows'" using assms(1) by (simp add: vault_rows_ok_def)
  moreover have "find (secret_at t h) (map ?f xs) =
      (if (t, h) = (tenant, handle) then map_option (\<lambda>_. ?r) (find (secret_at t h) xs) else find (secret_at t h) xs)" for t h xs
    using at by (induction xs) (auto simp: secret_at_def)
  ultimately show ?thesis using Some r at by auto
qed

end
