(* ===== verification/Enrollment.thy ===== *)
theory Enrollment
  imports Authentication
begin

text \<open>
  The enrollment of agents (\<open>engines/security/agent_enrollment.py\<close>) and their sessions
  (\<open>agent_session.py\<close>).  The certificate authority and the hash are arguments.  The token row is read
  under its lock; the check that a machine has no principal can read rows older than the table, which
  the unique key of the machine makes up for.
\<close>

section \<open>Tokens\<close>

record enrollment_token =
  et_tenant :: string
  et_hash :: string
  et_expires :: instant
  et_consumed :: "instant option"
  et_principal :: "string option"
  et_csr :: "string option"
  et_machine :: "string option"
  et_certificate :: "byte list option"
  et_fingerprint :: "string option"

record enrollment_db =
  ed_tokens :: "enrollment_token list"
  ed_accounts :: auth_store

text \<open>\<open>en_sign\<close> is \<^const>\<open>None\<close> for a request that the certificate authority refuses.\<close>

record enrollment_ops =
  en_sha256 :: "byte list \<Rightarrow> string"
  en_sign :: "byte list \<Rightarrow> string \<Rightarrow> byte list option"
  en_fingerprint :: "byte list \<Rightarrow> string"
  en_isoformat :: "instant \<Rightarrow> string"

datatype enrollment_error =
    EnrollmentRejected
  | EnrollmentConflict
  | EnrollmentInvariant
  | CsrInvalid
  | CaUnavailable
  | EnrollmentIntegrity

datatype enrollment_phase = TOKEN_AVAILABLE | TOKEN_EXPIRED | ENROLLMENT_COMPLETED | ENROLLMENT_PARTIAL

definition TOKEN_VALIDITY_HOURS :: int where "TOKEN_VALIDITY_HOURS = 24"

definition hash_token :: "enrollment_ops \<Rightarrow> string \<Rightarrow> enrollment_error + string" where
  "hash_token en raw = (if \<forall>c \<in> set raw. (of_char c :: nat) < 128 then Inr (en_sha256 en (utf8 raw)) else Inl EnrollmentRejected)"

definition completion_fields :: "enrollment_token \<Rightarrow> bool list" where
  "completion_fields r =
     [et_consumed r \<noteq> None, et_principal r \<noteq> None, et_csr r \<noteq> None, et_machine r \<noteq> None, et_certificate r \<noteq> None,
      et_fingerprint r \<noteq> None]"

definition enrollment_state :: "enrollment_token \<Rightarrow> instant \<Rightarrow> enrollment_phase" where
  "enrollment_state r now =
     (let populated = length (filter id (completion_fields r))
      in if populated = length (completion_fields r) then ENROLLMENT_COMPLETED
         else if 0 < populated then ENROLLMENT_PARTIAL
         else if et_expires r \<le> now then TOKEN_EXPIRED else TOKEN_AVAILABLE)"

definition lock_token :: "string \<Rightarrow> enrollment_db \<Rightarrow> enrollment_token option" where
  "lock_token token_hash db = find (\<lambda>r. et_hash r = token_hash) (ed_tokens db)"

definition create_enrollment_token ::
  "enrollment_ops \<Rightarrow> instant \<Rightarrow> string \<Rightarrow> string \<Rightarrow> int \<Rightarrow> enrollment_db \<Rightarrow> (enrollment_error + string) \<times> enrollment_db" where
  "create_enrollment_token en now raw tenant validity_hours db =
     (case hash_token en raw of
        Inl e \<Rightarrow> (Inl e, db)
      | Inr h \<Rightarrow>
          if h \<in> et_hash ` set (ed_tokens db) then (Inl EnrollmentIntegrity, db)
          else (Inr raw, db\<lparr>ed_tokens := ed_tokens db @
                 [\<lparr>et_tenant = tenant, et_hash = h, et_expires = now + validity_hours * 3600, et_consumed = None,
                   et_principal = None, et_csr = None, et_machine = None, et_certificate = None, et_fingerprint = None\<rparr>]\<rparr>))"

section \<open>Enrollment\<close>

definition replay_or_refuse :: "enrollment_token \<Rightarrow> string \<Rightarrow> string \<Rightarrow> enrollment_error + byte list" where
  "replay_or_refuse r csr_digest machine =
     (if et_csr r \<noteq> Some csr_digest then Inl EnrollmentRejected
      else if et_machine r \<noteq> Some machine then Inl EnrollmentRejected
      else (case et_certificate r of None \<Rightarrow> Inl EnrollmentInvariant | Some c \<Rightarrow> Inr c))"

definition agent_row :: "enrollment_ops \<Rightarrow> instant \<Rightarrow> string \<Rightarrow> string \<Rightarrow> string \<Rightarrow> principal_record" where
  "agent_row en now tenant principal_id machine =
     \<lparr>pc_tenant = tenant, pc_principal = principal_id, pc_type = principal_type_value PT_AGENT, pc_enabled = True,
      pc_credential = None, pc_roles = [''agent''], pc_attributes = [(''enrolled_at'', PStr (en_isoformat en now))],
      pc_email = None, pc_machine = Some machine\<rparr>"

definition complete_token ::
  "instant \<Rightarrow> string \<Rightarrow> string \<Rightarrow> string \<Rightarrow> byte list \<Rightarrow> string \<Rightarrow> enrollment_token \<Rightarrow> enrollment_token" where
  "complete_token now principal_id csr_digest machine certificate fingerprint r =
     r\<lparr>et_consumed := Some now, et_principal := Some principal_id, et_csr := Some csr_digest, et_machine := Some machine,
       et_certificate := Some certificate, et_fingerprint := Some fingerprint\<rparr>"

text \<open>\<open>seen\<close> are the principals that the check of the machine has read.\<close>

definition new_enrollment ::
  "enrollment_ops \<Rightarrow> instant \<Rightarrow> string \<Rightarrow> byte list \<Rightarrow> string \<Rightarrow> string \<Rightarrow> principal_record list \<Rightarrow> enrollment_token \<Rightarrow>
   enrollment_db \<Rightarrow> enrollment_error + byte list \<times> enrollment_db" where
  "new_enrollment en now principal_id csr csr_digest machine seen r db =
     (if Some machine \<in> pc_machine ` set seen then Inl EnrollmentConflict
      else (case insert_principal (agent_row en now (et_tenant r) principal_id machine) (ed_accounts db) of
              Inl _ \<Rightarrow> Inl EnrollmentIntegrity
            | Inr accounts \<Rightarrow>
                (case en_sign en csr principal_id of
                   None \<Rightarrow> Inl CsrInvalid
                 | Some certificate \<Rightarrow>
                     Inr (certificate,
                       db\<lparr>ed_accounts := accounts,
                          ed_tokens := map (\<lambda>x. if et_hash x = et_hash r
                            then complete_token now principal_id csr_digest machine certificate (en_fingerprint en certificate) x
                            else x) (ed_tokens db)\<rparr>))))"

definition enroll_in_transaction ::
  "enrollment_ops \<Rightarrow> instant \<Rightarrow> string \<Rightarrow> byte list \<Rightarrow> string \<Rightarrow> string \<Rightarrow> string \<Rightarrow> principal_record list \<Rightarrow>
   enrollment_db \<Rightarrow> enrollment_error + byte list \<times> enrollment_db" where
  "enroll_in_transaction en now principal_id csr token_hash csr_digest machine seen db =
     (case lock_token token_hash db of
        None \<Rightarrow> Inl EnrollmentRejected
      | Some r \<Rightarrow>
          (case enrollment_state r now of
             ENROLLMENT_COMPLETED \<Rightarrow> bind_res (replay_or_refuse r csr_digest machine) (\<lambda>c. Inr (c, db))
           | ENROLLMENT_PARTIAL \<Rightarrow> Inl EnrollmentInvariant
           | TOKEN_EXPIRED \<Rightarrow> Inl EnrollmentRejected
           | TOKEN_AVAILABLE \<Rightarrow> new_enrollment en now principal_id csr csr_digest machine seen r db))"

definition replay_completed_enrollment :: "instant \<Rightarrow> string \<Rightarrow> string \<Rightarrow> string \<Rightarrow> enrollment_db \<Rightarrow> enrollment_error + byte list" where
  "replay_completed_enrollment now token_hash csr_digest machine db =
     (case lock_token token_hash db of
        None \<Rightarrow> Inl EnrollmentRejected
      | Some r \<Rightarrow>
          (case enrollment_state r now of
             ENROLLMENT_COMPLETED \<Rightarrow> replay_or_refuse r csr_digest machine
           | ENROLLMENT_PARTIAL \<Rightarrow> Inl EnrollmentInvariant
           | _ \<Rightarrow> Inl EnrollmentConflict))"

text \<open>A violated unique key sends the request to what has been committed.\<close>

definition enroll_seeing ::
  "enrollment_ops \<Rightarrow> bool \<Rightarrow> instant \<Rightarrow> string \<Rightarrow> string \<Rightarrow> byte list \<Rightarrow> string \<Rightarrow> principal_record list \<Rightarrow>
   enrollment_db \<Rightarrow> (enrollment_error + byte list) \<times> enrollment_db" where
  "enroll_seeing en ca_loaded now principal_id raw csr machine seen db =
     (case hash_token en raw of
        Inl e \<Rightarrow> (Inl e, db)
      | Inr h \<Rightarrow>
          if \<not> ca_loaded then (Inl CaUnavailable, db)
          else (case enroll_in_transaction en now principal_id csr h (en_sha256 en csr) machine seen db of
                  Inr (c, db') \<Rightarrow> (Inr c, db')
                | Inl EnrollmentIntegrity \<Rightarrow> (replay_completed_enrollment now h (en_sha256 en csr) machine db, db)
                | Inl e \<Rightarrow> (Inl e, db)))"

definition enroll ::
  "enrollment_ops \<Rightarrow> bool \<Rightarrow> instant \<Rightarrow> string \<Rightarrow> string \<Rightarrow> byte list \<Rightarrow> string \<Rightarrow>
   enrollment_db \<Rightarrow> (enrollment_error + byte list) \<times> enrollment_db" where
  "enroll en ca_loaded now principal_id raw csr machine db =
     enroll_seeing en ca_loaded now principal_id raw csr machine (au_principals (ed_accounts db)) db"

section \<open>Sessions\<close>

record agent_identity =
  ai_principal :: string
  ai_tenant :: string
  ai_machine :: "string option"

datatype agent_session_error = AgentDenied | AgentUnavailable

definition may_hold_session :: "principal_record \<Rightarrow> bool" where
  "may_hold_session r \<longleftrightarrow> pc_type r = principal_type_value PT_AGENT \<and> pc_enabled r"

text \<open>\<open>None\<close> for the table is a database that cannot be read.\<close>

definition authorize_agent :: "string \<Rightarrow> principal_record list option \<Rightarrow> agent_session_error + agent_identity" where
  "authorize_agent principal_id table =
     (case table of
        None \<Rightarrow> Inl AgentUnavailable
      | Some rows \<Rightarrow>
          (case find (\<lambda>r. pc_principal r = principal_id) rows of
             None \<Rightarrow> Inl AgentDenied
           | Some r \<Rightarrow>
               if may_hold_session r
               then Inr \<lparr>ai_principal = pc_principal r, ai_tenant = pc_tenant r, ai_machine = pc_machine r\<rparr>
               else Inl AgentDenied))"

definition still_authorized :: "string list \<Rightarrow> principal_record list option \<Rightarrow> agent_session_error + string set" where
  "still_authorized ids table =
     (if ids = [] then Inr {}
      else (case table of
              None \<Rightarrow> Inl AgentUnavailable
            | Some rows \<Rightarrow> Inr (pc_principal ` set (filter (\<lambda>r. pc_principal r \<in> set ids \<and> may_hold_session r) rows))))"

end
