(* ===== verification/Enrollment_Correct.thy ===== *)
theory Enrollment_Correct
  imports Enrollment
begin

text \<open>
  Any sequence of token creations and enrollments, with checks that may have read older rows: a
  completed enrollment never changes, none is partial, and a machine has one principal.
\<close>

section \<open>Runs\<close>

datatype enrollment_event =
    Token_Created instant string string int
  | Agent_Enrolled bool instant string string "byte list" string "principal_record list"

fun enrollment_step :: "enrollment_ops \<Rightarrow> enrollment_db \<Rightarrow> enrollment_event \<Rightarrow> enrollment_db" where
  "enrollment_step en db (Token_Created now raw tenant hours) = snd (create_enrollment_token en now raw tenant hours db)"
| "enrollment_step en db (Agent_Enrolled ca now pid raw csr machine seen) = snd (enroll_seeing en ca now pid raw csr machine seen db)"

definition completed_token :: "enrollment_token \<Rightarrow> bool" where
  "completed_token r \<longleftrightarrow> (\<forall>b \<in> set (completion_fields r). b)"

definition untouched_token :: "enrollment_token \<Rightarrow> bool" where
  "untouched_token r \<longleftrightarrow> (\<forall>b \<in> set (completion_fields r). \<not> b)"

lemma enrollment_state_completed: "completed_token r \<Longrightarrow> enrollment_state r now = ENROLLMENT_COMPLETED"
  by (simp add: enrollment_state_def completed_token_def Let_def)

lemma enrollment_state_untouched:
  "untouched_token r \<Longrightarrow> enrollment_state r now = (if et_expires r \<le> now then TOKEN_EXPIRED else TOKEN_AVAILABLE)"
  by (simp add: enrollment_state_def untouched_token_def Let_def completion_fields_def)

lemma available_untouched: "enrollment_state r now = TOKEN_AVAILABLE \<Longrightarrow> untouched_token r"
  by (simp add: enrollment_state_def untouched_token_def Let_def completion_fields_def split: if_splits)

lemma complete_token_hash [simp]: "et_hash (complete_token now pid digest machine c f r) = et_hash r"
  by (simp add: complete_token_def)

lemma complete_token_completed: "completed_token (complete_token now pid digest machine c f r)"
  by (simp add: completed_token_def completion_fields_def complete_token_def)

text \<open>The principal an enrollment has created.\<close>

definition principal_of_token :: "enrollment_db \<Rightarrow> enrollment_token \<Rightarrow> bool" where
  "principal_of_token db r \<longleftrightarrow>
     (\<exists>p \<in> set (au_principals (ed_accounts db)). pc_tenant p = et_tenant r \<and> Some (pc_principal p) = et_principal r \<and>
        pc_type p = principal_type_value PT_AGENT \<and> pc_machine p = et_machine r)"

definition enrollment_ok :: "enrollment_db \<Rightarrow> bool" where
  "enrollment_ok db \<longleftrightarrow>
     distinct (map et_hash (ed_tokens db)) \<and> unique_set (map pc_machine (au_principals (ed_accounts db))) \<and>
     unique_set (map et_machine (ed_tokens db)) \<and>
     (\<forall>r \<in> set (ed_tokens db). untouched_token r \<or> completed_token r \<and> principal_of_token db r)"

section \<open>One enrollment\<close>

lemma enroll_cases:
  assumes "enroll_seeing en ca now pid raw csr machine seen db = (res, db')"
  obtains (same) "db' = db"
  | (enrolled) h r certificate accounts where "hash_token en raw = Inr h" "lock_token h db = Some r" "untouched_token r"
      "insert_principal (agent_row en now (et_tenant r) pid machine) (ed_accounts db) = Inr accounts" "res = Inr certificate"
      "db' = db\<lparr>ed_accounts := accounts,
         ed_tokens := map (\<lambda>x. if et_hash x = et_hash r
           then complete_token now pid (en_sha256 en csr) machine certificate (en_fingerprint en certificate) x else x) (ed_tokens db)\<rparr>"
proof (cases "db' = db")
  case True
  then show ?thesis by (rule same)
next
  case False
  with assms obtain h c where h: "hash_token en raw = Inr h"
    and tx: "enroll_in_transaction en now pid csr h (en_sha256 en csr) machine seen db = Inr (c, db')" and res: "res = Inr c"
    by (auto simp: enroll_seeing_def split: sum.splits if_splits prod.splits enrollment_error.splits)
  from tx False obtain r where r: "lock_token h db = Some r" and state: "enrollment_state r now = TOKEN_AVAILABLE"
    and new: "new_enrollment en now pid csr (en_sha256 en csr) machine seen r db = Inr (c, db')"
    by (auto simp: enroll_in_transaction_def bind_res_Inr_iff split: option.splits enrollment_phase.splits)
  from new obtain accounts where "insert_principal (agent_row en now (et_tenant r) pid machine) (ed_accounts db) = Inr accounts"
    "db' = db\<lparr>ed_accounts := accounts,
       ed_tokens := map (\<lambda>x. if et_hash x = et_hash r
         then complete_token now pid (en_sha256 en csr) machine c (en_fingerprint en c) x else x) (ed_tokens db)\<rparr>"
    by (auto simp: new_enrollment_def split: if_splits sum.splits option.splits)
  with h r available_untouched [OF state] res show ?thesis by (intro enrolled)
qed

lemma unique_set_snoc_Some: "unique_set (ks @ [Some k]) \<longleftrightarrow> unique_set ks \<and> Some k \<notin> set ks"
  by (auto simp: unique_set_def)

lemma insert_principal_Inr:
  "insert_principal p st = Inr st' \<Longrightarrow>
     st' = st\<lparr>au_principals := au_principals st @ [p]\<rparr> \<and> no_clash (pc_machine p) (map pc_machine (au_principals st))"
  by (simp add: insert_principal_def split: if_splits)

lemma unique_set_replace:
  assumes "distinct (map key rows)" "unique_set (map val rows)" "Some v \<notin> val ` set rows"
    "\<And>x. x \<in> set rows \<Longrightarrow> key x = k \<Longrightarrow> val (f x) = Some v"
  shows "unique_set (map (\<lambda>x. val (if key x = k then f x else x)) rows)"
  using assms
proof (induction rows)
  case Nil
  then show ?case by (simp add: unique_set_def)
next
  case (Cons y rows)
  have tail: "unique_set (map val rows)" using Cons.prems(2) by (simp add: unique_set_def split: if_splits)
  show ?case
  proof (cases "key y = k")
    case True
    have "key y \<notin> key ` set rows" using Cons.prems(1) by simp
    with True have "key x \<noteq> k" if "x \<in> set rows" for x using that by (metis imageI)
    then have rest: "map (\<lambda>x. val (if key x = k then f x else x)) rows = map val rows" by simp
    have "val (f y) = Some v" using Cons.prems(4) True by simp
    moreover have "Some v \<notin> val ` set rows" using Cons.prems(3) by auto
    moreover have "map (\<lambda>x. val (if key x = k then f x else x)) (y # rows) = val (f y) # map val rows"
      using True rest by simp
    ultimately show ?thesis using tail by (simp only:) (simp add: unique_set_def)
  next
    case False
    have "unique_set (map (\<lambda>x. val (if key x = k then f x else x)) rows)"
      using Cons.IH Cons.prems tail by auto
    moreover have "val y \<notin> (\<lambda>x. val (if key x = k then f x else x)) ` set rows" if "val y \<noteq> None"
    proof
      assume "val y \<in> (\<lambda>x. val (if key x = k then f x else x)) ` set rows"
      then obtain x where "x \<in> set rows" "val y = val (if key x = k then f x else x)" by blast
      then show False using Cons.prems(2, 3) Cons.prems(4) [of x] that
        by (auto simp: unique_set_def split: if_splits)
    qed
    ultimately show ?thesis using False by (simp add: unique_set_def)
  qed
qed

lemma lock_token_mem: "lock_token h db = Some r \<Longrightarrow> r \<in> set (ed_tokens db) \<and> et_hash r = h"
  by (auto simp: lock_token_def find_Some_iff)

lemma enrollment_ok_step: "enrollment_ok db \<Longrightarrow> enrollment_ok (enrollment_step en db e)"
proof (cases e)
  case (Token_Created now raw tenant hours)
  assume inv: "enrollment_ok db"
  show ?thesis
  proof (cases "hash_token en raw")
    case (Inl x)
    with inv show ?thesis by (simp add: Token_Created create_enrollment_token_def)
  next
    case (Inr h)
    with inv show ?thesis
      by (auto simp: Token_Created create_enrollment_token_def enrollment_ok_def unique_set_def untouched_token_def
          completion_fields_def principal_of_token_def)
  qed
next
  case (Agent_Enrolled ca now pid raw csr machine seen)
  assume inv: "enrollment_ok db"
  obtain res db' where d: "enroll_seeing en ca now pid raw csr machine seen db = (res, db')" by fastforce
  from d have "enrollment_ok db'"
  proof (cases rule: enroll_cases)
    case same
    with inv show ?thesis by simp
  next
    case (enrolled h r certificate accounts)
    let ?p = "agent_row en now (et_tenant r) pid machine"
    let ?f = "complete_token now pid (en_sha256 en csr) machine certificate (en_fingerprint en certificate)"
    let ?g = "\<lambda>x. if et_hash x = et_hash r then ?f x else x"
    from lock_token_mem [OF enrolled(2)] have r: "r \<in> set (ed_tokens db)" "et_hash r = h" by auto
    from insert_principal_Inr [OF enrolled(4)] have accounts: "au_principals accounts = au_principals (ed_accounts db) @ [?p]"
      and free: "Some machine \<notin> set (map pc_machine (au_principals (ed_accounts db)))"
      by (auto simp: no_clash_def agent_row_def)
    have one: "x = r" if "x \<in> set (ed_tokens db)" "et_hash x = et_hash r" for x
      using inv that r by (auto simp: enrollment_ok_def distinct_map dest: inj_onD)
    have hashes: "map et_hash (map ?g (ed_tokens db)) = map et_hash (ed_tokens db)"
      by simp
    have unused: "Some machine \<notin> et_machine ` set (ed_tokens db)"
    proof
      assume "Some machine \<in> et_machine ` set (ed_tokens db)"
      then obtain x where x: "x \<in> set (ed_tokens db)" "et_machine x = Some machine" by force
      then have "\<not> untouched_token x" by (auto simp: untouched_token_def completion_fields_def)
      with inv x have "principal_of_token db x" by (auto simp: enrollment_ok_def)
      with x free show False by (force simp: principal_of_token_def)
    qed
    have machines: "unique_set (map et_machine (map ?g (ed_tokens db)))"
      unfolding map_map comp_def
      by (rule unique_set_replace [OF _ _ unused]) (use inv in \<open>auto simp: enrollment_ok_def complete_token_def\<close>)
    have kept: "principal_of_token db' x" if "principal_of_token db x" for x
      using that accounts by (auto simp: principal_of_token_def enrolled(6))
    have "untouched_token y \<or> completed_token y \<and> principal_of_token db' y" if "y \<in> set (map ?g (ed_tokens db))" for y
    proof -
      from that obtain x where x: "x \<in> set (ed_tokens db)" "y = ?g x" by auto
      show ?thesis
      proof (cases "et_hash x = et_hash r")
        case True
        with one [OF x(1) True] x(2) have y: "y = ?f r" by simp
        moreover have "principal_of_token db' (?f r)"
          using accounts by (auto simp: principal_of_token_def enrolled(6) complete_token_def agent_row_def)
        ultimately show ?thesis using complete_token_completed by blast
      next
        case False
        with x inv kept show ?thesis by (auto simp: enrollment_ok_def)
      qed
    qed
    moreover have "unique_set (map pc_machine (au_principals accounts))"
      using inv accounts free by (simp add: enrollment_ok_def agent_row_def unique_set_snoc_Some)
    ultimately show ?thesis using inv hashes machines by (simp add: enrollment_ok_def enrolled(6) del: map_map)
  qed
  then show ?thesis by (simp add: Agent_Enrolled d)
qed

interpretation enm: invariant_machine "enrollment_step en" enrollment_ok for en
  by unfold_locales (rule enrollment_ok_step)

section \<open>Completed enrollments\<close>

lemma completed_step:
  assumes "lock_token h db = Some r" "completed_token r"
  shows "lock_token h (enrollment_step en db e) = Some r"
proof (cases e)
  case (Token_Created now raw tenant hours)
  have "find P (xs @ ys) = Some x" if "find P xs = Some x" for P :: "enrollment_token \<Rightarrow> bool" and xs ys x
    using that by (induction xs) (auto split: if_splits)
  with assms show ?thesis
    by (auto simp: Token_Created create_enrollment_token_def lock_token_def split: sum.split)
next
  case (Agent_Enrolled ca now pid raw csr machine seen)
  obtain res db' where d: "enroll_seeing en ca now pid raw csr machine seen db = (res, db')" by fastforce
  from d have "lock_token h db' = Some r"
  proof (cases rule: enroll_cases)
    case same
    with assms show ?thesis by simp
  next
    case (enrolled h' r' certificate accounts)
    have "h' \<noteq> h"
    proof
      assume "h' = h"
      with enrolled(2) assms(1) have "r' = r" by simp
      with enrolled(3) assms(2) show False by (simp add: untouched_token_def completed_token_def completion_fields_def)
    qed
    with lock_token_mem [OF enrolled(2)] have other: "et_hash r' \<noteq> h" by simp
    let ?g = "\<lambda>x. if et_hash x = et_hash r'
      then complete_token now pid (en_sha256 en csr) machine certificate (en_fingerprint en certificate) x else x"
    have "find (\<lambda>x. et_hash x = h) (map ?g xs) = find (\<lambda>x. et_hash x = h) xs" for xs
      using other by (induction xs) auto
    then show ?thesis using assms(1) by (simp add: lock_token_def enrolled(6))
  qed
  then show ?thesis by (simp add: Agent_Enrolled d)
qed

lemma completed_run:
  "lock_token h db = Some r \<Longrightarrow> completed_token r \<Longrightarrow> lock_token h (run (enrollment_step en) db es) = Some r"
  by (induction es arbitrary: db) (auto dest: completed_step)

lemma enroll_completed:
  assumes "lock_token h db = Some r" "completed_token r" "hash_token en raw = Inr h"
  shows "enroll_seeing en True now pid raw csr machine seen db =
     ((if et_csr r = Some (en_sha256 en csr) \<and> et_machine r = Some machine then Inr (the (et_certificate r)) else Inl EnrollmentRejected), db)"
proof -
  obtain c where "et_certificate r = Some c" using assms(2) by (auto simp: completed_token_def completion_fields_def)
  then show ?thesis
    using assms enrollment_state_completed [OF assms(2)]
    by (auto simp: enroll_seeing_def enroll_in_transaction_def replay_or_refuse_def)
qed

lemma enrolled_is_completed:
  assumes "enroll_seeing en ca now pid raw csr machine seen db = (Inr certificate, db')"
  shows "\<exists>h r. hash_token en raw = Inr h \<and> lock_token h db' = Some r \<and> completed_token r \<and>
    et_csr r = Some (en_sha256 en csr) \<and> et_machine r = Some machine \<and> et_certificate r = Some certificate"
  using assms
proof (cases rule: enroll_cases)
  case same
  have completed: "completed_token r" if "enrollment_state r t = ENROLLMENT_COMPLETED" for r t
    using that by (auto simp: enrollment_state_def completed_token_def completion_fields_def Let_def split: if_splits)
  from assms obtain h where h: "hash_token en raw = Inr h" by (auto simp: enroll_seeing_def split: sum.splits)
  let ?tx = "enroll_in_transaction en now pid csr h (en_sha256 en csr) machine seen db"
  have new: "\<And>r c. new_enrollment en now pid csr (en_sha256 en csr) machine seen r db = Inr (c, db) \<Longrightarrow> False"
    by (auto simp: new_enrollment_def dest!: insert_principal_Inr arg_cong [where f = "\<lambda>d. length (au_principals (ed_accounts d))"]
        split: if_splits sum.splits option.splits)
  consider (tx) "?tx = Inr (certificate, db)" | (replay) "replay_completed_enrollment now h (en_sha256 en csr) machine db = Inr certificate"
    using assms same h
    by (auto simp: enroll_seeing_def split: if_splits sum.splits prod.splits enrollment_error.splits)
  then obtain r where "lock_token h db = Some r" "enrollment_state r now = ENROLLMENT_COMPLETED"
    "replay_or_refuse r (en_sha256 en csr) machine = Inr certificate"
  proof cases
    case tx
    with new that show ?thesis
      by (auto simp: enroll_in_transaction_def bind_res_Inr_iff split: option.splits enrollment_phase.splits)
  next
    case replay
    with that show ?thesis
      by (auto simp: replay_completed_enrollment_def split: option.splits enrollment_phase.splits)
  qed
  with h same completed show ?thesis
    by (auto simp: replay_or_refuse_def split: if_splits option.splits)
next
  case (enrolled h r c accounts)
  let ?f = "complete_token now pid (en_sha256 en csr) machine certificate (en_fingerprint en certificate)"
  have c: "c = certificate" using enrolled(5) assms by simp
  have "find (\<lambda>x. et_hash x = h) (map (\<lambda>x. if et_hash x = et_hash r then ?f x else x) xs) = Some (?f r)"
    if "find (\<lambda>x. et_hash x = h) xs = Some r" for xs
    using that lock_token_mem [OF enrolled(2)] by (induction xs) (auto simp: complete_token_def split: if_splits)
  then have "lock_token h db' = Some (?f r)" using enrolled(2) unfolding lock_token_def enrolled(6) c by simp
  with enrolled(1) complete_token_completed show ?thesis
    by (intro exI [of _ h] exI [of _ "?f r"]) (simp add: complete_token_def [of now pid], simp add: complete_token_def)
qed

end
