(* ===== verification/Event_Bus.thy ===== *)
theory Event_Bus
  imports Py_Value
begin

text \<open>
  The event engine (\<open>engines/event/engine.py\<close>): subscriptions by topic, delivery by priority, and errors
  of subscribers that stay with them.  A handler is an effect on the bus and a world, so that it may
  subscribe, unsubscribe or publish in turn.
\<close>

section \<open>Subscriptions\<close>

datatype event_priority = CRITICAL_EVENT | HIGH_EVENT | NORMAL_EVENT | LOW_EVENT

fun priority_value :: "event_priority \<Rightarrow> nat" where
  "priority_value CRITICAL_EVENT = 0"
| "priority_value HIGH_EVENT = 10"
| "priority_value NORMAL_EVENT = 50"
| "priority_value LOW_EVENT = 100"

record bus_event =
  be_id :: string
  be_topic :: string
  be_payload :: "(string, pyval) dict"
  be_sender :: string
  be_priority :: event_priority
  be_timestamp :: int
  be_trace :: string
  be_headers :: "(string, string) dict"

record 'h event_subscription =
  su_id :: string
  su_topic :: string
  su_handler :: 'h
  su_priority :: event_priority
  su_name :: string

record 'h event_bus =
  eb_topics :: "(string, 'h event_subscription list) dict"
  eb_wildcard :: "'h event_subscription list"
  eb_published :: nat
  eb_failed :: nat

record delivery_result =
  dr_event :: string
  dr_topic :: string
  dr_notified :: nat
  dr_failed :: nat
  dr_errors :: "string list"

definition by_priority :: "'h event_subscription list \<Rightarrow> 'h event_subscription list" where
  "by_priority subs = sort_key (\<lambda>s. priority_value (su_priority s)) subs"

definition empty_bus :: "'h event_bus" where
  "empty_bus = \<lparr>eb_topics = [], eb_wildcard = [], eb_published = 0, eb_failed = 0\<rparr>"

definition subscribe ::
  "string \<Rightarrow> string \<Rightarrow> 'h \<Rightarrow> event_priority \<Rightarrow> string \<Rightarrow> 'h event_bus \<Rightarrow> string \<times> 'h event_bus" where
  "subscribe sub_id topic h priority name bus =
     (let s = \<lparr>su_id = sub_id, su_topic = topic, su_handler = h, su_priority = priority, su_name = name\<rparr>
      in (sub_id,
          if topic = ''*'' then bus\<lparr>eb_wildcard := by_priority (eb_wildcard bus @ [s])\<rparr>
          else bus\<lparr>eb_topics := dict_set topic (by_priority (dict_get_or [] (eb_topics bus) topic @ [s])) (eb_topics bus)\<rparr>))"

text \<open>The first subscription with the identifier is taken out of a list.\<close>

fun take_out :: "string \<Rightarrow> 'h event_subscription list \<Rightarrow> 'h event_subscription list option" where
  "take_out sub_id [] = None"
| "take_out sub_id (s # subs) =
     (if su_id s = sub_id then Some subs else map_option (Cons s) (take_out sub_id subs))"

fun unsubscribe_topics ::
  "string \<Rightarrow> (string, 'h event_subscription list) dict \<Rightarrow> (string, 'h event_subscription list) dict option" where
  "unsubscribe_topics sub_id [] = None"
| "unsubscribe_topics sub_id ((topic, subs) # rest) =
     (case take_out sub_id subs of
        Some subs' \<Rightarrow> Some ((topic, subs') # rest)
      | None \<Rightarrow> map_option (Cons (topic, subs)) (unsubscribe_topics sub_id rest))"

definition unsubscribe :: "string \<Rightarrow> 'h event_bus \<Rightarrow> bool \<times> 'h event_bus" where
  "unsubscribe sub_id bus =
     (case take_out sub_id (eb_wildcard bus) of
        Some subs \<Rightarrow> (True, bus\<lparr>eb_wildcard := subs\<rparr>)
      | None \<Rightarrow>
          (case unsubscribe_topics sub_id (eb_topics bus) of
             Some topics \<Rightarrow> (True, bus\<lparr>eb_topics := topics\<rparr>)
           | None \<Rightarrow> (False, bus)))"

definition stop_bus :: "'h event_bus \<Rightarrow> 'h event_bus" where
  "stop_bus bus = bus\<lparr>eb_topics := [], eb_wildcard := []\<rparr>"

section \<open>Delivery\<close>

type_synonym ('h, 'w) subscriber_call = "'h \<Rightarrow> bus_event \<Rightarrow> 'h event_bus \<times> 'w \<Rightarrow> (string + unit) \<times> 'h event_bus \<times> 'w"

definition targets_of :: "string \<Rightarrow> 'h event_bus \<Rightarrow> 'h event_subscription list" where
  "targets_of topic bus = by_priority (dict_get_or [] (eb_topics bus) topic @ eb_wildcard bus)"

definition error_text :: "bus_event \<Rightarrow> 'h event_subscription \<Rightarrow> string \<Rightarrow> string" where
  "error_text e s msg = ''Subscriber '' @ [CHR 0x27] @ su_name s @ [CHR 0x27] @ '' failed on event '' @ be_topic e @ '': '' @ msg"

definition deliver_one ::
  "('h, 'w) subscriber_call \<Rightarrow> bus_event \<Rightarrow> 'h event_subscription \<Rightarrow> delivery_result \<Rightarrow> 'h event_bus \<times> 'w \<Rightarrow>
   delivery_result \<times> 'h event_bus \<times> 'w" where
  "deliver_one call e s r st =
     (case call (su_handler s) e st of
        (Inr _, st') \<Rightarrow> (r\<lparr>dr_notified := dr_notified r + 1\<rparr>, st')
      | (Inl msg, (bus, w)) \<Rightarrow>
          (r\<lparr>dr_failed := dr_failed r + 1, dr_errors := dr_errors r @ [error_text e s msg]\<rparr>,
           bus\<lparr>eb_failed := eb_failed bus + 1\<rparr>, w))"

fun deliver_each ::
  "('h, 'w) subscriber_call \<Rightarrow> bus_event \<Rightarrow> 'h event_subscription list \<Rightarrow> delivery_result \<Rightarrow> 'h event_bus \<times> 'w \<Rightarrow>
   delivery_result \<times> 'h event_bus \<times> 'w" where
  "deliver_each call e [] r st = (r, st)"
| "deliver_each call e (s # subs) r st =
     (case deliver_one call e s r st of (r', st') \<Rightarrow> deliver_each call e subs r' st')"

definition deliver_event ::
  "('h, 'w) subscriber_call \<Rightarrow> bus_event \<Rightarrow> 'h event_bus \<times> 'w \<Rightarrow> delivery_result \<times> 'h event_bus \<times> 'w" where
  "deliver_event call e st =
     (case st of (bus, w) \<Rightarrow>
        deliver_each call e (targets_of (be_topic e) bus)
          \<lparr>dr_event = be_id e, dr_topic = be_topic e, dr_notified = 0, dr_failed = 0, dr_errors = []\<rparr>
          (bus\<lparr>eb_published := eb_published bus + 1\<rparr>, w))"

section \<open>Who is called\<close>

text \<open>The calls of a delivery, in order, with what each one answers.\<close>

fun calls_of ::
  "('h, 'w) subscriber_call \<Rightarrow> bus_event \<Rightarrow> 'h event_subscription list \<Rightarrow> 'h event_bus \<times> 'w \<Rightarrow>
   (string \<times> string option) list" where
  "calls_of call e [] st = []"
| "calls_of call e (s # subs) st =
     (su_id s, case fst (call (su_handler s) e st) of Inl msg \<Rightarrow> Some msg | Inr _ \<Rightarrow> None) #
     calls_of call e subs (snd (deliver_one call e s \<lparr>dr_event = [], dr_topic = [], dr_notified = 0, dr_failed = 0, dr_errors = []\<rparr> st))"

lemma deliver_one_state: "snd (deliver_one call e s r st) = snd (deliver_one call e s r' st)"
  by (simp add: deliver_one_def split: prod.split sum.split)

lemma deliver_each_result:
  "dr_notified (fst (deliver_each call e subs r st)) = dr_notified r + length (filter (\<lambda>c. snd c = None) (calls_of call e subs st)) \<and>
   dr_failed (fst (deliver_each call e subs r st)) = dr_failed r + length (filter (\<lambda>c. snd c \<noteq> None) (calls_of call e subs st)) \<and>
   length (dr_errors (fst (deliver_each call e subs r st))) =
     length (dr_errors r) + length (filter (\<lambda>c. snd c \<noteq> None) (calls_of call e subs st))"
proof (induction subs arbitrary: r st)
  case Nil
  then show ?case by simp
next
  case (Cons s subs)
  obtain x st1 where c: "call (su_handler s) e st = (x, st1)"
    by (cases "call (su_handler s) e st")
  obtain r' st' where one: "deliver_one call e s r st = (r', st')"
    by (cases "deliver_one call e s r st")
  have state: "snd (deliver_one call e s \<lparr>dr_event = [], dr_topic = [], dr_notified = 0, dr_failed = 0, dr_errors = []\<rparr> st) = st'"
    using deliver_one_state one by (metis snd_conv)
  from Cons.IH [of r' st'] c one state show ?case
    by (cases x) (auto simp: deliver_one_def split: prod.splits)
qed

lemma calls_of_ids: "map fst (calls_of call e subs st) = map su_id subs"
  by (induction subs arbitrary: st) auto

text \<open>Subscriptions in the order of delivery: by priority, and within one topic in the order of subscription.\<close>

lemma targets_sorted: "sorted (map (\<lambda>s. priority_value (su_priority s)) (targets_of topic bus))"
  by (simp add: targets_of_def by_priority_def)

lemma targets_set: "set (targets_of topic bus) = set (dict_get_or [] (eb_topics bus) topic) \<union> set (eb_wildcard bus)"
  by (simp add: targets_of_def by_priority_def)

lemma length_targets: "length (targets_of topic bus) = length (dict_get_or [] (eb_topics bus) topic) + length (eb_wildcard bus)"
  by (simp add: targets_of_def by_priority_def)

end
