(* ===== verification/Service_Properties.thy ===== *)
theory Service_Properties
  imports Kernel_Correct Secrets Enrollment_Correct Event_Bus "HOL-Library.Multiset"
begin

text \<open>
  What the services around the dispatcher promise: the kernel and its boot, the secret vault, the
  enrollment of agents and the event bus.
\<close>

section \<open>Boot\<close>

text \<open>
  C20. An order of all engines, each after the engines it depends on, is resolved exactly when
  every dependency is registered and none is circular; otherwise the resolution raises.
\<close>

theorem boot_order_exact:
  assumes "distinct (map fst engines)"
  shows "((\<exists>order. resolve_dependency_order engines = Inr order \<and> distinct order \<and> set order = fst ` set engines \<and>
       (\<forall>xs n ys. order = xs @ n # ys \<longrightarrow> set (deps_of engines n) \<subseteq> set xs)) \<longleftrightarrow>
     registered engines \<and> acyclic (depends engines)) \<and>
   ((\<exists>e. resolve_dependency_order engines = Inl e) \<longleftrightarrow> \<not> (registered engines \<and> acyclic (depends engines)))"
  using resolve_cases [of engines] assms by (auto simp: dict_ok_def engine_names_def follows_def)

definition demo_engines :: "(string \<times> string list) list" where
  "demo_engines = [(''workflow'', [''storage'', ''event'']), (''event'', []), (''storage'', [''event''])]"

lemma demo_order: "resolve_dependency_order demo_engines = Inr [''event'', ''storage'', ''workflow'']"
  by code_simp

theorem boot_order_exact_witness:
  "(\<exists>order. resolve_dependency_order demo_engines = Inr order) \<and> acyclic (depends demo_engines) \<and> registered demo_engines"
  using boot_order_exact [of demo_engines] demo_order by (simp add: demo_engines_def)

lemma circular_engines_refused:
  "resolve_dependency_order [(''a'', [''b'']), (''b'', [''a'']), (''c'', [])] = Inl (CyclicDependency [''a'', ''b''])"
  "resolve_dependency_order [(''a'', [''b''])] = Inl (UnregisteredDependency ''a'' ''b'')"
  by code_simp+






section \<open>Secrets\<close>

text \<open>
  C23. When the cipher opens what it sealed, a stored secret is read back as it was, no other
  handle or tenant reads anything else than before, the key of the table stays unique, and a
  deleted secret is not found.
\<close>

theorem secret_round_trip:
  assumes "vault_of v" "aead_sound (sv_crypto v)" "vault_rows_ok rows"
    and "put_secret v random now handle tenant plaintext (Some rows) = Inr (r, rows')"
  shows "get_secret v handle tenant (Some rows') = Inr plaintext \<and> vault_rows_ok rows' \<and>
     (t = tenant \<and> h = handle \<or> get_secret v h t (Some rows') = get_secret v h t (Some rows)) \<and>
     (\<exists>rows''. delete_secret handle tenant (Some rows') = Inr (True, rows'') \<and>
        get_secret v handle tenant (Some rows'') = Inl (SecretNotFoundError handle))"
proof -
  obtain payload where sealed: "encrypt_secret v random tenant handle plaintext = Inr payload"
    using assms(4) by (auto simp: put_secret_def bind_res_Inr_iff)
  note put = find_put [OF assms(3, 4) sealed]
  let ?rest = "filter (\<lambda>x. \<not> secret_at tenant handle x) rows'"
  have gone: "find_secret tenant handle ?rest = Inr None" by (simp add: find_secret_def)
  have found: "find_secret t h rows' = Inr (if (t, h) = (tenant, handle) then Some r else find (secret_at t h) rows)" for t h
    using find_secret_ok [of rows' t h] put by simp
  have "get_secret v handle tenant (Some rows') = Inr plaintext"
    using found decrypt_encrypt [OF assms(1, 2) sealed] put by (simp add: get_secret_def)
  moreover have "t = tenant \<and> h = handle \<or> get_secret v h t (Some rows') = get_secret v h t (Some rows)"
    using found [of t h] find_secret_ok [OF assms(3), of t h] by (auto simp: get_secret_def)
  moreover have "delete_secret handle tenant (Some rows') = Inr (True, ?rest)"
    using found by (simp add: delete_secret_def)
  moreover have "get_secret v handle tenant (Some ?rest) = Inl (SecretNotFoundError handle)"
    using gone by (simp add: get_secret_def)
  ultimately show ?thesis using put by blast
qed

definition demo_vault :: "(byte list \<Rightarrow> byte list \<Rightarrow> byte list option) \<Rightarrow> secret_vault" where
  "demo_vault open_with =
     \<lparr>sv_crypto = \<lparr>ae_encrypt = (\<lambda>_ m _ _. (replicate 12 0, m, replicate 16 0)),
                   ae_decrypt = (\<lambda>_ c _ _ aad. open_with c aad), ae_sha256 = (\<lambda>_. replicate 32 7)\<rparr>,
      sv_master_key = replicate 32 9, sv_key_id = replicate 16 7\<rparr>"

lemma demo_vault_ok: "vault_of (demo_vault open_with)" "aead_sound (sv_crypto (demo_vault (\<lambda>c _. Some c)))"
  by (simp_all add: demo_vault_def vault_of_def secret_vault_with_def MASTER_KEY_LENGTH_BYTES_def KEY_ID_LENGTH_BYTES_def
      aead_sound_def NONCE_LENGTH_BYTES_def TAG_LENGTH_BYTES_def)

definition demo_envelope :: "byte list" where
  "demo_envelope = [1, 1] @ replicate 16 7 @ replicate 12 0 @ replicate 16 0 @ [65]"

definition demo_secret :: secret_record where
  "demo_secret = \<lparr>se_tenant = ''acme'', se_handle = ''api'', se_payload = demo_envelope, se_algorithm = ''aes-256-gcm'',
     se_created = 5, se_updated = 5\<rparr>"

definition demo_aad :: "string \<Rightarrow> byte list" where
  "demo_aad tenant = the (encode_parts [] [tenant, ''api'']) @ [1, 1] @ replicate 16 7"

lemma demo_build_aad:
  "tenant \<in> {''acme'', ''rival''} \<Longrightarrow>
     build_aad tenant ''api'' ENVELOPE_VERSION ALGORITHM_ID_AES_256_GCM (sv_key_id (demo_vault f)) = Inr (demo_aad tenant)"
  by (auto simp: build_aad_def demo_aad_def demo_vault_def ENVELOPE_VERSION_def ALGORITHM_ID_AES_256_GCM_def utf8_def
      utf8_char_def Let_def)

lemma demo_text: "utf8 ''A'' = [65]" "utf8_decode [65] = Some ''A''"
proof -
  show "utf8 ''A'' = [65]" by (simp add: utf8_def utf8_char_def byte_def)
  then show "utf8_decode [65] = Some ''A''" using utf8_decode_utf8 [of "''A''"] by simp
qed

lemma demo_put:
  "put_secret (demo_vault f) 0 5 ''api'' ''acme'' ''A'' (Some []) = Inr (demo_secret, [demo_secret])"
  using demo_build_aad [of "''acme''" f]
  by (simp add: put_secret_def encrypt_secret_def find_secret_def Let_def demo_secret_def ALGORITHM_LABEL_def)
    (simp add: demo_vault_def demo_text pack_envelope_def ENVELOPE_VERSION_def ALGORITHM_ID_AES_256_GCM_def demo_envelope_def)

theorem secret_round_trip_witness:
  "get_secret (demo_vault (\<lambda>c _. Some c)) ''api'' ''acme'' (Some [demo_secret]) = Inr ''A'' \<and> vault_rows_ok [demo_secret]"
  using secret_round_trip [OF demo_vault_ok(1) demo_vault_ok(2) _ demo_put] by (simp add: vault_rows_ok_def)

text \<open>
  C24. When ciphertexts cannot be forged, whatever a read returns was sealed for just that
  tenant and handle, whatever the table holds: an envelope moved to another row does not open.
\<close>

theorem secrets_stay_bound:
  assumes "only_sealed v log" "get_secret v handle tenant table = Inr s"
  shows "(tenant, handle, s) \<in> set log"
  using assms decrypted_was_sealed [OF assms(1)]
  by (auto simp: get_secret_def bind_res_Inr_iff split: option.splits)

text \<open>A vault that opens the one envelope it has sealed.\<close>

definition demo_opens :: "byte list \<Rightarrow> byte list \<Rightarrow> byte list option" where
  "demo_opens c aad = (if c = [65] \<and> aad = demo_aad ''acme'' then Some c else None)"

lemma demo_only_sealed: "only_sealed (demo_vault demo_opens) [(''acme'', ''api'', ''A'')]"
  using demo_build_aad [of "''acme''" demo_opens] demo_text(1)
  by (auto simp: only_sealed_def) (auto simp: demo_vault_def demo_opens_def split: if_splits)

lemma demo_unpack:
  "unpack_envelope (demo_vault f) demo_envelope =
     Inr (ENVELOPE_VERSION, ALGORITHM_ID_AES_256_GCM, sv_key_id (demo_vault f), replicate 12 0, replicate 16 0, [65])"
  using unpack_pack [of "demo_vault f" "replicate 12 0" "replicate 16 0" "[65]"]
  by (simp add: pack_envelope_def demo_envelope_def demo_vault_def KEY_ID_LENGTH_BYTES_def NONCE_LENGTH_BYTES_def
      TAG_LENGTH_BYTES_def ENVELOPE_VERSION_def ALGORITHM_ID_AES_256_GCM_def)

lemma demo_decrypt:
  "tenant \<in> {''acme'', ''rival''} \<Longrightarrow>
     decrypt_secret (demo_vault f) tenant ''api'' demo_envelope =
       (case f [65] (demo_aad tenant) of
          None \<Rightarrow> Inl (SecretDecryptionError ''Secret decryption failed: ciphertext, tag, or associated metadata mismatch.'')
        | Some bs \<Rightarrow> (case utf8_decode bs of None \<Rightarrow> Inl SecretNotText | Some s \<Rightarrow> Inr s))"
  using demo_unpack [of f] demo_build_aad [of tenant f] by (simp add: decrypt_secret_def) (simp add: demo_vault_def)

lemma demo_get: "get_secret (demo_vault demo_opens) ''api'' ''acme'' (Some [demo_secret]) = Inr ''A''"
  using demo_decrypt [of "''acme''" demo_opens] demo_text(2)
  by (simp add: get_secret_def find_secret_def secret_at_def demo_secret_def demo_opens_def)

theorem secrets_stay_bound_witness:
  "(''acme'', ''api'', ''A'') \<in> set [(''acme'', ''api'', ''A'')] \<and>
   get_secret (demo_vault demo_opens) ''api'' ''acme'' (Some [demo_secret]) = Inr ''A''"
  using secrets_stay_bound [OF demo_only_sealed demo_get] demo_get by simp

text \<open>The envelope of one tenant, copied into the row of another one, does not open.\<close>

lemma moved_envelope_refused:
  "get_secret (demo_vault demo_opens) ''api'' ''rival'' (Some [demo_secret\<lparr>se_tenant := ''rival''\<rparr>]) =
     Inl (SecretDecryptionError ''Secret decryption failed: ciphertext, tag, or associated metadata mismatch.'')"
proof -
  have "demo_aad ''rival'' \<noteq> demo_aad ''acme''"
  proof
    assume "demo_aad ''rival'' = demo_aad ''acme''"
    with demo_build_aad [of "''rival''" demo_opens] build_aad_inject [OF demo_build_aad [of "''acme''" demo_opens], of "''rival''" "''api''"]
    have "''acme'' = ''rival''" by simp
    then show False by simp
  qed
  then show ?thesis using demo_decrypt [of "''rival''" demo_opens]
    by (simp add: get_secret_def find_secret_def secret_at_def demo_secret_def demo_opens_def)
qed

section \<open>Enrollment\<close>

text \<open>
  C21. Once an enrollment has returned a certificate, the same token, request and machine get
  that certificate again, at any time and after any token creations and enrollments, a different
  request or machine is rejected, and neither changes the database.
\<close>

theorem enrollment_replays:
  assumes "enroll_seeing en ca now pid raw csr machine seen db = (Inr certificate, db1)"
    and "db2 = run (enrollment_step en) db1 events"
  shows "enroll_seeing en True now' pid' raw csr' machine' seen' db2 =
     ((if en_sha256 en csr' = en_sha256 en csr \<and> machine' = machine then Inr certificate else Inl EnrollmentRejected), db2)"
proof -
  from enrolled_is_completed [OF assms(1)] obtain h r where r: "hash_token en raw = Inr h" "lock_token h db1 = Some r" "completed_token r"
    "et_csr r = Some (en_sha256 en csr)" "et_machine r = Some machine" "et_certificate r = Some certificate" by blast
  from enroll_completed [OF completed_run [OF r(2, 3)] r(3, 1)] r show ?thesis by (auto simp: assms(2))
qed

definition demo_ca :: enrollment_ops where
  "demo_ca = \<lparr>en_sha256 = (\<lambda>bs. replicate (length bs) CHR ''a''), en_sign = (\<lambda>csr _. Some csr), en_fingerprint = (\<lambda>_. ''f''),
     en_isoformat = (\<lambda>_. ''now'')\<rparr>"

definition demo_enrolled :: "enrollment_db" where
  "demo_enrolled = run (enrollment_step demo_ca) \<lparr>ed_tokens = [], ed_accounts = empty_auth_store\<rparr>
     [Token_Created 0 ''t'' ''acme'' 24, Agent_Enrolled True 5 ''p1'' ''t'' [1, 2] ''m1'' []]"

lemma demo_enrolls: "enroll_seeing demo_ca True 9 ''p2'' ''t'' [1, 2] ''m1'' [] demo_enrolled = (Inr [1, 2], demo_enrolled)"
  by code_simp

theorem enrollment_replays_witness:
  "enroll_seeing demo_ca True 999999 ''p3'' ''t'' [1, 2] ''m1'' [] demo_enrolled = (Inr [1, 2], demo_enrolled) \<and>
   fst (enroll_seeing demo_ca True 9 ''p3'' ''t'' [1] ''m1'' [] demo_enrolled) = Inl EnrollmentRejected"
  using enrollment_replays [OF demo_enrolls, of _ "[]"] by (simp add: demo_ca_def)

text \<open>
  C22. After any sequence of token creations and enrollments, also ones that checked the machine
  against older rows, a machine has at most one token and one principal, and a token is either
  untouched or completely filled, with its principal of type AGENT in its tenant and on its
  machine.
\<close>

theorem machine_enrolled_once:
  assumes "enrollment_ok db" "db' = run (enrollment_step en) db events"
  shows "unique_set (map et_machine (ed_tokens db')) \<and> unique_set (map pc_machine (au_principals (ed_accounts db'))) \<and>
     (\<forall>r \<in> set (ed_tokens db'). untouched_token r \<or> completed_token r \<and> principal_of_token db' r)"
  using enm.inv_run [OF assms(1), of en events] by (simp add: assms(2) enrollment_ok_def)

theorem machine_enrolled_once_witness:
  "unique_set (map et_machine (ed_tokens demo_enrolled)) \<and> map et_machine (ed_tokens demo_enrolled) = [Some ''m1'']"
proof -
  have "enrollment_ok \<lparr>ed_tokens = [], ed_accounts = empty_auth_store\<rparr>"
    by (simp add: enrollment_ok_def unique_set_def empty_auth_store_def)
  from machine_enrolled_once [OF this demo_enrolled_def] show ?thesis
    by (simp add: demo_enrolled_def) code_simp
qed

text \<open>
  A session is granted by the first row with the identifier, of any tenant and type, and kept by any:
  a human principal of that identifier elsewhere keeps an agent out, and an agent of that identifier
  elsewhere keeps the session of a disabled one.
\<close>

lemma agent_rows_of_other_tenants:
  assumes "agent = agent_row en now ''acme'' ''p1'' ''m1''"
    and "user_row = agent\<lparr>pc_tenant := ''other'', pc_type := principal_type_value PT_USER, pc_machine := None\<rparr>"
    and "twin = agent\<lparr>pc_tenant := ''other'', pc_machine := Some ''m2''\<rparr>"
  shows "authorize_agent ''p1'' (Some [user_row, agent]) = Inl AgentDenied"
    and "still_authorized [''p1''] (Some [agent\<lparr>pc_enabled := False\<rparr>, twin]) = Inr {''p1''}"
  by (simp_all add: assms agent_row_def authorize_agent_def still_authorized_def may_hold_session_def)

section \<open>Events\<close>

text \<open>
  C25. A published event is delivered once to every subscription of its topic and to every
  wildcard subscription, in the order of priority, also when subscribers raise or change the
  bus; the result counts the deliveries that succeeded and failed, with one message for each
  failure.
\<close>

theorem delivery_isolated:
  assumes "deliver_event call e (bus, w) = (r, st)"
    and "calls = calls_of call e (targets_of (be_topic e) bus) (bus\<lparr>eb_published := eb_published bus + 1\<rparr>, w)"
  shows "map fst calls = map su_id (targets_of (be_topic e) bus) \<and>
     sorted (map (\<lambda>s. priority_value (su_priority s)) (targets_of (be_topic e) bus)) \<and>
     mset (targets_of (be_topic e) bus) = mset (dict_get_or [] (eb_topics bus) (be_topic e)) + mset (eb_wildcard bus) \<and>
     dr_notified r = length (filter (\<lambda>c. snd c = None) calls) \<and> dr_failed r = length (filter (\<lambda>c. snd c \<noteq> None) calls) \<and>
     length (dr_errors r) = dr_failed r"
  using assms deliver_each_result [of call e "targets_of (be_topic e) bus"
      "\<lparr>dr_event = be_id e, dr_topic = be_topic e, dr_notified = 0, dr_failed = 0, dr_errors = []\<rparr>"
      "(bus\<lparr>eb_published := eb_published bus + 1\<rparr>, w)"]
  by (simp add: deliver_event_def calls_of_ids targets_sorted) (simp add: targets_of_def by_priority_def)

definition demo_bus :: "string event_bus" where
  "demo_bus = snd (subscribe ''s3'' ''*'' ''log'' HIGH_EVENT ''logger''
     (snd (subscribe ''s2'' ''order.paid'' ''crash'' CRITICAL_EVENT ''broken''
       (snd (subscribe ''s1'' ''order.paid'' ''mail'' NORMAL_EVENT ''mailer'' empty_bus)))))"

definition demo_event :: bus_event where
  "demo_event = \<lparr>be_id = ''e1'', be_topic = ''order.paid'', be_payload = [], be_sender = ''shop'', be_priority = NORMAL_EVENT,
     be_timestamp = 0, be_trace = [], be_headers = []\<rparr>"

definition demo_subscriber :: "(string, string list) subscriber_call" where
  "demo_subscriber h e st = (if h = ''crash'' then (Inl ''boom'', st) else (Inr (), fst st, snd st @ [h]))"

theorem delivery_isolated_witness:
  "dr_notified (fst (deliver_event demo_subscriber demo_event (demo_bus, []))) = 2 \<and>
   dr_failed (fst (deliver_event demo_subscriber demo_event (demo_bus, []))) = 1 \<and>
   snd (snd (deliver_event demo_subscriber demo_event (demo_bus, []))) = [''log'', ''mail'']"
proof -
  have calls: "calls_of demo_subscriber demo_event (targets_of (be_topic demo_event) demo_bus) (demo_bus\<lparr>eb_published := eb_published demo_bus + 1\<rparr>, []) =
      [(''s2'', Some ''boom''), (''s3'', None), (''s1'', None)]" by code_simp
  have world: "snd (snd (deliver_event demo_subscriber demo_event (demo_bus, []))) = [''log'', ''mail'']" by code_simp
  from delivery_isolated [of demo_subscriber demo_event demo_bus "[]" "fst (deliver_event demo_subscriber demo_event (demo_bus, []))"
      "snd (deliver_event demo_subscriber demo_event (demo_bus, []))", OF prod.collapse [symmetric] calls [symmetric]] world
  show ?thesis by (simp add: numeral_2_eq_2)
qed

end
