(* ===== verification/Spec2Isabelle.thy ===== *)
theory Spec2Isabelle
  imports Approval_Properties Definition_Properties Access_Properties Graph_Properties Execution_Properties Engine_Properties Schedule_Properties Kernel_Properties Auth_Properties Dispatch_Properties Service_Properties
begin

text \<open>
  KORTEX OS is a server that runs business workflows for several tenants: definitions are authored,
  versioned and published, instances of them execute step by step through a kernel that authorizes
  every capability call, humans approve at gates, and what happened is announced through an outbox.
  The development models the Python code under \<open>src/backend/src/kortex\<close> that decides these things.

  Theories and code (paths below \<open>engines/\<close> unless noted):
  \<^item> \<open>Prelude\<close>, \<open>Py_Value\<close>, \<open>Py_Text\<close>: raising computations as values of a sum type, dictionaries
    as insertion-ordered association lists, JSON-shaped Python values, text functions; the locales
    \<open>invariant_machine\<close> and \<open>monotone_machine\<close> for runs of operations.
  \<^item> \<open>Workflow_Models\<close>: \<open>workflow/models.py\<close>.  \<open>Workflow_State\<close>: \<open>workflow/state_machine.py\<close>.
  \<^item> \<open>Workflow_Graphs\<close>, \<open>Graph_Correct\<close>: \<open>workflow/graph_validation.py\<close> and its equivalence with
    the graph-theoretic notions, by an invariant of the explicit search stack.
  \<^item> \<open>Workflow_Mapping\<close>, \<open>Mapping_Correct\<close>: \<open>workflow/mapping.py\<close>, \<open>mapping_validation.py\<close>,
    \<open>expression.py\<close>.
  \<^item> \<open>Graph_Compat\<close>, \<open>Compat_Correct\<close>: \<open>workflow/graph_compat.py\<close> and its round trip.
  \<^item> \<open>Step_Evaluator\<close>: \<open>workflow/evaluator.py\<close>; the capability dispatcher is any function over an
    environment it may change.
  \<^item> \<open>Security_Models\<close>, \<open>Access_Control\<close>, \<open>Access_Correct\<close>: \<open>security/models.py\<close>, \<open>rbac.py\<close>,
    \<open>abac.py\<close>, \<open>authorization.py\<close> and \<open>storage/stores/cache_store.py\<close>; a cache is a locale
    (\<open>timed_cache\<close>) interpreted on the memory cache.
  \<^item> \<open>Outbox\<close>: \<open>core/outbox.py\<close> and the sanitizer of \<open>core/idempotency.py\<close>.
  \<^item> \<open>Approval_Store\<close>, \<open>Approval_Managers\<close>: the approval part of \<open>workflow/persistence.py\<close> and
    \<open>workflow/approval.py\<close>.  \<open>Approval_Correct\<close> is the step relation of concurrent callers with the
    invariant of reachable states, \<open>Approval_Contract\<close> the manager's contract as a locale
    (\<open>ticket_machine\<close>) with both managers as instances, \<open>Approval_Rights\<close> who may decide.
  \<^item> \<open>Definition_Store\<close>, \<open>Definition_Lifecycle\<close>, \<open>Lifecycle_Correct\<close>: the definition part of
    \<open>workflow/persistence.py\<close> and \<open>workflow/lifecycle.py\<close>, with the order in which rows may move.
  \<^item> \<open>Instance_Store\<close>, \<open>Instance_Correct\<close>: the instance and step-run part of
    \<open>workflow/persistence.py\<close>: rows guarded by an optimistic version, and what that guarantees of
    any sequence of writers.
  \<^item> \<open>Effects\<close>: handlers that may raise and keep what they changed, and what their compositions preserve.
  \<^item> \<open>Engine_State\<close>, \<open>Workflow_Engine\<close>, \<open>Engine_Handlers\<close>: \<open>workflow/engine.py\<close>.  Instances are
    objects on a heap that the cache and the running tasks share; a handler is an effect that may
    raise and keeps what it changed before.  Handlers run between two iterations of the step loops,
    never within one.  \<open>Engine_Correct\<close> shows what every effect preserves, through the locale
    \<open>effect_order\<close>; \<open>Engine_Runs\<close> any interleaving of handlers, iterations and other writers, and the
    outcome of an undisturbed run.
  \<^item> \<open>Calendar\<close>, \<open>Cron\<close>, \<open>Cron_Correct\<close>: \<open>workflow/cron.py\<close>: the parser, the search that skips
    months, days and hours, and its agreement with trying every minute.  A time zone is a pair of
    functions; instants are whole seconds.
  \<^item> \<open>Schedule_Store\<close>, \<open>Scheduler\<close>, \<open>Schedule_Handlers\<close>: the schedule rows and their claims
    (\<open>workflow/persistence.py\<close>), \<open>workflow/scheduler.py\<close> over an abstract engine, and the
    capabilities of \<open>workflow/engine.py\<close> with the modelled engine in its place.
  \<^item> \<open>Schedule_Runs\<close>, \<open>Scheduler_Correct\<close>: concurrent workers as a step relation on the store's
    transactions, its invariant, and the operations as paths of it.
  \<^item> \<open>Idempotency\<close>, \<open>Idempotency_Correct\<close>: the store of \<open>core/idempotency.py\<close> and the step relation of
    concurrent requests on it, with its invariant.
  \<^item> \<open>Bytes\<close>: UTF-8, hexadecimal, Base64 and length-prefixed encodings with their inverses.
  \<^item> \<open>Auth_Store\<close>, \<open>Authentication\<close>, \<open>Auth_Accounts\<close>: the tables of \<open>security/models.py\<close> with their unique
    keys, and the operations of \<open>security/auth.py\<close>.  \<open>Token_Correct\<close> shows what an accepted token
    proves, \<open>Auth_Correct\<close> what any interleaving of the operations keeps.
  \<^item> \<open>Registry\<close>, \<open>Registry_Correct\<close>: \<open>registry/engine.py\<close>: resources, capabilities and their owners,
    and what every sequence of registrations keeps.
  \<^item> \<open>Audit_Trail\<close>, \<open>Dispatch\<close>, \<open>Projection\<close>: \<open>security/audit.py\<close>, \<open>core/dispatch.py\<close> and
    \<open>core/projection.py\<close>.  A dispatch goes through the token verification, the authorization, the
    idempotency store and the registry modelled elsewhere; a handler is an effect on the whole state of
    the kernel.  \<open>Dispatch_Correct\<close> shows when a dispatch reaches a handler, with which identity, what
    it leaves in the audit log, and that it follows the step relation of \<open>Idempotency_Correct\<close>.
  \<^item> \<open>Boot\<close>, \<open>Boot_Correct\<close>: \<open>boot/engine.py\<close> with \<open>core/base_engine.py\<close>: the order of dependencies,
    boot, shutdown and health; the order is right and exists exactly for acyclic dependencies.
  \<^item> \<open>Kernel_Lifecycle\<close>, \<open>Kernel_Correct\<close>: \<open>core/kernel.py\<close> and \<open>core/container.py\<close>, and the invariant of
    the calls that any sequence of kernel operations makes to the engines.
  \<^item> \<open>Secrets\<close>: \<open>security/secrets.py\<close>.  \<open>Enrollment\<close>, \<open>Enrollment_Correct\<close>: \<open>security/agent_enrollment.py\<close>
    and \<open>agent_session.py\<close>, with the invariant of any sequence of enrollments.
  \<^item> \<open>Event_Bus\<close>: \<open>event/engine.py\<close>; handlers may change the bus while it delivers.
  \<^item> \<open>Demo_Data\<close> and the theories named \<open>..._Properties\<close>, with the ones below: the properties and the
    concrete inputs at which they are evaluated.

  State and operations: a table is a list of rows in insertion order with its unique keys checked on
  insertion, a transaction one function on the database; where the code reads and writes in
  separate statements that another caller can interleave with, the two halves are definitions of
  their own.  Clocks, fresh identifiers, Pydantic parsing, the signature verifier, the message broker,
  double arithmetic and the handlers of capabilities are arguments.  Every raise is a value of an error type.
  Log lines are left out.

  Bounds: recursive definitions carry a termination proof over the code's own loop variables; the
  retry loop counts down what is left of its attempts.  Only the step loop of the engine has fuel, the
  number of steps behind the current position plus one, which is proved to be enough.

  Not modelled: of the workflow engine the wiring at start, the external-operation
  capabilities, and interleavings inside one iteration of a step loop; the AI, document, browser and
  desktop engines (network, user interface, third-party libraries), and the other engines the
  manifest lists with their reasons.
\<close>



theorem dispatch_exact:
  assumes "distinct (map ob_id rows)"
  shows "dispatch_pending publish now limit rows env =
     (let batch = get_pending_events None limit rows; result = publish_all publish batch env
      in (length (filter id (fst result)),
          map (settle_row now (batch_outcome publish batch env)) rows, snd result))"
  using assms by (rule dispatch_pending_eq)

definition demo_queue :: "outbox_row list" where
  "demo_queue = map (\<lambda>(i, t). \<lparr>ob_id = i, ob_tenant_id = ''acme'', ob_topic = ''invoice.paid'', ob_payload = [],
     ob_status = OB_PENDING, ob_retry_count = 0, ob_next_retry_at = None, ob_created_at = t, ob_updated_at = t\<rparr>)
     [(''e1'', 3), (''e2'', 1), (''e3'', 2)]"

text \<open>A broker that refuses its second event.\<close>

definition demo_broker :: "nat publisher" where
  "demo_broker topic payload n = (n \<noteq> 1, n + 1)"

theorem dispatch_exact_witness:
  "map (\<lambda>r. (ob_id r, ob_status r, ob_retry_count r)) (fst (snd (dispatch_pending (Some demo_broker) 9 2 demo_queue 0))) =
     [(''e1'', OB_PENDING, 0), (''e2'', OB_SENT, 0), (''e3'', OB_PENDING, 1)]"
proof -
  have "distinct (map ob_id demo_queue)" by code_simp
  moreover have "map (\<lambda>r. (ob_id r, ob_status r, ob_retry_count r)) (map (settle_row 9 (batch_outcome (Some demo_broker)
      (get_pending_events None 2 demo_queue) 0)) demo_queue) =
     [(''e1'', OB_PENDING, 0), (''e2'', OB_SENT, 0), (''e3'', OB_PENDING, 1)]" by code_simp
  ultimately show ?thesis by (simp add: dispatch_exact Let_def del: map_map)
qed


theorem outbox_drains:
  assumes "distinct (map ob_id rows)"
    and "case publish of None \<Rightarrow> True | Some p \<Rightarrow> \<forall>topic payload env. fst (p topic payload env)"
  shows "length (pending (fst (snd (dispatch_pending publish now limit rows env)))) = length (pending rows) - limit"
  using assms by (rule dispatch_drains)

theorem outbox_drains_witness:
  "length (pending (fst (snd (dispatch_pending (Some (\<lambda>topic payload n. (True, n + 1 :: nat))) 9 2 demo_queue 0)))) = 1"
proof -
  have "distinct (map ob_id demo_queue)" "length (pending demo_queue) = 3" by code_simp+
  then show ?thesis using outbox_drains [of demo_queue "Some (\<lambda>topic payload n. (True, n + 1 :: nat))" 9 2 0] by simp
qed

section \<open>Divergences\<close>

text \<open>
  Closed computations that show where the code departs from what its documentation says; the
  manifest's findings name them.
\<close>

definition deep_reference :: workflow_reference where
  "deep_reference = \<lparr>ref_source_node_id = ''a'', ref_source_port = Some ''out'', ref_path = replicate 32 (Key ''k'')\<rparr>"

definition ported_graph :: "step_metadata workflow_graph" where
  "ported_graph = (demo_graph [(''a'', ''b''), (''b'', ''c'')])
     \<lparr>nodes := map (\<lambda>n. n\<lparr>output_ports := [''out'']\<rparr>) (map demo_node [''a'', ''b'', ''c''])\<rparr>"

theorem validated_reference_too_deep:
  "validate_reference ported_graph ''b'' deep_reference = Inr () \<and>
   resolve_reference deep_reference [(''a'', PDict [])] = Inl (PathTooDeep 33)"
  by code_simp

theorem edge_identifiers_collide:
  "bind_res (steps_to_graph (map plain_task [''x'', ''y_z'', ''x_y'', ''z''])) graph_to_steps =
     Inl (GraphViolation (DuplicateEdgeId ''edge_x_y_z''))"
  by code_simp

definition mapping_parameter :: workflow_step where
  "mapping_parameter = (plain_task ''s'')\<lparr>ws_parameters := [(''mapping'', PDict [(''zone'', PStr ''north'')])]\<rparr>"

theorem mapping_parameter_lost:
  "map_option (map ws_parameters) (case bind_res (steps_to_graph [mapping_parameter]) graph_to_steps of
      Inl _ \<Rightarrow> None | Inr steps \<Rightarrow> Some steps) = Some [[]]"
  by code_simp

theorem memory_ticket_tenant:
  "ar_tenant_id (fst (memory_create_request now new_id inst step role who corr fp tenant m)) = ''default''"
  by (simp add: memory_create_request_def Let_def)

definition foreign_decision :: approval_decision where
  "foreign_decision = demo_decision\<lparr>ad_tenant_id := ''default''\<rparr>"

theorem decision_filed_elsewhere:
  "(case atomic_submit_decision 5 ''e2'' True foreign_decision ''acme'' demo_opened of
      Inl _ \<Rightarrow> False
    | Inr (_, db) \<Rightarrow> get_decision db ''r1'' (Some ''acme'') = None \<and> get_decision db ''r1'' (Some ''default'') \<noteq> None)"
  by code_simp

definition poison_update :: update_request where
  "poison_update = \<lparr>ur_name = None, ur_description = None, ur_trigger = None, ur_priority = None,
     ur_timeout_seconds = Some 0, ur_steps = None, ur_graph = None\<rparr>"

definition poisoned :: "(definition_error + definition_version) \<times> lifecycle_state" where
  "poisoned = lifecycle_update demo_deps 2 ''v1'' ''d1'' 1 poison_update None None (Some ''acme'') demo_draft"


theorem update_poisons_draft:
  "fst poisoned = Inl (RowInvalid ''v0'') \<and>
   get_control_row ''d1'' ''acme'' (ls_db (snd poisoned)) = Inl (RowInvalid ''v0'')"
  by code_simp


theorem archive_then_publish:
  "(case publish_read ''d1'' ''acme'' 1 (ls_db demo_draft) of
      Inl _ \<Rightarrow> False
    | Inr draft \<Rightarrow>
        (case archive_control_row 2 ''d1'' ''acme'' 1 (ls_db demo_draft) of
           (Inr _, db) \<Rightarrow> (case publish_write 3 ''v9'' ''d1'' ''acme'' 1 ''1.0.0'' draft db of
                           (Inr v, db') \<Rightarrow> dv_status v = DS_PUBLISHED \<and>
                              map dv_status (d_versions db') = [DS_ARCHIVED, DS_PUBLISHED]
                         | _ \<Rightarrow> False)
         | _ \<Rightarrow> False))"
  by code_simp

definition bad_mapping_graph :: "step_metadata workflow_graph" where
  "bad_mapping_graph = \<lparr>schema_version = ''1'', entry_node_id = ''a'',
     nodes = [(demo_node ''a'')\<lparr>gn_config := [(''mapping'', PStr ''oops'')]\<rparr>], edges = [], wg_metadata = []\<rparr>"

theorem derivation_blocks:
  "derive_steps_from_graph bad_mapping_graph [] = Inl (CompatFailure (StepValidation ''a''))"
  by code_simp

theorem failing_batch_blocks_outbox:
  "(let row = (\<lambda>i t. \<lparr>ob_id = i, ob_tenant_id = ''acme'', ob_topic = i, ob_payload = [], ob_status = OB_PENDING,
                      ob_retry_count = 0, ob_next_retry_at = None, ob_created_at = t, ob_updated_at = t\<rparr>);
        broker = (\<lambda>topic _ n. (topic \<noteq> ''bad'', n + 1 :: nat));
        once = (\<lambda>rows. fst (snd (dispatch_pending (Some broker) 9 1 rows 0)))
    in map ob_status ((once ^^ 5) [row ''bad'' 1, row ''good'' 2]) = [OB_PENDING, OB_PENDING])"
  by code_simp

theorem short_version_regresses: "next_version_from [''2.0''] = ''0.0.1''"
  by code_simp

end
